(* ===== verification/PathPatterns.thy ===== *)
theory PathPatterns
  imports Prelude "HOL-Library.Multiset"
begin

text \<open>
  Repository path patterns (\<open>structural/path_patterns.py\<close>): parsing a pattern into segment
  tokens and matching by advancing a set of active states. The reference semantics is the
  backtracking reading of a glob (\<open>glob\<close>); the locale \<open>state_set_matcher\<close> proves once that
  any such state traversal decides it, and is interpreted for the token loop of one segment
  and for the segment loop of a whole path.
\<close>

subsection \<open>Tokens and segments\<close>

record character_class =
  cc_negated :: bool
  cc_literals :: "nat set"
  cc_ranges :: "(nat \<times> nat) list"

datatype token = LITERAL nat | SINGLE | STAR | CLASS character_class

record segment =
  seg_globstar :: bool
  seg_tokens :: "token list"

record repository_pattern =
  pat_anchored :: bool
  pat_segments :: "segment list"

definition class_matches :: "character_class \<Rightarrow> nat \<Rightarrow> bool" where
  "class_matches cc c \<longleftrightarrow>
     (c \<in> cc_literals cc \<or> (\<exists>(low, high) \<in> set (cc_ranges cc). low \<le> c \<and> c \<le> high)) \<noteq> cc_negated cc"

fun token_matches :: "token \<Rightarrow> nat \<Rightarrow> bool" where
  "token_matches (LITERAL l) c \<longleftrightarrow> c = l"
| "token_matches SINGLE c \<longleftrightarrow> True"
| "token_matches (CLASS cc) c \<longleftrightarrow> class_matches cc c"
| "token_matches STAR c \<longleftrightarrow> True"

fun is_star :: "token \<Rightarrow> bool" where
  "is_star STAR \<longleftrightarrow> True"
| "is_star _ \<longleftrightarrow> False"

subsection \<open>Parsing\<close>

text \<open>
  The loop of \<open>_parse_character_class\<close>; the position \<open>index\<close> in the pattern is the suffix that
  starts there. \<open>None\<close> is the bracket that never closes; otherwise the class and the suffix
  after its bracket.
\<close>

fun class_scan ::
  "bool \<Rightarrow> bool \<Rightarrow> nat set \<Rightarrow> (nat \<times> nat) list \<Rightarrow> ustr \<Rightarrow> (token \<times> ustr) option" where
  "class_scan neg first lits rngs [] = None"
| "class_scan neg first lits rngs (c # cs) =
     (if c = 93 \<and> \<not> first
      then Some (CLASS \<lparr>cc_negated = neg, cc_literals = lits, cc_ranges = rngs\<rparr>, cs)
      else (case cs of
              d # h # rest \<Rightarrow>
                if d = 45 \<and> h \<noteq> 93
                then class_scan neg False lits (rngs @ [(c, h)]) rest
                else class_scan neg False (insert c lits) rngs cs
            | _ \<Rightarrow> class_scan neg False (insert c lits) rngs cs))"

definition parse_character_class :: "ustr \<Rightarrow> (token \<times> ustr) option" where
  "parse_character_class body =
     (case body of
        c # rest \<Rightarrow>
          if c \<in> {33, 94} then class_scan True True {} [] rest
          else class_scan False True {} [] body
      | [] \<Rightarrow> class_scan False True {} [] [])"

lemma class_scan_shorter:
  "class_scan neg first lits rngs s = Some (t, rest) \<Longrightarrow> length rest < length s"
proof (induction neg first lits rngs s rule: class_scan.induct)
  case (2 neg first lits rngs c cs)
  have "length rest < length cs \<Longrightarrow> length rest < length (c # cs)" by simp
  with 2 show ?case
    by (cases cs; cases "tl cs") (auto split: if_split_asm)
qed simp

declare class_scan.simps [simp del]

lemma parse_character_class_shorter:
  "parse_character_class s = Some (t, rest) \<Longrightarrow> length rest < length s"
  by (cases s) (auto simp: parse_character_class_def less_Suc_eq split: if_split_asm
      dest: class_scan_shorter)

text \<open>The loop of \<open>_parse_segment_tokens\<close> with the tokens collected so far.\<close>

function tokens_from :: "token list \<Rightarrow> ustr \<Rightarrow> token list" where
  "tokens_from toks [] = toks"
| "tokens_from toks (c # cs) =
     (if c = 92 \<and> cs \<noteq> [] then tokens_from (toks @ [LITERAL (hd cs)]) (tl cs)
      else if c = 42
      then tokens_from (if toks = [] \<or> \<not> is_star (last toks) then toks @ [STAR] else toks) cs
      else if c = 63 then tokens_from (toks @ [SINGLE]) cs
      else (case (if c = 91 then parse_character_class cs else None) of
              Some (t, rest) \<Rightarrow> tokens_from (toks @ [t]) rest
            | None \<Rightarrow> tokens_from (toks @ [LITERAL c]) cs))"
  by pat_completeness auto
termination
  by (relation "measure (\<lambda>(toks, s). length s)")
    (auto dest: parse_character_class_shorter split: if_splits)

definition parse_segment_tokens :: "ustr \<Rightarrow> token list" where
  "parse_segment_tokens s = tokens_from [] s"

definition path_segments :: "ustr \<Rightarrow> ustr list" where
  "path_segments path = filter (\<lambda>s. s \<noteq> []) (split_on 47 path)"

definition parse_segment :: "ustr \<Rightarrow> segment" where
  "parse_segment s =
     (if s = u ''**'' then \<lparr>seg_globstar = True, seg_tokens = []\<rparr>
      else \<lparr>seg_globstar = False, seg_tokens = parse_segment_tokens s\<rparr>)"

definition parse_pattern :: "ustr \<Rightarrow> repository_pattern" where
  "parse_pattern pattern =
     (let stripped = strip pattern;
          normalized = (if endswith stripped (u ''/'') then stripped @ u ''**'' else stripped);
          body = lstrip_char 47 (removeprefix normalized (u ''./''))
      in \<lparr>pat_anchored = startswith normalized (u ''/'') \<or> 47 \<in> set body,
          pat_segments = map parse_segment (path_segments body)\<rparr>)"

subsection \<open>State sets\<close>

text \<open>
  The worklist of \<open>_token_closure\<close> and \<open>_segment_closure\<close>: \<open>skips ! s\<close> tells whether state \<open>s\<close>
  may be left without consuming input. The list is the stack \<open>pending\<close>, its head the end that
  \<open>pop\<close> takes.
\<close>

function closure_loop :: "bool list \<Rightarrow> nat set \<Rightarrow> nat list \<Rightarrow> nat set" where
  "closure_loop skips reached [] = reached"
| "closure_loop skips reached (s # pending) =
     (if s < length skips \<and> skips ! s \<and> Suc s \<notin> reached
      then closure_loop skips (insert (Suc s) reached) (Suc s # pending)
      else closure_loop skips reached pending)"
  by pat_completeness auto
termination
proof (relation "measures [\<lambda>(sk, r, p). card ({..length sk} - r), \<lambda>(sk, r, p). length p]")
  fix skips reached s and pending :: "nat list"
  assume "s < length skips \<and> skips ! s \<and> Suc s \<notin> reached"
  then have "Suc s \<in> {..length skips} - reached" by simp
  then have "{..length skips} - insert (Suc s) reached \<subset> {..length skips} - reached" by blast
  then have "card ({..length skips} - insert (Suc s) reached) < card ({..length skips} - reached)"
    by (rule psubset_card_mono [rotated]) simp
  then show "((skips, insert (Suc s) reached, Suc s # pending), skips, reached, s # pending)
    \<in> measures [\<lambda>(sk, r, p). card ({..length sk} - r), \<lambda>(sk, r, p). length p]" by simp
qed auto

definition token_closure :: "token list \<Rightarrow> nat set \<Rightarrow> nat set" where
  "token_closure ts states = closure_loop (map is_star ts) states (sorted_list_of_set states)"

definition segment_closure :: "segment list \<Rightarrow> nat set \<Rightarrow> nat set" where
  "segment_closure segs states = closure_loop (map seg_globstar segs) states (sorted_list_of_set states)"

text \<open>One character of \<open>_match_segment\<close>, then its loop with the early exit.\<close>

definition token_advance :: "token list \<Rightarrow> nat \<Rightarrow> nat set \<Rightarrow> nat set" where
  "token_advance ts c states =
     (\<lambda>s. if is_star (ts ! s) then s else Suc s) `
       {s \<in> states. s < length ts \<and> token_matches (ts ! s) c}"

fun token_run :: "token list \<Rightarrow> nat set \<Rightarrow> ustr \<Rightarrow> bool" where
  "token_run ts states [] \<longleftrightarrow> length ts \<in> states"
| "token_run ts states (c # cs) \<longleftrightarrow>
     (let advanced = token_advance ts c states
      in if advanced = {} then False else token_run ts (token_closure ts advanced) cs)"

definition match_segment :: "token list \<Rightarrow> ustr \<Rightarrow> bool" where
  "match_segment ts text = token_run ts (token_closure ts {0}) text"

definition segment_advance :: "segment list \<Rightarrow> ustr \<Rightarrow> nat set \<Rightarrow> nat set" where
  "segment_advance segs text states =
     (\<lambda>s. if seg_globstar (segs ! s) then s else Suc s) `
       {s \<in> states. s < length segs \<and>
          (seg_globstar (segs ! s) \<or> match_segment (seg_tokens (segs ! s)) text)}"

fun segment_run :: "segment list \<Rightarrow> nat set \<Rightarrow> ustr list \<Rightarrow> bool" where
  "segment_run segs states [] \<longleftrightarrow> length segs \<in> states"
| "segment_run segs states (t # ts) \<longleftrightarrow>
     (let advanced = segment_advance segs t states
      in if advanced = {} then False else segment_run segs (segment_closure segs advanced) ts)"

definition pattern_matches :: "repository_pattern \<Rightarrow> ustr \<Rightarrow> bool" where
  "pattern_matches pat path =
     (let segs = pat_segments pat; candidate = path_segments (removeprefix path (u ''./'')) in
      if segs = [] then False
      else if candidate = [] then False
      else if \<not> pat_anchored pat then match_segment (seg_tokens (last segs)) (last candidate)
      else segment_run segs (segment_closure segs {0}) candidate)"

definition contains_wildcard :: "ustr \<Rightarrow> bool" where
  "contains_wildcard pattern \<longleftrightarrow> (\<exists>c \<in> {42, 63, 91}. c \<in> set pattern)"

text \<open>\<open>candidates\<close> is a Python collection, given by its iteration order.\<close>

definition resolve_paths :: "ustr \<Rightarrow> ustr list \<Rightarrow> ustr list" where
  "resolve_paths pattern candidates =
     (if pattern \<in> set candidates then [pattern]
      else if \<not> contains_wildcard pattern then []
      else let compiled = parse_pattern pattern
           in sort (filter (pattern_matches compiled) candidates))"


subsection \<open>The closure loop computes the least closed set\<close>

definition skip_closed :: "bool list \<Rightarrow> nat set \<Rightarrow> bool" where
  "skip_closed skips S \<longleftrightarrow> (\<forall>s \<in> S. s < length skips \<longrightarrow> skips ! s \<longrightarrow> Suc s \<in> S)"

lemma closure_loop_superset: "reached \<subseteq> closure_loop skips reached pending"
  by (induction skips reached pending rule: closure_loop.induct) auto

lemma closure_loop_least:
  assumes "reached \<subseteq> C" and "set pending \<subseteq> C" and "skip_closed sk C"
  shows "closure_loop sk reached pending \<subseteq> C"
  using assms
proof (induction sk reached pending rule: closure_loop.induct)
  case (2 skips reached s pending)
  show ?case
  proof (cases "s < length skips \<and> skips ! s \<and> Suc s \<notin> reached")
    case True
    with 2(4,5) have "Suc s \<in> C" by (simp add: skip_closed_def)
    with 2(1) [OF True] 2(3,4,5) have "closure_loop skips (insert (Suc s) reached) (Suc s # pending) \<subseteq> C"
      by simp
    then show ?thesis unfolding closure_loop.simps(2) [of skips reached s pending] if_P [OF True] .
  next
    case False
    from 2(2) [OF False] 2(3,4,5) have "closure_loop skips reached pending \<subseteq> C" by simp
    then show ?thesis unfolding closure_loop.simps(2) [of skips reached s pending] if_not_P [OF False] .
  qed
qed simp

lemma closure_loop_closed:
  assumes "\<forall>s \<in> reached. s < length skips \<and> skips ! s \<longrightarrow> s \<in> set pending \<or> Suc s \<in> reached"
  shows "skip_closed skips (closure_loop skips reached pending)"
  using assms
proof (induction skips reached pending rule: closure_loop.induct)
  case (1 skips reached)
  have step: "Suc s \<in> reached" if "s \<in> reached" "s < length skips" "skips ! s" for s
    using bspec [OF 1 that(1)] that(2,3) by simp
  show ?case unfolding skip_closed_def closure_loop.simps(1) by (intro ballI impI step)
next
  case (2 skips reached s pending)
  note prem = 2(3) [unfolded list.set]
  show ?case
  proof (cases "s < length skips \<and> skips ! s \<and> Suc s \<notin> reached")
    case True
    have "\<forall>r \<in> insert (Suc s) reached. r < length skips \<and> skips ! r \<longrightarrow>
        r \<in> set (Suc s # pending) \<or> Suc r \<in> insert (Suc s) reached"
      unfolding list.set using prem by blast
    from 2(1) [OF True this] show ?thesis unfolding closure_loop.simps(2) [of skips reached s pending] if_P [OF True] .
  next
    case False
    have "\<forall>r \<in> reached. r < length skips \<and> skips ! r \<longrightarrow> r \<in> set pending \<or> Suc r \<in> reached"
      using prem False by blast
    from 2(2) [OF False this] show ?thesis unfolding closure_loop.simps(2) [of skips reached s pending] if_not_P [OF False] .
  qed
qed

subsection \<open>State traversal against backtracking\<close>

text \<open>
  The reference semantics: a starred item is skipped or absorbs one more input element; every
  other item consumes exactly one element it accepts.
\<close>

fun glob :: "('i \<Rightarrow> bool) \<Rightarrow> ('i \<Rightarrow> 'x \<Rightarrow> bool) \<Rightarrow> 'i list \<Rightarrow> 'x list \<Rightarrow> bool" where
  "glob star accepts [] xs \<longleftrightarrow> xs = []"
| "glob star accepts (p # ps) [] \<longleftrightarrow> star p \<and> glob star accepts ps []"
| "glob star accepts (p # ps) (x # xs) \<longleftrightarrow>
     (if star p then glob star accepts ps (x # xs) \<or> glob star accepts (p # ps) xs
      else accepts p x \<and> glob star accepts ps xs)"

locale state_set_matcher =
  fixes star :: "'i \<Rightarrow> bool"
    and accepts :: "'i \<Rightarrow> 'x \<Rightarrow> bool"
    and closure :: "'i list \<Rightarrow> nat set \<Rightarrow> nat set"
    and advance :: "'i list \<Rightarrow> 'x \<Rightarrow> nat set \<Rightarrow> nat set"
    and run :: "'i list \<Rightarrow> nat set \<Rightarrow> 'x list \<Rightarrow> bool"
  assumes closure_superset: "finite S \<Longrightarrow> S \<subseteq> closure ps S"
    and closure_closed: "finite S \<Longrightarrow> skip_closed (map star ps) (closure ps S)"
    and closure_least: "finite S \<Longrightarrow> S \<subseteq> C \<Longrightarrow> skip_closed (map star ps) C \<Longrightarrow> closure ps S \<subseteq> C"
    and advance_iff: "t \<in> advance ps x S \<longleftrightarrow>
      (\<exists>s \<in> S. s < length ps \<and> (if star (ps ! s) then t = s else accepts (ps ! s) x \<and> t = Suc s))"
    and run_Nil: "run ps S [] \<longleftrightarrow> length ps \<in> S"
    and run_Cons: "run ps S (x # xs) \<longleftrightarrow>
      advance ps x S \<noteq> {} \<and> run ps (closure ps (advance ps x S)) xs"
begin

definition from_state :: "'i list \<Rightarrow> 'x list \<Rightarrow> nat \<Rightarrow> bool" where
  "from_state ps xs s \<longleftrightarrow> s \<le> length ps \<and> glob star accepts (drop s ps) xs"

lemma from_state_skip:
  assumes "s < length ps" and "star (ps ! s)" and "from_state ps xs (Suc s)"
  shows "from_state ps xs s"
  using assms by (cases xs) (auto simp: from_state_def Cons_nth_drop_Suc [symmetric])

lemma from_state_Nil:
  "from_state ps [] s \<longleftrightarrow>
     s = length ps \<or> (s < length ps \<and> star (ps ! s) \<and> from_state ps [] (Suc s))"
  by (cases "s < length ps") (auto simp: from_state_def Cons_nth_drop_Suc [symmetric])

lemma from_state_Cons:
  "from_state ps (x # xs) s \<longleftrightarrow>
     s < length ps \<and>
     (if star (ps ! s) then from_state ps (x # xs) (Suc s) \<or> from_state ps xs s
      else accepts (ps ! s) x \<and> from_state ps xs (Suc s))"
  by (cases "s < length ps") (auto simp: from_state_def Cons_nth_drop_Suc [symmetric])

lemma finite_closure: "finite S \<Longrightarrow> finite (closure ps S)"
  using closure_least [of S "S \<union> {..length ps}" ps] finite_subset
  by (fastforce simp: skip_closed_def)

lemma finite_advance: "finite S \<Longrightarrow> finite (advance ps x S)"
  by (rule finite_subset [where B = "S \<union> Suc ` S"]) (auto simp: advance_iff split: if_splits)

lemma closure_ex:
  assumes "finite S"
  shows "(\<exists>s \<in> closure ps S. from_state ps xs s) \<longleftrightarrow> (\<exists>s \<in> S. from_state ps xs s)"
proof -
  let ?C = "{s. from_state ps xs s \<longrightarrow> (\<exists>s \<in> S. from_state ps xs s)}"
  have "closure ps S \<subseteq> ?C"
    using assms by (rule closure_least) (auto simp: skip_closed_def dest: from_state_skip)
  then show ?thesis using closure_superset [OF assms] by blast
qed

lemma closed_end:
  assumes "skip_closed (map star ps) K" and "s \<in> K" and "from_state ps [] s"
  shows "length ps \<in> K"
  using assms(2,3)
proof (induction "length ps - s" arbitrary: s)
  case 0
  then show ?case by (auto simp: from_state_Nil [of ps s])
next
  case (Suc n)
  from Suc.prems(2) have "s < length ps" "star (ps ! s)" "from_state ps [] (Suc s)"
    using Suc.hyps(2) by (auto simp: from_state_Nil [of ps s])
  moreover from this have "Suc s \<in> K" using assms(1) Suc.prems(1) by (simp add: skip_closed_def)
  ultimately show ?case using Suc.hyps(2) by (intro Suc.hyps(1) [of "Suc s"]) simp_all
qed

lemma closed_advance:
  assumes "skip_closed (map star ps) K" and "s \<in> K" and "from_state ps (x # xs) s"
  shows "\<exists>t \<in> advance ps x K. from_state ps xs t"
  using assms(2,3)
proof (induction "length ps - s" arbitrary: s)
  case 0
  then show ?case by (auto simp: from_state_Cons [of ps x xs s])
next
  case (Suc n)
  show ?case
  proof (cases "star (ps ! s) \<and> \<not> from_state ps xs s")
    case True
    with Suc.prems have "from_state ps (x # xs) (Suc s)" and "s < length ps"
      by (auto simp: from_state_Cons [of ps x xs s])
    moreover have "Suc s \<in> K"
      using True \<open>s < length ps\<close> Suc.prems assms(1) by (auto simp: skip_closed_def)
    ultimately show ?thesis using Suc.hyps(2) by (intro Suc.hyps(1) [of "Suc s"]) simp_all
  next
    case False
    with Suc.prems(2) have s: "s < length ps"
      "star (ps ! s) \<and> from_state ps xs s \<or> \<not> star (ps ! s) \<and> accepts (ps ! s) x \<and> from_state ps xs (Suc s)"
      by (auto simp: from_state_Cons [of ps x xs s] split: if_splits)
    then have "(if star (ps ! s) then s else Suc s) \<in> advance ps x K"
      using Suc.prems(1) by (auto simp: advance_iff)
    with s show ?thesis by (auto split: if_splits)
  qed
qed

lemma advance_from_state:
  "t \<in> advance ps x K \<Longrightarrow> from_state ps xs t \<Longrightarrow> \<exists>s \<in> K. from_state ps (x # xs) s"
  unfolding advance_iff by (metis from_state_Cons)

theorem run_iff_from_state:
  "finite S \<Longrightarrow> run ps (closure ps S) xs \<longleftrightarrow> (\<exists>s \<in> S. from_state ps xs s)"
proof (induction xs arbitrary: S)
  case Nil
  have "length ps \<in> closure ps S \<longleftrightarrow> (\<exists>s \<in> closure ps S. from_state ps [] s)"
    using closed_end [OF closure_closed [OF Nil]] by (auto simp: from_state_def)
  then show ?case using closure_ex [OF Nil] by (simp add: run_Nil)
next
  case (Cons x xs)
  let ?K = "closure ps S"
  have "run ps ?K (x # xs) \<longleftrightarrow> (\<exists>t \<in> advance ps x ?K. from_state ps xs t)"
    using Cons.IH [OF finite_advance [OF finite_closure [OF Cons.prems]]]
    by (auto simp: run_Cons)
  also have "\<dots> \<longleftrightarrow> (\<exists>s \<in> ?K. from_state ps (x # xs) s)"
    using closed_advance [OF closure_closed [OF Cons.prems]] advance_from_state by blast
  also have "\<dots> \<longleftrightarrow> (\<exists>s \<in> S. from_state ps (x # xs) s)"
    by (rule closure_ex [OF Cons.prems])
  finally show ?case .
qed

corollary run_iff_glob: "run ps (closure ps {0}) xs \<longleftrightarrow> glob star accepts ps xs"
  by (simp add: run_iff_from_state from_state_def)

end

lemma closure_loop_of_set:
  assumes "finite S"
  shows "S \<subseteq> closure_loop skips S (sorted_list_of_set S)"
    and "skip_closed skips (closure_loop skips S (sorted_list_of_set S))"
    and "S \<subseteq> C \<Longrightarrow> skip_closed skips C \<Longrightarrow> closure_loop skips S (sorted_list_of_set S) \<subseteq> C"
    by (rule closure_loop_superset)
    (rule closure_loop_closed, simp add: assms, rule closure_loop_least, simp_all add: assms)

interpretation tokm: state_set_matcher is_star token_matches token_closure token_advance token_run
proof unfold_locales
  fix t x S and ps :: "token list"
  show "t \<in> token_advance ps x S \<longleftrightarrow>
      (\<exists>s \<in> S. s < length ps \<and> (if is_star (ps ! s) then t = s else token_matches (ps ! s) x \<and> t = Suc s))"
    by (auto simp: token_advance_def image_iff elim: is_star.elims)
qed (simp_all add: token_closure_def closure_loop_of_set Let_def)

interpretation segm: state_set_matcher seg_globstar "\<lambda>s. match_segment (seg_tokens s)"
  segment_closure segment_advance segment_run
proof unfold_locales
  fix t x S and ps :: "segment list"
  show "t \<in> segment_advance ps x S \<longleftrightarrow>
      (\<exists>s \<in> S. s < length ps \<and>
         (if seg_globstar (ps ! s) then t = s else match_segment (seg_tokens (ps ! s)) x \<and> t = Suc s))"
    by (auto simp: segment_advance_def image_iff)
qed (simp_all add: segment_closure_def closure_loop_of_set Let_def)

subsection \<open>What matching decides\<close>

text \<open>Matching one path segment by the set of active token states accepts exactly the texts
  that the backtracking reading of the segment's tokens accepts, for every token list.\<close>

theorem match_segment_decides_glob:
  "match_segment ts text \<longleftrightarrow> glob is_star token_matches ts text"
  by (simp add: match_segment_def tokm.run_iff_glob)

text \<open>The reference reading of a whole pattern on the nonempty segments of a path.\<close>

definition pattern_spec :: "repository_pattern \<Rightarrow> ustr list \<Rightarrow> bool" where
  "pattern_spec pat segs_of_path \<longleftrightarrow>
     pat_segments pat \<noteq> [] \<and> segs_of_path \<noteq> [] \<and>
     (if pat_anchored pat
      then glob seg_globstar (\<lambda>s. glob is_star token_matches (seg_tokens s)) (pat_segments pat) segs_of_path
      else glob is_star token_matches (seg_tokens (last (pat_segments pat))) (last segs_of_path))"

lemma match_segment_eq_glob: "match_segment ts = glob is_star token_matches ts"
  by (simp add: fun_eq_iff match_segment_def tokm.run_iff_glob)

text \<open>C5: \<open>RepositoryPattern.matches\<close> decides the reference reading: an anchored pattern matches when
  its segments match the path's segments with a globstar spanning any number of them, and an
  unanchored one when its last segment matches the path's last segment.\<close>

theorem pattern_matches_decides_spec:
  "pattern_matches pat path \<longleftrightarrow> pattern_spec pat (path_segments (removeprefix path (u ''./'')))"
  by (simp add: pattern_matches_def pattern_spec_def Let_def segm.run_iff_glob
      match_segment_eq_glob [abs_def])

text \<open>\<open>resolve_paths\<close> returns the pattern itself exactly when it is a known path, and otherwise
  the known paths a wildcard pattern matches, in ascending order with their multiplicity; a
  literal pattern that is not a known path resolves to nothing.\<close>

theorem resolve_paths_spec:
  "pattern \<in> set candidates \<and> resolve_paths pattern candidates = [pattern]
   \<or> pattern \<notin> set candidates
     \<and> sorted (resolve_paths pattern candidates)
     \<and> (\<forall>p. count_list (resolve_paths pattern candidates) p =
          (if contains_wildcard pattern
              \<and> pattern_spec (parse_pattern pattern) (path_segments (removeprefix p (u ''./'')))
           then count_list candidates p else 0))"
proof -
  have count_filter: "count_list (filter P xs) p = (if P p then count_list xs p else 0)"
    for P and xs :: "ustr list" and p by (induction xs) auto
  have count_sort: "count_list (sort xs) p = count_list xs p" for xs :: "ustr list" and p
    by (metis count_mset mset_sort)
  show ?thesis
    by (auto simp: resolve_paths_def Let_def count_filter count_sort pattern_matches_decides_spec
        simp del: split_paired_All)
qed

subsection \<open>Escaping\<close>

definition escape_segment :: "ustr \<Rightarrow> ustr" where
  "escape_segment s = concat (map (\<lambda>c. [92, c]) s)"

lemma tokens_from_escape: "tokens_from toks (escape_segment s) = toks @ map LITERAL s"
  by (induction s arbitrary: toks) (simp_all add: escape_segment_def)

lemma glob_literals: "glob is_star token_matches (map LITERAL s) t \<longleftrightarrow> t = s"
proof (induction s arbitrary: t)
  case (Cons c s)
  then show ?case by (cases t) auto
qed auto

text \<open>Escaping every character of a segment text with a backslash parses back to literal tokens, so
  the escaped pattern matches exactly the text it was made from.\<close>

theorem escape_roundtrip:
  "match_segment (parse_segment_tokens (escape_segment s)) t \<longleftrightarrow> t = s"
  by (simp add: parse_segment_tokens_def tokens_from_escape match_segment_eq_glob glob_literals)

text \<open>The pattern of a single globstar is unanchored and its segment carries no tokens, so it
  matches no path at all, although a \<open>**\<close> segment is documented to match any number of
  segments; the same pattern with a trailing slash matches every nonempty path.\<close>

theorem bare_globstar_matches_nothing:
  "\<not> pattern_matches (parse_pattern (u ''**'')) path
   \<and> (pattern_matches (parse_pattern (u ''**/'')) path \<longleftrightarrow> path_segments (removeprefix path (u ''./'')) \<noteq> [])"
proof -
  have strips: "strip [42, 42] = [42, 42]" "strip [42, 42, 47] = [42, 42, 47]"
    by (simp_all add: strip_def unicode_space_def)
  have bare: "parse_pattern (u ''**'') = \<lparr>pat_anchored = False,
      pat_segments = [\<lparr>seg_globstar = True, seg_tokens = []\<rparr>]\<rparr>"
    by (simp add: parse_pattern_def strips Let_def endswith_def startswith_def removeprefix_def lstrip_char_def path_segments_def
        parse_segment_def u_def)
  have dir: "parse_pattern (u ''**/'') = \<lparr>pat_anchored = True,
      pat_segments = [\<lparr>seg_globstar = True, seg_tokens = []\<rparr>, \<lparr>seg_globstar = True, seg_tokens = []\<rparr>]\<rparr>"
    by (simp add: parse_pattern_def strips Let_def endswith_def startswith_def removeprefix_def lstrip_char_def path_segments_def
        parse_segment_def u_def)
  have globstars: "glob st m [p, q] xs" if "st p" "st q" for st m and p q :: segment and xs :: "ustr list"
  proof (induction xs)
    case (Cons x xs)
    then show ?case using that by simp
  qed (use that in simp)
  show ?thesis
    by (auto simp: bare dir pattern_matches_decides_spec pattern_spec_def globstars path_segments_def
        dest!: last_in_set)
qed

end
