(* ===== verification/Utf8.thy ===== *)
theory Utf8
  imports Prelude
begin

text \<open>
  Python's UTF-8 codec, which the position codec and the edit pipeline use for captured text.
  A \<open>bytes\<close> value is a list of naturals (each below 256 in any value the codec produces), a
  \<open>str\<close> a list of code points; \<open>str.encode\<close> fails on surrogates and \<open>bytes.decode\<close> is the strict
  decoder, which refuses overlong forms, surrogates and code points past \<open>0x10FFFF\<close>.
\<close>

type_synonym bytes = "nat list"

definition is_scalar :: "nat \<Rightarrow> bool" where
  "is_scalar c \<longleftrightarrow> c < 0xD800 \<or> (0xE000 \<le> c \<and> c \<le> 0x10FFFF)"

definition encode_char :: "nat \<Rightarrow> bytes" where
  "encode_char c =
     (if c < 0x80 then [c]
      else if c < 0x800 then [0xC0 + c div 64, 0x80 + c mod 64]
      else if c < 0x10000 then [0xE0 + c div 4096, 0x80 + c div 64 mod 64, 0x80 + c mod 64]
      else [0xF0 + c div 262144, 0x80 + c div 4096 mod 64, 0x80 + c div 64 mod 64, 0x80 + c mod 64])"

definition utf8 :: "ustr \<Rightarrow> bytes" where
  "utf8 s = concat (map encode_char s)"

definition utf8_encode :: "ustr \<Rightarrow> bytes option" where
  "utf8_encode s = (if list_all is_scalar s then Some (utf8 s) else None)"

definition is_cont :: "nat \<Rightarrow> bool" where
  "is_cont b \<longleftrightarrow> 0x80 \<le> b \<and> b < 0xC0"

fun decode_char :: "bytes \<Rightarrow> (nat \<times> bytes) option" where
  "decode_char [] = None"
| "decode_char (b0 # bs) =
     (if b0 < 0x80 then Some (b0, bs)
      else if 0xC2 \<le> b0 \<and> b0 < 0xE0 then
        (case bs of b1 # r \<Rightarrow>
           if is_cont b1 then Some ((b0 - 0xC0) * 64 + (b1 - 0x80), r) else None
         | _ \<Rightarrow> None)
      else if 0xE0 \<le> b0 \<and> b0 < 0xF0 then
        (case bs of b1 # b2 # r \<Rightarrow>
           let c = (b0 - 0xE0) * 4096 + (b1 - 0x80) * 64 + (b2 - 0x80) in
           if is_cont b1 \<and> is_cont b2 \<and> 0x800 \<le> c \<and> is_scalar c then Some (c, r) else None
         | _ \<Rightarrow> None)
      else if 0xF0 \<le> b0 \<and> b0 < 0xF5 then
        (case bs of b1 # b2 # b3 # r \<Rightarrow>
           let c = (b0 - 0xF0) * 262144 + (b1 - 0x80) * 4096 + (b2 - 0x80) * 64 + (b3 - 0x80) in
           if is_cont b1 \<and> is_cont b2 \<and> is_cont b3 \<and> 0x10000 \<le> c \<and> is_scalar c
           then Some (c, r) else None
         | _ \<Rightarrow> None)
      else None)"

lemma encode_char_not_Nil [simp]: "encode_char c \<noteq> []"
  by (simp add: encode_char_def)

lemma utf8_simps [simp]:
  "utf8 [] = []" "utf8 (c # s) = encode_char c @ utf8 s" "utf8 (s @ t) = utf8 s @ utf8 t"
  by (simp_all add: utf8_def)

lemma decode_encode_char: "is_scalar c \<Longrightarrow> decode_char (encode_char c @ bs) = Some (c, bs)"
proof -
  assume c: "is_scalar c"
  have parts: "c div 4096 = c div 64 div 64" "c div 262144 = c div 64 div 64 div 64"
    by (simp_all add: div_mult2_eq [symmetric])
  have "c div 64 * 64 + c mod 64 = c" "c div 64 div 64 * 64 + c div 64 mod 64 = c div 64"
    "c div 64 div 64 div 64 * 64 + c div 64 div 64 mod 64 = c div 64 div 64"
    by (rule div_mult_mod_eq)+
  then have three: "c div 4096 * 4096 + c div 64 mod 64 * 64 + c mod 64 = c"
    and four: "c div 262144 * 262144 + c div 4096 mod 64 * 4096 + c div 64 mod 64 * 64 + c mod 64 = c"
    unfolding parts by linarith+
  consider "c < 0x80" | "0x80 \<le> c" "c < 0x800" | "0x800 \<le> c" "c < 0x10000" | "0x10000 \<le> c"
    by linarith
  then show ?thesis
  proof cases
    case 2
    then have "c div 64 \<ge> 2" "c div 64 < 32" by simp_all
    then show ?thesis using 2 by (simp add: encode_char_def is_cont_def)
  next
    case 3
    then have "c div 4096 < 16" by simp
    then show ?thesis using 3 c three by (simp add: encode_char_def is_cont_def)
  next
    case 4
    then have "c div 262144 < 5" using c by (simp add: is_scalar_def)
    then show ?thesis using 4 c four by (simp add: encode_char_def is_cont_def)
  qed (simp add: encode_char_def)
qed

lemma split_digits:
  fixes x y z w :: nat
  assumes "y < 64" "z < 64" "w < 64"
  shows "(x * 64 + y) div 64 = x" "(x * 64 + y) mod 64 = y"
    "(x * 4096 + y * 64 + z) div 4096 = x" "(x * 4096 + y * 64 + z) div 64 mod 64 = y"
    "(x * 4096 + y * 64 + z) mod 64 = z"
    "(x * 262144 + y * 4096 + z * 64 + w) div 262144 = x"
    "(x * 262144 + y * 4096 + z * 64 + w) div 4096 mod 64 = y"
    "(x * 262144 + y * 4096 + z * 64 + w) div 64 mod 64 = z"
    "(x * 262144 + y * 4096 + z * 64 + w) mod 64 = w"
proof -
  have dm: "(w * 64 + v) div 64 = w" "(w * 64 + v) mod 64 = v" if "v < 64" for w v :: nat
    using that by simp_all
  have two: "x * 4096 + y * 64 + z = (x * 64 + y) * 64 + z"
    and three: "x * 262144 + y * 4096 + z * 64 + w = ((x * 64 + y) * 64 + z) * 64 + w"
    by simp_all
  have parts: "n div 4096 = n div 64 div 64" "n div 262144 = n div 64 div 64 div 64" for n :: nat
    by (simp_all add: div_mult2_eq [symmetric])
  show "(x * 64 + y) div 64 = x" "(x * 64 + y) mod 64 = y"
    "(x * 4096 + y * 64 + z) div 4096 = x" "(x * 4096 + y * 64 + z) div 64 mod 64 = y"
    "(x * 4096 + y * 64 + z) mod 64 = z"
    "(x * 262144 + y * 4096 + z * 64 + w) div 262144 = x"
    "(x * 262144 + y * 4096 + z * 64 + w) div 4096 mod 64 = y"
    "(x * 262144 + y * 4096 + z * 64 + w) div 64 mod 64 = z"
    "(x * 262144 + y * 4096 + z * 64 + w) mod 64 = w"
    unfolding parts two three by (simp_all only: dm assms)
qed

lemma decode_char_two:
  assumes "0xC2 \<le> b0" "b0 < 0xE0" "is_cont b1"
  shows "encode_char ((b0 - 0xC0) * 64 + (b1 - 0x80)) = [b0, b1]"
    and "is_scalar ((b0 - 0xC0) * 64 + (b1 - 0x80))"
proof -
  obtain x y where xy: "b0 = 0xC0 + x" "b1 = 0x80 + y" "2 \<le> x" "x < 32" "y < 64"
    using assms by (auto simp: is_cont_def le_iff_add)
  then show "encode_char ((b0 - 0xC0) * 64 + (b1 - 0x80)) = [b0, b1]"
    and "is_scalar ((b0 - 0xC0) * 64 + (b1 - 0x80))"
    by (simp_all add: encode_char_def is_scalar_def split_digits(1,2))
qed

lemma decode_char_three:
  assumes "0xE0 \<le> b0" "b0 < 0xF0" "is_cont b1" "is_cont b2"
    and "c = (b0 - 0xE0) * 4096 + (b1 - 0x80) * 64 + (b2 - 0x80)" and "0x800 \<le> c"
  shows "encode_char c = [b0, b1, b2]"
proof -
  obtain x y z where xyz: "b0 = 0xE0 + x" "b1 = 0x80 + y" "b2 = 0x80 + z" "x < 16" "y < 64" "z < 64"
    using assms by (auto simp: is_cont_def le_iff_add)
  then have "c = x * 4096 + y * 64 + z" using assms by simp
  moreover from this have "c < 0x10000" using xyz by simp
  ultimately show ?thesis using xyz assms(6)
    by (simp add: encode_char_def split_digits(3-5))
qed

lemma decode_char_four:
  assumes "0xF0 \<le> b0" "b0 < 0xF5" "is_cont b1" "is_cont b2" "is_cont b3"
    and "c = (b0 - 0xF0) * 262144 + (b1 - 0x80) * 4096 + (b2 - 0x80) * 64 + (b3 - 0x80)"
    and "0x10000 \<le> c"
  shows "encode_char c = [b0, b1, b2, b3]"
proof -
  obtain x y z w where xyzw: "b0 = 0xF0 + x" "b1 = 0x80 + y" "b2 = 0x80 + z" "b3 = 0x80 + w"
      "y < 64" "z < 64" "w < 64"
    using assms by (auto simp: is_cont_def le_iff_add)
  then have "c = x * 262144 + y * 4096 + z * 64 + w" using assms by simp
  then show ?thesis using xyzw assms(7)
    by (simp add: encode_char_def split_digits(6-9))
qed

lemma decode_char_sound:
  "decode_char bs = Some (c, r) \<Longrightarrow> is_scalar c \<and> bs = encode_char c @ r"
  by (cases bs)
    (auto split: if_split_asm list.split_asm simp: Let_def decode_char_two decode_char_three
      decode_char_four, auto simp: encode_char_def is_scalar_def)

declare decode_char.simps [simp del]

lemma decode_char_shorter: "decode_char bs = Some (c, r) \<Longrightarrow> length r < length bs"
  using decode_char_sound [of bs c r] by (cases "encode_char c") auto

function utf8_decode :: "bytes \<Rightarrow> ustr option" where
  "utf8_decode [] = Some []"
| "utf8_decode (b # bs) =
     (case decode_char (b # bs) of None \<Rightarrow> None
      | Some (c, r) \<Rightarrow> map_option (\<lambda>s. c # s) (utf8_decode r))"
  by pat_completeness auto
termination
  by (relation "measure length") (auto dest: decode_char_shorter)

lemma utf8_decode_encode: "list_all is_scalar s \<Longrightarrow> utf8_decode (utf8 s) = Some s"
proof (induction s)
  case (Cons c s)
  obtain b bs where "encode_char c = b # bs" by (cases "encode_char c") auto
  with Cons decode_encode_char [of c "utf8 s"] show ?case by simp
qed simp

lemma utf8_decode_sound: "utf8_decode bs = Some s \<Longrightarrow> list_all is_scalar s \<and> bs = utf8 s"
proof (induction bs arbitrary: s rule: utf8_decode.induct)
  case (2 b bs)
  then show ?case by (auto split: option.split_asm dest!: decode_char_sound)
qed simp

lemma utf8_decode_iff: "utf8_decode bs = Some s \<longleftrightarrow> list_all is_scalar s \<and> bs = utf8 s"
  using utf8_decode_encode utf8_decode_sound by blast

lemma utf8_inject: "list_all is_scalar s \<Longrightarrow> list_all is_scalar t \<Longrightarrow> utf8 s = utf8 t \<longleftrightarrow> s = t"
  by (metis option.inject utf8_decode_encode)

text \<open>Decoding is cancellative: after a prefix that decodes, the rest decodes on its own.\<close>

lemma utf8_decode_suffix:
  assumes "utf8_decode (xs @ ys) = Some t" and "utf8_decode xs = Some w"
  shows "\<exists>v. utf8_decode ys = Some v \<and> t = w @ v"
  using assms
proof (induction w arbitrary: xs t)
  case Nil
  then show ?case by (auto simp: utf8_decode_iff)
next
  case (Cons c w)
  then have c: "is_scalar c" "list_all is_scalar w" "xs = encode_char c @ utf8 w"
    by (auto simp: utf8_decode_iff)
  obtain d t' where t: "t = d # t'" using Cons.prems c by (cases t) (auto simp: utf8_decode_iff)
  have "decode_char (encode_char c @ utf8 w @ ys) = Some (c, utf8 w @ ys)"
    using c by (simp add: decode_encode_char)
  moreover have "encode_char c @ utf8 w @ ys = encode_char d @ utf8 t'" "is_scalar d"
    using Cons.prems(1) c t by (simp_all add: utf8_decode_iff)
  ultimately have "d = c" "utf8 w @ ys = utf8 t'" by (simp_all add: decode_encode_char)
  then show ?case using Cons.IH [of "utf8 w" t'] c Cons.prems t by (auto simp: utf8_decode_iff)
qed

text \<open>Only the code point 10 has the byte 10 in its encoding.\<close>

lemma newline_in_encode_char: "10 \<in> set (encode_char c) \<longleftrightarrow> c = 10"
  by (auto simp: encode_char_def)

lemma utf8_newline_boundary:
  assumes "i < length (utf8 s)" and "utf8 s ! i = 10"
  shows "\<exists>k < length s. s ! k = 10 \<and> take i (utf8 s) = utf8 (take k s)"
  using assms
proof (induction s arbitrary: i)
  case (Cons c s)
  show ?case
  proof (cases "i < length (encode_char c)")
    case True
    with Cons.prems have "c = 10"
      using newline_in_encode_char [of c] by (auto simp: nth_append in_set_conv_nth)
    with True show ?thesis by (intro exI [of _ 0]) (simp add: encode_char_def)
  next
    case False
    then have "i - length (encode_char c) < length (utf8 s)" "utf8 s ! (i - length (encode_char c)) = 10"
      using Cons.prems by (auto simp: nth_append)
    from Cons.IH [OF this] obtain k where
      "k < length s" "s ! k = 10" "take (i - length (encode_char c)) (utf8 s) = utf8 (take k s)"
      by auto
    with False show ?thesis by (intro exI [of _ "Suc k"]) simp
  qed
qed simp

end
