(* ===== verification/Positions.thy ===== *)
theory Positions
  imports Utf8
begin

text \<open>
  The producer-neutral position codec (\<open>contracts/positions.py\<close>): byte offsets of one captured
  document against zero-based lines and columns in code points or UTF-16 units. The lemmas
  show that the line starts partition the bytes at code-point boundaries, which makes the two
  directions inverse on every position inside the content of a line.
\<close>

subsection \<open>Data\<close>

datatype position_encoding = UTF8 | UTF16 | UTF32

record point =
  pt_line :: nat
  pt_column :: nat
  pt_utf16 :: nat
  pt_byte :: nat

record point_range =
  pr_start :: point
  pr_end :: point

text \<open>The \<open>ValueError\<close>s of the codec, one constructor per message.\<close>

datatype codec_error =
    UnicodeDecodeError
  | LineOutside int
  | OffsetOutside int
  | SplitsSurrogate int
  | ColumnOutside int
  | RangeEndPrecedesStart
  | PointRangeReversed

record position_codec =
  pc_content :: bytes
  pc_line_starts :: "nat list"

subsection \<open>Operations\<close>

text \<open>The loop of \<open>__init__\<close> over \<open>enumerate(content)\<close> from index \<open>i\<close>.\<close>

fun newline_starts :: "nat \<Rightarrow> bytes \<Rightarrow> nat list" where
  "newline_starts i [] = []"
| "newline_starts i (b # bs) =
     (if b = 0x0A then (i + 1) # newline_starts (i + 1) bs else newline_starts (i + 1) bs)"

definition make_codec :: "bytes \<Rightarrow> (codec_error, position_codec) result" where
  "make_codec content =
     (case utf8_decode content of
        None \<Rightarrow> Inl UnicodeDecodeError
      | Some _ \<Rightarrow> Inr \<lparr>pc_content = content, pc_line_starts = 0 # newline_starts 0 content\<rparr>)"

definition slice :: "'a list \<Rightarrow> nat \<Rightarrow> nat \<Rightarrow> 'a list" where
  "slice xs i j = take (j - i) (drop i xs)"

definition decode :: "bytes \<Rightarrow> (codec_error, ustr) result" where
  "decode bs = (case utf8_decode bs of None \<Rightarrow> Inl UnicodeDecodeError | Some s \<Rightarrow> Inr s)"

definition line_end :: "position_codec \<Rightarrow> nat \<Rightarrow> nat" where
  "line_end c l =
     (if l + 1 < length (pc_line_starts c) then pc_line_starts c ! (l + 1) else length (pc_content c))"

definition line_text :: "position_codec \<Rightarrow> int \<Rightarrow> (codec_error, nat \<times> ustr) result" where
  "line_text c line =
     (if line < 0 \<or> line \<ge> int (length (pc_line_starts c)) then Inl (LineOutside line)
      else let start = pc_line_starts c ! nat line
           in bind_err (decode (slice (pc_content c) start (line_end c (nat line))))
                (\<lambda>seg. Inr (start, seg)))"

definition content_end :: "ustr \<Rightarrow> nat" where
  "content_end seg =
     (if length seg \<ge> 2 \<and> drop (length seg - 2) seg = [13, 10] then length seg - 2
      else if seg \<noteq> [] \<and> (last seg = 10 \<or> last seg = 13) then length seg - 1
      else length seg)"

text \<open>\<open>bisect.bisect_right\<close> on an ascending list: how many entries are at most \<open>x\<close>.\<close>

definition bisect_right :: "nat list \<Rightarrow> nat \<Rightarrow> nat" where
  "bisect_right xs x = length (takeWhile (\<lambda>a. a \<le> x) xs)"

definition utf16_width :: "nat \<Rightarrow> nat" where
  "utf16_width c = (if c > 0xFFFF then 2 else 1)"

definition utf16_units :: "ustr \<Rightarrow> nat" where
  "utf16_units s = sum_list (map utf16_width s)"

definition byte_to_point :: "position_codec \<Rightarrow> int \<Rightarrow> (codec_error, point) result" where
  "byte_to_point c offset =
     (if offset < 0 \<or> offset > int (length (pc_content c)) then Inl (OffsetOutside offset)
      else let off = nat offset;
               line = bisect_right (pc_line_starts c) off - 1;
               line_start = pc_line_starts c ! line
           in bind_err (decode (slice (pc_content c) line_start off))
                (\<lambda>segment. Inr \<lparr>pt_line = line, pt_column = length segment,
                                 pt_utf16 = utf16_units segment, pt_byte = off\<rparr>))"

text \<open>The UTF-16 loop of \<open>point_to_byte\<close>, its \<open>else\<close> clause included.\<close>

fun utf16_index :: "nat \<Rightarrow> nat \<Rightarrow> ustr \<Rightarrow> int \<Rightarrow> nat option" where
  "utf16_index units position [] column = (if int units = column then Some position else None)"
| "utf16_index units position (c # cs) column =
     (if int units = column then Some position
      else utf16_index (units + utf16_width c) (position + 1) cs column)"

definition char_index :: "position_encoding \<Rightarrow> ustr \<Rightarrow> int \<Rightarrow> (codec_error, nat) result" where
  "char_index enc body column =
     (if enc = UTF16
      then (case utf16_index 0 0 body column of
              None \<Rightarrow> Inl (SplitsSurrogate column) | Some i \<Rightarrow> Inr i)
      else if column < 0 \<or> column > int (length body) then Inl (ColumnOutside column)
      else Inr (nat column))"

definition point_to_byte ::
  "position_codec \<Rightarrow> int \<Rightarrow> int \<Rightarrow> position_encoding \<Rightarrow> (codec_error, nat) result" where
  "point_to_byte c line column enc =
     bind_err (line_text c line) (\<lambda>(start, segment).
       let body = take (content_end segment) segment
       in bind_err (char_index enc body column) (\<lambda>i. Inr (start + length (utf8 (take i body)))))"

definition byte_range_to_points ::
  "position_codec \<Rightarrow> int \<Rightarrow> int \<Rightarrow> (codec_error, point_range) result" where
  "byte_range_to_points c s e =
     (if e < s then Inl RangeEndPrecedesStart
      else bind_err (byte_to_point c s) (\<lambda>p. bind_err (byte_to_point c e)
             (\<lambda>q. Inr \<lparr>pr_start = p, pr_end = q\<rparr>)))"

definition point_column_in :: "position_encoding \<Rightarrow> point \<Rightarrow> nat" where
  "point_column_in enc p = (if enc = UTF16 then pt_utf16 p else pt_column p)"

definition points_to_byte_range ::
  "position_codec \<Rightarrow> point \<Rightarrow> point \<Rightarrow> position_encoding \<Rightarrow> (codec_error, nat \<times> nat) result" where
  "points_to_byte_range c p q enc =
     bind_err (point_to_byte c (int (pt_line p)) (int (point_column_in enc p)) enc) (\<lambda>begin_byte.
     bind_err (point_to_byte c (int (pt_line q)) (int (point_column_in enc q)) enc) (\<lambda>finish.
       if finish < begin_byte then Inl PointRangeReversed else Inr (begin_byte, finish)))"

subsection \<open>Line starts\<close>

lemma newline_starts_mem:
  "n \<in> set (newline_starts i bs) \<longleftrightarrow> (\<exists>j < length bs. bs ! j = 10 \<and> n = i + j + 1)"
proof (induction i bs rule: newline_starts.induct)
  case (2 i b bs)
  have "(\<exists>j < length (b # bs). (b # bs) ! j = 10 \<and> n = i + j + 1) \<longleftrightarrow>
      b = 10 \<and> n = i + 1 \<or> (\<exists>j < length bs. bs ! j = 10 \<and> n = i + 1 + j + 1)"
    by (auto simp: less_Suc_eq_0_disj)
  with 2 show ?case by auto
qed simp

lemma newline_starts_sorted: "sorted_wrt (<) (newline_starts i bs)"
  by (induction i bs rule: newline_starts.induct) (auto simp: newline_starts_mem)

text \<open>What holds of every codec that construction returns.\<close>

definition codec_ok :: "position_codec \<Rightarrow> bool" where
  "codec_ok c \<longleftrightarrow>
     pc_line_starts c = 0 # newline_starts 0 (pc_content c) \<and> utf8_decode (pc_content c) \<noteq> None"

lemma make_codec_ok: "make_codec content = Inr c \<Longrightarrow> codec_ok c \<and> pc_content c = content"
  by (auto simp: make_codec_def codec_ok_def split: option.split_asm)

lemma starts_mem:
  "codec_ok c \<Longrightarrow> s \<in> set (pc_line_starts c) \<longleftrightarrow>
     s = 0 \<or> (\<exists>j < length (pc_content c). pc_content c ! j = 10 \<and> s = j + 1)"
  by (auto simp: codec_ok_def newline_starts_mem)

lemma starts_sorted: "codec_ok c \<Longrightarrow> sorted_wrt (<) (pc_line_starts c)"
  by (auto simp: codec_ok_def newline_starts_mem newline_starts_sorted)

lemma starts_le_length: "codec_ok c \<Longrightarrow> s \<in> set (pc_line_starts c) \<Longrightarrow> s \<le> length (pc_content c)"
  by (auto simp: starts_mem)

lemma starts_aligned:
  assumes "codec_ok c" and "s \<in> set (pc_line_starts c)"
  shows "utf8_decode (take s (pc_content c)) \<noteq> None"
proof -
  from assms(1) obtain t where t: "list_all is_scalar t" "pc_content c = utf8 t"
    by (auto simp: codec_ok_def utf8_decode_iff)
  consider "s = 0" | j where "j < length (utf8 t)" "utf8 t ! j = 10" "s = j + 1"
    using assms t by (auto simp: starts_mem)
  then show ?thesis
  proof cases
    case 2
    from utf8_newline_boundary [OF 2(1,2)] obtain k where
      k: "k < length t" "t ! k = 10" "take j (utf8 t) = utf8 (take k t)" by auto
    have "take s (utf8 t) = utf8 (take (Suc k) t)"
      using 2 k by (simp add: take_Suc_conv_app_nth encode_char_def)
    moreover have "list_all is_scalar (take (Suc k) t)"
      using t(1) by (meson in_set_takeD list.pred_set)
    ultimately show ?thesis using t by (simp add: utf8_decode_encode)
  qed simp
qed

lemma line_bounds:
  assumes "codec_ok c" and "l < length (pc_line_starts c)"
  shows "pc_line_starts c ! l \<le> line_end c l" "line_end c l \<le> length (pc_content c)"
    "utf8_decode (take (line_end c l) (pc_content c)) \<noteq> None"
    "l + 1 < length (pc_line_starts c) \<Longrightarrow>
       pc_line_starts c ! l < line_end c l \<and> pc_content c ! (line_end c l - 1) = 10"
proof -
  have less: "l + 1 < length (pc_line_starts c) \<Longrightarrow> pc_line_starts c ! l < pc_line_starts c ! (l + 1)"
    using starts_sorted [OF assms(1)] by (simp add: sorted_wrt_iff_nth_less)
  then show "pc_line_starts c ! l \<le> line_end c l"
    using starts_le_length [OF assms(1)] assms(2) by (auto simp: line_end_def)
  show "line_end c l \<le> length (pc_content c)"
    using starts_le_length [OF assms(1)] by (auto simp: line_end_def)
  show "utf8_decode (take (line_end c l) (pc_content c)) \<noteq> None"
    using starts_aligned [OF assms(1)] assms(1) by (auto simp: line_end_def codec_ok_def)
  show "pc_line_starts c ! l < line_end c l \<and> pc_content c ! (line_end c l - 1) = 10"
    if "l + 1 < length (pc_line_starts c)"
    using less [OF that] that starts_mem [OF assms(1), of "pc_line_starts c ! (l + 1)"]
    by (auto simp: line_end_def)
qed

subsection \<open>Slices\<close>

lemma take_slice: "i \<le> j \<Longrightarrow> take j xs = take i xs @ slice xs i j"
  by (simp add: slice_def take_add [symmetric])

lemma length_slice [simp]: "j \<le> length xs \<Longrightarrow> length (slice xs i j) = j - i"
  by (simp add: slice_def)

lemma take_of_slice: "i + k \<le> j \<Longrightarrow> take k (slice xs i j) = slice xs i (i + k)"
  by (simp add: slice_def min_def)

lemma slice_append: "i \<le> j \<Longrightarrow> j \<le> k \<Longrightarrow> slice xs i k = slice xs i j @ slice xs j k"
  using take_slice [of i k xs] take_slice [of j k xs] take_slice [of i j xs] by simp

lemma utf8_decode_append:
  "utf8_decode xs = Some w \<Longrightarrow> utf8_decode ys = Some v \<Longrightarrow> utf8_decode (xs @ ys) = Some (w @ v)"
  by (simp add: utf8_decode_iff)

lemma decode_slice_iff:
  assumes "utf8_decode (take i xs) = Some w" and "i \<le> j"
  shows "utf8_decode (slice xs i j) = Some v \<longleftrightarrow> utf8_decode (take j xs) = Some (w @ v)"
  using utf8_decode_append [OF assms(1)] utf8_decode_suffix [OF _ assms(1)] assms
  by (auto simp: take_slice [OF assms(2)])

lemma line_decodes:
  assumes "codec_ok c" and "l < length (pc_line_starts c)"
  shows "\<exists>seg. utf8_decode (slice (pc_content c) (pc_line_starts c ! l) (line_end c l)) = Some seg"
proof -
  obtain w where "utf8_decode (take (pc_line_starts c ! l) (pc_content c)) = Some w"
    using starts_aligned [OF assms(1), of "pc_line_starts c ! l"] assms(2) by auto
  moreover obtain w where "utf8_decode (take (line_end c l) (pc_content c)) = Some w"
    using line_bounds(3) [OF assms] by auto
  ultimately show ?thesis
    using take_slice [OF line_bounds(1) [OF assms], of "pc_content c"] utf8_decode_suffix by metis
qed

lemma line_text_eq:
  assumes "codec_ok c" and "l < length (pc_line_starts c)"
    and "utf8_decode (slice (pc_content c) (pc_line_starts c ! l) (line_end c l)) = Some seg"
  shows "line_text c (int l) = Inr (pc_line_starts c ! l, seg)"
  using assms by (simp add: line_text_def decode_def)

subsection \<open>Finding the line of an offset\<close>

lemma bisect_right_eqI:
  assumes "sorted_wrt (<) xs" and "l < length xs" and "xs ! l \<le> x"
    and "l + 1 < length xs \<Longrightarrow> x < xs ! (l + 1)"
  shows "bisect_right xs x = Suc l"
proof -
  have "xs ! i \<le> x" if "i < Suc l" for i
  proof (cases "i = l")
    case False
    then have "xs ! i < xs ! l" using that assms by (auto simp: sorted_wrt_iff_nth_less)
    then show ?thesis using assms(3) by simp
  qed (use assms in simp)
  then have "takeWhile (\<lambda>a. a \<le> x) xs = take (Suc l) xs"
    using assms(4) by (intro takeWhile_eq_take_P_nth) auto
  then show ?thesis using assms(2) by (simp add: bisect_right_def)
qed

lemma bisect_right_line:
  assumes "codec_ok c" and "off \<le> length (pc_content c)"
  obtains l where "bisect_right (pc_line_starts c) off = Suc l" "l < length (pc_line_starts c)"
    "pc_line_starts c ! l \<le> off" "off \<le> line_end c l"
proof -
  let ?xs = "pc_line_starts c"
  let ?n = "bisect_right ?xs off"
  have pos: "0 < ?n" using assms by (simp add: bisect_right_def codec_ok_def)
  have le: "?n \<le> length ?xs" by (simp add: bisect_right_def length_takeWhile_le)
  have at: "?xs ! (?n - 1) \<le> off"
    using pos le by (metis (mono_tags) bisect_right_def diff_less less_one nth_mem set_takeWhileD takeWhile_nth)
  have "?n < length ?xs \<Longrightarrow> off < ?xs ! ?n"
    using nth_length_takeWhile [of "\<lambda>a. a \<le> off" ?xs] by (simp add: bisect_right_def)
  then have "off \<le> line_end c (?n - 1)" using pos assms(2) by (auto simp: line_end_def)
  then show thesis using that [of "?n - 1"] pos le at by simp
qed

subsection \<open>UTF-16 columns\<close>

lemma utf16_units_simps [simp]:
  "utf16_units [] = 0" "utf16_units (x # s) = utf16_width x + utf16_units s"
  by (simp_all add: utf16_units_def)

lemma utf16_index_hit:
  "k \<le> length s \<Longrightarrow> utf16_index w p s (int (w + utf16_units (take k s))) = Some (p + k)"
proof (induction s arbitrary: w p k)
  case (Cons x s)
  show ?case
  proof (cases k)
    case (Suc m)
    then have "utf16_index (w + utf16_width x) (p + 1) s
        (int (w + utf16_width x + utf16_units (take m s))) = Some (p + 1 + m)"
      using Cons by (intro Cons.IH) simp
    with Suc show ?thesis by (simp add: utf16_width_def algebra_simps)
  qed simp
qed simp

lemma utf16_index_sound:
  "utf16_index w p s col = Some i \<Longrightarrow>
     p \<le> i \<and> i \<le> p + length s \<and> col = int (w + utf16_units (take (i - p) s))"
proof (induction w p s col rule: utf16_index.induct)
  case (2 w p x s col)
  show ?case
  proof (cases "int w = col")
    case False
    with 2 have "p + 1 \<le> i" "i \<le> p + 1 + length s"
      "col = int (w + utf16_width x + utf16_units (take (i - (p + 1)) s))" by auto
    moreover from this have "i - p = Suc (i - (p + 1))" by simp
    ultimately show ?thesis by simp
  qed (use 2 in simp)
qed (simp split: if_split_asm)

text \<open>The column of a prefix in each encoding, and \<open>char_index\<close> as its partial inverse.\<close>

definition column_of :: "position_encoding \<Rightarrow> ustr \<Rightarrow> nat" where
  "column_of enc s = (if enc = UTF16 then utf16_units s else length s)"

lemma char_index_hit: "k \<le> length body \<Longrightarrow> char_index enc body (int (column_of enc (take k body))) = Inr k"
  using utf16_index_hit [of k body 0 0] by (simp add: char_index_def column_of_def)

lemma char_index_sound:
  "char_index enc body col = Inr i \<Longrightarrow> i \<le> length body \<and> col = int (column_of enc (take i body))"
  using utf16_index_sound [of 0 0 body col i]
  by (auto simp: char_index_def column_of_def split: if_split_asm option.split_asm)

subsection \<open>Both directions\<close>

lemma content_end_le: "content_end seg \<le> length seg"
  by (simp add: content_end_def)

lemma content_end_less: "seg \<noteq> [] \<Longrightarrow> last seg = 10 \<Longrightarrow> content_end seg < length seg"
  using length_greater_0_conv [of seg] by (simp add: content_end_def)

lemma utf8_take_le: "length (utf8 (take k s)) \<le> length (utf8 s)"
  by (metis append_take_drop_id le_add1 length_append utf8_simps(3))

lemma utf8_take_less: "k < length s \<Longrightarrow> length (utf8 (take k s)) < length (utf8 s)"
  by (metis append_take_drop_id drop_eq_Nil encode_char_not_Nil leD length_append length_greater_0_conv
      less_add_same_cancel1 list.exhaust Nil_is_append_conv utf8_simps(2,3))

lemma take_utf8_slice:
  assumes "slice xs i j = utf8 s" and "i \<le> j" and "j \<le> length xs"
  shows "slice xs i (i + length (utf8 (take k s))) = utf8 (take k s)"
proof -
  have "length (utf8 s) = j - i" using assms by (metis length_slice)
  then have "i + length (utf8 (take k s)) \<le> j" using utf8_take_le [of k s] assms(2) by simp
  then have "slice xs i (i + length (utf8 (take k s))) = take (length (utf8 (take k s))) (utf8 s)"
    by (simp add: take_of_slice assms(1) [symmetric])
  also have "\<dots> = utf8 (take k s)"
    by (metis append_eq_conv_conj append_take_drop_id utf8_simps(3))
  finally show ?thesis .
qed

text \<open>A line that is not the last one ends in its newline, which is outside its content.\<close>

lemma line_terminator:
  assumes "codec_ok c" and "l + 1 < length (pc_line_starts c)"
    and "slice (pc_content c) (pc_line_starts c ! l) (line_end c l) = utf8 seg"
  shows "seg \<noteq> [] \<and> last seg = 10"
proof -
  note b = line_bounds [OF assms(1) add_lessD1 [OF assms(2)]]
  from b(4) [OF assms(2)] have lt: "pc_line_starts c ! l < line_end c l"
    and nl: "pc_content c ! (line_end c l - 1) = 10" by auto
  have "last (utf8 seg) = slice (pc_content c) (pc_line_starts c ! l) (line_end c l) !
      (line_end c l - pc_line_starts c ! l - 1)"
    using lt b(2) by (metis assms(3) last_conv_nth length_slice length_0_conv zero_less_diff less_not_refl)
  also have "\<dots> = pc_content c ! (line_end c l - 1)" using lt b(2) by (simp add: slice_def)
  finally have "last (utf8 seg) = 10" using nl by simp
  moreover have "utf8 seg \<noteq> []" using lt b(2) length_slice assms(3) by (metis list.size(3) zero_less_diff less_not_refl)
  ultimately obtain s' d where sd: "seg = s' @ [d]" "last (encode_char d) = 10"
    by (cases seg rule: rev_cases) auto
  then have "10 \<in> set (encode_char d)" by (metis encode_char_not_Nil last_in_set)
  then show ?thesis using sd(1) by (simp add: newline_in_encode_char)
qed

text \<open>C35: Every position that \<open>point_to_byte\<close> accepts, in any negotiated encoding, converts back: the byte
  it returns is a code-point boundary of the same line and has the given column in that
  encoding.\<close>

theorem point_to_byte_to_point:
  assumes "make_codec content = Inr c" and "point_to_byte c line col enc = Inr b"
  shows "\<exists>p. byte_to_point c (int b) = Inr p \<and> int (pt_line p) = line \<and> pt_byte p = b
    \<and> int (point_column_in enc p) = col"
proof -
  have ok: "codec_ok c" using make_codec_ok [OF assms(1)] by simp
  from assms(2) obtain start seg i where
    lt: "line_text c line = Inr (start, seg)"
    and ci: "char_index enc (take (content_end seg) seg) col = Inr i"
    and b: "b = start + length (utf8 (take i (take (content_end seg) seg)))"
    by (auto simp: point_to_byte_def Let_def)
  from lt obtain l where l: "line = int l" "l < length (pc_line_starts c)" "start = pc_line_starts c ! l"
    and dec: "utf8_decode (slice (pc_content c) start (line_end c l)) = Some seg"
    by (auto simp: line_text_def decode_def Let_def split: if_split_asm option.split_asm
        intro!: that [of "nat line"])
  let ?pre = "take i seg"
  have i: "i \<le> content_end seg" and col: "col = int (column_of enc ?pre)"
    using char_index_sound [OF ci] by (auto simp: min_absorb1 min_absorb2 content_end_le)
  have pre: "take i (take (content_end seg) seg) = ?pre" using i by (simp add: min_def)
  note lb = line_bounds [OF ok l(2)]
  from dec have seg: "list_all is_scalar seg" "slice (pc_content c) start (line_end c l) = utf8 seg"
    by (auto simp: utf8_decode_iff)
  have len: "length (utf8 seg) = line_end c l - start" using seg(2) lb(2) by (metis length_slice)
  note b' = b [unfolded pre]
  have part: "slice (pc_content c) start b = utf8 ?pre"
    unfolding b' by (rule take_utf8_slice [OF seg(2) lb(1) [folded l(3)] lb(2)])
  have ble: "b \<le> line_end c l" using b' utf8_take_le [of i seg] len lb(1) l(3) by simp
  have bless: "b < pc_line_starts c ! (l + 1)" if m: "l + 1 < length (pc_line_starts c)"
  proof -
    have "i < length seg"
      using i content_end_less [of seg] line_terminator [OF ok m seg(2) [unfolded l(3)]] by linarith
    then have "length (utf8 ?pre) < length (utf8 seg)" by (rule utf8_take_less)
    then show ?thesis using b' len l(3) m by (simp add: line_end_def)
  qed
  have "bisect_right (pc_line_starts c) b = Suc l"
    by (rule bisect_right_eqI [OF starts_sorted [OF ok] l(2) _ bless])
      (simp_all only: b' l(3) le_add1)
  moreover have "utf8_decode (utf8 ?pre) = Some ?pre"
    using seg(1) by (intro utf8_decode_encode) (meson in_set_takeD list.pred_set)
  ultimately have "byte_to_point c (int b) = Inr \<lparr>pt_line = l, pt_column = length ?pre,
      pt_utf16 = utf16_units ?pre, pt_byte = b\<rparr>"
    using ble lb(2) part l(3) by (simp add: byte_to_point_def decode_def Let_def)
  then show ?thesis using col l(1) by (simp add: point_column_in_def column_of_def)
qed

text \<open>Every byte offset that converts to a point inside the content of its line converts back to
  itself in every negotiated encoding; an offset inside the line terminator is excluded, as
  the reverse direction refuses it.\<close>

theorem byte_to_point_to_byte:
  assumes "make_codec content = Inr c" and "byte_to_point c off = Inr p"
    and "line_text c (int (pt_line p)) = Inr (start, seg)" and "pt_column p \<le> content_end seg"
  shows "point_to_byte c (int (pt_line p)) (int (point_column_in enc p)) enc = Inr (nat off)"
proof -
  have ok: "codec_ok c" using make_codec_ok [OF assms(1)] by simp
  from assms(2) have o: "off \<ge> 0" "nat off \<le> length (pc_content c)"
    by (auto simp: byte_to_point_def split: if_split_asm)
  from bisect_right_line [OF ok o(2)] obtain l where l: "bisect_right (pc_line_starts c) (nat off) = Suc l"
    "l < length (pc_line_starts c)" "pc_line_starts c ! l \<le> nat off" "nat off \<le> line_end c l" .
  from assms(2) o l(1) obtain pre where
    pre: "utf8_decode (slice (pc_content c) (pc_line_starts c ! l) (nat off)) = Some pre"
    and p: "p = \<lparr>pt_line = l, pt_column = length pre, pt_utf16 = utf16_units pre, pt_byte = nat off\<rparr>"
    by (auto simp: byte_to_point_def decode_def Let_def split: if_split_asm option.split_asm)
  from line_decodes [OF ok l(2)] obtain seg' where
    seg': "utf8_decode (slice (pc_content c) (pc_line_starts c ! l) (line_end c l)) = Some seg'" ..
  with line_text_eq [OF ok l(2)] assms(3) p have start: "start = pc_line_starts c ! l" "seg' = seg" by auto
  from utf8_decode_suffix [OF seg' [unfolded slice_append [OF l(3,4)]] pre] start(2)
  obtain v where v: "seg = pre @ v" by auto
  have len: "length pre \<le> content_end seg" using assms(4) p by simp
  then have body: "take (length pre) (take (content_end seg) seg) = pre" by (simp add: v min_def)
  have "char_index enc (take (content_end seg) seg) (int (column_of enc pre)) = Inr (length pre)"
    using char_index_hit [of "length pre" "take (content_end seg) seg" enc] len content_end_le [of seg] body
    by simp
  moreover have "point_column_in enc p = column_of enc pre"
    by (simp add: p point_column_in_def column_of_def)
  moreover have "start + length (utf8 pre) = nat off"
    using pre l(3,4) o(2) start(1) by (auto simp: utf8_decode_iff dest: arg_cong [where f = length])
  ultimately show ?thesis using assms(3) body by (simp add: point_to_byte_def Let_def)
qed

text \<open>\<open>byte_to_point\<close> fails exactly on the offsets outside the document and on those that split a
  code point.\<close>

theorem byte_to_point_domain:
  assumes "make_codec content = Inr c"
  shows "(\<exists>p. byte_to_point c off = Inr p) \<longleftrightarrow>
    0 \<le> off \<and> off \<le> int (length content) \<and> utf8_decode (take (nat off) content) \<noteq> None"
proof (cases "0 \<le> off \<and> off \<le> int (length content)")
  case True
  have ok: "codec_ok c" and cc: "pc_content c = content" using make_codec_ok [OF assms] by auto
  then have "nat off \<le> length (pc_content c)" using True by (simp add: nat_le_iff)
  from bisect_right_line [OF ok this] obtain l where l: "bisect_right (pc_line_starts c) (nat off) = Suc l"
    "l < length (pc_line_starts c)" "pc_line_starts c ! l \<le> nat off" .
  obtain w where w: "utf8_decode (take (pc_line_starts c ! l) content) = Some w"
    using starts_aligned [OF ok, of "pc_line_starts c ! l"] l(2) cc by auto
  have "(\<exists>v. utf8_decode (slice content (pc_line_starts c ! l) (nat off)) = Some v) \<longleftrightarrow>
      utf8_decode (take (nat off) content) \<noteq> None"
    using decode_slice_iff [OF w l(3)] utf8_decode_suffix [OF _ w] take_slice [OF l(3), of content]
    by (metis not_Some_eq)
  then show ?thesis using True l(1) cc
    by (auto simp: byte_to_point_def decode_def Let_def split: option.split)
qed (use make_codec_ok [OF assms] in \<open>auto simp: byte_to_point_def\<close>)

lemma point_to_byte_to_point_witness:
  "\<exists>c p. make_codec [97, 10, 0xF0, 0x9F, 0x98, 0x80, 98] = Inr c \<and> point_to_byte c 1 2 UTF16 = Inr 6
     \<and> byte_to_point c 6 = Inr p \<and> pt_line p = 1 \<and> pt_utf16 p = 2"
proof -
  define c where "c = \<lparr>pc_content = [97, 10, 0xF0, 0x9F, 0x98, 0x80, 98], pc_line_starts = [0, 2]\<rparr>"
  have c: "make_codec [97, 10, 0xF0, 0x9F, 0x98, 0x80, 98] = Inr c"
    by (simp add: c_def make_codec_def decode_char.simps is_cont_def is_scalar_def)
  have d: "point_to_byte c 1 2 UTF16 = Inr 6"
    by (simp add: c_def point_to_byte_def line_text_def line_end_def slice_def decode_def Let_def
        decode_char.simps is_cont_def is_scalar_def content_end_def char_index_def utf16_width_def
        encode_char_def)
  from point_to_byte_to_point [OF c d] obtain p where
    p: "byte_to_point c (int 6) = Inr p" "int (pt_line p) = 1" "int (point_column_in UTF16 p) = 2" by blast
  show ?thesis
  proof (intro exI conjI)
    show "byte_to_point c 6 = Inr p" using p(1) by simp
    show "pt_line p = 1" "pt_utf16 p = 2" using p(2,3) by (simp_all add: point_column_in_def)
  qed (rule c d)+
qed

lemma byte_to_point_to_byte_witness:
  "\<exists>c. make_codec [97, 10, 0xC3, 0xA9, 13, 10] = Inr c \<and> point_to_byte c 1 1 UTF16 = Inr 4"
proof -
  define c where "c = \<lparr>pc_content = [97, 10, 0xC3, 0xA9, 13, 10], pc_line_starts = [0, 2, 6]\<rparr>"
  define p where "p = \<lparr>pt_line = 1, pt_column = 1, pt_utf16 = 1, pt_byte = 4\<rparr>"
  note eval = c_def p_def decode_char.simps is_cont_def is_scalar_def decode_def slice_def Let_def
  have c: "make_codec [97, 10, 0xC3, 0xA9, 13, 10] = Inr c" by (simp add: eval make_codec_def)
  have p: "byte_to_point c 4 = Inr p"
    by (simp add: eval byte_to_point_def bisect_right_def utf16_width_def utf16_units_def)
  have t: "line_text c (int (pt_line p)) = Inr (2, [0xE9, 13, 10])"
    by (simp add: eval line_text_def line_end_def)
  have e: "pt_column p \<le> content_end [0xE9, 13, 10]" by (simp add: p_def content_end_def)
  show ?thesis using c byte_to_point_to_byte [OF c p t e, of UTF16]
    by (auto simp: p_def point_column_in_def)
qed

lemma byte_to_point_domain_witness:
  "\<exists>c. make_codec [0xC3, 0xA9] = Inr c \<and> \<not> (\<exists>p. byte_to_point c 1 = Inr p)"
proof -
  have c: "make_codec [0xC3, 0xA9] = Inr \<lparr>pc_content = [0xC3, 0xA9], pc_line_starts = [0]\<rparr>"
    by (simp add: make_codec_def decode_char.simps is_cont_def is_scalar_def)
  have d: "utf8_decode (take (nat 1) [0xC3, 0xA9]) = None"
    by (simp add: decode_char.simps is_cont_def is_scalar_def)
  show ?thesis using byte_to_point_domain [OF c, of 1] c d by auto
qed

end
