(* ===== verification/Tables.thy ===== *)
theory Tables
  imports Prelude
begin

text \<open>
  The fixed table catalog (\<open>contracts/tables.py\<close>): every descriptor with its producer,
  prerequisites and semantic requirement, request validation, and the tables that a
  syntax-only pass can materialize. The facts about the concrete catalog (unique names, known
  prerequisites, a rank that every prerequisite lowers) are evaluated once here and used
  through \<open>catalog_by_name\<close> afterwards.
\<close>

subsection \<open>Descriptors\<close>

datatype producer =
  P_SNAPSHOT | P_CATALOG | P_STRUCTURAL | P_SEMANTIC | P_AUTHORITY | P_DERIVED | P_IMPORTED

text \<open>Iterating over the enumeration visits the members in definition order.\<close>

definition all_producers :: "producer list" where
  "all_producers =
     [P_SNAPSHOT, P_CATALOG, P_STRUCTURAL, P_SEMANTIC, P_AUTHORITY, P_DERIVED, P_IMPORTED]"

fun producer_value :: "producer \<Rightarrow> string" where
  "producer_value P_SNAPSHOT = ''snapshot''"
| "producer_value P_CATALOG = ''catalog''"
| "producer_value P_STRUCTURAL = ''structural''"
| "producer_value P_SEMANTIC = ''semantic''"
| "producer_value P_AUTHORITY = ''authority''"
| "producer_value P_DERIVED = ''derived''"
| "producer_value P_IMPORTED = ''imported''"

fun producer_supported_tables :: "producer \<Rightarrow> string list" where
  "producer_supported_tables P_SNAPSHOT = [''repository.files'']"
| "producer_supported_tables P_CATALOG =
     [''repository.projects'', ''repository.dependencies'', ''repository.scripts'',
      ''repository.configurations'', ''repository.engines'', ''repository.typescript_routes'',
      ''repository.routes'', ''repository.rules'', ''repository.symbols'', ''repository.imports'',
      ''repository.diagnostics'', ''repository.changes'', ''repository.chunks'']"
| "producer_supported_tables P_STRUCTURAL =
     [''syntax.call_sites'', ''syntax.declarations'', ''syntax.exports'', ''syntax.imports'',
      ''syntax.members'', ''syntax.references'', ''framework.registrations'',
      ''entrypoint_candidates'', ''quality.standards'', ''tests'']"
| "producer_supported_tables P_SEMANTIC =
     [''semantic.symbols'', ''semantic.definitions'', ''semantic.references'',
      ''semantic.implementations'', ''semantic.imports'', ''semantic.calls'', ''quality.diagnostics'']"
| "producer_supported_tables P_AUTHORITY =
     [''authority.entrypoints'', ''authority.owners'', ''authority.policies'',
      ''authority.bindings'', ''authority.conflicts'']"
| "producer_supported_tables P_DERIVED =
     [''derived.dependencies'', ''derived.consumers'', ''derived.impact'', ''derived.cycles'',
      ''derived.dead_code_candidates'']"
| "producer_supported_tables P_IMPORTED = [''coverage'']"

datatype table_evidence_kind = TE_STRUCTURAL | TE_SEMANTIC | TE_METADATA | TE_DERIVED
datatype semantic_requirement = SR_NONE | SR_OPTIONAL | SR_REQUIRED
datatype cost_class = CC_CHEAP | CC_MODERATE | CC_EXPENSIVE
datatype availability = Available | Unavailable

record table_descriptor =
  td_name :: string
  td_availability :: availability
  td_unavailable_reason :: "string option"
  td_prerequisites :: "string list"
  td_producer :: producer
  td_evidence_kind :: table_evidence_kind
  td_semantic_requirement :: semantic_requirement
  td_cost_class :: cost_class
  td_default_row_limit :: nat
  td_coverage_semantics :: string
  td_meaning :: string

definition descriptor ::
  "string \<Rightarrow> producer \<Rightarrow> table_evidence_kind \<Rightarrow> string \<Rightarrow> string list \<Rightarrow> semantic_requirement \<Rightarrow>
   cost_class \<Rightarrow> nat \<Rightarrow> string \<Rightarrow> table_descriptor" where
  "descriptor name producer kind meaning prereqs requirement cost row_limit semantics =
     (let available = name \<in> set (producer_supported_tables producer)
      in \<lparr>td_name = name,
          td_availability = (if available then Available else Unavailable),
          td_unavailable_reason =
            (if available then None
             else Some (name @ '': producer '' @ producer_value producer @ '' does not implement this table'')),
          td_prerequisites = prereqs, td_producer = producer, td_evidence_kind = kind,
          td_semantic_requirement = requirement, td_cost_class = cost,
          td_default_row_limit = row_limit, td_coverage_semantics = semantics, td_meaning = meaning\<rparr>)"

text \<open>The default arguments of \<open>_descriptor\<close> are written out at each entry.\<close>

definition default_coverage_semantics :: string where
  "default_coverage_semantics = ''authoritative only under complete coverage''"

definition catalog_repository :: "table_descriptor list" where
  "catalog_repository =
    [descriptor ''repository.files'' P_SNAPSHOT TE_METADATA
      ''Eligible files and hashes''
      [] SR_NONE CC_CHEAP 200
      default_coverage_semantics,
     descriptor ''repository.projects'' P_CATALOG TE_METADATA
      ''Workspace packages and project owners''
      [] SR_NONE CC_CHEAP 200
      default_coverage_semantics,
     descriptor ''repository.dependencies'' P_CATALOG TE_METADATA
      ''Declared dependencies with resolved catalog specifiers and usage''
      [] SR_NONE CC_CHEAP 200
      default_coverage_semantics,
     descriptor ''repository.scripts'' P_CATALOG TE_METADATA
      ''Package-owned commands, typechecks, and build prerequisites''
      [] SR_NONE CC_CHEAP 200
      default_coverage_semantics,
     descriptor ''repository.configurations'' P_CATALOG TE_METADATA
      ''Configuration roots, parser owners, closures, and coverage''
      [] SR_NONE CC_CHEAP 200
      default_coverage_semantics,
     descriptor ''repository.engines'' P_CATALOG TE_METADATA
      ''Declared, loaded, binary, API, LSP, and typecheck engine identities''
      [] SR_NONE CC_CHEAP 200
      default_coverage_semantics,
     descriptor ''repository.typescript_routes'' P_CATALOG TE_METADATA
      ''Per-project TypeScript configs, roots, libraries, engines, parity, and typechecks''
      [] SR_NONE CC_CHEAP 200
      default_coverage_semantics,
     descriptor ''repository.routes'' P_CATALOG TE_METADATA
      ''Framework routes, registrations, methods, runtimes, and source owners''
      [] SR_NONE CC_CHEAP 200
      default_coverage_semantics,
     descriptor ''repository.rules'' P_CATALOG TE_METADATA
      ''Canonical structural-policy rules, applicability, and bundle identities''
      [] SR_NONE CC_CHEAP 200
      default_coverage_semantics,
     descriptor ''repository.symbols'' P_CATALOG TE_SEMANTIC
      ''Byte-bound semantic symbol revisions and engine identities''
      [] SR_OPTIONAL CC_CHEAP 200
      default_coverage_semantics,
     descriptor ''repository.imports'' P_CATALOG TE_SEMANTIC
      ''Resolved and unresolved source import and dynamic-load edges''
      [] SR_OPTIONAL CC_CHEAP 200
      default_coverage_semantics,
     descriptor ''repository.diagnostics'' P_CATALOG TE_METADATA
      ''Generation-bound compiler and language-server diagnostics''
      [] SR_OPTIONAL CC_CHEAP 200
      default_coverage_semantics,
     descriptor ''repository.changes'' P_CATALOG TE_METADATA
      ''Latest bounded generation delta with added, changed, and deleted paths''
      [] SR_NONE CC_CHEAP 200
      default_coverage_semantics,
     descriptor ''repository.chunks'' P_CATALOG TE_METADATA
      ''Deterministic bounded retrieval chunks''
      [] SR_NONE CC_CHEAP 100
      default_coverage_semantics]"

definition catalog_structural :: "table_descriptor list" where
  "catalog_structural =
    [descriptor ''syntax.declarations'' P_STRUCTURAL TE_STRUCTURAL
      ''Declarations and lexical scopes''
      [] SR_NONE CC_CHEAP 200
      default_coverage_semantics,
     descriptor ''syntax.members'' P_STRUCTURAL TE_STRUCTURAL
      ''Class members and their nearest class owners''
      [] SR_NONE CC_CHEAP 200
      default_coverage_semantics,
     descriptor ''syntax.imports'' P_STRUCTURAL TE_STRUCTURAL
      ''Import syntax and unresolved module candidates''
      [] SR_NONE CC_CHEAP 200
      ''candidates; unresolved until semantic resolution'',
     descriptor ''syntax.exports'' P_STRUCTURAL TE_STRUCTURAL
      ''Exports and re-exports''
      [] SR_NONE CC_CHEAP 200
      default_coverage_semantics,
     descriptor ''syntax.call_sites'' P_STRUCTURAL TE_STRUCTURAL
      ''Syntactic calls with callee positions''
      [] SR_NONE CC_CHEAP 200
      ''candidates; never projected into semantic or derived tables'',
     descriptor ''syntax.references'' P_STRUCTURAL TE_STRUCTURAL
      ''Unresolved source reference candidates''
      [] SR_NONE CC_CHEAP 200
      ''candidates; unresolved until semantic resolution. Languages without a separate reference syntax report this as not applicable rather than empty'',
     descriptor ''framework.registrations'' P_STRUCTURAL TE_STRUCTURAL
      ''Routes, handlers, jobs, plugins''
      [] SR_NONE CC_CHEAP 200
      default_coverage_semantics,
     descriptor ''entrypoint_candidates'' P_STRUCTURAL TE_STRUCTURAL
      ''Executables, handlers, jobs, public roots''
      [] SR_NONE CC_CHEAP 200
      ''candidates'',
     descriptor ''quality.standards'' P_STRUCTURAL TE_STRUCTURAL
      ''Repository policy findings, or explicit unsupported coverage when unavailable''
      [] SR_NONE CC_CHEAP 200
      default_coverage_semantics]"

definition catalog_semantic :: "table_descriptor list" where
  "catalog_semantic =
    [descriptor ''semantic.symbols'' P_SEMANTIC TE_SEMANTIC
      ''Canonical identity where supported''
      [''repository.symbols'', ''repository.engines''] SR_REQUIRED CC_MODERATE 200
      default_coverage_semantics,
     descriptor ''semantic.definitions'' P_SEMANTIC TE_SEMANTIC
      ''Definition targets for selected seeds''
      [''semantic.symbols''] SR_REQUIRED CC_MODERATE 200
      default_coverage_semantics,
     descriptor ''semantic.references'' P_SEMANTIC TE_SEMANTIC
      ''Reference locations''
      [''semantic.symbols''] SR_REQUIRED CC_MODERATE 200
      default_coverage_semantics,
     descriptor ''semantic.implementations'' P_SEMANTIC TE_SEMANTIC
      ''Implementation targets''
      [''semantic.symbols''] SR_REQUIRED CC_MODERATE 200
      default_coverage_semantics,
     descriptor ''semantic.imports'' P_SEMANTIC TE_SEMANTIC
      ''Resolved module/import edges''
      [] SR_REQUIRED CC_MODERATE 200
      default_coverage_semantics,
     descriptor ''semantic.calls'' P_SEMANTIC TE_SEMANTIC
      ''Resolved call edges''
      [] SR_REQUIRED CC_EXPENSIVE 200
      default_coverage_semantics,
     descriptor ''quality.diagnostics'' P_SEMANTIC TE_METADATA
      ''Diagnostics with provider coverage''
      [''repository.diagnostics'', ''repository.engines''] SR_OPTIONAL CC_MODERATE 200
      default_coverage_semantics]"

definition catalog_authority :: "table_descriptor list" where
  "catalog_authority =
    [descriptor ''authority.entrypoints'' P_AUTHORITY TE_METADATA
      ''Declared application/package/runtime roots''
      [] SR_NONE CC_CHEAP 200
      default_coverage_semantics,
     descriptor ''authority.owners'' P_AUTHORITY TE_METADATA
      ''Typed ownership claims under the four-tier precedence (D030)''
      [] SR_NONE CC_CHEAP 200
      default_coverage_semantics,
     descriptor ''authority.policies'' P_AUTHORITY TE_METADATA
      ''Canonical consumer records with preserved vocabulary and canonicality evidence''
      [] SR_NONE CC_CHEAP 200
      default_coverage_semantics,
     descriptor ''authority.bindings'' P_AUTHORITY TE_METADATA
      ''Consumer-authored field relationships and neutral repository evidence edges''
      [''repository.imports'', ''repository.scripts'', ''repository.configurations'', ''syntax.imports'', ''framework.registrations'', ''tests''] SR_NONE CC_CHEAP 200
      default_coverage_semantics,
     descriptor ''authority.conflicts'' P_AUTHORITY TE_METADATA
      ''One evidence row per competing or redundant ownership or governance claim''
      [''repository.imports'', ''repository.scripts'', ''repository.configurations'', ''syntax.imports'', ''framework.registrations'', ''tests''] SR_NONE CC_CHEAP 200
      ''complete coverage may contain a conflicted or redundant decision state'',
     descriptor ''tests'' P_STRUCTURAL TE_STRUCTURAL
      ''Declarations found in recognized test files (no coverage or execution claim)''
      [] SR_NONE CC_CHEAP 200
      default_coverage_semantics,
     descriptor ''coverage'' P_IMPORTED TE_METADATA
      ''Coverage inputs from trusted CI artifacts''
      [] SR_NONE CC_CHEAP 200
      default_coverage_semantics]"

definition catalog_derived :: "table_descriptor list" where
  "catalog_derived =
    [descriptor ''derived.dependencies'' P_DERIVED TE_DERIVED
      ''Forward dependency view''
      [''semantic.imports''] SR_NONE CC_CHEAP 200
      default_coverage_semantics,
     descriptor ''derived.consumers'' P_DERIVED TE_DERIVED
      ''Reverse dependency/reference/call view over resolved edges only''
      [''semantic.imports'', ''semantic.calls''] SR_NONE CC_CHEAP 200
      default_coverage_semantics,
     descriptor ''derived.impact'' P_DERIVED TE_DERIVED
      ''Bounded paths from selected seeds''
      [''derived.dependencies''] SR_NONE CC_EXPENSIVE 200
      default_coverage_semantics,
     descriptor ''derived.cycles'' P_DERIVED TE_DERIVED
      ''Deterministic SCCs over resolved edges''
      [''derived.dependencies''] SR_NONE CC_CHEAP 200
      default_coverage_semantics,
     descriptor ''derived.dead_code_candidates'' P_DERIVED TE_DERIVED
      ''Qualified unreachable candidates; never certain under partial coverage''
      [''authority.entrypoints'', ''derived.consumers''] SR_NONE CC_CHEAP 200
      ''qualified candidates; partial coverage forbids certainty'']"

definition TABLE_CATALOG :: "table_descriptor list" where
  "TABLE_CATALOG =
     catalog_repository @ catalog_structural @ catalog_semantic @ catalog_authority @ catalog_derived"

definition catalog_by_name :: "string \<Rightarrow> table_descriptor option" where
  "catalog_by_name name = map_of (map (\<lambda>d. (td_name d, d)) (rev TABLE_CATALOG)) name"

subsection \<open>Facts about the catalog\<close>

definition producer_index :: "producer \<Rightarrow> nat" where
  "producer_index p = length (takeWhile (\<lambda>q. q \<noteq> p) all_producers)"

text \<open>The table names producer by producer; the rank of a table is its position there.\<close>

definition names_by_producer :: "string list" where
  "names_by_producer = concat (map producer_supported_tables all_producers)"

definition table_rank :: "string \<Rightarrow> nat" where
  "table_rank t = length (takeWhile (\<lambda>n. n \<noteq> t) names_by_producer)"

lemma catalog_distinct: "distinct (map td_name TABLE_CATALOG)"
  by code_simp

lemma catalog_ranked:
  "list_all (\<lambda>(t, ps). list_all (\<lambda>p. table_rank p < table_rank t) ps)
     (map (\<lambda>d. (td_name d, td_prerequisites d)) TABLE_CATALOG)"
  by code_simp

lemma catalog_prerequisites_known:
  "list_all (\<lambda>ps. list_all (\<lambda>p. p \<in> set names_by_producer) ps) (map td_prerequisites TABLE_CATALOG)"
  by code_simp

lemma catalog_names: "set (map td_name TABLE_CATALOG) = set names_by_producer"
proof
  show "set (map td_name TABLE_CATALOG) \<subseteq> set names_by_producer"
    unfolding subset_code(1) list_all_iff [symmetric] by code_simp
  show "set names_by_producer \<subseteq> set (map td_name TABLE_CATALOG)"
    unfolding subset_code(1) list_all_iff [symmetric] by code_simp
qed

lemma catalog_by_name_Some:
  "catalog_by_name t = Some d \<longleftrightarrow> d \<in> set TABLE_CATALOG \<and> td_name d = t"
proof -
  have "distinct (map fst (map (\<lambda>d. (td_name d, d)) (rev TABLE_CATALOG)))"
    using catalog_distinct by (simp add: rev_map [symmetric] comp_def)
  then show ?thesis
    by (auto simp: catalog_by_name_def map_of_eq_Some_iff)
qed

lemma catalog_by_name_known: "(\<exists>d. catalog_by_name t = Some d) \<longleftrightarrow> t \<in> set names_by_producer"
  unfolding catalog_names [symmetric] by (auto simp: catalog_by_name_Some)

lemma catalog_by_name_None: "catalog_by_name t = None \<longleftrightarrow> t \<notin> set names_by_producer"
  using catalog_by_name_known [of t] by (metis not_Some_eq)

text \<open>
  The interface the traversals of the catalog rely on: every prerequisite is known and has a
  smaller rank. \<open>reach t\<close> is the prerequisite closure of \<open>t\<close>.
\<close>

locale ranked_catalog =
  fixes prereqs :: "'k \<Rightarrow> 'k list option"
    and rank :: "'k \<Rightarrow> nat"
  assumes known: "prereqs t = Some ps \<Longrightarrow> p \<in> set ps \<Longrightarrow> \<exists>qs. prereqs p = Some qs"
    and lower: "prereqs t = Some ps \<Longrightarrow> p \<in> set ps \<Longrightarrow> rank p < rank t"
begin

inductive reach :: "'k \<Rightarrow> 'k \<Rightarrow> bool" where
  refl: "reach t t"
| step: "prereqs t = Some ps \<Longrightarrow> p \<in> set ps \<Longrightarrow> reach p q \<Longrightarrow> reach t q"

lemma reach_unfold:
  "prereqs t = Some ps \<Longrightarrow> reach t q \<longleftrightarrow> q = t \<or> (\<exists>p \<in> set ps. reach p q)"
  by (subst reach.simps) auto

lemma reach_known: "reach t q \<Longrightarrow> prereqs t \<noteq> None \<Longrightarrow> prereqs q \<noteq> None"
  by (induction rule: reach.induct) (auto dest: known)

lemma reach_trans: "reach t p \<Longrightarrow> reach p q \<Longrightarrow> reach t q"
  by (induction rule: reach.induct) (auto intro: reach.intros)

lemma reach_rank: "reach t q \<Longrightarrow> q = t \<or> rank q < rank t"
  by (induction rule: reach.induct) (auto dest: lower)

lemma ranked_induct [consumes 1, case_names entry]:
  assumes "prereqs t = Some ps"
    and "\<And>t ps. prereqs t = Some ps \<Longrightarrow> (\<And>p qs. p \<in> set ps \<Longrightarrow> prereqs p = Some qs \<Longrightarrow> P p) \<Longrightarrow> P t"
  shows "P t"
  using assms(1)
proof (induction "rank t" arbitrary: t ps rule: less_induct)
  case less
  show ?case
  proof (rule assms(2) [OF less.prems])
    fix p qs
    assume "p \<in> set ps" and "prereqs p = Some qs"
    with less show "P p" using lower by blast
  qed
qed

end

definition catalog_prereqs :: "string \<Rightarrow> string list option" where
  "catalog_prereqs t = map_option td_prerequisites (catalog_by_name t)"

interpretation cat: ranked_catalog catalog_prereqs table_rank
proof unfold_locales
  fix t ps p
  assume "catalog_prereqs t = Some ps" and p: "p \<in> set ps"
  then obtain d where d: "d \<in> set TABLE_CATALOG" "td_name d = t" "td_prerequisites d = ps"
    by (auto simp: catalog_prereqs_def catalog_by_name_Some)
  show "\<exists>qs. catalog_prereqs p = Some qs"
    using catalog_prerequisites_known d p catalog_by_name_known [of p]
    by (fastforce simp: catalog_prereqs_def list_all_iff)
  show "table_rank p < table_rank t"
    using catalog_ranked d p by (fastforce simp: list_all_iff)
qed

subsection \<open>Operations\<close>

datatype table_error =
    KeyError string
  | CyclicPrerequisite string
  | UnknownTableError string
  | TablePlanError ustr
  | ProducerRaised string
  | LimitBelowOne

function supports_syntax_only :: "string set \<Rightarrow> string \<Rightarrow> (table_error, bool) result"
  and supports_all :: "string set \<Rightarrow> string list \<Rightarrow> (table_error, bool) result" where
  "supports_syntax_only visiting t =
     (if t \<in> visiting then Inl (CyclicPrerequisite t)
      else (case catalog_by_name t of
              None \<Rightarrow> Inl (KeyError t)
            | Some d \<Rightarrow>
                if td_availability d \<noteq> Available \<or> td_producer d = P_SEMANTIC
                   \<or> td_semantic_requirement d = SR_REQUIRED
                then Inr False
                else supports_all (insert t visiting) (td_prerequisites d)))"
| "supports_all visiting [] = Inr True"
| "supports_all visiting (p # ps) =
     bind_err (supports_syntax_only visiting p) (\<lambda>b. if b then supports_all visiting ps else Inr False)"
  by pat_completeness auto
termination
proof (relation "measures
    [\<lambda>x. card (set names_by_producer - (case x of Inl (v, t) \<Rightarrow> v | Inr (v, ps) \<Rightarrow> v)),
     \<lambda>x. (case x of Inl _ \<Rightarrow> 0 | Inr (v, ps) \<Rightarrow> Suc (length ps))]")
  fix visiting t d
  assume "t \<notin> visiting" and "catalog_by_name t = Some d"
  then have "set names_by_producer - insert t visiting \<subset> set names_by_producer - visiting"
    using catalog_by_name_known [of t] by auto
  then have "card (set names_by_producer - insert t visiting) < card (set names_by_producer - visiting)"
    by (rule psubset_card_mono [rotated]) simp
  then show "(Inr (insert t visiting, td_prerequisites d), Inl (visiting, t)) \<in> measures
    [\<lambda>x. card (set names_by_producer - (case x of Inl (v, t) \<Rightarrow> v | Inr (v, ps) \<Rightarrow> v)),
     \<lambda>x. (case x of Inl _ \<Rightarrow> 0 | Inr (v, ps) \<Rightarrow> Suc (length ps))]" by simp
qed auto

declare supports_syntax_only.simps [simp del]

definition SYNTAX_ONLY_MATERIALIZED_TABLES :: "string list" where
  "SYNTAX_ONLY_MATERIALIZED_TABLES =
     map td_name (filter (\<lambda>d. supports_syntax_only {} (td_name d) = Inr True) TABLE_CATALOG)"

text \<open>The message lists the unknown names sorted and joined.\<close>

definition unknown_tables :: "string list \<Rightarrow> string list \<Rightarrow> string list" where
  "unknown_tables include_tables exclude_tables =
     sorted_list_of_set {t \<in> set include_tables \<union> set exclude_tables. catalog_by_name t = None}"

definition validate_table_selection ::
  "string list \<Rightarrow> string list \<Rightarrow> (table_error, table_descriptor list) result" where
  "validate_table_selection include_tables exclude_tables =
     (let unknown = unknown_tables include_tables exclude_tables in
      if unknown \<noteq> [] then Inl (UnknownTableError (''unknown table(s): '' @ join_with '', '' unknown))
      else Inr (filter (\<lambda>d. td_name d \<in> set include_tables \<and> td_name d \<notin> set exclude_tables)
                  TABLE_CATALOG))"

subsection \<open>Correctness\<close>

definition syntax_only_row :: "string \<Rightarrow> bool" where
  "syntax_only_row t \<longleftrightarrow>
     (\<exists>d. catalog_by_name t = Some d \<and> td_availability d = Available
        \<and> td_producer d \<noteq> P_SEMANTIC \<and> td_semantic_requirement d \<noteq> SR_REQUIRED)"

lemma supports_all_eq:
  assumes "\<And>p. p \<in> set ps \<Longrightarrow> supports_syntax_only visiting p = Inr (b p)"
  shows "supports_all visiting ps = Inr (list_all b ps)"
  using assms by (induction ps) auto

lemma supports_syntax_only_eq:
  assumes "catalog_prereqs t = Some ps" and "\<forall>v \<in> visiting. table_rank t < table_rank v"
  shows "supports_syntax_only visiting t = Inr (\<forall>q. cat.reach t q \<longrightarrow> syntax_only_row q)"
  using assms
proof (induction arbitrary: visiting rule: cat.ranked_induct)
  case (entry t ps)
  from entry.hyps obtain d where d: "catalog_by_name t = Some d" "td_prerequisites d = ps"
    by (auto simp: catalog_prereqs_def)
  have prem: "supports_syntax_only (insert t visiting) p = Inr (\<forall>q. cat.reach p q \<longrightarrow> syntax_only_row q)"
    if p: "p \<in> set ps" for p
  proof -
    obtain qs where qs: "catalog_prereqs p = Some qs" using cat.known [OF entry.hyps p] by blast
    have "table_rank p < table_rank t" by (rule cat.lower [OF entry.hyps p])
    then have "\<forall>v \<in> insert t visiting. table_rank p < table_rank v"
      using entry.prems by (metis insert_iff order.strict_trans)
    then show ?thesis by (rule entry.IH [OF p qs])
  qed
  have row: "syntax_only_row t \<longleftrightarrow> td_availability d = Available
      \<and> td_producer d \<noteq> P_SEMANTIC \<and> td_semantic_requirement d \<noteq> SR_REQUIRED"
    using d by (simp add: syntax_only_row_def)
  have "t \<notin> visiting" using entry.prems by auto
  moreover have "supports_all (insert t visiting) ps =
      Inr (\<forall>p \<in> set ps. \<forall>q. cat.reach p q \<longrightarrow> syntax_only_row q)"
    using supports_all_eq [OF prem, of ps] by (simp add: list_all_iff)
  ultimately have "supports_syntax_only visiting t =
      Inr (syntax_only_row t \<and> (\<forall>p \<in> set ps. \<forall>q. cat.reach p q \<longrightarrow> syntax_only_row q))"
    using d by (auto simp: supports_syntax_only.simps [of visiting t] row)
  then show ?case using cat.reach_unfold [OF entry.hyps] by auto
qed

text \<open>\<open>SYNTAX_ONLY_MATERIALIZED_TABLES\<close> is exactly the catalog tables whose whole prerequisite
  closure is available, produced outside the semantic plane and free of required semantics,
  in catalog order; the recursion never reports a cycle.\<close>

theorem syntax_only_materialized_spec:
  "SYNTAX_ONLY_MATERIALIZED_TABLES =
     filter (\<lambda>t. {q. cat.reach t q} \<subseteq> {q. syntax_only_row q}) (map td_name TABLE_CATALOG)
   \<and> list_all (\<lambda>d. \<exists>b. supports_syntax_only {} (td_name d) = Inr b) TABLE_CATALOG"
proof -
  have eq: "supports_syntax_only {} (td_name d) = Inr (\<forall>q. cat.reach (td_name d) q \<longrightarrow> syntax_only_row q)"
    if "d \<in> set TABLE_CATALOG" for d
  proof -
    have "catalog_prereqs (td_name d) = Some (td_prerequisites d)"
      using that catalog_by_name_Some [of "td_name d" d] by (simp add: catalog_prereqs_def)
    then show ?thesis by (rule supports_syntax_only_eq) simp
  qed
  then show ?thesis
    by (auto simp: SYNTAX_ONLY_MATERIALIZED_TABLES_def filter_map comp_def list_all_iff subset_eq
        cong: filter_cong)
qed

lemma unknown_tables_empty:
  "unknown_tables inc exc = [] \<longleftrightarrow> set inc \<union> set exc \<subseteq> set names_by_producer"
  by (auto simp: unknown_tables_def catalog_by_name_None)

lemma validate_table_selection_Inr:
  "validate_table_selection inc exc = Inr ds \<longleftrightarrow>
     set inc \<union> set exc \<subseteq> set names_by_producer
     \<and> ds = filter (\<lambda>d. td_name d \<in> set inc \<and> td_name d \<notin> set exc) TABLE_CATALOG"
  by (auto simp: validate_table_selection_def Let_def unknown_tables_empty)

end
