(* ===== verification/Planner.thy ===== *)
theory Planner
  imports Tables
begin

text \<open>
  Demand-driven planning and assembly of the analysis frame (\<open>tables/planner.py\<close>): the
  prerequisite closure of each requested table, the plan with its producer batches, and the
  run of every producer with its degradations. Producers are parameters: their results, the
  tables they support and their coverage notes are whatever they return. The lemmas show what
  a plan holds, that no table is lost between the plan and the frame, and what a frame that
  claims completeness contains. Clock values (\<open>deadline\<close>, \<open>elapsed_ms\<close>) are left out of the
  coverage record.
\<close>

subsection \<open>Data\<close>

datatype evidence_kind = EV_STRUCTURAL | EV_SEMANTIC | EV_METADATA | EV_HEURISTIC

datatype resolution_status =
  RS_RESOLVED | RS_PARTIAL | RS_UNRESOLVED | RS_UNAVAILABLE | RS_CANDIDATE

datatype semantic_mode = SYNTAX_ONLY | BEST_AVAILABLE | SEMANTIC_REQUIRED

text \<open>A fact row with the evidence fields the planner reads.\<close>

record fact_row =
  row_table :: string
  row_evidence_id :: string
  row_evidence_kind :: evidence_kind
  row_resolution :: resolution_status

record table_plan =
  tp_requested :: "string list"
  tp_execution_order :: "string list"
  tp_blocked :: "(string, ustr list) dict"
  tp_producer_tables :: "(producer, string list) dict"

record snapshot_bundle =
  sb_snapshot_id :: string
  sb_workspace_id :: string
  sb_files :: "string list"
  sb_contents :: "(string, nat list) dict"
  sb_changed :: bool
  sb_notes :: "ustr list"

text \<open>
  A producer: \<open>produce\<close> may raise, and its second result is \<open>coverage_notes()\<close> after the call,
  \<open>None\<close> for a producer that is not a \<open>TableCoverageReporter\<close>.
\<close>

type_synonym tables = "(string, fact_row list) dict"

record table_producer =
  pr_supported :: "string set"
  pr_produce :: "string list \<Rightarrow> snapshot_bundle \<Rightarrow> semantic_mode \<Rightarrow> tables \<Rightarrow>
    (table_error, tables \<times> ustr list option) result"

datatype frame_status =
  FS_COMPLETE | FS_PARTIAL | FS_TRUNCATED | FS_UNSUPPORTED | FS_FAILED | FS_CHANGED_DURING_ANALYSIS

record coverage =
  cov_status :: frame_status
  cov_eligible_files :: nat
  cov_examined_files :: nat
  cov_parse_failures :: nat
  cov_candidate_count :: nat
  cov_resolution_attempts :: nat
  cov_resolved_count :: nat
  cov_unsupported_count :: nat
  cov_failed_count :: nat
  cov_omitted_reasons :: "ustr list"
  cov_max_rows :: nat
  cov_max_files :: nat
  cov_max_bytes :: nat
  cov_max_depth :: nat

record analysis_frame =
  af_snapshot_id :: string
  af_workspace_id :: string
  af_semantic_mode :: semantic_mode
  af_coverage :: coverage
  af_tables :: tables
  af_warnings :: "ustr list"

subsection \<open>Bounded notes\<close>

text \<open>The code point 8230 is the ellipsis.\<close>

definition bounded_coverage_note :: "ustr \<Rightarrow> ustr" where
  "bounded_coverage_note note = (if length note \<le> 512 then note else take (512 - 1) note @ [8230])"

definition bounded_producer_notes :: "producer \<Rightarrow> ustr list \<Rightarrow> ustr list" where
  "bounded_producer_notes producer notes =
     map bounded_coverage_note (take 8 notes)
     @ (if length notes > 8
        then [u (show_nat (length notes - 8)) @ u '' further coverage notes from producer ''
              @ u (producer_value producer) @ u '' omitted'']
        else [])"

definition bounded_omitted_reasons :: "ustr list \<Rightarrow> ustr list" where
  "bounded_omitted_reasons reasons =
     (let bounded = map bounded_coverage_note reasons; kept = 64 - 1 in
      if length bounded \<le> 64 then bounded
      else take kept bounded
           @ [u (show_nat (length bounded - kept))
              @ u '' further coverage reasons omitted from this generation''])"

subsection \<open>Planning\<close>

definition excluded_reason :: "string \<Rightarrow> ustr" where
  "excluded_reason t = u ''excluded prerequisite '' @ u t"

function closure_of :: "string set \<Rightarrow> string set \<Rightarrow> string \<Rightarrow> (table_error, string set \<times> ustr list) result"
  and closure_of_prerequisites ::
    "string set \<Rightarrow> string set \<Rightarrow> string list \<Rightarrow> string set \<Rightarrow> (table_error, string set \<times> ustr list) result"
where
  "closure_of excluded visiting t =
     (if t \<in> excluded then Inr ({}, [excluded_reason t])
      else if t \<in> visiting then Inl (CyclicPrerequisite t)
      else (case catalog_by_name t of
              None \<Rightarrow> Inl (KeyError t)
            | Some d \<Rightarrow> closure_of_prerequisites excluded (insert t visiting) (td_prerequisites d) {t}))"
| "closure_of_prerequisites excluded visiting [] closure = Inr (closure, [])"
| "closure_of_prerequisites excluded visiting (p # ps) closure =
     bind_err (closure_of excluded visiting p) (\<lambda>(c, reasons).
       if reasons \<noteq> [] then Inr ({}, reasons)
       else closure_of_prerequisites excluded visiting ps (closure \<union> c))"
  by pat_completeness auto
termination
proof (relation "measures
    [\<lambda>x. card (set names_by_producer - (case x of Inl (e, v, t) \<Rightarrow> v | Inr (e, v, ps, c) \<Rightarrow> v)),
     \<lambda>x. (case x of Inl _ \<Rightarrow> 0 | Inr (e, v, ps, c) \<Rightarrow> Suc (length ps))]")
  fix excluded visiting t d
  assume "t \<notin> visiting" and "catalog_by_name t = Some d"
  then have "set names_by_producer - insert t visiting \<subset> set names_by_producer - visiting"
    using catalog_by_name_known [of t] by auto
  then have "card (set names_by_producer - insert t visiting) < card (set names_by_producer - visiting)"
    by (rule psubset_card_mono [rotated]) simp
  then show "(Inr (excluded, insert t visiting, td_prerequisites d, {t}), Inl (excluded, visiting, t)) \<in> measures
    [\<lambda>x. card (set names_by_producer - (case x of Inl (e, v, t) \<Rightarrow> v | Inr (e, v, ps, c) \<Rightarrow> v)),
     \<lambda>x. (case x of Inl _ \<Rightarrow> 0 | Inr (e, v, ps, c) \<Rightarrow> Suc (length ps))]" by simp
qed auto

declare closure_of.simps [simp del]

text \<open>One iteration of the loop over the requested tables.\<close>

definition plan_table ::
  "string set \<Rightarrow> string \<Rightarrow> string set \<times> (string, ustr list) dict \<Rightarrow>
   (table_error, string set \<times> (string, ustr list) dict) result" where
  "plan_table excluded t st =
     bind_err (closure_of excluded {} t) (\<lambda>(closure, reasons).
       Inr (if reasons \<noteq> [] then (fst st, AList.update t reasons (snd st))
            else (fst st \<union> closure, snd st)))"

definition has_producer :: "producer \<Rightarrow> string \<Rightarrow> bool" where
  "has_producer p t \<longleftrightarrow> (case catalog_by_name t of None \<Rightarrow> False | Some d \<Rightarrow> td_producer d = p)"

lemma has_producer_iff: "has_producer p t \<longleftrightarrow> (\<exists>d. catalog_by_name t = Some d \<and> td_producer d = p)"
  by (auto simp: has_producer_def split: option.split)

definition batches :: "string list \<Rightarrow> (producer, string list) dict" where
  "batches order =
     map (\<lambda>p. (p, filter (has_producer p) order)) (filter (\<lambda>p. \<exists>t \<in> set order. has_producer p t) all_producers)"

definition plan_tables :: "string list \<Rightarrow> string list \<Rightarrow> (table_error, table_plan) result" where
  "plan_tables include_tables exclude_tables =
     bind_err (validate_table_selection include_tables exclude_tables) (\<lambda>selected.
       let requested = map td_name selected in
       bind_err (fold_err (plan_table (set exclude_tables)) requested ({}, [])) (\<lambda>(planned, blocked).
         let order = map td_name (filter (\<lambda>d. td_name d \<in> planned) TABLE_CATALOG)
         in Inr \<lparr>tp_requested = requested, tp_execution_order = order, tp_blocked = blocked,
                 tp_producer_tables = batches order\<rparr>))"

subsection \<open>Execution\<close>

definition unsupported_reason :: "producer \<Rightarrow> bool \<Rightarrow> string \<Rightarrow> ustr" where
  "unsupported_reason producer implementation_missing t =
     (case Option.bind (catalog_by_name t) td_unavailable_reason of
        Some reason \<Rightarrow> u reason
      | None \<Rightarrow>
          if implementation_missing
          then u t @ u '': producer '' @ u (producer_value producer) @ u '' is unavailable''
          else u t @ u '': producer '' @ u (producer_value producer) @ u '' does not advertise support'')"

lemma foldr_max_Suc_less: "\<forall>p \<in> set ps. r p < n \<Longrightarrow> foldr (\<lambda>p m. max (Suc (r p)) m) ps 0 < Suc n"
  by (induction ps) auto

text \<open>A name outside the catalog, on which the code raises \<open>KeyError\<close>, is never in a plan.\<close>

function requires_semantic :: "string \<Rightarrow> bool" and requires_semantic_any :: "string list \<Rightarrow> bool" where
  "requires_semantic t \<longleftrightarrow>
     (case catalog_by_name t of None \<Rightarrow> False
      | Some d \<Rightarrow> td_producer d = P_SEMANTIC \<or> requires_semantic_any (td_prerequisites d))"
| "requires_semantic_any [] \<longleftrightarrow> False"
| "requires_semantic_any (p # ps) \<longleftrightarrow> requires_semantic p \<or> requires_semantic_any ps"
  by pat_completeness auto
termination
proof (relation "measures
    [\<lambda>x. (case x of Inl t \<Rightarrow> Suc (table_rank t) | Inr ps \<Rightarrow> foldr (\<lambda>p m. max (Suc (table_rank p)) m) ps 0),
     \<lambda>x. (case x of Inl _ \<Rightarrow> 0 | Inr ps \<Rightarrow> Suc (length ps))]")
  fix t d
  assume "catalog_by_name t = Some d"
  then have "\<forall>p \<in> set (td_prerequisites d). table_rank p < table_rank t"
    using cat.lower [of t] by (auto simp: catalog_prereqs_def)
  then have "foldr (\<lambda>p m. max (Suc (table_rank p)) m) (td_prerequisites d) 0 < Suc (table_rank t)"
    by (rule foldr_max_Suc_less)
  then show "(Inr (td_prerequisites d), Inl t) \<in> measures
    [\<lambda>x. (case x of Inl t \<Rightarrow> Suc (table_rank t) | Inr ps \<Rightarrow> foldr (\<lambda>p m. max (Suc (table_rank p)) m) ps 0),
     \<lambda>x. (case x of Inl _ \<Rightarrow> 0 | Inr ps \<Rightarrow> Suc (length ps))]" by simp
qed auto

declare requires_semantic.simps [simp del]

definition validate_row :: "string \<Rightarrow> fact_row \<Rightarrow> unit \<Rightarrow> (table_error, unit) result" where
  "validate_row t row _ =
     (if row_table row \<noteq> t
      then Inl (TablePlanError (u ''producer for '' @ u t @ u '' returned row for '' @ u (row_table row)))
      else if startswith t ''derived.'' \<and> row_evidence_kind row = EV_STRUCTURAL
      then Inl (TablePlanError (u ''structural candidate cannot be projected into '' @ u t))
      else Inr ())"

definition validate_rows :: "string \<Rightarrow> fact_row list \<Rightarrow> (table_error, unit) result" where
  "validate_rows t rows = fold_err (validate_row t) rows ()"

text \<open>The mutable locals of \<open>execute\<close>.\<close>

record exec_state =
  xs_produced :: tables
  xs_omitted :: "ustr list"
  xs_unsupported :: nat
  xs_truncated :: bool
  xs_degraded :: bool

definition collect_table ::
  "producer \<Rightarrow> nat \<Rightarrow> tables \<Rightarrow> string \<Rightarrow> exec_state \<Rightarrow> (table_error, exec_state) result" where
  "collect_table producer row_limit output t s =
     (case map_of output t of
        None \<Rightarrow> Inr (s\<lparr>xs_unsupported := xs_unsupported s + 1,
                       xs_omitted := xs_omitted s @
                         [u t @ u '': producer '' @ u (producer_value producer) @ u '' returned no result'']\<rparr>)
      | Some rows \<Rightarrow>
          bind_err (validate_rows t rows) (\<lambda>_.
            let s' = (if length rows > row_limit
                      then s\<lparr>xs_truncated := True,
                             xs_omitted := xs_omitted s @
                               [u t @ u '': row limit '' @ u (show_nat row_limit) @ u '' reached'']\<rparr>
                      else s)
            in Inr (s'\<lparr>xs_produced := AList.update t (take row_limit rows) (xs_produced s')\<rparr>)))"

definition unplanned_error :: "producer \<Rightarrow> string set \<Rightarrow> table_error" where
  "unplanned_error producer names =
     TablePlanError (u ''producer '' @ u (producer_value producer) @ u '' returned unplanned table(s): ''
       @ u (join_with '', '' (sorted_list_of_set names)))"

text \<open>What the loop body does before \<open>produce\<close>: the omissions and the tables left to run.\<close>

definition admit_batch ::
  "semantic_mode \<Rightarrow> producer \<Rightarrow> string set \<Rightarrow> string list \<Rightarrow> exec_state \<Rightarrow> string list \<times> exec_state" where
  "admit_batch mode producer supported_tables names s =
     (let unsupported = filter (\<lambda>t. t \<notin> supported_tables) names;
          s1 = s\<lparr>xs_unsupported := xs_unsupported s + length unsupported,
                 xs_omitted := xs_omitted s @ map (unsupported_reason producer False) unsupported\<rparr>;
          supported = filter (\<lambda>t. t \<in> supported_tables) names;
          runnable = filter (\<lambda>t. \<not> (mode = SYNTAX_ONLY \<and> requires_semantic t)) supported;
          skipped = length supported - length runnable;
          s2 = (if skipped \<noteq> 0
                then s1\<lparr>xs_unsupported := xs_unsupported s1 + skipped,
                        xs_omitted := xs_omitted s1 @
                          map (\<lambda>t. u t @ u '': semantic_mode=syntax_only'')
                            (filter (\<lambda>t. t \<notin> set runnable) supported)\<rparr>
                else s1)
      in (runnable, s2))"

definition note_coverage :: "producer \<Rightarrow> ustr list option \<Rightarrow> exec_state \<Rightarrow> exec_state" where
  "note_coverage producer notes s =
     (case notes of
        Some (n # ns) \<Rightarrow>
          s\<lparr>xs_omitted := xs_omitted s @ bounded_producer_notes producer (n # ns), xs_degraded := True\<rparr>
      | _ \<Rightarrow> s)"

definition run_producer ::
  "table_plan \<Rightarrow> snapshot_bundle \<Rightarrow> semantic_mode \<Rightarrow> (producer \<Rightarrow> table_producer option) \<Rightarrow> nat \<Rightarrow>
   producer \<Rightarrow> exec_state \<Rightarrow> (table_error, exec_state) result" where
  "run_producer plan bundle mode producers row_limit producer s =
     (case map_of (tp_producer_tables plan) producer of
        None \<Rightarrow> Inr s
      | Some names \<Rightarrow>
          if names = [] then Inr s
          else (case producers producer of
             None \<Rightarrow> Inr (s\<lparr>xs_unsupported := xs_unsupported s + length names,
                            xs_omitted := xs_omitted s @ map (unsupported_reason producer True) names\<rparr>)
           | Some impl \<Rightarrow>
               let (runnable, s') = admit_batch mode producer (pr_supported impl) names s in
               if runnable = [] then Inr s'
               else bind_err (pr_produce impl runnable bundle mode (xs_produced s')) (\<lambda>(output, notes).
                 let unknown = set (dict_keys output) - set runnable in
                 if unknown \<noteq> {} then Inl (unplanned_error producer unknown)
                 else bind_err (fold_err (collect_table producer row_limit output) runnable s')
                        (\<lambda>s''. Inr (note_coverage producer notes s'')))))"

definition initial_state :: "table_plan \<Rightarrow> exec_state" where
  "initial_state plan =
     \<lparr>xs_produced = [],
      xs_omitted = concat (map (\<lambda>t. case map_of (tp_blocked plan) t of None \<Rightarrow> [] | Some rs \<Rightarrow> rs)
                     (tp_requested plan)),
      xs_unsupported = length (tp_blocked plan), xs_truncated = False, xs_degraded = False\<rparr>"

definition ordered_tables :: "table_plan \<Rightarrow> tables \<Rightarrow> tables" where
  "ordered_tables plan produced =
     List.map_filter (\<lambda>t. map_option (Pair t) (map_of produced t)) (tp_execution_order plan)"

definition frame_status_of :: "table_plan \<Rightarrow> snapshot_bundle \<Rightarrow> exec_state \<Rightarrow> frame_status" where
  "frame_status_of plan bundle s =
     (let requested_outputs = filter (\<lambda>t. map_of (xs_produced s) t \<noteq> None) (tp_requested plan) in
      if sb_changed bundle then FS_CHANGED_DURING_ANALYSIS
      else if xs_truncated s then FS_TRUNCATED
      else if xs_unsupported s \<noteq> 0 \<and> requested_outputs = [] then FS_UNSUPPORTED
      else if xs_unsupported s \<noteq> 0 \<or> xs_degraded s then FS_PARTIAL
      else FS_COMPLETE)"

definition assemble_frame ::
  "table_plan \<Rightarrow> snapshot_bundle \<Rightarrow> semantic_mode \<Rightarrow> nat \<Rightarrow> nat \<Rightarrow> exec_state \<Rightarrow> analysis_frame" where
  "assemble_frame plan bundle mode row_limit max_depth s =
     (let tables = ordered_tables plan (xs_produced s);
          all_rows = concat (map snd tables);
          resolving = [P_SEMANTIC, P_AUTHORITY, P_DERIVED]
      in \<lparr>af_snapshot_id = sb_snapshot_id bundle, af_workspace_id = sb_workspace_id bundle,
          af_semantic_mode = mode,
          af_coverage =
            \<lparr>cov_status = frame_status_of plan bundle s,
             cov_eligible_files = length (sb_files bundle),
             cov_examined_files = (if tp_execution_order plan \<noteq> [] then length (sb_files bundle) else 0),
             cov_parse_failures = 0,
             cov_candidate_count = length (filter (\<lambda>r. row_resolution r = RS_CANDIDATE) all_rows),
             cov_resolution_attempts =
               length (filter (\<lambda>t. \<exists>p \<in> set resolving. has_producer p t) (map fst tables)),
             cov_resolved_count = length (filter (\<lambda>r. row_resolution r = RS_RESOLVED) all_rows),
             cov_unsupported_count = xs_unsupported s, cov_failed_count = 0,
             cov_omitted_reasons = bounded_omitted_reasons (xs_omitted s),
             cov_max_rows = row_limit, cov_max_files = max (length (sb_files bundle)) 1,
             cov_max_bytes = max (sum_list (map (length \<circ> snd) (sb_contents bundle))) 1,
             cov_max_depth = max_depth\<rparr>,
          af_tables = tables, af_warnings = sb_notes bundle @ xs_omitted s\<rparr>)"

text \<open>The coverage contract refuses limits below one when the frame is built.\<close>

definition execute_plan ::
  "table_plan \<Rightarrow> snapshot_bundle \<Rightarrow> semantic_mode \<Rightarrow> (producer \<Rightarrow> table_producer option) \<Rightarrow> nat \<Rightarrow> nat \<Rightarrow>
   (table_error, analysis_frame) result" where
  "execute_plan plan bundle mode producers row_limit max_depth =
     bind_err (fold_err (run_producer plan bundle mode producers row_limit) all_producers (initial_state plan))
       (\<lambda>s. if row_limit < 1 \<or> max_depth < 1 then Inl LimitBelowOne
            else Inr (assemble_frame plan bundle mode row_limit max_depth s))"

subsection \<open>What a plan holds\<close>

definition blocked_by :: "string set \<Rightarrow> string \<Rightarrow> bool" where
  "blocked_by excluded t \<longleftrightarrow> (\<exists>e \<in> excluded. cat.reach t e)"

definition closure_result ::
  "string set \<Rightarrow> (string \<Rightarrow> bool) \<Rightarrow> string set \<Rightarrow> (table_error, string set \<times> ustr list) result \<Rightarrow> bool" where
  "closure_result excluded bad closure r \<longleftrightarrow>
     (if \<exists>t. bad t then \<exists>e. e \<in> excluded \<and> r = Inr ({}, [excluded_reason e]) else r = Inr (closure, []))"

lemma closure_of_prerequisites_eq:
  assumes "\<And>p. p \<in> set ps \<Longrightarrow>
      (if blocked_by excluded p then \<exists>e \<in> excluded. cat.reach p e \<and> closure_of excluded visiting p = Inr ({}, [excluded_reason e])
       else closure_of excluded visiting p = Inr ({q. cat.reach p q}, []))"
  shows "if \<exists>p \<in> set ps. blocked_by excluded p
    then \<exists>p \<in> set ps. \<exists>e \<in> excluded. cat.reach p e
      \<and> closure_of_prerequisites excluded visiting ps acc = Inr ({}, [excluded_reason e])
    else closure_of_prerequisites excluded visiting ps acc = Inr (acc \<union> {q. \<exists>p \<in> set ps. cat.reach p q}, [])"
  using assms
proof (induction ps arbitrary: acc)
  case (Cons p ps)
  show ?case
  proof (cases "blocked_by excluded p")
    case True
    with Cons.prems [of p] obtain e where "e \<in> excluded" "cat.reach p e"
      "closure_of excluded visiting p = Inr ({}, [excluded_reason e])" by auto
    then show ?thesis using True by auto
  next
    case False
    with Cons.prems [of p] have "closure_of_prerequisites excluded visiting (p # ps) acc =
        closure_of_prerequisites excluded visiting ps (acc \<union> {q. cat.reach p q})" by simp
    moreover have "acc \<union> {q. cat.reach p q} \<union> {q. \<exists>p \<in> set ps. cat.reach p q} =
        acc \<union> {q. \<exists>p \<in> set (p # ps). cat.reach p q}" by auto
    ultimately show ?thesis
      using Cons.IH [of "acc \<union> {q. cat.reach p q}"] Cons.prems False
      by (auto split: if_split_asm)
  qed
qed simp

lemma closure_of_eq:
  assumes "catalog_prereqs t = Some ps" and "\<forall>v \<in> visiting. table_rank t < table_rank v"
  shows "if blocked_by excluded t
    then \<exists>e \<in> excluded. cat.reach t e \<and> closure_of excluded visiting t = Inr ({}, [excluded_reason e])
    else closure_of excluded visiting t = Inr ({q. cat.reach t q}, [])"
  using assms
proof (induction arbitrary: visiting rule: cat.ranked_induct)
  case (entry t ps)
  from entry.hyps obtain d where d: "catalog_by_name t = Some d" "td_prerequisites d = ps"
    by (auto simp: catalog_prereqs_def)
  have "t \<notin> visiting" using entry.prems by auto
  then have unfold: "closure_of excluded visiting t = (if t \<in> excluded then Inr ({}, [excluded_reason t])
      else closure_of_prerequisites excluded (insert t visiting) ps {t})"
    using d by (simp add: closure_of.simps [of excluded visiting t])
  have "if blocked_by excluded p
      then \<exists>e \<in> excluded. cat.reach p e \<and> closure_of excluded (insert t visiting) p = Inr ({}, [excluded_reason e])
      else closure_of excluded (insert t visiting) p = Inr ({q. cat.reach p q}, [])" if p: "p \<in> set ps" for p
  proof -
    obtain qs where qs: "catalog_prereqs p = Some qs" using cat.known [OF entry.hyps p] by blast
    have "\<forall>v \<in> insert t visiting. table_rank p < table_rank v"
      using cat.lower [OF entry.hyps p] entry.prems by (metis insert_iff order.strict_trans)
    then show ?thesis by (rule entry.IH [OF p qs])
  qed
  from closure_of_prerequisites_eq [OF this, of ps "{t}"]
  have step: "if \<exists>p \<in> set ps. blocked_by excluded p
    then \<exists>p \<in> set ps. \<exists>e \<in> excluded. cat.reach p e
      \<and> closure_of_prerequisites excluded (insert t visiting) ps {t} = Inr ({}, [excluded_reason e])
    else closure_of_prerequisites excluded (insert t visiting) ps {t} =
      Inr ({t} \<union> {q. \<exists>p \<in> set ps. cat.reach p q}, [])" by simp
  have blocked: "blocked_by excluded t \<longleftrightarrow> t \<in> excluded \<or> (\<exists>p \<in> set ps. blocked_by excluded p)"
    using cat.reach_unfold [OF entry.hyps] by (auto simp: blocked_by_def)
  have reach: "{q. cat.reach t q} = {t} \<union> {q. \<exists>p \<in> set ps. cat.reach p q}"
    using cat.reach_unfold [OF entry.hyps] by auto
  consider (self) "t \<in> excluded" | (prereq) "t \<notin> excluded" "\<exists>p \<in> set ps. blocked_by excluded p"
    | (free) "t \<notin> excluded" "\<not> (\<exists>p \<in> set ps. blocked_by excluded p)" by blast
  then show ?case
  proof cases
    case self
    then show ?thesis using unfold blocked cat.reach.refl by auto
  next
    case prereq
    with step obtain p e where pe: "p \<in> set ps" "e \<in> excluded" "cat.reach p e"
      "closure_of_prerequisites excluded (insert t visiting) ps {t} = Inr ({}, [excluded_reason e])" by auto
    moreover from pe have "cat.reach t e" by (auto intro: cat.reach.step [OF entry.hyps])
    ultimately show ?thesis using prereq unfold blocked by auto
  next
    case free
    then show ?thesis using unfold blocked reach step by simp
  qed
qed

lemma catalog_prereqs_known: "t \<in> set names_by_producer \<longleftrightarrow> (\<exists>ps. catalog_prereqs t = Some ps)"
  using catalog_by_name_known [of t] by (auto simp: catalog_prereqs_def)

lemma plan_table_eq:
  assumes "t \<in> set names_by_producer"
  shows "if blocked_by excluded t
    then \<exists>e \<in> excluded. cat.reach t e \<and>
      plan_table excluded t st = Inr (fst st, AList.update t [excluded_reason e] (snd st))
    else plan_table excluded t st = Inr (fst st \<union> {q. cat.reach t q}, snd st)"
proof -
  obtain ps where "catalog_prereqs t = Some ps" using assms catalog_prereqs_known by blast
  from closure_of_eq [OF this, of "{}" excluded] show ?thesis
    by (cases "blocked_by excluded t") (auto simp: plan_table_def)
qed

definition blocked_ok :: "string set \<Rightarrow> (string, ustr list) dict \<Rightarrow> bool" where
  "blocked_ok excluded blocked \<longleftrightarrow> dict_ok blocked \<and>
     (\<forall>(t, rs) \<in> set blocked. \<exists>e \<in> excluded. cat.reach t e \<and> rs = [excluded_reason e])"

lemma blocked_ok_update:
  "blocked_ok excluded b \<Longrightarrow> e \<in> excluded \<Longrightarrow> cat.reach t e \<Longrightarrow>
     blocked_ok excluded (AList.update t [excluded_reason e] b)"
  by (auto simp: blocked_ok_def mem_update_dict split: if_split_asm)

lemma fold_plan_table:
  assumes "set ts \<subseteq> set names_by_producer" and "blocked_ok excluded (snd st)"
  shows "\<exists>st'. fold_err (plan_table excluded) ts st = Inr st' \<and> blocked_ok excluded (snd st')
    \<and> fst st' = fst st \<union> {q. \<exists>t \<in> set ts. \<not> blocked_by excluded t \<and> cat.reach t q}
    \<and> fst ` set (snd st') = fst ` set (snd st) \<union> {t \<in> set ts. blocked_by excluded t}"
  using assms
proof (induction ts arbitrary: st)
  case (Cons t ts)
  show ?case
  proof (cases "blocked_by excluded t")
    case True
    with plan_table_eq [of t excluded st] Cons.prems obtain e where e: "e \<in> excluded" "cat.reach t e"
      "plan_table excluded t st = Inr (fst st, AList.update t [excluded_reason e] (snd st))" by auto
    with Cons.IH [of "(fst st, AList.update t [excluded_reason e] (snd st))"] Cons.prems True
    show ?thesis by (auto simp: blocked_ok_update keys_update_dict)
  next
    case False
    with plan_table_eq [of t excluded st] Cons.prems
    have "plan_table excluded t st = Inr (fst st \<union> {q. cat.reach t q}, snd st)" by auto
    with Cons.IH [of "(fst st \<union> {q. cat.reach t q}, snd st)"] Cons.prems False
    show ?thesis by auto
  qed
qed auto

lemma plan_tables_cases:
  "plan_tables inc exc = Inr plan \<longleftrightarrow>
     set inc \<union> set exc \<subseteq> set names_by_producer \<and>
     (\<exists>planned blocked.
        fold_err (plan_table (set exc)) (tp_requested plan) ({}, []) = Inr (planned, blocked) \<and>
        tp_requested plan = filter (\<lambda>t. t \<in> set inc \<and> t \<notin> set exc) (map td_name TABLE_CATALOG) \<and>
        tp_execution_order plan = filter (\<lambda>t. t \<in> planned) (map td_name TABLE_CATALOG) \<and>
        tp_blocked plan = blocked \<and> tp_producer_tables plan = batches (tp_execution_order plan))"
  by (cases plan) (auto simp: plan_tables_def validate_table_selection_Inr filter_map comp_def Let_def)

lemma fold_plan_table_start:
  assumes "set ts \<subseteq> set names_by_producer"
  shows "\<exists>planned blocked. fold_err (plan_table excluded) ts ({}, []) = Inr (planned, blocked)
    \<and> blocked_ok excluded blocked
    \<and> planned = {q. \<exists>t \<in> set ts. \<not> blocked_by excluded t \<and> cat.reach t q}
    \<and> fst ` set blocked = {t \<in> set ts. blocked_by excluded t}"
  using fold_plan_table [OF assms, of excluded "({}, [])"] by (auto simp: blocked_ok_def)

lemma requested_known: "plan_tables inc exc = Inr plan \<Longrightarrow> set (tp_requested plan) \<subseteq> set names_by_producer"
  using catalog_names by (auto simp: plan_tables_cases)

lemma reach_in_catalog:
  assumes "t \<in> set names_by_producer" and "cat.reach t q"
  shows "q \<in> td_name ` set TABLE_CATALOG"
  using cat.reach_known [OF assms(2)] assms(1) catalog_names catalog_prereqs_known by force

subsection \<open>A concrete run\<close>

definition demo_plan :: table_plan where
  "demo_plan = \<lparr>tp_requested = [''derived.dependencies''],
     tp_execution_order = [''semantic.imports'', ''derived.dependencies''], tp_blocked = [],
     tp_producer_tables = [(P_SEMANTIC, [''semantic.imports'']), (P_DERIVED, [''derived.dependencies''])]\<rparr>"

lemma demo_plan_planned: "plan_tables [''derived.dependencies''] [] = Inr demo_plan"
  by code_simp

lemma blocked_plan_planned:
  "plan_tables [''semantic.references''] [''repository.symbols''] =
     Inr \<lparr>tp_requested = [''semantic.references''], tp_execution_order = [],
          tp_blocked = [(''semantic.references'', [excluded_reason ''repository.symbols''])], tp_producer_tables = []\<rparr>"
  by code_simp

definition demo_row :: "string \<Rightarrow> string \<Rightarrow> fact_row" where
  "demo_row t i = \<lparr>row_table = t, row_evidence_id = i, row_evidence_kind = EV_SEMANTIC, row_resolution = RS_RESOLVED\<rparr>"

text \<open>Two rows for every table, from the producers of the given list.\<close>

definition demo_producers :: "producer list \<Rightarrow> producer \<Rightarrow> table_producer option" where
  "demo_producers ps p =
     (if p \<in> set ps
      then Some \<lparr>pr_supported = {''semantic.imports'', ''derived.dependencies''},
        pr_produce = (\<lambda>names bundle mode facts. Inr (map (\<lambda>t. (t, [demo_row t ''a'', demo_row t ''b''])) names, None))\<rparr>
      else None)"

definition demo_bundle :: snapshot_bundle where
  "demo_bundle = \<lparr>sb_snapshot_id = ''s1'', sb_workspace_id = ''w1'', sb_files = [''a.py''], sb_contents = [],
     sb_changed = False, sb_notes = []\<rparr>"

definition demo_frame :: "producer list \<Rightarrow> nat \<Rightarrow> analysis_frame" where
  "demo_frame ps row_limit =
     (case execute_plan demo_plan demo_bundle BEST_AVAILABLE (demo_producers ps) row_limit 4 of Inr f \<Rightarrow> f)"

lemma demo_frame_partial:
  "execute_plan demo_plan demo_bundle BEST_AVAILABLE (demo_producers [P_SEMANTIC]) 1 4 =
     Inr (demo_frame [P_SEMANTIC] 1)"
  by code_simp

lemma plan_tables_content:
  assumes "plan_tables inc exc = Inr plan"
  shows "tp_requested plan = filter (\<lambda>t. t \<in> set inc \<and> t \<notin> set exc) (map td_name TABLE_CATALOG)
    \<and> set (tp_execution_order plan) =
        {q. \<exists>t \<in> set (tp_requested plan). (\<forall>e \<in> set exc. \<not> cat.reach t e) \<and> cat.reach t q}
    \<and> fst ` set (tp_blocked plan) = {t \<in> set (tp_requested plan). \<exists>e \<in> set exc. cat.reach t e}
    \<and> (\<forall>(t, rs) \<in> set (tp_blocked plan). \<exists>e \<in> set exc. cat.reach t e \<and> rs = [excluded_reason e])"
proof -
  note kn = requested_known [OF assms]
  from fold_plan_table_start [OF kn, of "set exc"] obtain planned blocked where
    fold: "fold_err (plan_table (set exc)) (tp_requested plan) ({}, []) = Inr (planned, blocked)"
    and b: "blocked_ok (set exc) blocked" "fst ` set blocked = {t \<in> set (tp_requested plan). blocked_by (set exc) t}"
    and pl: "planned = {q. \<exists>t \<in> set (tp_requested plan). \<not> blocked_by (set exc) t \<and> cat.reach t q}"
    by blast
  from assms fold have bl: "tp_blocked plan = blocked"
    and o: "tp_execution_order plan = filter (\<lambda>t. t \<in> planned) (map td_name TABLE_CATALOG)"
    and req: "tp_requested plan = filter (\<lambda>t. t \<in> set inc \<and> t \<notin> set exc) (map td_name TABLE_CATALOG)"
    unfolding plan_tables_cases by auto
  have "set (tp_execution_order plan) = {q. \<exists>t \<in> set (tp_requested plan). \<not> blocked_by (set exc) t \<and> cat.reach t q}"
  proof -
    have "q \<in> set (map td_name TABLE_CATALOG)" if "q \<in> planned" for q
      using that reach_in_catalog [OF subsetD [OF kn]] unfolding pl set_map by blast
    then have "set (tp_execution_order plan) = planned" unfolding o set_filter by blast
    then show ?thesis unfolding pl .
  qed
  then have order: "set (tp_execution_order plan) =
      {q. \<exists>t \<in> set (tp_requested plan). (\<forall>e \<in> set exc. \<not> cat.reach t e) \<and> cat.reach t q}"
    by (simp add: blocked_by_def)
  have "fst ` set (tp_blocked plan) = {t \<in> set (tp_requested plan). \<exists>e \<in> set exc. cat.reach t e}"
    using b(2) unfolding bl blocked_by_def .
  moreover have "\<forall>(t, rs) \<in> set (tp_blocked plan). \<exists>e \<in> set exc. cat.reach t e \<and> rs = [excluded_reason e]"
    using b(1) unfolding bl blocked_ok_def by (rule conjunct2)
  ultimately show ?thesis using req order by (intro conjI)
qed

text \<open>C7: A plan holds exactly the prerequisite closure of the requested tables that reach no excluded
  table; a requested table is blocked, with the reason naming an excluded table it needs,
  exactly when its closure meets the exclusions.\<close>

theorem plan_tables_spec:
  assumes "plan_tables inc exc = Inr plan"
  shows "tp_requested plan = filter (\<lambda>t. t \<in> set inc \<and> t \<notin> set exc) (map td_name TABLE_CATALOG)
    \<and> set (tp_execution_order plan) =
        {q. \<exists>t \<in> set (tp_requested plan). (\<forall>e \<in> set exc. \<not> cat.reach t e) \<and> cat.reach t q}
    \<and> fst ` set (tp_blocked plan) = {t \<in> set (tp_requested plan). \<exists>e \<in> set exc. cat.reach t e}
    \<and> (\<forall>(t, rs) \<in> set (tp_blocked plan). \<exists>e \<in> set exc. cat.reach t e \<and> rs = [excluded_reason e])"
  by (rule plan_tables_content [OF assms])

lemma plan_tables_spec_witness:
  "fst ` set [(''semantic.references'', [excluded_reason ''repository.symbols''])] =
     {t \<in> set [''semantic.references'']. \<exists>e \<in> set [''repository.symbols'']. cat.reach t e}"
  using plan_tables_spec [OF blocked_plan_planned] by (simp only: table_plan.select_convs)

lemma plan_tables_defined:
  "(\<exists>plan. plan_tables inc exc = Inr plan) \<longleftrightarrow> set inc \<union> set exc \<subseteq> td_name ` set TABLE_CATALOG"
proof
  assume known: "set inc \<union> set exc \<subseteq> td_name ` set TABLE_CATALOG"
  let ?req = "filter (\<lambda>t. t \<in> set inc \<and> t \<notin> set exc) (map td_name TABLE_CATALOG)"
  have "set ?req \<subseteq> set names_by_producer" using catalog_names by auto
  from fold_plan_table_start [OF this, of "set exc"] obtain planned blocked where
    f: "fold_err (plan_table (set exc)) ?req ({}, []) = Inr (planned, blocked)" by blast
  let ?order = "filter (\<lambda>t. t \<in> planned) (map td_name TABLE_CATALOG)"
  have "plan_tables inc exc = Inr \<lparr>tp_requested = ?req, tp_execution_order = ?order,
      tp_blocked = blocked, tp_producer_tables = batches ?order\<rparr>"
    using f known catalog_names by (auto simp: plan_tables_cases)
  then show "\<exists>plan. plan_tables inc exc = Inr plan" ..
qed (use catalog_names in \<open>auto simp: plan_tables_cases\<close>)

lemma catalog_batch_order:
  "list_all (\<lambda>(p, ps). list_all (\<lambda>q. \<exists>p' \<in> set (takeWhile (\<lambda>r. r \<noteq> p) all_producers @ [p]).
      q \<in> set (producer_supported_tables p')) ps)
     (map (\<lambda>d. (td_producer d, td_prerequisites d)) TABLE_CATALOG)"
  by code_simp

lemma catalog_supported: "list_all (\<lambda>d. td_name d \<in> set (producer_supported_tables (td_producer d))) TABLE_CATALOG"
  by code_simp

lemma supported_unique:
  "list_all (\<lambda>p. list_all (\<lambda>q. p = q \<or>
      list_all (\<lambda>t. t \<notin> set (producer_supported_tables q)) (producer_supported_tables p)) all_producers) all_producers"
  by code_simp

lemma all_producers_UNIV: "p \<in> set all_producers"
  by (cases p) (simp_all add: all_producers_def)

lemma has_producer_unique: "has_producer p t \<Longrightarrow> has_producer q t \<Longrightarrow> p = q"
  by (auto simp: has_producer_iff)

lemma has_producer_supported:
  assumes "t \<in> set names_by_producer"
  shows "has_producer p t \<longleftrightarrow> t \<in> set (producer_supported_tables p)"
proof -
  obtain d where d: "catalog_by_name t = Some d" using assms catalog_by_name_known by blast
  then have "t \<in> set (producer_supported_tables (td_producer d))"
    using catalog_supported by (auto simp: catalog_by_name_Some list_all_iff)
  then show ?thesis
    using d supported_unique all_producers_UNIV [of p] all_producers_UNIV [of "td_producer d"]
    by (fastforce simp: has_producer_iff list_all_iff)
qed

lemma order_known: "plan_tables inc exc = Inr plan \<Longrightarrow> set (tp_execution_order plan) \<subseteq> set names_by_producer"
  using catalog_names by (auto simp: plan_tables_cases)

lemma order_distinct: "plan_tables inc exc = Inr plan \<Longrightarrow> distinct (tp_execution_order plan)"
  using catalog_distinct by (auto simp: plan_tables_cases)

lemma map_of_batches:
  "map_of (batches order) p =
     (if \<exists>t \<in> set order. has_producer p t then Some (filter (has_producer p) order) else None)"
  using all_producers_UNIV [of p]
  by (auto simp: batches_def map_of_map_restrict restrict_map_def map_of_eq_None_iff image_iff)

text \<open>In every plan the prerequisites of a planned table are planned too, each in the batch of the
  same producer or of a producer that runs earlier.\<close>

theorem plan_batches_respect_prerequisites:
  assumes "plan_tables inc exc = Inr plan"
    and "map_of (tp_producer_tables plan) p = Some names" and "t \<in> set names"
    and "catalog_by_name t = Some d" and "q \<in> set (td_prerequisites d)"
  shows "\<exists>p' \<in> set (takeWhile (\<lambda>r. r \<noteq> p) all_producers @ [p]).
    \<exists>names'. map_of (tp_producer_tables plan) p' = Some names' \<and> q \<in> set names'"
proof -
  have tp: "tp_producer_tables plan = batches (tp_execution_order plan)"
    using assms(1) by (auto simp: plan_tables_cases)
  then have t: "t \<in> set (tp_execution_order plan)" "has_producer p t"
    using assms(2,3) by (auto simp: map_of_batches split: if_split_asm)
  have cp: "catalog_prereqs t = Some (td_prerequisites d)" using assms(4) by (simp add: catalog_prereqs_def)
  have q: "q \<in> set (tp_execution_order plan)"
    using t(1) cat.reach_trans [OF _ cat.reach.step [OF cp assms(5) cat.reach.refl]]
      conjunct1 [OF conjunct2 [OF plan_tables_content [OF assms(1)]]] by blast
  have "td_producer d = p" "d \<in> set TABLE_CATALOG"
    using t(2) assms(4) by (auto simp: has_producer_iff catalog_by_name_Some)
  then obtain p' where p': "p' \<in> set (takeWhile (\<lambda>r. r \<noteq> p) all_producers @ [p])"
    "q \<in> set (producer_supported_tables p')"
    using catalog_batch_order assms(5) by (fastforce simp: list_all_iff)
  then have "has_producer p' q" using q order_known [OF assms(1)] has_producer_supported by blast
  then show ?thesis using p'(1) q tp by (auto simp: map_of_batches)
qed

lemma plan_batches_respect_prerequisites_witness:
  "\<exists>p' \<in> set (takeWhile (\<lambda>r. r \<noteq> P_DERIVED) all_producers @ [P_DERIVED]).
     \<exists>names'. map_of (tp_producer_tables demo_plan) p' = Some names' \<and> ''semantic.imports'' \<in> set names'"
proof (rule plan_batches_respect_prerequisites [OF demo_plan_planned])
  show "map_of (tp_producer_tables demo_plan) P_DERIVED = Some [''derived.dependencies'']" by code_simp
  show "catalog_by_name ''derived.dependencies'' = Some (the (catalog_by_name ''derived.dependencies''))" by code_simp
  show "''semantic.imports'' \<in> set (td_prerequisites (the (catalog_by_name ''derived.dependencies'')))" by code_simp
qed simp

subsection \<open>What a run keeps\<close>

definition rows_valid :: "nat \<Rightarrow> string \<Rightarrow> fact_row list \<Rightarrow> bool" where
  "rows_valid row_limit t rows \<longleftrightarrow> length rows \<le> row_limit \<and>
     (\<forall>r \<in> set rows. row_table r = t \<and> (startswith t ''derived.'' \<longrightarrow> row_evidence_kind r \<noteq> EV_STRUCTURAL))"

definition quiet :: "exec_state \<Rightarrow> bool" where
  "quiet s \<longleftrightarrow> xs_unsupported s = 0 \<and> \<not> xs_truncated s \<and> \<not> xs_degraded s"

definition exec_ok :: "nat \<Rightarrow> exec_state \<Rightarrow> bool" where
  "exec_ok row_limit s \<longleftrightarrow> dict_ok (xs_produced s)
     \<and> (\<forall>(t, rows) \<in> set (xs_produced s). rows_valid row_limit t rows)
     \<and> (quiet s \<longrightarrow> xs_omitted s = [])"

lemma validate_rows_valid:
  "validate_rows t rows = Inr x \<longleftrightarrow>
     (\<forall>r \<in> set rows. row_table r = t \<and> (startswith t ''derived.'' \<longrightarrow> row_evidence_kind r \<noteq> EV_STRUCTURAL))"
  unfolding validate_rows_def by (induction rows) (auto simp: validate_row_def)

lemma rows_valid_take: "validate_rows t rows = Inr x \<Longrightarrow> rows_valid n t (take n rows)"
  unfolding validate_rows_valid rows_valid_def by (auto dest: in_set_takeD)

lemma exec_ok_put:
  assumes "exec_ok n s" and "rows_valid n t rows"
  shows "exec_ok n (s\<lparr>xs_produced := AList.update t rows (xs_produced s)\<rparr>)"
  using assms by (auto simp: exec_ok_def quiet_def mem_update_dict split: if_split_asm)

lemma exec_ok_omit:
  "exec_ok n s \<Longrightarrow> exec_ok n (s\<lparr>xs_unsupported := xs_unsupported s + 1, xs_omitted := os\<rparr>)"
  "exec_ok n s \<Longrightarrow> exec_ok n (s\<lparr>xs_truncated := True, xs_omitted := os\<rparr>)"
  by (simp_all add: exec_ok_def quiet_def)

lemma collect_table_step:
  assumes "collect_table p row_limit output t s = Inr s'" and "exec_ok row_limit s"
    and "t \<notin> fst ` set (xs_produced s)"
  shows "exec_ok row_limit s'" "fst ` set (xs_produced s') \<subseteq> insert t (fst ` set (xs_produced s))"
    "xs_unsupported s' + length (xs_produced s') = Suc (xs_unsupported s + length (xs_produced s))"
proof -
  show "exec_ok row_limit s'"
  proof (cases "map_of output t")
    case None
    then show ?thesis using assms(1) exec_ok_omit(1) [OF assms(2)] by (auto simp: collect_table_def)
  next
    case (Some rows)
    then have v: "validate_rows t rows = Inr ()"
      using assms(1) by (cases "validate_rows t rows") (auto simp: collect_table_def)
    show ?thesis
      using assms(1) Some v exec_ok_put [OF assms(2) rows_valid_take [OF v]]
        exec_ok_put [OF exec_ok_omit(2) [OF assms(2)] rows_valid_take [OF v]]
      by (auto simp: collect_table_def Let_def split: if_split_asm)
  qed
  show "fst ` set (xs_produced s') \<subseteq> insert t (fst ` set (xs_produced s))"
  proof -
    have "xs_produced s' = xs_produced s \<or> (\<exists>rows. xs_produced s' = AList.update t rows (xs_produced s))"
      using assms(1) by (auto simp: collect_table_def Let_def split: option.split_asm if_split_asm)
    then show ?thesis
    proof
      assume "\<exists>rows. xs_produced s' = AList.update t rows (xs_produced s)"
      then obtain rows where e: "xs_produced s' = AList.update t rows (xs_produced s)" ..
      show ?thesis unfolding e keys_update_dict by (rule order.refl)
    qed auto
  qed
  show "xs_unsupported s' + length (xs_produced s') = Suc (xs_unsupported s + length (xs_produced s))"
    using assms(1,3)
    by (auto simp: collect_table_def Let_def length_update_dict split: option.split_asm if_split_asm)
qed

lemma collect_tables:
  assumes "fold_err (collect_table p row_limit output) ts s = Inr s'" and "exec_ok row_limit s"
    and "distinct ts" and "set ts \<inter> fst ` set (xs_produced s) = {}"
  shows "exec_ok row_limit s' \<and> fst ` set (xs_produced s') \<subseteq> set ts \<union> fst ` set (xs_produced s)
    \<and> xs_unsupported s' + length (xs_produced s') = length ts + xs_unsupported s + length (xs_produced s)"
  using assms
proof (induction ts arbitrary: s)
  case (Cons t ts)
  from Cons.prems(1) obtain s1 where s1: "collect_table p row_limit output t s = Inr s1"
    "fold_err (collect_table p row_limit output) ts s1 = Inr s'" by auto
  note step = collect_table_step [OF s1(1) Cons.prems(2)]
  have "t \<notin> fst ` set (xs_produced s)" using Cons.prems(4) by auto
  note st = step [OF this]
  have "set ts \<inter> fst ` set (xs_produced s1) = {}" using st(2) Cons.prems(3,4) by auto
  from Cons.IH [OF s1(2) st(1) _ this] Cons.prems(3) have
    ih: "exec_ok row_limit s'" "fst ` set (xs_produced s') \<subseteq> set ts \<union> fst ` set (xs_produced s1)"
    "xs_unsupported s' + length (xs_produced s') = length ts + xs_unsupported s1 + length (xs_produced s1)"
    by simp_all
  have "fst ` set (xs_produced s') \<subseteq> set (t # ts) \<union> fst ` set (xs_produced s)"
    using ih(2) st(2) unfolding list.set by blast
  then show ?case using ih st(3) by simp
qed simp

lemma admit_batch_step:
  assumes "admit_batch mode p supported names s = (runnable, s')" and "exec_ok row_limit s"
  shows "exec_ok row_limit s'" "xs_produced s' = xs_produced s" "set runnable \<subseteq> set names"
    "distinct names \<Longrightarrow> distinct runnable"
    "xs_unsupported s' + length runnable = xs_unsupported s + length names"
proof -
  let ?R = "\<lambda>t. \<not> (mode = SYNTAX_ONLY \<and> requires_semantic t)"
  let ?sup = "filter (\<lambda>t. t \<in> supported) names"
  have r: "runnable = filter ?R ?sup" using assms(1) by (auto simp: admit_batch_def Let_def)
  have len: "length (filter ?R ?sup) \<le> length ?sup" by (rule length_filter_le)
  have sum: "length (filter (\<lambda>t. t \<notin> supported) names) + length ?sup = length names"
    using sum_length_filter_compl [of "\<lambda>t. t \<in> supported" names] by simp
  show "exec_ok row_limit s'"
    using assms by (auto simp: admit_batch_def Let_def exec_ok_def quiet_def split: if_split_asm)
  show "xs_produced s' = xs_produced s" "set runnable \<subseteq> set names" "distinct names \<Longrightarrow> distinct runnable"
    using assms(1) by (auto simp: admit_batch_def Let_def r)
  show "xs_unsupported s' + length runnable = xs_unsupported s + length names"
    using assms(1) len sum by (auto simp: admit_batch_def Let_def simp del: filter_filter split: if_split_asm)
qed

definition covered :: "producer list \<Rightarrow> table_plan \<Rightarrow> string list" where
  "covered ps plan = filter (\<lambda>t. \<exists>p \<in> set ps. has_producer p t) (tp_execution_order plan)"

definition exec_inv :: "table_plan \<Rightarrow> nat \<Rightarrow> producer list \<Rightarrow> exec_state \<Rightarrow> bool" where
  "exec_inv plan row_limit ps s \<longleftrightarrow> exec_ok row_limit s
     \<and> fst ` set (xs_produced s) \<subseteq> set (covered ps plan)
     \<and> xs_unsupported s + length (xs_produced s) = length (tp_blocked plan) + length (covered ps plan)"

lemma covered_Cons:
  assumes "p \<notin> set ps"
  shows "length (covered (p # ps) plan) =
      length (covered ps plan) + length (filter (has_producer p) (tp_execution_order plan))"
    and "set (covered (p # ps) plan) =
      set (covered ps plan) \<union> set (filter (has_producer p) (tp_execution_order plan))"
proof -
  have "length (filter (\<lambda>t. P t \<or> Q t) xs) = length (filter Q xs) + length (filter P xs)"
    if "\<And>t. \<not> (P t \<and> Q t)" for P Q and xs :: "string list"
    using that by (induction xs) auto
  from this [of "has_producer p" "\<lambda>t. \<exists>p \<in> set ps. has_producer p t"]
  show "length (covered (p # ps) plan) =
      length (covered ps plan) + length (filter (has_producer p) (tp_execution_order plan))"
    using assms has_producer_unique by (auto simp: covered_def)
qed (auto simp: covered_def)

lemma note_coverage_step:
  "exec_ok row_limit s \<Longrightarrow> exec_ok row_limit (note_coverage p notes s)"
  "xs_produced (note_coverage p notes s) = xs_produced s"
  "xs_unsupported (note_coverage p notes s) = xs_unsupported s"
  by (auto simp: note_coverage_def exec_ok_def quiet_def split: option.split list.split)

lemma run_producer_step:
  assumes plan: "plan_tables inc exc = Inr plan"
    and run: "run_producer plan bundle mode producers row_limit p s = Inr s'"
    and inv: "exec_inv plan row_limit ps s" and p: "p \<notin> set ps"
  shows "exec_inv plan row_limit (p # ps) s'"
proof -
  let ?names = "filter (has_producer p) (tp_execution_order plan)"
  have tp: "tp_producer_tables plan = batches (tp_execution_order plan)"
    using plan by (auto simp: plan_tables_cases)
  have ok: "exec_ok row_limit s" and keys: "fst ` set (xs_produced s) \<subseteq> set (covered ps plan)"
    and count: "xs_unsupported s + length (xs_produced s) = length (tp_blocked plan) + length (covered ps plan)"
    using inv by (auto simp: exec_inv_def)
  have disj: "set ?names \<inter> fst ` set (xs_produced s) = {}"
  proof -
    have "t \<notin> set (covered ps plan)" if t: "has_producer p t" for t
    proof
      assume "t \<in> set (covered ps plan)"
      then obtain q where "q \<in> set ps" "has_producer q t" by (auto simp: covered_def)
      with has_producer_unique [OF t this(2)] p show False by simp
    qed
    then show ?thesis using keys by auto
  qed
  note cov = covered_Cons [OF p, of plan]
  show ?thesis
  proof (cases "?names = []")
    case True
    then have "s' = s" using run tp by (auto simp: run_producer_def map_of_batches filter_empty_conv)
    then show ?thesis using inv cov True by (auto simp: exec_inv_def)
  next
    case False
    then have mp: "map_of (tp_producer_tables plan) p = Some ?names"
      using tp by (auto simp: map_of_batches filter_empty_conv)
    show ?thesis
    proof (cases "producers p")
      case None
      then have "s' = s\<lparr>xs_unsupported := xs_unsupported s + length ?names,
          xs_omitted := xs_omitted s @ map (unsupported_reason p True) ?names\<rparr>"
        using run mp False by (simp add: run_producer_def)
      then show ?thesis using ok keys count cov False by (auto simp: exec_inv_def exec_ok_def quiet_def)
    next
      case (Some impl)
      obtain runnable s1 where ab: "admit_batch mode p (pr_supported impl) ?names s = (runnable, s1)"
        by fastforce
      note st = admit_batch_step [OF ab ok]
      have dist: "distinct runnable" using st(4) order_distinct [OF plan] by simp
      show ?thesis
      proof (cases "runnable = []")
        case True
        then have "s' = s1" using run mp False Some ab by (simp add: run_producer_def)
        then show ?thesis using st keys count cov True by (auto simp: exec_inv_def)
      next
        case False
        then obtain out ns s2 where
          f: "fold_err (collect_table p row_limit out) runnable s1 = Inr s2"
          and s': "s' = note_coverage p ns s2"
          using run mp \<open>?names \<noteq> []\<close> Some ab
          by (auto simp: run_producer_def Let_def split: if_split_asm)
        have "set runnable \<inter> fst ` set (xs_produced s1) = {}" using st(2,3) disj by auto
        from collect_tables [OF f st(1) dist this] have ct: "exec_ok row_limit s2"
          "fst ` set (xs_produced s2) \<subseteq> set runnable \<union> fst ` set (xs_produced s1)"
          "xs_unsupported s2 + length (xs_produced s2) =
            length runnable + xs_unsupported s1 + length (xs_produced s1)" by simp_all
        have "fst ` set (xs_produced s2) \<subseteq> set (covered (p # ps) plan)"
          unfolding cov(2) Un_commute [of "set (covered ps plan)"]
          by (rule order.trans [OF ct(2) [unfolded st(2)] Un_mono [OF st(3) keys]])
        moreover have "xs_unsupported s2 + length (xs_produced s2) =
            length (tp_blocked plan) + length (covered (p # ps) plan)"
          using ct(3) st(5) count cov(1) unfolding st(2) by linarith
        ultimately show ?thesis
          unfolding s' exec_inv_def note_coverage_step using note_coverage_step(1) [OF ct(1)] by blast
      qed
    qed
  qed
qed

lemma run_producers:
  assumes "plan_tables inc exc = Inr plan"
    and "fold_err (run_producer plan bundle mode producers row_limit) qs s = Inr s'"
    and "exec_inv plan row_limit ps s" and "distinct qs" and "set qs \<inter> set ps = {}"
  shows "exec_inv plan row_limit (rev qs @ ps) s'"
  using assms
proof (induction qs arbitrary: ps s)
  case (Cons q qs)
  then obtain s1 where s1: "run_producer plan bundle mode producers row_limit q s = Inr s1"
    "fold_err (run_producer plan bundle mode producers row_limit) qs s1 = Inr s'" by auto
  have "exec_inv plan row_limit (q # ps) s1"
    using run_producer_step [OF Cons.prems(1) s1(1) Cons.prems(3)] Cons.prems(5) by auto
  from Cons.IH [OF Cons.prems(1) s1(2) this] Cons.prems(4,5) show ?case by auto
qed simp

lemma initial_state_inv:
  assumes "plan_tables inc exc = Inr plan"
  shows "exec_inv plan row_limit [] (initial_state plan)"
proof -
  have "tp_blocked plan = [] \<Longrightarrow> xs_omitted (initial_state plan) = []"
    by (simp add: initial_state_def)
  then show ?thesis by (auto simp: exec_inv_def exec_ok_def quiet_def covered_def initial_state_def)
qed

lemma covered_all: "plan_tables inc exc = Inr plan \<Longrightarrow> covered (rev all_producers) plan = tp_execution_order plan"
  using order_known catalog_by_name_known all_producers_UNIV
  by (fastforce simp: covered_def has_producer_iff filter_id_conv)

lemma execute_plan_inv:
  assumes "plan_tables inc exc = Inr plan"
    and "execute_plan plan bundle mode producers row_limit max_depth = Inr f"
  obtains s where "exec_inv plan row_limit (rev all_producers) s"
    "f = assemble_frame plan bundle mode row_limit max_depth s"
proof -
  from assms(2) obtain s where
    s: "fold_err (run_producer plan bundle mode producers row_limit) all_producers (initial_state plan) = Inr s"
    and f: "f = assemble_frame plan bundle mode row_limit max_depth s"
    by (auto simp: execute_plan_def split: if_split_asm)
  have "distinct all_producers" by (simp add: all_producers_def)
  from run_producers [OF assms(1) s initial_state_inv [OF assms(1)] this]
  have "exec_inv plan row_limit (rev all_producers) s" by simp
  then show thesis using f that by blast
qed

lemma ordered_tables_keys:
  "map fst (ordered_tables plan produced) = filter (\<lambda>t. t \<in> fst ` set produced) (tp_execution_order plan)"
proof -
  have "map fst (List.map_filter (\<lambda>t. map_option (Pair t) (map_of produced t)) ts) =
      filter (\<lambda>t. t \<in> fst ` set produced) ts" for ts
    by (induction ts) (auto simp: List.map_filter_simps map_of_eq_None_iff split: option.split
        dest: map_of_SomeD intro: rev_image_eqI)
  then show ?thesis by (simp add: ordered_tables_def)
qed

lemma ordered_tables_mem: "(t, rows) \<in> set (ordered_tables plan produced) \<Longrightarrow> (t, rows) \<in> set produced"
  by (auto simp: ordered_tables_def List.map_filter_def dest: map_of_SomeD)

lemma length_filter_keys:
  assumes "dict_ok d" and "fst ` set d \<subseteq> set ts" and "distinct ts"
  shows "length (filter (\<lambda>t. t \<in> fst ` set d) ts) = length d"
proof -
  have "length (filter (\<lambda>t. t \<in> fst ` set d) ts) = card (set (filter (\<lambda>t. t \<in> fst ` set d) ts))"
    using assms(3) by (metis distinct_card distinct_filter)
  also have "set (filter (\<lambda>t. t \<in> fst ` set d) ts) = fst ` set d" using assms(2) by auto
  also have "card (fst ` set d) = length d"
    using assms(1) distinct_card [of "map fst d"] by (simp add: dict_ok_def)
  finally show ?thesis .
qed

lemma execute_plan_counts:
  assumes "plan_tables inc exc = Inr plan"
    and "execute_plan plan bundle mode producers row_limit max_depth = Inr f"
  shows "map fst (af_tables f) = filter (\<lambda>t. t \<in> fst ` set (af_tables f)) (tp_execution_order plan)
    \<and> cov_unsupported_count (af_coverage f) = length (tp_blocked plan)
        + length (filter (\<lambda>t. t \<notin> fst ` set (af_tables f)) (tp_execution_order plan))"
proof -
  from execute_plan_inv [OF assms] obtain s where
    inv: "exec_inv plan row_limit (rev all_producers) s"
    and f: "f = assemble_frame plan bundle mode row_limit max_depth s" by blast
  note cov = covered_all [OF assms(1)]
  let ?P = "xs_produced s"
  have tabs: "af_tables f = ordered_tables plan ?P"
    and uns: "cov_unsupported_count (af_coverage f) = xs_unsupported s"
    by (simp_all add: f assemble_frame_def Let_def)
  have keys: "map fst (af_tables f) = filter (\<lambda>t. t \<in> fst ` set ?P) (tp_execution_order plan)"
    by (simp add: tabs ordered_tables_keys)
  have same: "fst ` set (af_tables f) = fst ` set ?P"
    using arg_cong [OF keys, of set] inv cov by (auto simp: exec_inv_def)
  have "length (filter (\<lambda>t. t \<in> fst ` set ?P) (tp_execution_order plan)) = length ?P"
    using inv cov order_distinct [OF assms(1)] by (intro length_filter_keys) (auto simp: exec_inv_def exec_ok_def)
  moreover have "length (filter (\<lambda>t. t \<in> fst ` set ?P) (tp_execution_order plan))
      + length (filter (\<lambda>t. t \<notin> fst ` set ?P) (tp_execution_order plan)) = length (tp_execution_order plan)"
    by (rule sum_length_filter_compl)
  ultimately show ?thesis using keys same inv cov uns by (simp add: exec_inv_def)
qed

text \<open>C6: No table is lost between plan and frame: the frame's tables are planned ones in plan order, and
  its unsupported count is exactly the number of blocked requests plus the number of planned
  tables that are missing from the frame, whatever the producers do.\<close>

theorem execute_plan_accounting:
  assumes "plan_tables inc exc = Inr plan"
    and "execute_plan plan bundle mode producers row_limit max_depth = Inr f"
  shows "map fst (af_tables f) = filter (\<lambda>t. t \<in> fst ` set (af_tables f)) (tp_execution_order plan)
    \<and> cov_unsupported_count (af_coverage f) = length (tp_blocked plan)
        + length (filter (\<lambda>t. t \<notin> fst ` set (af_tables f)) (tp_execution_order plan))"
  by (rule execute_plan_counts [OF assms])

lemma execute_plan_accounting_witness:
  "cov_unsupported_count (af_coverage (demo_frame [P_SEMANTIC] 1)) = 1"
proof -
  have "map fst (af_tables (demo_frame [P_SEMANTIC] 1)) = [''semantic.imports'']" by code_simp
  from arg_cong [OF this, of set]
    conjunct2 [OF execute_plan_accounting [OF demo_plan_planned demo_frame_partial]]
  show ?thesis by (simp add: demo_plan_def)
qed

text \<open>A frame that claims complete coverage holds every planned table, comes from a plan with no
  blocked request on a snapshot that did not change, and carries no warning beyond the
  snapshot's own notes.\<close>

theorem complete_frame_is_total:
  assumes "plan_tables inc exc = Inr plan"
    and "execute_plan plan bundle mode producers row_limit max_depth = Inr f"
    and "cov_status (af_coverage f) = FS_COMPLETE"
  shows "map fst (af_tables f) = tp_execution_order plan \<and> tp_blocked plan = []
    \<and> \<not> sb_changed bundle \<and> af_warnings f = sb_notes bundle \<and> cov_omitted_reasons (af_coverage f) = []"
proof -
  from execute_plan_inv [OF assms(1,2)] obtain s where
    inv: "exec_inv plan row_limit (rev all_producers) s"
    and f: "f = assemble_frame plan bundle mode row_limit max_depth s" by blast
  have st: "frame_status_of plan bundle s = FS_COMPLETE" and w: "af_warnings f = sb_notes bundle @ xs_omitted s"
    and o: "cov_omitted_reasons (af_coverage f) = bounded_omitted_reasons (xs_omitted s)"
    and un: "cov_unsupported_count (af_coverage f) = xs_unsupported s"
    using assms(3) by (simp_all add: f assemble_frame_def Let_def)
  from st have q: "quiet s" "\<not> sb_changed bundle"
    by (auto simp: frame_status_of_def quiet_def Let_def split: if_split_asm)
  then have om: "xs_omitted s = []" using inv by (simp add: exec_inv_def exec_ok_def)
  from execute_plan_counts [OF assms(1,2)] un q
  have acc: "tp_blocked plan = []" "filter (\<lambda>t. t \<notin> fst ` set (af_tables f)) (tp_execution_order plan) = []"
    "map fst (af_tables f) = filter (\<lambda>t. t \<in> fst ` set (af_tables f)) (tp_execution_order plan)"
    by (auto simp: quiet_def)
  have "map fst (af_tables f) = tp_execution_order plan"
    using acc(2,3) by (metis (mono_tags, lifting) filter_True filter_empty_conv)
  then show ?thesis using acc(1) q(2) w o om by (simp add: bounded_omitted_reasons_def)
qed

text \<open>Whatever producers return, every table of a frame holds at most the row limit, only rows of
  its own name, and no structural candidate in a derived table; the coverage record keeps at
  most 64 omission reasons.\<close>

theorem frame_rows_bounded:
  assumes "plan_tables inc exc = Inr plan"
    and "execute_plan plan bundle mode producers row_limit max_depth = Inr f"
  shows "(\<forall>(t, rows) \<in> set (af_tables f). length rows \<le> row_limit \<and>
      (\<forall>r \<in> set rows. row_table r = t \<and> (startswith t ''derived.'' \<longrightarrow> row_evidence_kind r \<noteq> EV_STRUCTURAL)))
    \<and> length (cov_omitted_reasons (af_coverage f)) \<le> 64"
proof -
  from execute_plan_inv [OF assms] obtain s where
    inv: "exec_inv plan row_limit (rev all_producers) s"
    and f: "f = assemble_frame plan bundle mode row_limit max_depth s" by blast
  have "length (bounded_omitted_reasons rs) \<le> 64" for rs
    by (simp add: bounded_omitted_reasons_def Let_def)
  then have "length (cov_omitted_reasons (af_coverage f)) \<le> 64"
    by (simp add: f assemble_frame_def Let_def)
  moreover have "\<forall>(t, rows) \<in> set (af_tables f). rows_valid row_limit t rows"
    using inv by (auto simp: f assemble_frame_def Let_def exec_inv_def exec_ok_def dest!: ordered_tables_mem)
  ultimately show ?thesis by (auto simp: rows_valid_def)
qed

end
