(* ===== verification/RepoPaths.thy ===== *)
theory RepoPaths
  imports Utf8
begin

text \<open>
  Repository identities (\<open>contracts/repository.py\<close>), the file URI functions of
  \<open>contracts/positions.py\<close>, and the parts of \<open>pathlib\<close> and \<open>urllib.parse\<close> (Python 3.14, POSIX host)
  they use. Text is a list of code points. The file system enters as a parameter that says how
  a path resolves; \<open>urlsplit\<close>'s checks of a non-empty authority (bracketed IP literals and
  Unicode normalisation) are a parameter of the same record. The lemmas show that identities
  are canonical, that admission contains its paths, and that file URIs round-trip.
\<close>

subsection \<open>Case folding\<close>

definition ascii_lower :: "nat \<Rightarrow> nat" where
  "ascii_lower c = (if 65 \<le> c \<and> c \<le> 90 then c + 32 else c)"

text \<open>
  \<open>str.casefold\<close> on every code point whose folding is ASCII (\<open>ss\<close> for the sharp s, \<open>s\<close> and \<open>k\<close> for
  the long s and the Kelvin sign, the Latin ligatures); other code points stay outside ASCII
  and are left as they are, which no comparison with an ASCII key can tell apart.
\<close>

definition fold_char :: "nat \<Rightarrow> ustr" where
  "fold_char c =
     (if c < 128 then [ascii_lower c]
      else if c = 223 \<or> c = 7838 then u ''ss''
      else if c = 383 then u ''s''
      else if c = 8490 then u ''k''
      else if c = 64256 then u ''ff''
      else if c = 64257 then u ''fi''
      else if c = 64258 then u ''fl''
      else if c = 64259 then u ''ffi''
      else if c = 64260 then u ''ffl''
      else if c = 64261 \<or> c = 64262 then u ''st''
      else [c])"

definition casefold :: "ustr \<Rightarrow> ustr" where
  "casefold s = concat (map fold_char s)"

subsection \<open>Pure POSIX paths\<close>

text \<open>The root is \<open>''\<close>, \<open>'/'\<close>, or \<open>'//'\<close> for exactly two leading slashes.\<close>

record ppath =
  pp_slashes :: nat
  pp_parts :: "ustr list"

definition path_parent :: "ppath \<Rightarrow> ppath" where
  "path_parent p = p\<lparr>pp_parts := butlast (pp_parts p)\<rparr>"

definition pure_path :: "ustr \<Rightarrow> ppath" where
  "pure_path raw =
     (let n = length (takeWhile (\<lambda>c. c = 47) raw)
      in \<lparr>pp_slashes = (if n \<ge> 3 then 1 else n),
          pp_parts = filter (\<lambda>p. p \<noteq> [] \<and> p \<noteq> u ''.'') (split_on 47 raw)\<rparr>)"

definition is_absolute :: "ppath \<Rightarrow> bool" where
  "is_absolute p \<longleftrightarrow> pp_slashes p > 0"

definition as_posix :: "ppath \<Rightarrow> ustr" where
  "as_posix p =
     (if pp_slashes p = 0 \<and> pp_parts p = [] then u ''.''
      else replicate (pp_slashes p) 47 @ join_with [47] (pp_parts p))"

definition join_parts :: "ppath \<Rightarrow> ustr list \<Rightarrow> ppath" where
  "join_parts p parts = p\<lparr>pp_parts := pp_parts p @ parts\<rparr>"

definition path_within :: "ppath \<Rightarrow> ppath \<Rightarrow> bool" where
  "path_within root p \<longleftrightarrow> pp_slashes p = pp_slashes root \<and> take (length (pp_parts root)) (pp_parts p) = pp_parts root"

text \<open>\<open>p.relative_to(root)\<close>, \<open>None\<close> for its \<open>ValueError\<close>.\<close>

definition relative_to :: "ppath \<Rightarrow> ppath \<Rightarrow> ppath option" where
  "relative_to p root =
     (if path_within root p then Some \<lparr>pp_slashes = 0, pp_parts = drop (length (pp_parts root)) (pp_parts p)\<rparr>
      else None)"

definition path_name :: "ppath \<Rightarrow> ustr" where
  "path_name p = (if pp_parts p = [] then [] else last (pp_parts p))"

text \<open>\<open>PurePath.suffix\<close>: from the last dot of the name, unless only dots precede it.\<close>

definition path_suffix :: "ppath \<Rightarrow> ustr" where
  "path_suffix p =
     (let name = path_name p;
          ext = rev (takeWhile (\<lambda>c. c \<noteq> 46) (rev name));
          stem = take (length name - length ext - 1) name
      in if 46 \<in> set name \<and> (\<exists>c \<in> set stem. c \<noteq> 46) then 46 # ext else [])"

subsection \<open>URLs\<close>

record split_url =
  url_scheme :: ustr
  url_netloc :: ustr
  url_path :: ustr
  url_query :: ustr
  url_fragment :: ustr

definition is_ascii_alpha :: "nat \<Rightarrow> bool" where
  "is_ascii_alpha c \<longleftrightarrow> (65 \<le> c \<and> c \<le> 90) \<or> (97 \<le> c \<and> c \<le> 122)"

definition is_ascii_digit :: "nat \<Rightarrow> bool" where
  "is_ascii_digit c \<longleftrightarrow> 48 \<le> c \<and> c \<le> 57"

definition is_scheme_char :: "nat \<Rightarrow> bool" where
  "is_scheme_char c \<longleftrightarrow> is_ascii_alpha c \<or> is_ascii_digit c \<or> c \<in> {43, 45, 46}"

definition partition_at :: "nat \<Rightarrow> ustr \<Rightarrow> ustr \<times> ustr" where
  "partition_at c s = (takeWhile (\<lambda>x. x \<noteq> c) s, drop 1 (dropWhile (\<lambda>x. x \<noteq> c) s))"

definition split_scheme :: "ustr \<Rightarrow> ustr \<times> ustr" where
  "split_scheme url =
     (let pre = takeWhile (\<lambda>x. x \<noteq> 58) url
      in if 58 \<in> set url \<and> pre \<noteq> [] \<and> is_ascii_alpha (hd pre) \<and> list_all is_scheme_char pre
         then (map ascii_lower pre, drop (length pre + 1) url) else ([], url))"

definition split_netloc :: "ustr \<Rightarrow> ustr \<times> ustr" where
  "split_netloc url =
     (if take 2 url = [47, 47]
      then (let rest = drop 2 url; netloc = takeWhile (\<lambda>c. c \<notin> {47, 63, 35}) rest
            in (netloc, drop (length netloc) rest))
      else ([], url))"

text \<open>\<open>urllib.parse.urlsplit\<close>; \<open>None\<close> is a \<open>ValueError\<close> about the authority.\<close>

definition urlsplit :: "(ustr \<Rightarrow> bool) \<Rightarrow> ustr \<Rightarrow> split_url option" where
  "urlsplit netloc_ok raw =
     (let url = filter (\<lambda>c. c \<notin> {9, 10, 13}) (dropWhile (\<lambda>c. c \<le> 32) raw);
          (scheme, rest) = split_scheme url;
          (netloc, tail) = split_netloc rest;
          (body, fragment) = partition_at 35 tail;
          (path, query) = partition_at 63 body
      in if netloc = [] \<or> netloc_ok netloc
         then Some \<lparr>url_scheme = scheme, url_netloc = netloc, url_path = path, url_query = query,
                    url_fragment = fragment\<rparr>
         else None)"

definition hex_value :: "nat \<Rightarrow> nat option" where
  "hex_value c =
     (if is_ascii_digit c then Some (c - 48)
      else if 65 \<le> c \<and> c \<le> 70 then Some (c - 55)
      else if 97 \<le> c \<and> c \<le> 102 then Some (c - 87)
      else None)"

text \<open>\<open>unquote_to_bytes\<close> of a run of ASCII characters.\<close>

fun percent_bytes :: "ustr \<Rightarrow> bytes" where
  "percent_bytes [] = []"
| "percent_bytes (c # cs) =
     (case cs of
        a # b # r \<Rightarrow>
          (if c = 37
           then (case (hex_value a, hex_value b) of
                   (Some x, Some y) \<Rightarrow> (16 * x + y) # percent_bytes r
                 | _ \<Rightarrow> c # percent_bytes cs)
           else c # percent_bytes cs)
      | _ \<Rightarrow> c # percent_bytes cs)"

declare percent_bytes.simps(2) [simp del]

text \<open>\<open>urllib.parse.unquote(s, errors="strict")\<close>; \<open>None\<close> is a \<open>UnicodeDecodeError\<close>.\<close>

function unquote_runs :: "ustr \<Rightarrow> ustr option" where
  "unquote_runs [] = Some []"
| "c < 128 \<Longrightarrow> unquote_runs (c # cs) =
     Option.bind (utf8_decode (percent_bytes (takeWhile (\<lambda>x. x < 128) (c # cs))))
       (\<lambda>s. map_option ((@) s) (unquote_runs (dropWhile (\<lambda>x. x < 128) (c # cs))))"
| "c \<ge> 128 \<Longrightarrow> unquote_runs (c # cs) = map_option ((#) c) (unquote_runs cs)"
  by (auto, metis list.exhaust not_le)
termination by (relation "measure length") (auto simp: le_imp_less_Suc length_dropWhile_le)

definition unquote :: "ustr \<Rightarrow> ustr option" where
  "unquote s = (if 37 \<in> set s then unquote_runs s else Some s)"

text \<open>\<open>urllib.parse.quote(s, safe)\<close>; \<open>None\<close> is the \<open>UnicodeEncodeError\<close> on a surrogate.\<close>

definition hex_digit :: "nat \<Rightarrow> nat" where
  "hex_digit n = (if n < 10 then 48 + n else 55 + n)"

definition quote_byte :: "ustr \<Rightarrow> nat \<Rightarrow> ustr" where
  "quote_byte safe b =
     (if is_ascii_alpha b \<or> is_ascii_digit b \<or> b \<in> {95, 46, 45, 126} \<or> b \<in> set safe then [b]
      else [37, hex_digit (b div 16), hex_digit (b mod 16)])"

definition quote :: "ustr \<Rightarrow> ustr \<Rightarrow> ustr option" where
  "quote safe s = map_option (\<lambda>bs. concat (map (quote_byte safe) bs)) (utf8_encode s)"

subsection \<open>File URIs\<close>

datatype identity_error =
    InvalidRepositoryPathError
  | RepositoryPathEscapeError
  | RepositoryIdentityError
  | ModelValidationError
  | UrlValueError
  | RootUnavailable

fun bad_percent :: "ustr \<Rightarrow> bool" where
  "bad_percent [] \<longleftrightarrow> False"
| "bad_percent (c # cs) \<longleftrightarrow>
     c = 37 \<and> (length cs < 2 \<or> hex_value (cs ! 0) = None \<or> hex_value (cs ! 1) = None) \<or> bad_percent cs"

definition file_uri_to_local_path :: "(ustr \<Rightarrow> bool) \<Rightarrow> ustr \<Rightarrow> (identity_error, ustr) result" where
  "file_uri_to_local_path netloc_ok raw =
     (case urlsplit netloc_ok raw of
        None \<Rightarrow> Inl UrlValueError
      | Some parsed \<Rightarrow>
          if casefold (url_scheme parsed) \<noteq> u ''file'' then Inl InvalidRepositoryPathError
          else if url_query parsed \<noteq> [] \<or> url_fragment parsed \<noteq> [] then Inl InvalidRepositoryPathError
          else if casefold (url_netloc parsed) \<notin> {u '''', u ''localhost''} then Inl InvalidRepositoryPathError
          else if bad_percent (url_path parsed) then Inl InvalidRepositoryPathError
          else (case unquote (url_path parsed) of
                  None \<Rightarrow> Inl InvalidRepositoryPathError
                | Some decoded \<Rightarrow> if 0 \<in> set decoded then Inl InvalidRepositoryPathError else Inr decoded))"

text \<open>The argument is the text of a \<open>PurePosixPath\<close>, or of a \<open>PureWindowsPath\<close> when \<open>windows\<close>.\<close>

definition path_to_file_uri :: "bool \<Rightarrow> ustr \<Rightarrow> ustr option" where
  "path_to_file_uri windows path =
     (if windows \<or> 92 \<in> set path
      then map_option ((@) (u ''file:///'')) (quote (u ''/:'') (map (\<lambda>c. if c = 92 then 47 else c) path))
      else let abs_path = pure_path path;
               txt = as_posix (if is_absolute abs_path then abs_path else abs_path\<lparr>pp_slashes := 1\<rparr>)
           in map_option ((@) (u ''file://'')) (quote (u ''/'') txt))"

text \<open>\<open>str.isalpha\<close> of a drive letter: ASCII letters; \<open>alpha\<close> decides the other code points.\<close>

definition file_uri_to_path :: "(ustr \<Rightarrow> bool) \<Rightarrow> (nat \<Rightarrow> bool) \<Rightarrow> ustr \<Rightarrow> (identity_error, ustr) result" where
  "file_uri_to_path netloc_ok alpha uri =
     bind_err (file_uri_to_local_path netloc_ok uri) (\<lambda>decoded.
       if length decoded \<ge> 3 \<and> decoded ! 0 = 47 \<and> decoded ! 2 = 58 \<and>
          (is_ascii_alpha (decoded ! 1) \<or> decoded ! 1 \<ge> 128 \<and> alpha (decoded ! 1))
       then Inr ((decoded ! 1) # drop 2 decoded)
       else Inr decoded)"

subsection \<open>Repository paths\<close>

text \<open>What the host answers: \<open>Path.resolve(strict=False)\<close>, whether the resolved path exists (so that
  \<open>resolve(strict=True)\<close> returns it) and is a directory, and the authority checks of \<open>urlsplit\<close>.\<close>

record host =
  h_resolve :: "ppath \<Rightarrow> ppath"
  h_exists :: "ppath \<Rightarrow> bool"
  h_is_dir :: "ppath \<Rightarrow> bool"
  h_netloc_ok :: "ustr \<Rightarrow> bool"

definition resolve_strict :: "host \<Rightarrow> ppath \<Rightarrow> ppath option" where
  "resolve_strict h p = (if h_exists h p then Some (h_resolve h p) else None)"

record workspace_root =
  wr_id :: ustr
  wr_root :: ppath
  wr_trust :: ustr

record repository_path =
  rp_workspace :: ustr
  rp_value :: ustr

definition relative_identity :: "ustr \<Rightarrow> (identity_error, ustr) result" where
  "relative_identity raw =
     (if 92 \<in> set raw then Inl InvalidRepositoryPathError
      else let path = pure_path raw; normalized = as_posix path in
        if is_absolute path then Inl InvalidRepositoryPathError
        else if pp_parts path = [] \<or> normalized \<in> {u '''', u ''.''} then Inl InvalidRepositoryPathError
        else if \<exists>part \<in> set (pp_parts path). part \<in> {u '''', u ''.'', u ''..''}
        then Inl InvalidRepositoryPathError
        else if normalized \<noteq> raw then Inl InvalidRepositoryPathError
        else Inr normalized)"

text \<open>The first half of \<open>admit\<close>: the identity of a relative candidate, and the lexical path.\<close>

definition lexical_candidate ::
  "host \<Rightarrow> workspace_root \<Rightarrow> ustr \<Rightarrow> (identity_error, ustr option \<times> ppath) result" where
  "lexical_candidate h ws raw =
     (if 0 \<in> set raw then Inl InvalidRepositoryPathError
      else case urlsplit (h_netloc_ok h) raw of
        None \<Rightarrow> Inl UrlValueError
      | Some parsed \<Rightarrow>
          if \<not> is_absolute (pure_path raw) \<and> url_scheme parsed \<noteq> [] \<and> casefold (url_scheme parsed) \<noteq> u ''file''
          then Inl InvalidRepositoryPathError
          else let is_file_uri = startswith (map ascii_lower raw) (u ''file:'') in
          bind_err (if is_file_uri then file_uri_to_local_path (h_netloc_ok h) raw else Inr raw) (\<lambda>decoded.
          let candidate = pure_path decoded in
          if is_file_uri \<and> \<not> is_absolute candidate then Inl InvalidRepositoryPathError
          else if is_absolute candidate then Inr (None, candidate)
          else bind_err (relative_identity decoded)
                 (\<lambda>identity. Inr (Some identity, join_parts (wr_root ws) (pp_parts (pure_path identity))))))"

text \<open>The second half: containment of the resolved path, and the identity of an absolute candidate.\<close>

definition contained_identity ::
  "host \<Rightarrow> workspace_root \<Rightarrow> ustr option \<Rightarrow> ppath \<Rightarrow> (identity_error, ustr) result" where
  "contained_identity h ws identity lexical =
     (case resolve_strict h (wr_root ws) of
        None \<Rightarrow> Inl RootUnavailable
      | Some resolved_root \<Rightarrow>
          let resolved = h_resolve h lexical in
          if \<not> path_within resolved_root resolved then Inl RepositoryPathEscapeError
          else (case identity of
             Some v \<Rightarrow> Inr v
           | None \<Rightarrow>
               (case relative_to lexical (wr_root ws) of
                  Some relative \<Rightarrow> relative_identity (as_posix relative)
                | None \<Rightarrow> relative_identity (as_posix (the (relative_to resolved resolved_root))))))"

definition admit_path :: "host \<Rightarrow> workspace_root \<Rightarrow> ustr \<Rightarrow> (identity_error, repository_path) result" where
  "admit_path h ws raw =
     bind_err (lexical_candidate h ws raw) (\<lambda>(identity, lexical).
     bind_err (contained_identity h ws identity lexical) (\<lambda>v.
       if wr_id ws = [] then Inl ModelValidationError
       else Inr \<lparr>rp_workspace = wr_id ws, rp_value = v\<rparr>))"

definition absolute_path :: "host \<Rightarrow> workspace_root \<Rightarrow> repository_path \<Rightarrow> (identity_error, ppath) result" where
  "absolute_path h ws rp =
     (if wr_id ws \<noteq> rp_workspace rp then Inl RepositoryIdentityError
      else bind_err (admit_path h ws (rp_value rp))
             (\<lambda>admitted. Inr (join_parts (wr_root ws) (pp_parts (pure_path (rp_value admitted))))))"

definition file_uri :: "host \<Rightarrow> workspace_root \<Rightarrow> repository_path \<Rightarrow> (identity_error, ustr option) result" where
  "file_uri h ws rp =
     bind_err (absolute_path h ws rp)
       (\<lambda>p. Inr (map_option ((@) (u ''file://'')) (quote (u ''/'') (as_posix (h_resolve h p)))))"

definition rp_suffix :: "repository_path \<Rightarrow> ustr" where
  "rp_suffix rp = casefold (path_suffix (pure_path (rp_value rp)))"

definition rp_name :: "repository_path \<Rightarrow> ustr" where
  "rp_name rp = path_name (pure_path (rp_value rp))"

subsection \<open>Authorized workspaces (\<open>contracts/workspace.py\<close>)\<close>

datatype workspace_error =
    UnauthorizedRootError
  | RootEscapeError
  | TrustDigestMismatchError
  | SetValueError
  | WsUrlValueError
  | WsValidationError
  | WsRootUnavailable
  | WsUnicodeEncodeError

definition workspace_trust_digest :: "(bytes \<Rightarrow> ustr) \<Rightarrow> ppath \<Rightarrow> ustr \<Rightarrow> ustr option" where
  "workspace_trust_digest sha256_hex root config_digest =
     (case (utf8_encode (as_posix root), utf8_encode config_digest) of
        (Some r, Some d) \<Rightarrow> Some (sha256_hex (r @ [0] @ d))
      | _ \<Rightarrow> None)"

definition resolve_launch_root :: "host \<Rightarrow> ustr \<Rightarrow> (workspace_error, ppath) result" where
  "resolve_launch_root h raw =
     (if 0 \<in> set raw then Inl UnauthorizedRootError
      else if startswith (map ascii_lower raw) (u ''file://'') then Inl UnauthorizedRootError
      else if raw = u ''/dev'' \<or> startswith raw (u ''/dev/'') then Inl UnauthorizedRootError
      else case resolve_strict h (pure_path raw) of
             None \<Rightarrow> Inl UnauthorizedRootError
           | Some resolved \<Rightarrow> if h_is_dir h resolved then Inr resolved else Inl UnauthorizedRootError)"

type_synonym workspace_set = "(ustr, workspace_root) dict"

definition make_workspace_set :: "workspace_root list \<Rightarrow> (workspace_error, workspace_set) result" where
  "make_workspace_set roots =
     (if roots = [] then Inl SetValueError
      else if \<not> distinct (map wr_id roots) then Inl SetValueError
      else Inr (map (\<lambda>r. (wr_id r, r)) roots))"

definition launch_root ::
  "host \<Rightarrow> (bytes \<Rightarrow> ustr) \<Rightarrow> ustr \<Rightarrow> ustr \<times> ustr \<Rightarrow> (workspace_error, workspace_root) result" where
  "launch_root h sha256_hex config_digest entry =
     (if fst entry = [] \<or> 0 \<in> set (fst entry) then Inl UnauthorizedRootError
      else bind_err (resolve_launch_root h (snd entry)) (\<lambda>root.
        case workspace_trust_digest sha256_hex root config_digest of
          None \<Rightarrow> Inl WsUnicodeEncodeError
        | Some digest \<Rightarrow> Inr \<lparr>wr_id = fst entry, wr_root = root, wr_trust = digest\<rparr>))"

definition from_launch ::
  "host \<Rightarrow> (bytes \<Rightarrow> ustr) \<Rightarrow> ustr \<Rightarrow> (ustr \<times> ustr) list \<Rightarrow> (workspace_error, workspace_set) result" where
  "from_launch h sha256_hex config_digest roots =
     bind_err (map_err (launch_root h sha256_hex config_digest) roots) make_workspace_set"

definition get_workspace :: "workspace_set \<Rightarrow> ustr option \<Rightarrow> (workspace_error, workspace_root) result" where
  "get_workspace roots workspace_id =
     (case workspace_id of
        None \<Rightarrow> (case roots of [(k, r)] \<Rightarrow> Inr r | _ \<Rightarrow> Inl UnauthorizedRootError)
      | Some i \<Rightarrow> (case map_of roots i of None \<Rightarrow> Inl UnauthorizedRootError | Some r \<Rightarrow> Inr r))"

definition verify_trust :: "workspace_set \<Rightarrow> ustr \<Rightarrow> ustr \<Rightarrow> (workspace_error, workspace_root) result" where
  "verify_trust roots workspace_id presented =
     bind_err (get_workspace roots (Some workspace_id))
       (\<lambda>root. if wr_trust root \<noteq> presented then Inl TrustDigestMismatchError else Inr root)"

text \<open>Only \<open>RepositoryIdentityError\<close> and its subclasses are turned into \<open>RootEscapeError\<close>.\<close>

fun escape_error :: "identity_error \<Rightarrow> workspace_error" where
  "escape_error UrlValueError = WsUrlValueError"
| "escape_error ModelValidationError = WsValidationError"
| "escape_error RootUnavailable = WsRootUnavailable"
| "escape_error InvalidRepositoryPathError = RootEscapeError"
| "escape_error RepositoryPathEscapeError = RootEscapeError"
| "escape_error RepositoryIdentityError = RootEscapeError"

definition admit_candidate :: "host \<Rightarrow> workspace_root \<Rightarrow> ustr \<Rightarrow> (workspace_error, ppath) result" where
  "admit_candidate h ws candidate =
     (if candidate \<in> {u '''', u ''.''} then Inr (wr_root ws)
      else case bind_err (admit_path h ws candidate) (absolute_path h ws) of
             Inl e \<Rightarrow> Inl (escape_error e)
           | Inr p \<Rightarrow> Inr (h_resolve h p))"

subsection \<open>Canonical identities\<close>

definition plain_part :: "ustr \<Rightarrow> bool" where
  "plain_part p \<longleftrightarrow> p \<noteq> [] \<and> p \<noteq> u ''.'' \<and> p \<noteq> u ''..'' \<and> 47 \<notin> set p"

definition canonical :: "ustr \<Rightarrow> bool" where
  "canonical v \<longleftrightarrow> 92 \<notin> set v \<and> (\<exists>ps. ps \<noteq> [] \<and> (\<forall>p \<in> set ps. plain_part p) \<and> v = join_with [47] ps)"

lemma join_with_first:
  assumes "ps \<noteq> []" and "\<forall>p \<in> set ps. plain_part p"
  shows "join_with [47] ps \<noteq> []" "hd (join_with [47] ps) \<noteq> 47"
  using assms by (cases ps; cases "hd ps"; auto simp: join_with_def plain_part_def)+

lemma pure_path_join:
  assumes "ps \<noteq> []" and "\<forall>p \<in> set ps. plain_part p"
  shows "pure_path (join_with [47] ps) = \<lparr>pp_slashes = 0, pp_parts = ps\<rparr>"
proof -
  have "takeWhile (\<lambda>c. c = 47) (join_with [47] ps) = []"
    using join_with_first [OF assms] by (cases "join_with [47] ps") auto
  moreover have "split_on 47 (join_with [47] ps) = ps"
    using assms by (intro split_join_on) (auto simp: plain_part_def)
  moreover have "filter (\<lambda>p. p \<noteq> [] \<and> p \<noteq> u ''.'') ps = ps"
    using assms(2) by (intro filter_True) (auto simp: plain_part_def)
  ultimately show ?thesis by (simp add: pure_path_def)
qed

lemma pure_path_parts: "p \<in> set (pp_parts (pure_path raw)) \<Longrightarrow> p \<noteq> [] \<and> p \<noteq> u ''.'' \<and> 47 \<notin> set p"
  by (auto simp: pure_path_def Let_def dest: split_on_no_sep)

lemma relative_identity_iff: "relative_identity raw = Inr v \<longleftrightarrow> v = raw \<and> canonical raw"
proof
  assume r: "relative_identity raw = Inr v"
  let ?p = "pure_path raw"
  from r have "pp_slashes ?p = 0" "pp_parts ?p \<noteq> []" "as_posix ?p = raw" "v = raw" "92 \<notin> set raw"
    "\<forall>p \<in> set (pp_parts ?p). p \<noteq> u ''..''"
    by (auto simp: relative_identity_def is_absolute_def Let_def split: if_split_asm)
  moreover from this have "raw = join_with [47] (pp_parts ?p)" by (auto simp: as_posix_def)
  ultimately show "v = raw \<and> canonical raw"
    using pure_path_parts unfolding canonical_def plain_part_def by blast
next
  assume "v = raw \<and> canonical raw"
  then obtain ps where ps: "ps \<noteq> []" "\<forall>p \<in> set ps. plain_part p" "raw = join_with [47] ps" "92 \<notin> set raw" "v = raw"
    unfolding canonical_def by blast
  have p: "pure_path raw = \<lparr>pp_slashes = 0, pp_parts = ps\<rparr>"
    unfolding ps(3) by (rule pure_path_join [OF ps(1,2)])
  have n: "raw \<noteq> []" unfolding ps(3) by (rule join_with_first(1) [OF ps(1,2)])
  have d: "raw \<noteq> u ''.''"
  proof
    assume "raw = u ''.''"
    with p ps(1) show False by (simp add: pure_path_def u_def)
  qed
  have posix: "as_posix (pure_path raw) = raw" using p ps(1,3) by (simp add: as_posix_def)
  have abs: "\<not> is_absolute (pure_path raw)" using p by (simp add: is_absolute_def)
  have e: "pp_parts (pure_path raw) = ps" using p by simp
  have "\<not> (\<exists>part \<in> set ps. part \<in> {u '''', u ''.'', u ''..''})" using ps(2) by (auto simp: plain_part_def u_def)
  moreover have "\<not> (ps = [] \<or> raw \<in> {u '''', u ''.''})" using ps(1) n d by (simp add: u_def)
  ultimately show "relative_identity raw = Inr v"
    unfolding relative_identity_def Let_def posix e using ps(4,5) abs by simp
qed

text \<open>A relative identity is accepted exactly when it is a \<open>/\<close>-joined list of one or more components, none
  empty, \<open>.\<close> or \<open>..\<close>, with no backslash; it is returned unchanged.\<close>

theorem relative_identity_spec: "relative_identity raw = Inr v \<longleftrightarrow> v = raw \<and> canonical raw"
  by (rule relative_identity_iff)

subsection \<open>Containment\<close>

text \<open>What \<open>Path.resolve\<close> documents: resolving an already resolved prefix changes nothing.\<close>

definition resolve_ok :: "host \<Rightarrow> bool" where
  "resolve_ok h \<longleftrightarrow> (\<forall>p parts. (\<forall>q \<in> set parts. plain_part q) \<longrightarrow>
     h_resolve h (join_parts (h_resolve h p) parts) = h_resolve h (join_parts p parts))"

lemma resolve_idem: "resolve_ok h \<Longrightarrow> h_resolve h (h_resolve h p) = h_resolve h p"
  unfolding resolve_ok_def by (drule spec [of _ p], drule spec [of _ "[]"]) (simp add: join_parts_def)

lemma relative_to_join: "relative_to p root = Some r \<Longrightarrow> join_parts root (pp_parts r) = p \<and> pp_slashes r = 0"
  by (cases p; cases root)
    (auto simp: relative_to_def path_within_def join_parts_def split: if_split_asm, metis append_take_drop_id)

lemma identity_parts:
  assumes "relative_identity (as_posix r) = Inr v" and "pp_slashes r = 0" and "\<forall>p \<in> set (pp_parts r). 47 \<notin> set p"
  shows "pp_parts (pure_path v) = pp_parts r"
proof -
  from assms(1) have v: "v = as_posix r" "canonical v" by (auto simp: relative_identity_iff)
  then obtain ps where ps: "ps \<noteq> []" "\<forall>p \<in> set ps. plain_part p" "v = join_with [47] ps"
    by (auto simp: canonical_def)
  have ne: "pp_parts r \<noteq> []"
  proof
    assume "pp_parts r = []"
    with assms(2) v have "canonical (u ''.'')" by (simp add: as_posix_def)
    then have "relative_identity (u ''.'') = Inr (u ''.'')" by (simp add: relative_identity_iff)
    then show False by (simp add: relative_identity_def pure_path_def u_def Let_def split: if_split_asm)
  qed
  then have "v = join_with [47] (pp_parts r)" using v assms(2) by (simp add: as_posix_def)
  then have "split_on 47 v = pp_parts r" using ne assms(3) by (simp add: split_join_on)
  moreover have "split_on 47 v = ps" unfolding ps(3) using ps(1,2)
    by (intro split_join_on) (auto simp: plain_part_def)
  ultimately show ?thesis using pure_path_join [OF ps(1,2)] ps(3) by simp
qed

text \<open>A host whose resolved paths have no separator inside a component.\<close>

definition parts_ok :: "ppath \<Rightarrow> bool" where
  "parts_ok p \<longleftrightarrow> (\<forall>q \<in> set (pp_parts p). 47 \<notin> set q)"

lemma canonical_parts: "canonical v \<Longrightarrow> \<forall>p \<in> set (pp_parts (pure_path v)). plain_part p"
  by (auto simp: canonical_def pure_path_join)

lemma lexical_candidate_cases:
  assumes "lexical_candidate h ws raw = Inr (identity, lexical)"
  shows "case identity of
      Some v \<Rightarrow> canonical v \<and> lexical = join_parts (wr_root ws) (pp_parts (pure_path v))
    | None \<Rightarrow> parts_ok lexical"
  using assms
  by (auto simp: lexical_candidate_def Let_def relative_identity_iff parts_ok_def pure_path_parts
      split: option.split_asm if_split_asm)

lemma contained_identity_absolute:
  assumes "resolve_ok h" and "\<And>p. parts_ok p \<Longrightarrow> parts_ok (h_resolve h p)" and "parts_ok lexical"
    and "contained_identity h ws None lexical = Inr v"
  shows "canonical v"
    and "path_within (h_resolve h (wr_root ws)) (h_resolve h (join_parts (wr_root ws) (pp_parts (pure_path v))))"
proof -
  let ?root = "h_resolve h (wr_root ws)" and ?res = "h_resolve h lexical"
  from assms(4) have inside: "path_within ?root ?res"
    and vl: "(case relative_to lexical (wr_root ws) of
          Some relative \<Rightarrow> relative_identity (as_posix relative)
        | None \<Rightarrow> relative_identity (as_posix (the (relative_to ?res ?root)))) = Inr v"
    by (auto simp: contained_identity_def resolve_strict_def Let_def split: if_split_asm)
  from vl show c: "canonical v" by (auto simp: relative_identity_iff split: option.split_asm)
  have sub: "pp_parts (pure_path v) = pp_parts r"
    if "relative_to q s = Some r" "parts_ok q" "relative_identity (as_posix r) = Inr v" for q s r
  proof (rule identity_parts [OF that(3)])
    have "set (pp_parts r) \<subseteq> set (pp_parts q)"
      using that(1) by (auto simp: relative_to_def dest: in_set_dropD split: if_split_asm)
    then show "\<forall>p \<in> set (pp_parts r). 47 \<notin> set p" using that(2) by (auto simp: parts_ok_def)
  qed (simp add: relative_to_join [OF that(1)])
  show "path_within ?root (h_resolve h (join_parts (wr_root ws) (pp_parts (pure_path v))))"
  proof (cases "relative_to lexical (wr_root ws)")
    case (Some r)
    then have "join_parts (wr_root ws) (pp_parts (pure_path v)) = lexical"
      using sub [OF Some assms(3)] vl relative_to_join [OF Some] by simp
    then show ?thesis using inside by simp
  next
    case none: None
    obtain r where r: "relative_to ?res ?root = Some r" using inside by (auto simp: relative_to_def)
    have "join_parts ?root (pp_parts (pure_path v)) = ?res"
      using sub [OF r assms(2) [OF assms(3)]] vl none r relative_to_join [OF r] by simp
    then have "h_resolve h (join_parts (wr_root ws) (pp_parts (pure_path v))) = ?res"
      using assms(1) canonical_parts [OF c] resolve_idem [OF assms(1)] unfolding resolve_ok_def by metis
    then show ?thesis using inside by simp
  qed
qed

lemma admit_path_facts:
  assumes "resolve_ok h" and "\<And>p. parts_ok p \<Longrightarrow> parts_ok (h_resolve h p)" and "admit_path h ws raw = Inr rp"
  shows "rp_workspace rp = wr_id ws \<and> canonical (rp_value rp)
    \<and> path_within (h_resolve h (wr_root ws)) (h_resolve h (join_parts (wr_root ws) (pp_parts (pure_path (rp_value rp)))))"
proof -
  from assms(3) obtain identity lexical v where
    l: "lexical_candidate h ws raw = Inr (identity, lexical)"
    and c: "contained_identity h ws identity lexical = Inr v"
    and rp: "rp = \<lparr>rp_workspace = wr_id ws, rp_value = v\<rparr>"
    by (auto simp: admit_path_def split: if_split_asm)
  note lc = lexical_candidate_cases [OF l]
  show ?thesis
  proof (cases identity)
    case None
    then show ?thesis using lc c rp contained_identity_absolute [OF assms(1) assms(2)] by simp
  next
    case (Some w)
    then show ?thesis using lc c rp
      by (auto simp: contained_identity_def resolve_strict_def Let_def split: if_split_asm)
  qed
qed

text \<open>C8: Whatever a candidate looks like (relative, absolute or a file URI), an admitted path is bound to
  its workspace, has a canonical identity, and that identity resolves inside the resolved root,
  symbolic links included.\<close>

theorem admit_path_contained:
  assumes "resolve_ok h" and "\<And>p. parts_ok p \<Longrightarrow> parts_ok (h_resolve h p)" and "admit_path h ws raw = Inr rp"
  shows "rp_workspace rp = wr_id ws \<and> canonical (rp_value rp)
    \<and> path_within (h_resolve h (wr_root ws)) (h_resolve h (join_parts (wr_root ws) (pp_parts (pure_path (rp_value rp)))))"
  by (rule admit_path_facts [OF assms])

lemma urlsplit_plain:
  assumes "v \<noteq> []" and "hd v \<noteq> 47" and "\<forall>c \<in> set v. 32 < c \<and> c \<noteq> 58"
  shows "\<exists>parsed. urlsplit ok v = Some parsed \<and> url_scheme parsed = []"
proof -
  have d: "dropWhile (\<lambda>c. c \<le> 32) v = v" using assms by (cases v) auto
  have f: "filter (\<lambda>c. c \<notin> {9, 10, 13}) v = v" using assms(3) by (intro filter_True) auto
  have "split_scheme v = ([], v)" using assms(3) by (auto simp: split_scheme_def Let_def)
  moreover have "split_netloc v = ([], v)" using assms(1,2) by (cases v) (auto simp: split_netloc_def)
  ultimately show ?thesis unfolding urlsplit_def d f by (simp add: Let_def case_prod_beta)
qed

lemma not_file_uri:
  assumes "58 \<notin> set v"
  shows "\<not> startswith (map ascii_lower v) (u ''file:'')"
proof
  assume "startswith (map ascii_lower v) (u ''file:'')"
  then have "take 5 (map ascii_lower v) = [102, 105, 108, 101, 58]"
    by (simp add: startswith_def u_def eval_nat_numeral)
  then have "58 \<in> set (take 5 (map ascii_lower v))" by simp
  then have "58 \<in> set (map ascii_lower v)" by (rule in_set_takeD)
  then show False using assms by (auto simp: ascii_lower_def split: if_split_asm)
qed

lemma plain_identity_readmits:
  assumes "canonical v" and "\<forall>c \<in> set v. 32 < c \<and> c \<noteq> 58"
  shows "lexical_candidate h ws v = Inr (Some v, join_parts (wr_root ws) (pp_parts (pure_path v)))"
proof -
  obtain ps where ps: "ps \<noteq> []" "\<forall>p \<in> set ps. plain_part p" "v = join_with [47] ps"
    using assms(1) unfolding canonical_def by blast
  have "v \<noteq> []" "hd v \<noteq> 47" unfolding ps(3) by (rule join_with_first [OF ps(1,2)])+
  from urlsplit_plain [OF this assms(2)] obtain parsed where
    url: "urlsplit (h_netloc_ok h) v = Some parsed" "url_scheme parsed = []" by blast
  have rel: "relative_identity v = Inr v" using assms(1) by (simp add: relative_identity_iff)
  have abs: "\<not> is_absolute (pure_path v)"
    unfolding ps(3) pure_path_join [OF ps(1,2)] by (simp add: is_absolute_def)
  have "0 \<notin> set v" "58 \<notin> set v" using assms(2) by auto
  then show ?thesis using url rel abs not_file_uri by (simp add: lexical_candidate_def)
qed

text \<open>A stored identity without spaces, controls or colons maps back to an absolute path: \<open>absolute\<close>
  succeeds on it and gives the root joined with its components.\<close>

theorem admitted_path_absolute:
  assumes "resolve_ok h" and "\<And>p. parts_ok p \<Longrightarrow> parts_ok (h_resolve h p)" and "admit_path h ws raw = Inr rp"
    and "\<forall>c \<in> set (rp_value rp). 32 < c \<and> c \<noteq> 58"
  shows "absolute_path h ws rp = Inr (join_parts (wr_root ws) (pp_parts (pure_path (rp_value rp))))"
proof -
  note facts = admit_path_facts [OF assms(1-3)]
  from assms(3) have live: "h_exists h (wr_root ws)" "wr_id ws \<noteq> []"
    by (auto simp: admit_path_def contained_identity_def resolve_strict_def split: if_split_asm)
  have "admit_path h ws (rp_value rp) = Inr rp"
    using facts live plain_identity_readmits [of "rp_value rp" h ws] assms(4)
    by (simp add: admit_path_def contained_identity_def resolve_strict_def)
  then show ?thesis using facts by (simp add: absolute_path_def)
qed

text \<open>A host whose workspace root \<open>/w\<close> is a symbolic link to \<open>/real/w\<close>.\<close>

definition demo_host :: host where
  "demo_host = \<lparr>h_resolve = (\<lambda>p. if path_within \<lparr>pp_slashes = 1, pp_parts = [u ''w'']\<rparr> p
       then \<lparr>pp_slashes = 1, pp_parts = u ''real'' # pp_parts p\<rparr> else p),
     h_exists = (\<lambda>p. True), h_is_dir = (\<lambda>p. True), h_netloc_ok = (\<lambda>n. False)\<rparr>"

definition demo_ws :: workspace_root where
  "demo_ws = \<lparr>wr_id = u ''main'', wr_root = \<lparr>pp_slashes = 1, pp_parts = [u ''w'']\<rparr>, wr_trust = []\<rparr>"

lemma demo_host_ok: "resolve_ok demo_host"
  by (auto simp: resolve_ok_def demo_host_def path_within_def join_parts_def u_def Cons_eq_append_conv
      take_Cons' append_eq_Cons_conv)


lemma demo_host_parts: "parts_ok p \<Longrightarrow> parts_ok (h_resolve demo_host p)"
  by (auto simp: parts_ok_def demo_host_def u_def)

lemma admit_path_contained_witness:
  "path_within \<lparr>pp_slashes = 1, pp_parts = [u ''real'', u ''w'']\<rparr>
     (h_resolve demo_host (join_parts (wr_root demo_ws) [u ''a.py'']))"
proof -
  have a: "admit_path demo_host demo_ws (u ''file:///w/a.py'') = Inr \<lparr>rp_workspace = u ''main'', rp_value = u ''a.py''\<rparr>"
    by code_simp
  have "pp_parts (pure_path (u ''a.py'')) = [u ''a.py'']" by code_simp
  moreover have "h_resolve demo_host (wr_root demo_ws) = \<lparr>pp_slashes = 1, pp_parts = [u ''real'', u ''w'']\<rparr>"
    by code_simp
  ultimately show ?thesis using admit_path_contained [OF demo_host_ok demo_host_parts a] by simp
qed

lemma admitted_path_absolute_witness:
  "absolute_path demo_host demo_ws \<lparr>rp_workspace = u ''main'', rp_value = u ''src/a''\<rparr> =
     Inr (join_parts (wr_root demo_ws) (pp_parts (pure_path (u ''src/a''))))"
proof -
  have a: "admit_path demo_host demo_ws (u ''/w/src/a'') = Inr \<lparr>rp_workspace = u ''main'', rp_value = u ''src/a''\<rparr>"
    by code_simp
  have "\<forall>c \<in> set (rp_value \<lparr>rp_workspace = u ''main'', rp_value = u ''src/a''\<rparr>). 32 < c \<and> c \<noteq> 58"
    by (simp add: u_def)
  from admitted_path_absolute [OF demo_host_ok demo_host_parts a this] show ?thesis by simp
qed

text \<open>The same does not hold of a name with a colon: the absolute path \<open>/w/a:b\<close> is admitted, and the
  path it was admitted as is refused when it is made absolute again.\<close>

theorem colon_identity_not_absolute:
  "admit_path demo_host demo_ws (u ''/w/a:b'') = Inr \<lparr>rp_workspace = u ''main'', rp_value = u ''a:b''\<rparr>
   \<and> absolute_path demo_host demo_ws \<lparr>rp_workspace = u ''main'', rp_value = u ''a:b''\<rparr>
     = Inl InvalidRepositoryPathError"
proof
  show "admit_path demo_host demo_ws (u ''/w/a:b'') = Inr \<lparr>rp_workspace = u ''main'', rp_value = u ''a:b''\<rparr>"
    by code_simp
  show "absolute_path demo_host demo_ws \<lparr>rp_workspace = u ''main'', rp_value = u ''a:b''\<rparr>
     = Inl InvalidRepositoryPathError" by code_simp
qed

subsection \<open>File URIs\<close>

lemma hex_value_digit: "n < 16 \<Longrightarrow> hex_value (hex_digit n) = Some n"
  by (auto simp: hex_value_def hex_digit_def is_ascii_digit_def)

lemma hex_digit_range: "n < 16 \<Longrightarrow> 48 \<le> hex_digit n \<and> hex_digit n < 71 \<and> hex_digit n \<noteq> 63"
  by (auto simp: hex_digit_def)

lemma percent_bytes_plain: "c \<noteq> 37 \<Longrightarrow> percent_bytes (c # cs) = c # percent_bytes cs"
  by (simp add: percent_bytes.simps(2) [of c cs] split: list.split)

lemma percent_bytes_hex:
  "hex_value a = Some x \<Longrightarrow> hex_value b = Some y \<Longrightarrow> percent_bytes (37 # a # b # cs) = (16 * x + y) # percent_bytes cs"
  by (simp add: percent_bytes.simps(2) [of 37 "a # b # cs"])

lemma percent_bytes_quote:
  assumes "\<forall>b \<in> set bs. b < 256" and "37 \<notin> set safe"
  shows "percent_bytes (concat (map (quote_byte safe) bs)) = bs"
  using assms(1)
proof (induction bs)
  case (Cons b bs)
  show ?case
  proof (cases "quote_byte safe b = [b]")
    case True
    then have "b \<noteq> 37" using assms(2)
      by (auto simp: quote_byte_def is_ascii_alpha_def is_ascii_digit_def split: if_split_asm)
    with True Cons show ?thesis by (simp add: percent_bytes_plain)
  next
    case False
    then have "quote_byte safe b = [37, hex_digit (b div 16), hex_digit (b mod 16)]"
      by (simp add: quote_byte_def split: if_split_asm)
    moreover have "b div 16 < 16" using Cons.prems by auto
    ultimately show ?thesis using Cons
      by (simp add: percent_bytes_hex hex_value_digit)
  qed
qed simp

lemma bad_percent_quote:
  assumes "\<forall>b \<in> set bs. b < 256" and "37 \<notin> set safe"
  shows "\<not> bad_percent (concat (map (quote_byte safe) bs))"
  using assms(1)
proof (induction bs)
  case (Cons b bs)
  show ?case
  proof (cases "quote_byte safe b = [b]")
    case True
    then have "b \<noteq> 37" using assms(2)
      by (auto simp: quote_byte_def is_ascii_alpha_def is_ascii_digit_def split: if_split_asm)
    with True Cons show ?thesis by simp
  next
    case False
    then have "quote_byte safe b = [37, hex_digit (b div 16), hex_digit (b mod 16)]"
      by (simp add: quote_byte_def split: if_split_asm)
    moreover have "b div 16 < 16" using Cons.prems by auto
    ultimately show ?thesis using Cons hex_digit_range [of "b div 16"] hex_digit_range [of "b mod 16"]
      by (auto simp: hex_value_digit)
  qed
qed simp

lemma utf8_byte_bound:
  assumes "list_all is_scalar s" and "b \<in> set (utf8 s)"
  shows "b < 256"
proof -
  obtain c where c: "is_scalar c" "b \<in> set (encode_char c)"
    using assms by (auto simp: utf8_def list_all_iff)
  then have "c \<le> 0x10FFFF" by (auto simp: is_scalar_def)
  then have "c div 262144 \<le> 4" by (simp add: less_mult_imp_div_less less_Suc_eq_le [symmetric])
  moreover have "c < 0x10000 \<Longrightarrow> c div 4096 < 16" "c < 0x800 \<Longrightarrow> c div 64 < 32"
    by (simp_all add: less_mult_imp_div_less)
  moreover have "n mod 64 < 64" for n :: nat by simp
  ultimately show ?thesis using c(2)
    by (auto simp: encode_char_def split: if_split_asm intro: order.strict_trans [of _ 64])
qed

lemma quote_chars:
  assumes "\<forall>b \<in> set bs. b < 256" and "set safe \<subseteq> {47, 58}" and "c \<in> set (concat (map (quote_byte safe) bs))"
  shows "32 < c \<and> c < 128 \<and> c \<noteq> 35 \<and> c \<noteq> 63"
proof -
  obtain b where b: "b \<in> set bs" "c \<in> set (quote_byte safe b)" using assms(3) by auto
  then have "b div 16 < 16" using assms(1) by auto
  then have hex: "32 < hex_digit n \<and> hex_digit n < 128 \<and> hex_digit n \<noteq> 35 \<and> hex_digit n \<noteq> 63"
    if "n = b div 16 \<or> n = b mod 16" for n
    using that hex_digit_range [of n] by auto
  show ?thesis
  proof (cases "is_ascii_alpha b \<or> is_ascii_digit b \<or> b \<in> {95, 46, 45, 126} \<or> b \<in> set safe")
    case True
    then have "c = b" using b(2) by (simp add: quote_byte_def)
    moreover have "b \<in> {47, 58}" if "b \<in> set safe" using that assms(2) by blast
    ultimately show ?thesis using True by (auto simp: is_ascii_alpha_def is_ascii_digit_def)
  next
    case False
    then have "c = 37 \<or> c = hex_digit (b div 16) \<or> c = hex_digit (b mod 16)"
      using b(2) by (simp add: quote_byte_def)
    then show ?thesis using hex by auto
  qed
qed

lemma unquote_quote:
  assumes "list_all is_scalar t" and "q = concat (map (quote_byte safe) (utf8 t))" and "set safe \<subseteq> {47, 58}"
    and "t \<noteq> []"
  shows "unquote q = Some t"
proof -
  have bytes: "\<forall>b \<in> set (utf8 t). b < 256" using utf8_byte_bound [OF assms(1)] by blast
  have pb: "percent_bytes q = utf8 t" unfolding assms(2) using bytes assms(3) by (intro percent_bytes_quote) auto
  have low: "\<forall>c \<in> set q. c < 128" using quote_chars [OF bytes assms(3)] assms(2) by blast
  have dec: "utf8_decode (utf8 t) = Some t" using assms(1) by (rule utf8_decode_encode)
  show ?thesis
  proof (cases "37 \<in> set q")
    case True
    then obtain c cs where q: "q = c # cs" by (cases q) auto
    have tw: "takeWhile (\<lambda>x. x < 128) q = q" "dropWhile (\<lambda>x. x < 128) q = []" using low by auto
    have "c < 128" using low q by simp
    from unquote_runs.simps(2) [OF this, of cs] have "unquote_runs q = Option.bind (utf8_decode (percent_bytes q))
        (\<lambda>s. map_option ((@) s) (unquote_runs []))"
      unfolding q [symmetric] tw .
    then have "unquote_runs q = Some t" by (simp add: pb dec)
    with True show ?thesis by (simp add: unquote_def)
  next
    case False
    have "percent_bytes r = r" if "37 \<notin> set r" for r
      using that by (induction r) (simp_all add: percent_bytes_plain)
    with False pb have "q = utf8 t" by simp
    moreover have "utf8 t = t" if "\<forall>b \<in> set (utf8 t). b < 128"
    proof -
      have "\<forall>c \<in> set t. c < 128"
      proof
        fix c assume "c \<in> set t"
        then have "set (encode_char c) \<subseteq> set (utf8 t)" by (auto simp: utf8_def)
        with that have "\<forall>b \<in> set (encode_char c). b < 128" by blast
        moreover have "hd (encode_char c) \<in> set (encode_char c)" by simp
        ultimately have "hd (encode_char c) < 128" by blast
        then show "c < 128" by (simp add: encode_char_def split: if_split_asm)
      qed
      then show ?thesis by (induction t) (auto simp: encode_char_def)
    qed
    ultimately show ?thesis using False low by (simp add: unquote_def)
  qed
qed

lemma file_uri_decodes:
  assumes "list_all is_scalar t" and "hd t = 47" and "t \<noteq> []" and "0 \<notin> set t"
    and "quote (u ''/'') t = Some q"
  shows "file_uri_to_local_path netloc_ok (u ''file://'' @ q) = Inr t"
proof -
  have q: "q = concat (map (quote_byte (u ''/'')) (utf8 t))"
    using assms(1,5) by (simp add: quote_def utf8_encode_def)
  have safe: "set (u ''/'') \<subseteq> {47, 58}" by (simp add: u_def)
  have bytes: "\<forall>b \<in> set (utf8 t). b < 256" using utf8_byte_bound [OF assms(1)] by blast
  have chars: "\<forall>c \<in> set q. 32 < c \<and> c < 128 \<and> c \<noteq> 35 \<and> c \<noteq> 63"
    using quote_chars [OF bytes safe] q by blast
  obtain r where r: "q = 47 # r"
    using assms(2,3) unfolding q
    by (cases t) (auto simp: encode_char_def quote_byte_def u_def is_ascii_alpha_def is_ascii_digit_def)
  let ?uri = "u ''file://'' @ q"
  have d: "dropWhile (\<lambda>c. c \<le> 32) ?uri = ?uri" by (simp add: u_def)
  have f: "filter (\<lambda>c. c \<notin> {9, 10, 13}) ?uri = ?uri" using chars by (intro filter_True) (auto simp: u_def)
  have sch: "split_scheme ?uri = (u ''file'', [47, 47] @ q)"
    by (simp add: split_scheme_def u_def Let_def is_ascii_alpha_def is_scheme_char_def ascii_lower_def)
  have net: "split_netloc ([47, 47] @ q) = ([], q)" by (simp add: split_netloc_def r)
  have parts: "partition_at 35 q = (q, [])" "partition_at 63 q = (q, [])"
  proof -
    have absent: "35 \<notin> set q" "63 \<notin> set q" using chars by auto
    have "partition_at c q = (q, [])" if "c \<notin> set q" for c
    proof -
      have "takeWhile (\<lambda>x. x \<noteq> c) q = q" using that by (auto simp: takeWhile_eq_all_conv)
      moreover have "dropWhile (\<lambda>x. x \<noteq> c) q = []" using that by (auto simp: dropWhile_eq_Nil_conv)
      ultimately show ?thesis by (simp only: partition_at_def drop_Nil)
    qed
    with absent show "partition_at 35 q = (q, [])" "partition_at 63 q = (q, [])" by blast+
  qed
  have url: "urlsplit netloc_ok ?uri = Some \<lparr>url_scheme = u ''file'', url_netloc = [], url_path = q,
      url_query = [], url_fragment = []\<rparr>"
    unfolding urlsplit_def d f sch Let_def prod.case net parts by simp
  have "\<not> bad_percent q" unfolding q using bytes by (intro bad_percent_quote) (auto simp: u_def)
  moreover have "unquote q = Some t" using unquote_quote [OF assms(1) q safe assms(3)] .
  moreover have "casefold (u ''file'') = u ''file''" "casefold [] = []" "u [] = []"
    by (simp_all add: casefold_def u_def fold_char_def ascii_lower_def)
  ultimately show ?thesis using assms(4) by (simp add: file_uri_to_local_path_def url)
qed

text \<open>A path text that \<open>file_uri_to_path\<close> takes for a Windows drive path.\<close>

definition reads_as_drive :: "(nat \<Rightarrow> bool) \<Rightarrow> ustr \<Rightarrow> bool" where
  "reads_as_drive alpha t \<longleftrightarrow> length t \<ge> 3 \<and> t ! 2 = 58
     \<and> (is_ascii_alpha (t ! 1) \<or> t ! 1 \<ge> 128 \<and> alpha (t ! 1))"

text \<open>C40: The trip of an absolute POSIX path through its file URI, exactly. Take the text of an absolute path as
  \<open>pathlib\<close> writes it, made of any Unicode scalar values (no lone surrogate, which has no UTF-8) but the NUL and
  the backslash, which the URI side reads as the mark of a Windows path. Its URI decodes back to the same text,
  unless it reads as a Windows drive, a letter and a colon after the first slash: then it comes back without that
  slash.\<close>

theorem file_uri_roundtrip:
  assumes "is_absolute (pure_path t)" and "as_posix (pure_path t) = t" and "92 \<notin> set t" and "0 \<notin> set t"
    and "list_all is_scalar t"
  shows "\<exists>uri. path_to_file_uri False t = Some uri
    \<and> file_uri_to_path netloc_ok alpha uri = Inr (if reads_as_drive alpha t then drop 1 t else t)"
proof -
  obtain q where q: "quote (u ''/'') t = Some q" using assms(5) by (simp add: quote_def utf8_encode_def)
  obtain r where t: "t = 47 # r"
  proof (cases t)
    case (Cons c r)
    then show ?thesis using assms(1) that by (cases "c = 47") (auto simp: is_absolute_def pure_path_def)
  qed (use assms(1) in \<open>simp add: is_absolute_def pure_path_def\<close>)
  with file_uri_decodes [OF assms(5) _ _ assms(4) q] have decoded:
    "file_uri_to_local_path netloc_ok (u ''file://'' @ q) = Inr t" by simp
  have "file_uri_to_path netloc_ok alpha (u ''file://'' @ q) = Inr (if reads_as_drive alpha t then drop 1 t else t)"
    unfolding file_uri_to_path_def decoded reads_as_drive_def by (cases r) (auto simp: t nth_Cons split: nat.split)
  then show ?thesis using assms(1,2,3) q by (auto simp: path_to_file_uri_def)
qed

lemma file_uri_roundtrip_witness:
  "(\<exists>uri. path_to_file_uri False (u ''/a b/'' @ [233, 128512]) = Some uri
      \<and> file_uri_to_path (\<lambda>n. False) (\<lambda>c. False) uri = Inr (u ''/a b/'' @ [233, 128512]))
   \<and> (\<exists>uri. path_to_file_uri False (u ''/c:d'') = Some uri
      \<and> file_uri_to_path (\<lambda>n. False) (\<lambda>c. False) uri = Inr (u ''c:d''))"
proof -
  have kept: "\<not> reads_as_drive (\<lambda>c. False) (u ''/a b/'' @ [233, 128512])"
    and drive: "reads_as_drive (\<lambda>c. False) (u ''/c:d'')" "drop 1 (u ''/c:d'') = u ''c:d''"
    by (simp_all add: reads_as_drive_def u_def is_ascii_alpha_def)
  have one: "\<exists>uri. path_to_file_uri False (u ''/a b/'' @ [233, 128512]) = Some uri
      \<and> file_uri_to_path (\<lambda>n. False) (\<lambda>c. False) uri
        = Inr (if reads_as_drive (\<lambda>c. False) (u ''/a b/'' @ [233, 128512]) then drop 1 (u ''/a b/'' @ [233, 128512])
               else u ''/a b/'' @ [233, 128512])"
    by (rule file_uri_roundtrip)
      (simp_all add: u_def is_absolute_def pure_path_def as_posix_def join_with_def is_scalar_def)
  have two: "\<exists>uri. path_to_file_uri False (u ''/c:d'') = Some uri
      \<and> file_uri_to_path (\<lambda>n. False) (\<lambda>c. False) uri
        = Inr (if reads_as_drive (\<lambda>c. False) (u ''/c:d'') then drop 1 (u ''/c:d'') else u ''/c:d'')"
    by (rule file_uri_roundtrip)
      (simp_all add: u_def is_absolute_def pure_path_def as_posix_def join_with_def is_scalar_def)
  show ?thesis using one two unfolding drive(2) if_not_P [OF kept] if_P [OF drive(1)] by (rule conjI)
qed

text \<open>The frozen workspace set authorizes only what was launched: a selector that passes
  \<open>verify_trust\<close> names a launched pair, its root is that pair's resolved directory, and the digest
  presented is the one of that root and the launch configuration.\<close>

theorem verify_trust_binds_launch:
  assumes "from_launch h sha256_hex config_digest roots = Inr allowed"
    and "verify_trust allowed i presented = Inr r"
  shows "\<exists>raw. (i, raw) \<in> set roots \<and> wr_id r = i \<and> resolve_launch_root h raw = Inr (wr_root r)
    \<and> workspace_trust_digest sha256_hex (wr_root r) config_digest = Some presented"
proof -
  from assms(1) obtain rs where rs: "map_err (launch_root h sha256_hex config_digest) roots = Inr rs"
    and a: "allowed = map (\<lambda>r. (wr_id r, r)) rs"
    by (auto simp: from_launch_def make_workspace_set_def split: if_split_asm)
  from assms(2) have sel: "map_of allowed i = Some r" and tr: "wr_trust r = presented"
    by (auto simp: verify_trust_def get_workspace_def split: option.split_asm if_split_asm)
  have "r \<in> set rs" "wr_id r = i" using map_of_SomeD [OF sel] by (auto simp: a)
  then obtain e where e: "e \<in> set roots" "launch_root h sha256_hex config_digest e = Inr r"
    using map_err_mem [OF rs] by blast
  then have "wr_id r = fst e" "resolve_launch_root h (snd e) = Inr (wr_root r)"
    "workspace_trust_digest sha256_hex (wr_root r) config_digest = Some (wr_trust r)"
    by (auto simp: launch_root_def split: if_split_asm option.split_asm)
  moreover obtain j raw where "e = (j, raw)" by (cases e)
  ultimately show ?thesis using e(1) \<open>wr_id r = i\<close> tr by (intro exI [of _ raw]) simp
qed

lemma verify_trust_binds_launch_witness:
  "\<exists>raw. (u ''main'', raw) \<in> set [(u ''main'', u ''/w'')]
     \<and> resolve_launch_root demo_host raw = Inr \<lparr>pp_slashes = 1, pp_parts = [u ''real'', u ''w'']\<rparr>"
proof -
  let ?r = "\<lparr>wr_id = u ''main'', wr_root = \<lparr>pp_slashes = 1, pp_parts = [u ''real'', u ''w'']\<rparr>,
    wr_trust = u ''/real/w'' @ [0] @ u ''cfg''\<rparr>"
  have l: "from_launch demo_host (\<lambda>b. b) (u ''cfg'') [(u ''main'', u ''/w'')] = Inr [(u ''main'', ?r)]"
    by (simp add: from_launch_def launch_root_def resolve_launch_root_def resolve_strict_def demo_host_def u_def
        startswith_def ascii_lower_def pure_path_def path_within_def workspace_trust_digest_def utf8_encode_def
        is_scalar_def as_posix_def join_with_def encode_char_def make_workspace_set_def Let_def)
  have v: "verify_trust [(u ''main'', ?r)] (u ''main'') (u ''/real/w'' @ [0] @ u ''cfg'') = Inr ?r"
    by (simp add: verify_trust_def get_workspace_def)
  from verify_trust_binds_launch [OF l v] show ?thesis by auto
qed

end
