(* ===== verification/Languages.thy ===== *)
theory Languages
  imports RepoPaths
begin

text \<open>
  The language registry of \<open>contracts/repository.py\<close>: its construction from language
  specifications, with the duplicate checks, its lookups, and the table the program ships. The
  lemmas show when construction succeeds and what detection returns.
\<close>

subsection \<open>Data\<close>

record language =
  la_id :: ustr
  la_display :: ustr
  la_parser :: ustr
  la_lsp :: ustr
  la_extensions :: "ustr list"
  la_filenames :: "ustr list"
  la_structural :: "ustr option"

definition language_spec ::
  "string \<Rightarrow> string \<Rightarrow> string \<Rightarrow> string \<Rightarrow> string list \<Rightarrow> string list \<Rightarrow> string option \<Rightarrow> language" where
  "language_spec i display parser lsp extensions filenames structural =
     \<lparr>la_id = u i, la_display = u display, la_parser = u parser, la_lsp = u lsp,
      la_extensions = map u extensions, la_filenames = map u filenames,
      la_structural = map_option u structural\<rparr>"

record language_registry =
  lr_languages :: "language list"
  lr_by_id :: "(ustr, language) dict"
  lr_by_extension :: "(ustr, language) dict"
  lr_by_filename :: "(ustr, language) dict"

datatype registry_error = DuplicateLanguageId ustr | DuplicateExtension ustr | DuplicateFilename ustr

subsection \<open>Operations\<close>

text \<open>One iteration of the loop over \<open>extensions\<close> or \<open>filenames\<close>.\<close>

definition add_key ::
  "(ustr \<Rightarrow> registry_error) \<Rightarrow> language \<Rightarrow> ustr \<Rightarrow> (ustr, language) dict \<Rightarrow>
   (registry_error, (ustr, language) dict) result" where
  "add_key duplicate l key d =
     (let normalized = casefold key in
      if normalized \<in> set (dict_keys d) then Inl (duplicate key)
      else Inr (AList.update normalized l d))"

definition add_language :: "language \<Rightarrow> language_registry \<Rightarrow> (registry_error, language_registry) result" where
  "add_language l r =
     (if la_id l \<in> set (dict_keys (lr_by_id r)) then Inl (DuplicateLanguageId (la_id l))
      else bind_err (fold_err (add_key DuplicateExtension l) (la_extensions l) (lr_by_extension r)) (\<lambda>extensions.
           bind_err (fold_err (add_key DuplicateFilename l) (la_filenames l) (lr_by_filename r)) (\<lambda>filenames.
             Inr (r\<lparr>lr_by_id := AList.update (la_id l) l (lr_by_id r),
                    lr_by_extension := extensions, lr_by_filename := filenames\<rparr>))))"

definition make_registry :: "language list \<Rightarrow> (registry_error, language_registry) result" where
  "make_registry ls =
     fold_err add_language ls \<lparr>lr_languages = ls, lr_by_id = [], lr_by_extension = [], lr_by_filename = []\<rparr>"

definition detect :: "language_registry \<Rightarrow> ustr \<Rightarrow> language option" where
  "detect r path =
     (case map_of (lr_by_filename r) (casefold (path_name (pure_path path))) of
        Some named \<Rightarrow> Some named
      | None \<Rightarrow> map_of (lr_by_extension r) (casefold (path_suffix (pure_path path))))"

definition structural_by_extension :: "language_registry \<Rightarrow> (ustr, ustr) dict" where
  "structural_by_extension r =
     List.map_filter (\<lambda>(extension, l). map_option (Pair extension) (la_structural l)) (lr_by_extension r)"

text \<open>The keys of the comprehension lose a leading dot, so later entries may replace earlier ones.\<close>

definition lsp_by_extension :: "language_registry \<Rightarrow> (ustr, ustr) dict" where
  "lsp_by_extension r =
     foldl (\<lambda>d (extension, l). AList.update (removeprefix extension (u ''.'')) (la_lsp l) d) [] (lr_by_extension r)"

definition LANGUAGES :: "language list" where
  "LANGUAGES =
    [
     language_spec ''python'' ''Python'' ''ast-grep:Python''
       ''python'' [''.py'', ''.pyi''] [] (Some ''Python''),
     language_spec ''typescript'' ''TypeScript'' ''ts-morph:typescript''
       ''typescript'' [''.ts'', ''.mts'', ''.cts''] [] (Some ''TypeScript''),
     language_spec ''typescriptreact'' ''TypeScript JSX'' ''ts-morph:typescript''
       ''typescriptreact'' [''.tsx''] [] (Some ''Tsx''),
     language_spec ''javascript'' ''JavaScript'' ''ts-morph:typescript''
       ''javascript'' [''.js'', ''.mjs'', ''.cjs''] [] (Some ''JavaScript''),
     language_spec ''javascriptreact'' ''JavaScript JSX'' ''ts-morph:typescript''
       ''javascriptreact'' [''.jsx''] [] (Some ''Tsx''),
     language_spec ''go'' ''Go'' ''ast-grep:Go''
       ''go'' [''.go''] [] (Some ''Go''),
     language_spec ''rust'' ''Rust'' ''language-server:rust-analyzer''
       ''rust'' [''.rs''] [] None,
     language_spec ''shell'' ''Shell'' ''language-server:bash-language-server''
       ''shellscript'' [''.sh'', ''.bash'', ''.zsh''] [] None,
     language_spec ''postgresql'' ''PostgreSQL'' ''@libpg-query/parser''
       ''sql'' [''.sql''] [] (Some ''PostgreSQL''),
     language_spec ''yaml'' ''YAML'' ''PyYAML''
       ''yaml'' [''.yaml'', ''.yml''] [] None,
     language_spec ''json'' ''JSON'' ''stdlib:json''
       ''json'' [''.json''] [] None,
     language_spec ''jsonc'' ''JSON with comments'' ''typescript:jsonc''
       ''jsonc'' [''.jsonc''] [] None,
     language_spec ''toml'' ''TOML'' ''stdlib:tomllib''
       ''toml'' [''.toml''] [] None,
     language_spec ''css'' ''CSS'' ''language-server:vscode-css-language-server''
       ''css'' [''.css'', ''.scss'', ''.sass'', ''.less''] [] None,
     language_spec ''graphql'' ''GraphQL'' ''language-server:graphql''
       ''graphql'' [''.graphql'', ''.gql''] [] None,
     language_spec ''html'' ''HTML'' ''language-server:vscode-html-language-server''
       ''html'' [''.html'', ''.htm''] [] None,
     language_spec ''markdown'' ''Markdown'' ''markdown:section''
       ''markdown'' [''.md''] [''AGENTS.md'', ''SKILL.md''] None,
     language_spec ''mdx'' ''MDX'' ''markdown:section''
       ''mdx'' [''.mdx''] [] None,
     language_spec ''astro'' ''Astro'' ''language-server:astro-ls''
       ''astro'' [''.astro''] [] None,
     language_spec ''prisma'' ''Prisma'' ''language-server:prisma-language-server''
       ''prisma'' [''.prisma''] [] None]"

subsection \<open>Construction\<close>

lemma update_new: "k \<notin> fst ` set d \<Longrightarrow> AList.update k v d = d @ [(k, v)]"
  by (induction d) auto

lemma add_keys_eq:
  "fold_err (add_key dup l) ks d = Inr d' \<longleftrightarrow>
     distinct (map casefold ks) \<and> casefold ` set ks \<inter> fst ` set d = {} \<and> d' = d @ map (\<lambda>k. (casefold k, l)) ks"
proof (induction ks arbitrary: d)
  case (Cons k ks)
  show ?case
  proof (cases "casefold k \<in> fst ` set d")
    case False
    then show ?thesis using Cons.IH [of "d @ [(casefold k, l)]"]
      by (auto simp: add_key_def update_new)
  qed (simp add: add_key_def)
qed auto

definition entries :: "(language \<Rightarrow> ustr list) \<Rightarrow> language list \<Rightarrow> (ustr, language) dict" where
  "entries keys ls = concat (map (\<lambda>l. map (\<lambda>k. (casefold k, l)) (keys l)) ls)"

lemma entries_simps [simp]:
  "entries keys [] = []"
  "entries keys (l # ls) = map (\<lambda>k. (casefold k, l)) (keys l) @ entries keys ls"
  by (simp_all add: entries_def)

lemma entries_keys: "map fst (entries keys ls) = concat (map (\<lambda>l. map casefold (keys l)) ls)"
  by (induction ls) simp_all

lemma mem_entries: "(k, l) \<in> set (entries keys ls) \<longleftrightarrow> l \<in> set ls \<and> k \<in> casefold ` set (keys l)"
  by (induction ls) auto

lemma add_languages_eq:
  "fold_err add_language ls r = Inr r' \<longleftrightarrow>
     distinct (map la_id ls) \<and> la_id ` set ls \<inter> fst ` set (lr_by_id r) = {}
     \<and> distinct (map fst (entries la_extensions ls)) \<and> fst ` set (entries la_extensions ls) \<inter> fst ` set (lr_by_extension r) = {}
     \<and> distinct (map fst (entries la_filenames ls)) \<and> fst ` set (entries la_filenames ls) \<inter> fst ` set (lr_by_filename r) = {}
     \<and> r' = r\<lparr>lr_by_id := lr_by_id r @ map (\<lambda>l. (la_id l, l)) ls,
              lr_by_extension := lr_by_extension r @ entries la_extensions ls,
              lr_by_filename := lr_by_filename r @ entries la_filenames ls\<rparr>"
proof (induction ls arbitrary: r)
  case (Cons l ls)
  let ?r = "r\<lparr>lr_by_id := lr_by_id r @ [(la_id l, l)],
    lr_by_extension := lr_by_extension r @ map (\<lambda>k. (casefold k, l)) (la_extensions l),
    lr_by_filename := lr_by_filename r @ map (\<lambda>k. (casefold k, l)) (la_filenames l)\<rparr>"
  have step: "add_language l r = Inr s \<longleftrightarrow> la_id l \<notin> fst ` set (lr_by_id r)
      \<and> distinct (map casefold (la_extensions l)) \<and> casefold ` set (la_extensions l) \<inter> fst ` set (lr_by_extension r) = {}
      \<and> distinct (map casefold (la_filenames l)) \<and> casefold ` set (la_filenames l) \<inter> fst ` set (lr_by_filename r) = {}
      \<and> s = ?r" for s
    by (auto simp: add_language_def add_keys_eq update_new)
  have img: "fst ` (\<lambda>k. (casefold k, l)) ` S = casefold ` S" for S by (auto simp: image_iff)
  show ?case
    unfolding fold_err.simps bind_err_eq_Inr step
    by (auto simp: Cons.IH [of ?r] img comp_def image_Un)
qed auto

lemma make_registry_eq:
  "make_registry ls = Inr r \<longleftrightarrow>
     distinct (map la_id ls) \<and> distinct (map fst (entries la_extensions ls)) \<and> distinct (map fst (entries la_filenames ls))
     \<and> r = \<lparr>lr_languages = ls, lr_by_id = map (\<lambda>l. (la_id l, l)) ls,
            lr_by_extension = entries la_extensions ls, lr_by_filename = entries la_filenames ls\<rparr>"
  unfolding make_registry_def add_languages_eq by auto

text \<open>A registry is built exactly from languages whose identifiers, and whose case-folded extensions
  and file names taken over all languages, are distinct; no declaration is dropped or shadowed.\<close>

theorem make_registry_defined:
  "(\<exists>r. make_registry ls = Inr r) \<longleftrightarrow> distinct (map la_id ls)
     \<and> distinct (concat (map (\<lambda>l. map casefold (la_extensions l)) ls))
     \<and> distinct (concat (map (\<lambda>l. map casefold (la_filenames l)) ls))"
  unfolding make_registry_eq entries_keys by blast

text \<open>Detection returns exactly the language that declares the file's name, or, when no language
  declares the name, the one that declares its suffix, letter case aside.\<close>

theorem detect_spec:
  assumes "make_registry ls = Inr r"
  shows "detect r path = Some l \<longleftrightarrow> l \<in> set ls \<and>
    (casefold (path_name (pure_path path)) \<in> casefold ` set (la_filenames l) \<or>
     (\<forall>m \<in> set ls. casefold (path_name (pure_path path)) \<notin> casefold ` set (la_filenames m)) \<and>
     casefold (path_suffix (pure_path path)) \<in> casefold ` set (la_extensions l))"
proof -
  let ?n = "casefold (path_name (pure_path path))" and ?s = "casefold (path_suffix (pure_path path))"
  from assms have d: "dict_ok (entries la_extensions ls)" "dict_ok (entries la_filenames ls)"
    and r: "lr_by_extension r = entries la_extensions ls" "lr_by_filename r = entries la_filenames ls"
    by (auto simp: make_registry_eq dict_ok_def)
  have f: "map_of (lr_by_filename r) ?n = Some m \<longleftrightarrow> m \<in> set ls \<and> ?n \<in> casefold ` set (la_filenames m)" for m
    unfolding r map_of_dict_ok [OF d(2)] by (rule mem_entries)
  have e: "map_of (lr_by_extension r) ?s = Some m \<longleftrightarrow> m \<in> set ls \<and> ?s \<in> casefold ` set (la_extensions m)" for m
    unfolding r map_of_dict_ok [OF d(1)] by (rule mem_entries)
  show ?thesis
  proof (cases "map_of (lr_by_filename r) ?n")
    case None
    then have "\<forall>m \<in> set ls. ?n \<notin> casefold ` set (la_filenames m)" using f by (metis option.distinct(1))
    then show ?thesis using None e by (auto simp: detect_def)
  next
    case (Some m)
    then have m: "m \<in> set ls" "?n \<in> casefold ` set (la_filenames m)" using f [of m] by blast+
    have "detect r path = Some l \<longleftrightarrow> m = l" using Some by (simp add: detect_def)
    moreover have "l \<in> set ls \<and> ?n \<in> casefold ` set (la_filenames l) \<longleftrightarrow> m = l" using f [of l] Some by simp
    ultimately show ?thesis using m by blast
  qed
qed

definition markdown :: language where
  "markdown = language_spec ''markdown'' ''Markdown'' ''markdown:section'' ''markdown''
     [''.md''] [''AGENTS.md'', ''SKILL.md''] None"

end
