(* ===== verification/Edits.thy ===== *)
theory Edits
  imports Positions RepoPaths
begin

text \<open>
  Normalisation of edits before any write (\<open>editor/preview.py\<close>, \<open>editor/contracts.py\<close>): an LSP
  \<open>WorkspaceEdit\<close> and an engine's byte edits become sorted, non-overlapping byte patches on
  captured files, with the postimage each file would have. The file system, SHA-256, the
  differ and pydantic's lax coercion to \<open>int\<close> are parameters. The lemmas show that splicing
  in reverse order is the left-to-right rewriting, that the bounds hold, and that postimages
  of text edits are valid UTF-8.
\<close>

subsection \<open>Data\<close>

text \<open>A Python object as the server sent it or a parser made it. A finite float and any other object (a date, a
  float that is not finite) carry the text that shows them.\<close>

datatype json =
    JNull
  | JBool bool
  | JInt int
  | JStr ustr
  | JArr "json list"
  | JObj "(ustr \<times> json) list"
  | JFloat ustr
  | JOther ustr

definition jstr_opt :: "ustr option \<Rightarrow> json" where
  "jstr_opt s = (case s of None \<Rightarrow> JNull | Some t \<Rightarrow> JStr t)"

definition jnat :: "nat \<Rightarrow> json" where
  "jnat n = JInt (int n)"

definition jstrs :: "ustr list \<Rightarrow> json" where
  "jstrs xs = JArr (map JStr xs)"

record lsp_position =
  lp_line :: nat
  lp_character :: nat

record lsp_range =
  lr_start :: lsp_position
  lr_end :: lsp_position

record edit_patch =
  ep_path :: ustr
  ep_range :: lsp_range
  ep_start :: nat
  ep_end :: nat
  ep_text :: ustr
  ep_hash :: ustr

record file_edit =
  fe_path :: ustr
  fe_preimage :: bytes
  fe_postimage :: bytes
  fe_pre_hash :: ustr
  fe_post_hash :: ustr
  fe_patches :: "edit_patch list"

record normalized_edit =
  ne_files :: "file_edit list"
  ne_patches :: "edit_patch list"
  ne_diff :: ustr
  ne_truncated :: bool

record structural_edit =
  se_path :: ustr
  se_start :: nat
  se_end :: nat
  se_text :: ustr

text \<open>One constructor per message of \<open>EditorPreviewError\<close>, and the exceptions that pass through.\<close>

datatype preview_error =
    UnsupportedEncoding
  | NotAnObject
  | NotAnArray
  | UnsupportedKeys
  | AnnotatedEdit
  | MixedChanges
  | ResourceOperation
  | UriNotString
  | BadVersion
  | StaleVersion
  | NoTextEdits
  | TooManyFiles
  | TooManyEdits
  | TooManyBytes
  | UncapturedFile
  | TextEditKeys
  | NewTextNotString
  | NewTextNotUtf8
  | InvalidRange
  | RangeReversed
  | Overlap
  | PreimageDrift
  | RangeOutOfBounds
  | NulPath
  | RootMissing
  | BadIdentity identity_error
  | SymlinkPath
  | PathMissing
  | PathOutside
  | NotRegularFile
  | UnsafeRead
  | PreimageDecodeError
  | RaisedOSError

datatype file_kind = Regular | Symlink | OtherKind

text \<open>What the host answers to one call. \<open>f_open\<close> is \<open>os.open\<close> with \<open>O_NOFOLLOW\<close>, the \<open>fstat\<close> of the
  descriptor and its content, each of which may fail.\<close>

record files =
  f_host :: host
  f_lstat :: "ppath \<Rightarrow> file_kind option"
  f_stat :: "ppath \<Rightarrow> file_kind option"
  f_open :: "ppath \<Rightarrow> (file_kind option \<times> bytes option) option"

record edit_env =
  ee_files :: files
  ee_sha :: "bytes \<Rightarrow> ustr"
  ee_lax_int :: "json \<Rightarrow> int option"
  ee_diff :: "ustr \<Rightarrow> ustr \<Rightarrow> ustr \<Rightarrow> ustr"

definition MAX_EDIT_FILES :: nat where "MAX_EDIT_FILES = 256"
definition MAX_TEXT_EDITS :: nat where "MAX_TEXT_EDITS = 4096"
definition MAX_REPLACEMENT_BYTES :: nat where "MAX_REPLACEMENT_BYTES = 1024 * 1024"
definition MAX_DIFF_BYTES :: nat where "MAX_DIFF_BYTES = 64 * 1024"

subsection \<open>Objects\<close>

definition object_mapping :: "json \<Rightarrow> (preview_error, (ustr, json) dict) result" where
  "object_mapping v = (case v of JObj d \<Rightarrow> Inr d | _ \<Rightarrow> Inl NotAnObject)"

definition object_list :: "json \<Rightarrow> (preview_error, json list) result" where
  "object_list v = (case v of JArr xs \<Rightarrow> Inr xs | _ \<Rightarrow> Inl NotAnArray)"

text \<open>\<open>d.get(key)\<close>: a missing key reads as \<open>None\<close>.\<close>

definition get_field :: "(ustr, json) dict \<Rightarrow> string \<Rightarrow> json" where
  "get_field d key = (case map_of d (u key) of None \<Rightarrow> JNull | Some v \<Rightarrow> v)"

definition has_field :: "(ustr, json) dict \<Rightarrow> string \<Rightarrow> bool" where
  "has_field d key \<longleftrightarrow> u key \<in> set (dict_keys d)"

definition only_fields :: "(ustr, json) dict \<Rightarrow> string list \<Rightarrow> bool" where
  "only_fields d keys \<longleftrightarrow> set (dict_keys d) \<subseteq> set (map u keys)"

text \<open>\<open>LspRange.model_validate\<close>: unknown and missing fields are refused, coordinates are coerced and
  must not be negative.\<close>

definition parse_coordinate :: "edit_env \<Rightarrow> (ustr, json) dict \<Rightarrow> string \<Rightarrow> nat option" where
  "parse_coordinate env d key =
     (case map_of d (u key) of
        None \<Rightarrow> None
      | Some v \<Rightarrow> (case ee_lax_int env v of None \<Rightarrow> None | Some n \<Rightarrow> if n < 0 then None else Some (nat n)))"

definition parse_position :: "edit_env \<Rightarrow> json \<Rightarrow> lsp_position option" where
  "parse_position env v =
     (case v of
        JObj d \<Rightarrow>
          if only_fields d [''line'', ''character'']
          then (case (parse_coordinate env d ''line'', parse_coordinate env d ''character'') of
                  (Some l, Some c) \<Rightarrow> Some \<lparr>lp_line = l, lp_character = c\<rparr>
                | _ \<Rightarrow> None)
          else None
      | _ \<Rightarrow> None)"

definition parse_range :: "edit_env \<Rightarrow> json \<Rightarrow> lsp_range option" where
  "parse_range env v =
     (case v of
        JObj d \<Rightarrow>
          if only_fields d [''start'', ''end'']
          then (case (parse_position env (get_field d ''start''), parse_position env (get_field d ''end'')) of
                  (Some s, Some e) \<Rightarrow> Some \<lparr>lr_start = s, lr_end = e\<rparr>
                | _ \<Rightarrow> None)
          else None
      | _ \<Rightarrow> None)"

definition encode_replacement :: "ustr \<Rightarrow> (preview_error, bytes) result" where
  "encode_replacement value = (case utf8_encode value of None \<Rightarrow> Inl NewTextNotUtf8 | Some bs \<Rightarrow> Inr bs)"

subsection \<open>Admitted files\<close>

definition child :: "ppath \<Rightarrow> ustr \<Rightarrow> ppath" where
  "child p part = p\<lparr>pp_parts := pp_parts p @ [part]\<rparr>"

text \<open>The loop over the components: every one must exist and none may be a symbolic link.\<close>

fun reject_symlinks :: "files \<Rightarrow> ppath \<Rightarrow> ustr list \<Rightarrow> (preview_error, unit) result" where
  "reject_symlinks fs current [] = Inr ()"
| "reject_symlinks fs current (part # parts) =
     (case f_lstat fs (child current part) of
        None \<Rightarrow> Inl PathMissing
      | Some k \<Rightarrow> if k = Symlink then Inl SymlinkPath else reject_symlinks fs (child current part) parts)"

definition editor_root :: "ppath \<Rightarrow> workspace_root" where
  "editor_root root = \<lparr>wr_id = u ''editor'', wr_root = root, wr_trust = []\<rparr>"

definition admit_edit_path :: "files \<Rightarrow> ppath \<Rightarrow> ustr \<Rightarrow> (preview_error, ppath) result" where
  "admit_edit_path fs root path =
     (if 0 \<in> set path then Inl NulPath
      else case resolve_strict (f_host fs) root of
        None \<Rightarrow> Inl RootMissing
      | Some workspace_root \<Rightarrow>
          let workspace = editor_root workspace_root in
          (case admit_path (f_host fs) workspace path of
             Inl e \<Rightarrow> Inl (BadIdentity e)
           | Inr repository_path \<Rightarrow>
               (case absolute_path (f_host fs) workspace repository_path of
                  Inl e \<Rightarrow> Inl (BadIdentity e)
                | Inr candidate \<Rightarrow>
                    bind_err (reject_symlinks fs workspace_root (pp_parts (pure_path (rp_value repository_path)))) (\<lambda>_.
                    case resolve_strict (f_host fs) candidate of
                      None \<Rightarrow> Inl PathMissing
                    | Some resolved \<Rightarrow>
                        (case f_stat fs resolved of
                           None \<Rightarrow> Inl PathMissing
                         | Some kind \<Rightarrow>
                             if \<not> path_within workspace_root resolved then Inl PathOutside
                             else if kind \<noteq> Regular then Inl NotRegularFile
                             else Inr resolved)))))"

definition read_regular_file :: "files \<Rightarrow> ppath \<Rightarrow> (preview_error, bytes) result" where
  "read_regular_file fs path =
     (case f_open fs path of
        None \<Rightarrow> Inl UnsafeRead
      | Some (kind, content) \<Rightarrow>
          (case kind of
             None \<Rightarrow> Inl UnsafeRead
           | Some k \<Rightarrow>
               if k \<noteq> Regular then Inl NotRegularFile
               else (case content of None \<Rightarrow> Inl UnsafeRead | Some bs \<Rightarrow> Inr bs)))"

definition relative_path_for_uri :: "files \<Rightarrow> ppath \<Rightarrow> ustr \<Rightarrow> (preview_error, ustr) result" where
  "relative_path_for_uri fs root uri =
     (case resolve_strict (f_host fs) root of
        None \<Rightarrow> Inl RaisedOSError
      | Some workspace_root \<Rightarrow>
          (case admit_path (f_host fs) (editor_root workspace_root) uri of
             Inl e \<Rightarrow> Inl (BadIdentity e)
           | Inr repository_path \<Rightarrow>
               bind_err (admit_edit_path fs root (rp_value repository_path)) (\<lambda>_. Inr (rp_value repository_path))))"

subsection \<open>Positions of edits\<close>

definition removesuffix_byte :: "nat \<Rightarrow> bytes \<Rightarrow> bytes" where
  "removesuffix_byte b bs = removesuffix bs [b]"

definition position_to_byte ::
  "position_codec \<Rightarrow> bytes \<Rightarrow> nat \<Rightarrow> nat \<Rightarrow> position_encoding \<Rightarrow> (codec_error, nat) result" where
  "position_to_byte codec content line character enc =
     (if enc = UTF16 \<or> enc = UTF32 then point_to_byte codec (int line) (int character) enc
      else bind_err (point_to_byte codec (int line) 0 UTF8) (\<lambda>line_start.
           bind_err
             (if line + 1 < length (pc_line_starts codec)
              then bind_err (point_to_byte codec (int (line + 1)) 0 UTF8)
                     (\<lambda>next_line. Inr (slice content line_start next_line))
              else Inr (drop line_start content))
             (\<lambda>line_bytes.
               let body = removesuffix_byte 13 (removesuffix_byte 10 line_bytes) in
               if character > length body then Inl (ColumnOutside (int character))
               else (case utf8_decode (slice content line_start (line_start + character)) of
                       None \<Rightarrow> Inl UnicodeDecodeError
                     | Some _ \<Rightarrow> Inr (line_start + character)))))"

text \<open>One iteration of the loop over the raw edits of a document.\<close>

definition collect_edit ::
  "edit_env \<Rightarrow> ustr \<Rightarrow> bytes \<Rightarrow> position_codec \<Rightarrow> position_encoding \<Rightarrow> json \<Rightarrow> edit_patch list \<Rightarrow>
   (preview_error, edit_patch list) result" where
  "collect_edit env path preimage codec enc raw_edit selected =
     bind_err (object_mapping raw_edit) (\<lambda>edit.
     if has_field edit ''annotationId'' then Inl AnnotatedEdit
     else if \<not> (only_fields edit [''range'', ''newText''] \<and> has_field edit ''range'' \<and> has_field edit ''newText'')
     then Inl TextEditKeys
     else (case get_field edit ''newText'' of
        JStr new_text \<Rightarrow>
          bind_err (encode_replacement new_text) (\<lambda>_.
          case parse_range env (get_field edit ''range'') of
            None \<Rightarrow> Inl InvalidRange
          | Some r \<Rightarrow>
              (case position_to_byte codec preimage (lp_line (lr_start r)) (lp_character (lr_start r)) enc of
                 Inl _ \<Rightarrow> Inl InvalidRange
               | Inr start_byte \<Rightarrow>
                   (case position_to_byte codec preimage (lp_line (lr_end r)) (lp_character (lr_end r)) enc of
                      Inl _ \<Rightarrow> Inl InvalidRange
                    | Inr end_byte \<Rightarrow>
                        if end_byte < start_byte then Inl RangeReversed
                        else Inr (selected @
                          [\<lparr>ep_path = path, ep_range = r, ep_start = start_byte, ep_end = end_byte,
                            ep_text = new_text, ep_hash = ee_sha env preimage\<rparr>]))))
      | _ \<Rightarrow> Inl NewTextNotString))"

type_synonym pending = "(ustr, edit_patch list) dict"

definition setdefault :: "ustr \<Rightarrow> pending \<Rightarrow> edit_patch list" where
  "setdefault path pending = (case map_of pending path of None \<Rightarrow> [] | Some ps \<Rightarrow> ps)"

definition collect_uri_edits ::
  "edit_env \<Rightarrow> ppath \<Rightarrow> (ustr, bytes) dict \<Rightarrow> position_encoding \<Rightarrow> json \<Rightarrow> json \<Rightarrow> pending \<Rightarrow>
   (preview_error, pending) result" where
  "collect_uri_edits env root contents enc uri raw_edits pending =
     (case uri of
        JStr uri_text \<Rightarrow>
          bind_err (relative_path_for_uri (ee_files env) root uri_text) (\<lambda>path.
          case map_of contents path of
            None \<Rightarrow> Inl UncapturedFile
          | Some preimage \<Rightarrow>
              bind_err (object_list raw_edits) (\<lambda>edits.
              case make_codec preimage of
                Inl _ \<Rightarrow> Inl PreimageDecodeError
              | Inr codec \<Rightarrow>
                  bind_err (fold_err (collect_edit env path preimage codec enc) edits (setdefault path pending))
                    (\<lambda>selected. Inr (AList.update path selected pending))))
      | _ \<Rightarrow> Inl UriNotString)"

subsection \<open>Normalisation\<close>

fun reject_overlaps :: "edit_patch option \<Rightarrow> edit_patch list \<Rightarrow> (preview_error, unit) result" where
  "reject_overlaps previous [] = Inr ()"
| "reject_overlaps previous (p # ps) =
     (case previous of
        Some q \<Rightarrow>
          if ep_start p < ep_end q \<or> ep_start p = ep_start q then Inl Overlap
          else reject_overlaps (Some p) ps
      | None \<Rightarrow> reject_overlaps (Some p) ps)"

definition splice :: "bytes \<Rightarrow> nat \<Rightarrow> nat \<Rightarrow> bytes \<Rightarrow> bytes" where
  "splice post i j replacement = take i post @ replacement @ drop j post"

text \<open>One iteration of the splice loop; the second component counts \<open>replacement_bytes\<close>.\<close>

definition splice_patch :: "edit_patch \<Rightarrow> bytes \<times> nat \<Rightarrow> (preview_error, bytes \<times> nat) result" where
  "splice_patch p st =
     bind_err (encode_replacement (ep_text p)) (\<lambda>replacement.
       let total = snd st + length replacement in
       if total > MAX_REPLACEMENT_BYTES then Inl TooManyBytes
       else Inr (splice (fst st) (ep_start p) (ep_end p) replacement, total))"

text \<open>The longest prefix that decodes, which the loop of \<open>_bounded_diff\<close> reaches at its first error.\<close>

function decodable_prefix :: "bytes \<Rightarrow> ustr" where
  "decodable_prefix bs = (case decode_char bs of None \<Rightarrow> [] | Some (c, r) \<Rightarrow> c # decodable_prefix r)"
  by pat_completeness auto
termination by (relation "measure length") (auto dest: decode_char_shorter)

declare decodable_prefix.simps [simp del]

definition file_diff :: "edit_env \<Rightarrow> file_edit \<Rightarrow> (preview_error, ustr) result" where
  "file_diff env f =
     (case (utf8_decode (fe_preimage f), utf8_decode (fe_postimage f)) of
        (Some pre, Some post) \<Rightarrow> Inr (ee_diff env (fe_path f) pre post)
      | _ \<Rightarrow> Inl PreimageDecodeError)"

text \<open>A differ's output is made of its inputs' lines, so that encoding it does not fail.\<close>

definition bounded_diff :: "edit_env \<Rightarrow> file_edit list \<Rightarrow> (preview_error, ustr \<times> bool) result" where
  "bounded_diff env fs =
     bind_err (map_err (file_diff env) fs) (\<lambda>chunks.
       let encoded = utf8 (concat chunks) in
       if length encoded \<le> MAX_DIFF_BYTES then Inr (concat chunks, False)
       else Inr (decodable_prefix (take MAX_DIFF_BYTES encoded) @ [10] @ u ''... diff truncated ...'' @ [10], True))"

definition patch_key :: "edit_patch \<Rightarrow> nat \<times> nat \<times> ustr" where
  "patch_key p = (ep_start p, ep_end p, ep_text p)"

text \<open>One iteration of the loop over \<open>sorted(pending)\<close>.\<close>

definition normalize_file ::
  "edit_env \<Rightarrow> ppath \<Rightarrow> (ustr, bytes) dict \<Rightarrow> pending \<Rightarrow> ustr \<Rightarrow> file_edit list \<times> nat \<Rightarrow>
   (preview_error, file_edit list \<times> nat) result" where
  "normalize_file env root contents pending path st =
     (let patches = sort_key patch_key (setdefault path pending) in
      bind_err (reject_overlaps None patches) (\<lambda>_.
      case map_of contents path of
        None \<Rightarrow> Inl UncapturedFile
      | Some preimage \<Rightarrow>
          bind_err (admit_edit_path (ee_files env) root path) (\<lambda>live_path.
          bind_err (read_regular_file (ee_files env) live_path) (\<lambda>live.
          if live \<noteq> preimage then Inl PreimageDrift
          else bind_err (fold_err splice_patch (rev patches) (preimage, snd st)) (\<lambda>(postimage, total).
            Inr (fst st @
              [\<lparr>fe_path = path, fe_preimage = preimage, fe_postimage = postimage,
                fe_pre_hash = ee_sha env preimage, fe_post_hash = ee_sha env postimage,
                fe_patches = patches\<rparr>], total))))))"

definition normalize_pending ::
  "edit_env \<Rightarrow> ppath \<Rightarrow> (ustr, bytes) dict \<Rightarrow> pending \<Rightarrow> (preview_error, normalized_edit) result" where
  "normalize_pending env root contents pending =
     (if pending = [] then Inl NoTextEdits
      else if length pending > MAX_EDIT_FILES then Inl TooManyFiles
      else bind_err (fold_err (normalize_file env root contents pending) (sort (dict_keys pending)) ([], 0))
        (\<lambda>(fs, _).
          let all_patches = concat (map fe_patches fs) in
          if length all_patches > MAX_TEXT_EDITS then Inl TooManyEdits
          else bind_err (bounded_diff env fs) (\<lambda>(diff, truncated).
            Inr \<lparr>ne_files = fs, ne_patches = sort_key (\<lambda>p. (ep_path p, patch_key p)) all_patches,
                 ne_diff = diff, ne_truncated = truncated\<rparr>)))"

definition decode_encoding :: "ustr \<Rightarrow> position_encoding option" where
  "decode_encoding s =
     (if s = u ''utf-8'' then Some UTF8 else if s = u ''utf-16'' then Some UTF16
      else if s = u ''utf-32'' then Some UTF32 else None)"

text \<open>One entry of \<open>documentChanges\<close>.\<close>

definition collect_document_change ::
  "edit_env \<Rightarrow> ppath \<Rightarrow> (ustr, bytes) dict \<Rightarrow> position_encoding \<Rightarrow> (ustr, int) dict \<Rightarrow> json \<Rightarrow> pending \<Rightarrow>
   (preview_error, pending) result" where
  "collect_document_change env root contents enc versions item pending =
     bind_err (object_mapping item) (\<lambda>change.
     if \<not> has_field change ''textDocument'' then Inl ResourceOperation
     else if \<not> only_fields change [''textDocument'', ''edits''] then Inl UnsupportedKeys
     else bind_err (object_mapping (get_field change ''textDocument'')) (\<lambda>document.
     if \<not> only_fields document [''uri'', ''version''] then Inl UnsupportedKeys
     else (case get_field document ''uri'' of
        JStr uri \<Rightarrow>
          bind_err
            (case get_field document ''version'' of
               JNull \<Rightarrow> Inr ()
             | JInt v \<Rightarrow> if map_of versions uri \<noteq> Some v then Inl StaleVersion else Inr ()
             | _ \<Rightarrow> Inl BadVersion)
            (\<lambda>_. collect_uri_edits env root contents enc (JStr uri) (get_field change ''edits'') pending)
      | _ \<Rightarrow> Inl UriNotString)))"

definition collect_changes ::
  "edit_env \<Rightarrow> ppath \<Rightarrow> (ustr, bytes) dict \<Rightarrow> position_encoding \<Rightarrow> (ustr, int) dict \<Rightarrow> (ustr, json) dict \<Rightarrow>
   (preview_error, pending) result" where
  "collect_changes env root contents enc versions edit =
     bind_err
       (if get_field edit ''changes'' = JNull then Inr []
        else bind_err (object_mapping (get_field edit ''changes'')) (\<lambda>changes.
          fold_err (\<lambda>(uri, raw_edits). collect_uri_edits env root contents enc (JStr uri) raw_edits) changes []))
       (\<lambda>pending.
          if get_field edit ''documentChanges'' = JNull then Inr pending
          else bind_err (object_list (get_field edit ''documentChanges'')) (\<lambda>document_changes.
            fold_err (collect_document_change env root contents enc versions) document_changes pending))"

definition normalize_workspace_edit ::
  "edit_env \<Rightarrow> ppath \<Rightarrow> (ustr, bytes) dict \<Rightarrow> ustr \<Rightarrow> (ustr, int) dict \<Rightarrow> json \<Rightarrow>
   (preview_error, normalized_edit) result" where
  "normalize_workspace_edit env root contents position_encoding versions raw_edit =
     (case decode_encoding position_encoding of
        None \<Rightarrow> Inl UnsupportedEncoding
      | Some enc \<Rightarrow>
          bind_err (object_mapping raw_edit) (\<lambda>edit.
          if \<not> only_fields edit [''changes'', ''documentChanges'', ''changeAnnotations''] then Inl UnsupportedKeys
          else if get_field edit ''changeAnnotations'' \<notin> {JNull, JObj []} then Inl AnnotatedEdit
          else if get_field edit ''changes'' \<noteq> JNull \<and> get_field edit ''documentChanges'' \<noteq> JNull
          then Inl MixedChanges
          else bind_err (collect_changes env root contents enc versions edit)
                 (normalize_pending env root contents)))"

subsection \<open>Byte edits of an engine\<close>

definition byte_point :: "bytes \<Rightarrow> nat \<Rightarrow> (preview_error, lsp_position) result" where
  "byte_point preimage offset =
     (let prefix = take offset preimage;
          last_line = rev (takeWhile (\<lambda>b. b \<noteq> 10) (rev prefix))
      in case utf8_decode last_line of
           None \<Rightarrow> Inl PreimageDecodeError
         | Some s \<Rightarrow> Inr \<lparr>lp_line = length (filter (\<lambda>b. b = 10) prefix), lp_character = length s\<rparr>)"

definition byte_patch :: "edit_env \<Rightarrow> ustr \<Rightarrow> bytes \<Rightarrow> structural_edit \<Rightarrow> (preview_error, edit_patch) result" where
  "byte_patch env path preimage e =
     (if se_end e < se_start e \<or> se_end e > length preimage then Inl RangeOutOfBounds
      else bind_err (byte_point preimage (se_start e)) (\<lambda>s.
           bind_err (byte_point preimage (se_end e)) (\<lambda>t.
             Inr \<lparr>ep_path = path, ep_range = \<lparr>lr_start = s, lr_end = t\<rparr>, ep_start = se_start e,
                  ep_end = se_end e, ep_text = se_text e, ep_hash = ee_sha env preimage\<rparr>)))"

definition splice_byte_patch :: "edit_patch \<Rightarrow> bytes \<Rightarrow> (preview_error, bytes) result" where
  "splice_byte_patch p post =
     bind_err (encode_replacement (ep_text p)) (\<lambda>replacement. Inr (splice post (ep_start p) (ep_end p) replacement))"

definition normalize_byte_file ::
  "edit_env \<Rightarrow> (ustr, bytes) dict \<Rightarrow> structural_edit list \<Rightarrow> ustr \<Rightarrow> (preview_error, file_edit) result" where
  "normalize_byte_file env contents edits path =
     (case map_of contents path of
        None \<Rightarrow> Inl UncapturedFile
      | Some preimage \<Rightarrow>
          bind_err (map_err (byte_patch env path preimage)
              (sort_key (\<lambda>e. (se_start e, se_end e)) (filter (\<lambda>e. se_path e = path) edits))) (\<lambda>patches.
          bind_err (reject_overlaps None patches) (\<lambda>_.
          bind_err (fold_err splice_byte_patch (rev patches) preimage) (\<lambda>postimage.
            Inr \<lparr>fe_path = path, fe_preimage = preimage, fe_postimage = postimage,
                 fe_pre_hash = ee_sha env preimage, fe_post_hash = ee_sha env postimage,
                 fe_patches = patches\<rparr>))))"

definition normalize_byte_edits ::
  "edit_env \<Rightarrow> (ustr, bytes) dict \<Rightarrow> structural_edit list \<Rightarrow> (preview_error, normalized_edit) result" where
  "normalize_byte_edits env contents edits =
     (if edits = [] then Inl NoTextEdits
      else if length (remdups (map se_path edits)) > MAX_EDIT_FILES \<or> length edits > MAX_TEXT_EDITS
      then Inl TooManyEdits
      else bind_err (map_err (normalize_byte_file env contents edits) (sort (remdups (map se_path edits)))) (\<lambda>fs.
        bind_err (bounded_diff env fs) (\<lambda>(diff, truncated).
          Inr \<lparr>ne_files = fs, ne_patches = concat (map fe_patches fs), ne_diff = diff, ne_truncated = truncated\<rparr>)))"

subsection \<open>Offsets are code-point boundaries\<close>

definition aligned :: "bytes \<Rightarrow> nat \<Rightarrow> bool" where
  "aligned content b \<longleftrightarrow> b \<le> length content \<and> utf8_decode (take b content) \<noteq> None"

lemma point_to_byte_aligned:
  assumes "make_codec content = Inr c" and "point_to_byte c line col enc = Inr b"
  shows "aligned content b"
proof -
  have ok: "codec_ok c" and con: "pc_content c = content" using make_codec_ok [OF assms(1)] by simp_all
  from assms(2) obtain start seg i where
    lt: "line_text c line = Inr (start, seg)"
    and b: "b = start + length (utf8 (take i (take (content_end seg) seg)))"
    by (auto simp: point_to_byte_def Let_def)
  from lt obtain l where l: "l < length (pc_line_starts c)" "start = pc_line_starts c ! l"
    and dec: "utf8_decode (slice (pc_content c) start (line_end c l)) = Some seg"
    by (auto simp: line_text_def decode_def Let_def split: if_split_asm option.split_asm
        intro!: that [of "nat line"])
  let ?pre = "take (min i (content_end seg)) seg"
  have pre: "take i (take (content_end seg) seg) = ?pre" by simp
  note lb = line_bounds [OF ok l(1)]
  from dec have seg: "list_all is_scalar seg" "slice (pc_content c) start (line_end c l) = utf8 seg"
    by (auto simp: utf8_decode_iff)
  have part: "slice (pc_content c) start b = utf8 ?pre"
    unfolding b pre by (rule take_utf8_slice [OF seg(2) lb(1) [folded l(2)] lb(2)])
  have "length (utf8 seg) = line_end c l - start" using seg(2) lb(2) by (metis length_slice)
  then have "b \<le> line_end c l"
    using b utf8_take_le [of "min i (content_end seg)" seg] lb(1) l(2) unfolding pre by simp
  moreover have "utf8_decode (utf8 ?pre) = Some ?pre"
    using seg(1) by (intro utf8_decode_encode) (meson in_set_takeD list.pred_set)
  moreover obtain w where "utf8_decode (take start (pc_content c)) = Some w"
    using starts_aligned [OF ok, of start] l by auto
  ultimately have "utf8_decode (take start (pc_content c) @ slice (pc_content c) start b) \<noteq> None"
    using utf8_decode_append part by fastforce
  moreover have "take b (pc_content c) = take start (pc_content c) @ slice (pc_content c) start b"
    by (rule take_slice) (simp add: b)
  ultimately show ?thesis using \<open>b \<le> line_end c l\<close> lb(2) con by (simp add: aligned_def)
qed

lemma length_removesuffix: "length (removesuffix s p) \<le> length s"
  by (simp add: removesuffix_def)

lemma position_to_byte_aligned:
  assumes "make_codec content = Inr c" and "position_to_byte c content line character enc = Inr b"
  shows "aligned content b"
proof (cases "enc = UTF16 \<or> enc = UTF32")
  case True
  then show ?thesis using assms point_to_byte_aligned by (simp add: position_to_byte_def)
next
  case False
  with assms(2) obtain ls lbytes where
    ls: "point_to_byte c (int line) 0 UTF8 = Inr ls"
    and pick: "(if line + 1 < length (pc_line_starts c)
        then bind_err (point_to_byte c (int (line + 1)) 0 UTF8) (\<lambda>next_line. Inr (slice content ls next_line))
        else Inr (drop ls content)) = Inr lbytes"
    and ends: "(if length (removesuffix_byte 13 (removesuffix_byte 10 lbytes)) < character
        then Inl (ColumnOutside (int character))
        else (case utf8_decode (slice content ls (ls + character)) of
           None \<Rightarrow> Inl UnicodeDecodeError | Some _ \<Rightarrow> Inr (ls + character))) = Inr b"
    unfolding position_to_byte_def Let_def by (simp only: if_False bind_err_eq_Inr) blast
  from ends obtain s where
    ch: "character \<le> length (removesuffix_byte 13 (removesuffix_byte 10 lbytes))"
    and d: "utf8_decode (slice content ls (ls + character)) = Some s" and b: "b = ls + character"
    by (auto split: if_split_asm option.split_asm)
  from pick have lb: "lbytes = drop ls content \<or> (\<exists>nx. lbytes = slice content ls nx)"
    by (auto split: if_split_asm)
  have al: "aligned content ls" by (rule point_to_byte_aligned [OF assms(1) ls])
  then obtain w where "utf8_decode (take ls content) = Some w" by (auto simp: aligned_def)
  from utf8_decode_append [OF this d] take_slice [of ls "ls + character" content]
  have "utf8_decode (take b content) \<noteq> None" by (simp add: b)
  moreover have "character \<le> length lbytes"
    using ch length_removesuffix [of "removesuffix_byte 10 lbytes" "[13]"] length_removesuffix [of lbytes "[10]"]
    by (simp add: removesuffix_byte_def)
  then have "b \<le> length content" using lb al b by (auto simp: aligned_def slice_def)
  ultimately show ?thesis by (simp add: aligned_def)
qed

subsection \<open>What collection keeps\<close>

definition patch_ok :: "(bytes \<Rightarrow> ustr) \<Rightarrow> ustr \<Rightarrow> bytes \<Rightarrow> edit_patch \<Rightarrow> bool" where
  "patch_ok sha path pre p \<longleftrightarrow> ep_path p = path \<and> ep_start p \<le> ep_end p \<and> aligned pre (ep_start p)
     \<and> aligned pre (ep_end p) \<and> list_all is_scalar (ep_text p) \<and> ep_hash p = sha pre"

definition pending_ok :: "(bytes \<Rightarrow> ustr) \<Rightarrow> (ustr, bytes) dict \<Rightarrow> pending \<Rightarrow> bool" where
  "pending_ok sha contents pending \<longleftrightarrow> dict_ok pending \<and>
     (\<forall>(path, ps) \<in> set pending. \<exists>pre. map_of contents path = Some pre \<and> utf8_decode pre \<noteq> None
        \<and> (\<forall>p \<in> set ps. patch_ok sha path pre p))"

lemma encode_replacement_Inr: "encode_replacement t = Inr bs \<longleftrightarrow> list_all is_scalar t \<and> bs = utf8 t"
  by (auto simp: encode_replacement_def utf8_encode_def)

lemma collect_edit_ok:
  assumes "collect_edit env path pre codec enc raw ps = Inr ps'" and "make_codec pre = Inr codec"
    and "\<forall>p \<in> set ps. patch_ok (ee_sha env) path pre p"
  shows "\<forall>p \<in> set ps'. patch_ok (ee_sha env) path pre p"
  using assms(1,3) position_to_byte_aligned [OF assms(2)]
  by (auto simp: collect_edit_def patch_ok_def encode_replacement_Inr not_less
      split: if_split_asm json.split_asm option.split_asm sum.split_asm)

lemma pending_ok_update:
  assumes "pending_ok sha contents pending" and "map_of contents path = Some pre" and "utf8_decode pre \<noteq> None"
    and "\<forall>p \<in> set ps. patch_ok sha path pre p"
  shows "pending_ok sha contents (AList.update path ps pending)"
  using assms by (auto simp: pending_ok_def mem_update_dict split: if_split_asm)

lemma pending_ok_setdefault:
  assumes "pending_ok sha contents pending" and "map_of contents path = Some pre"
  shows "\<forall>p \<in> set (setdefault path pending). patch_ok sha path pre p"
proof (cases "map_of pending path")
  case (Some ps)
  from bspec [OF conjunct2 [OF assms(1) [unfolded pending_ok_def]] map_of_SomeD [OF Some]] assms(2)
  show ?thesis using Some by (auto simp: setdefault_def)
qed (simp add: setdefault_def)

lemma collect_uri_edits_ok:
  assumes "collect_uri_edits env root contents enc uri raw pending = Inr pending'"
    and "pending_ok (ee_sha env) contents pending"
  shows "pending_ok (ee_sha env) contents pending'"
proof -
  from assms(1) obtain path pre edits where
    c: "map_of contents path = Some pre"
    and m: "(case make_codec pre of
        Inl _ \<Rightarrow> Inl PreimageDecodeError
      | Inr codec \<Rightarrow>
          bind_err (fold_err (collect_edit env path pre codec enc) edits (setdefault path pending))
            (\<lambda>selected. Inr (AList.update path selected pending))) = Inr pending'"
    by (auto simp: collect_uri_edits_def split: json.split_asm option.split_asm)
  from m obtain codec selected where codec: "make_codec pre = Inr codec"
    and f: "fold_err (collect_edit env path pre codec enc) edits (setdefault path pending) = Inr selected"
    and p': "pending' = AList.update path selected pending"
    by (auto split: sum.split_asm)
  have "\<forall>p \<in> set selected. patch_ok (ee_sha env) path pre p"
    by (rule fold_err_invariant [where I = "\<lambda>ps. \<forall>p \<in> set ps. patch_ok (ee_sha env) path pre p", OF f
          pending_ok_setdefault [OF assms(2) c]])
      (rule collect_edit_ok [OF _ codec], assumption+)
  moreover have "utf8_decode pre \<noteq> None" using codec by (auto simp: make_codec_def split: option.split_asm)
  ultimately show ?thesis unfolding p' using assms(2) c by (intro pending_ok_update)
qed

lemma collect_changes_ok:
  assumes "collect_changes env root contents enc versions edit = Inr pending"
  shows "pending_ok (ee_sha env) contents pending"
proof -
  let ?I = "pending_ok (ee_sha env) contents"
  have start: "?I []" by (simp add: pending_ok_def)
  have first: "?I p1" if "fold_err (\<lambda>(uri, raw_edits). collect_uri_edits env root contents enc (JStr uri) raw_edits) cs [] = Inr p1"
    for cs p1
    using that start by (rule fold_err_invariant) (auto intro: collect_uri_edits_ok)
  have doc: "?I s'" if "collect_document_change env root contents enc versions item s = Inr s'" "?I s" for item s s'
    using that by (auto simp: collect_document_change_def intro: collect_uri_edits_ok split: if_split_asm json.split_asm)
  have second: "?I p2" if "fold_err (collect_document_change env root contents enc versions) ds p1 = Inr p2" "?I p1"
    for ds p1 p2
    using that by (rule fold_err_invariant) (rule doc)
  show ?thesis using assms first second start
    by (auto simp: collect_changes_def split: if_split_asm)
qed

subsection \<open>Splicing\<close>

text \<open>The reference: the text left to right, each patch replacing its range of the preimage.\<close>

fun rewrite :: "bytes \<Rightarrow> nat \<Rightarrow> edit_patch list \<Rightarrow> bytes" where
  "rewrite pre pos [] = drop pos pre"
| "rewrite pre pos (p # ps) = slice pre pos (ep_start p) @ utf8 (ep_text p) @ rewrite pre (ep_end p) ps"

text \<open>Patches in order, none empty-range twice at one offset, all inside the preimage.\<close>

fun ordered_from :: "nat \<Rightarrow> nat \<Rightarrow> edit_patch list \<Rightarrow> bool" where
  "ordered_from n pos [] \<longleftrightarrow> pos \<le> n"
| "ordered_from n pos (p # ps) \<longleftrightarrow> pos \<le> ep_start p \<and> ep_start p \<le> ep_end p \<and> ordered_from n (ep_end p) ps"

definition splice_all :: "edit_patch list \<Rightarrow> bytes \<Rightarrow> bytes" where
  "splice_all ps pre = foldr (\<lambda>p post. splice post (ep_start p) (ep_end p) (utf8 (ep_text p))) ps pre"

lemma ordered_from_le: "ordered_from n pos ps \<Longrightarrow> pos \<le> n"
  by (induction ps arbitrary: pos) force+

lemma splice_all_eq: "ordered_from (length pre) pos ps \<Longrightarrow> splice_all ps pre = take pos pre @ rewrite pre pos ps"
proof (induction ps arbitrary: pos)
  case (Cons p ps)
  let ?s = "ep_start p" and ?e = "ep_end p"
  have o: "pos \<le> ?s" "?s \<le> ?e" "ordered_from (length pre) ?e ps" using Cons.prems by simp_all
  have le: "?e \<le> length pre" by (rule ordered_from_le [OF o(3)])
  have "splice_all (p # ps) pre = splice (take ?e pre @ rewrite pre ?e ps) ?s ?e (utf8 (ep_text p))"
    using Cons.IH [OF o(3)] by (simp add: splice_all_def)
  also have "\<dots> = take ?s pre @ utf8 (ep_text p) @ rewrite pre ?e ps"
    using o(2) le by (simp add: splice_def min_absorb1 min_absorb2)
  also have "take ?s pre = take pos pre @ slice pre pos ?s" by (rule take_slice [OF o(1)])
  finally show ?case by simp
qed (simp add: splice_all_def)

lemma reject_overlaps_Some:
  "reject_overlaps (Some q) ps = Inr () \<Longrightarrow> \<forall>p \<in> set ps. ep_start p \<le> ep_end p \<and> ep_end p \<le> n
     \<Longrightarrow> ep_end q \<le> n \<Longrightarrow> ordered_from n (ep_end q) ps"
  by (induction ps arbitrary: q) (auto split: if_split_asm)

lemma reject_overlaps_ordered:
  "reject_overlaps None ps = Inr () \<Longrightarrow> \<forall>p \<in> set ps. ep_start p \<le> ep_end p \<and> ep_end p \<le> n \<Longrightarrow> ordered_from n 0 ps"
  by (cases ps) (auto intro: reject_overlaps_Some)

text \<open>Patches that pass start at strictly increasing offsets.\<close>

lemma reject_overlaps_starts:
  "reject_overlaps (Some q) ps = Inr () \<Longrightarrow> \<forall>p \<in> set (q # ps). ep_start p \<le> ep_end p
     \<Longrightarrow> sorted_wrt (\<lambda>p q. ep_start p < ep_start q) (q # ps)"
  by (induction ps arbitrary: q) (fastforce split: if_split_asm)+

lemma reject_overlaps_increasing:
  "reject_overlaps None ps = Inr () \<Longrightarrow> \<forall>p \<in> set ps. ep_start p \<le> ep_end p
     \<Longrightarrow> sorted_wrt (\<lambda>p q. ep_start p < ep_start q) ps"
  using reject_overlaps_starts by (cases ps) auto

lemma fold_splice_patch:
  "fold_err splice_patch (rev ps) st = Inr st' \<Longrightarrow>
     fst st' = splice_all ps (fst st) \<and> snd st' = snd st + sum_list (map (\<lambda>p. length (utf8 (ep_text p))) ps)
     \<and> list_all (\<lambda>p. list_all is_scalar (ep_text p)) ps \<and> (ps \<noteq> [] \<longrightarrow> snd st' \<le> MAX_REPLACEMENT_BYTES)"
proof (induction ps arbitrary: st')
  case (Cons p ps)
  have app: "fold_err f (xs @ ys) s = bind_err (fold_err f xs s) (fold_err f ys)"
    for f :: "edit_patch \<Rightarrow> bytes \<times> nat \<Rightarrow> (preview_error, bytes \<times> nat) result" and xs ys s
    by (induction xs arbitrary: s) (auto simp: bind_err_def split: sum.split)
  from Cons.prems obtain st1 where st1: "fold_err splice_patch (rev ps) st = Inr st1"
    and p: "splice_patch p st1 = Inr st'"
    by (auto simp: app)
  from Cons.IH [OF st1] p show ?case
    by (auto simp: splice_patch_def encode_replacement_Inr splice_all_def Let_def split: if_split_asm)
qed (simp add: splice_all_def)

lemma rewrite_decodes:
  assumes "ordered_from (length pre) pos ps" and "utf8_decode pre \<noteq> None" and "aligned pre pos"
    and "\<forall>p \<in> set ps. aligned pre (ep_start p) \<and> aligned pre (ep_end p) \<and> list_all is_scalar (ep_text p)"
  shows "utf8_decode (rewrite pre pos ps) \<noteq> None"
  using assms(1,3,4)
proof (induction ps arbitrary: pos)
  case Nil
  obtain w where "utf8_decode (take pos pre) = Some w" using Nil by (auto simp: aligned_def)
  moreover obtain t where "utf8_decode (take pos pre @ drop pos pre) = Some t" using assms(2) by auto
  ultimately show ?case using utf8_decode_suffix by (metis option.distinct(1) rewrite.simps(1))
next
  case (Cons p ps)
  obtain w where w: "utf8_decode (take pos pre) = Some w" using Cons.prems by (auto simp: aligned_def)
  obtain v where v: "utf8_decode (take (ep_start p) pre) = Some v" using Cons.prems by (auto simp: aligned_def)
  have "take (ep_start p) pre = take pos pre @ slice pre pos (ep_start p)"
    using Cons.prems by (intro take_slice) simp
  then obtain a where a: "utf8_decode (slice pre pos (ep_start p)) = Some a"
    using utf8_decode_suffix v w by metis
  obtain b where b: "utf8_decode (rewrite pre (ep_end p) ps) = Some b"
    using Cons.IH [of "ep_end p"] Cons.prems by auto
  have "utf8_decode (utf8 (ep_text p)) = Some (ep_text p)" using Cons.prems by (intro utf8_decode_encode) simp
  from utf8_decode_append [OF a utf8_decode_append [OF this b]] show ?case by simp
qed

subsection \<open>Normalised files\<close>

definition file_ok :: "edit_env \<Rightarrow> ppath \<Rightarrow> (ustr, bytes) dict \<Rightarrow> file_edit \<Rightarrow> bool" where
  "file_ok env root contents f \<longleftrightarrow>
     map_of contents (fe_path f) = Some (fe_preimage f) \<and> utf8_decode (fe_preimage f) \<noteq> None
     \<and> (\<exists>live. admit_edit_path (ee_files env) root (fe_path f) = Inr live
          \<and> read_regular_file (ee_files env) live = Inr (fe_preimage f))
     \<and> ordered_from (length (fe_preimage f)) 0 (fe_patches f)
     \<and> sorted_wrt (\<lambda>p q. ep_start p < ep_start q) (fe_patches f)
     \<and> (\<forall>p \<in> set (fe_patches f). patch_ok (ee_sha env) (fe_path f) (fe_preimage f) p)
     \<and> fe_postimage f = rewrite (fe_preimage f) 0 (fe_patches f)
     \<and> fe_pre_hash f = ee_sha env (fe_preimage f) \<and> fe_post_hash f = ee_sha env (fe_postimage f)"

definition replacement_bytes :: "edit_patch list \<Rightarrow> nat" where
  "replacement_bytes ps = sum_list (map (\<lambda>p. length (utf8 (ep_text p))) ps)"

lemma normalize_file_step:
  assumes "normalize_file env root contents pending path st = Inr st'" and "pending_ok (ee_sha env) contents pending"
    and "path \<in> set (dict_keys pending)"
  shows "\<exists>f. fst st' = fst st @ [f] \<and> fe_path f = path \<and> file_ok env root contents f
    \<and> snd st' = snd st + replacement_bytes (fe_patches f)
    \<and> (fe_patches f \<noteq> [] \<longrightarrow> snd st' \<le> MAX_REPLACEMENT_BYTES)"
proof -
  let ?ps = "sort_key patch_key (setdefault path pending)"
  from assms(1) obtain pre live post total where
    o: "reject_overlaps None ?ps = Inr ()" and c: "map_of contents path = Some pre"
    and live: "admit_edit_path (ee_files env) root path = Inr live"
      "read_regular_file (ee_files env) live = Inr pre"
    and f: "fold_err splice_patch (rev ?ps) (pre, snd st) = Inr (post, total)"
    and st': "st' = (fst st @ [\<lparr>fe_path = path, fe_preimage = pre, fe_postimage = post,
        fe_pre_hash = ee_sha env pre, fe_post_hash = ee_sha env post, fe_patches = ?ps\<rparr>], total)"
    by (auto simp: normalize_file_def Let_def split: option.split_asm if_split_asm)
  have ok: "\<forall>p \<in> set ?ps. patch_ok (ee_sha env) path pre p"
    using pending_ok_setdefault [OF assms(2) c] by simp
  have dec: "utf8_decode pre \<noteq> None"
    using assms(2,3) c by (auto simp: pending_ok_def)
  have "\<forall>p \<in> set ?ps. ep_start p \<le> ep_end p \<and> ep_end p \<le> length pre"
    using ok by (auto simp: patch_ok_def aligned_def)
  from reject_overlaps_ordered [OF o this] have ord: "ordered_from (length pre) 0 ?ps" .
  from fold_splice_patch [OF f] have fs: "post = splice_all ?ps pre" "total = snd st + replacement_bytes ?ps"
    "?ps \<noteq> [] \<longrightarrow> total \<le> MAX_REPLACEMENT_BYTES"
    unfolding replacement_bytes_def fst_conv snd_conv by blast+
  have post: "post = rewrite pre 0 ?ps" using fs(1) splice_all_eq [OF ord] by simp
  let ?f = "\<lparr>fe_path = path, fe_preimage = pre, fe_postimage = post,
        fe_pre_hash = ee_sha env pre, fe_post_hash = ee_sha env post, fe_patches = ?ps\<rparr>"
  have inc: "sorted_wrt (\<lambda>p q. ep_start p < ep_start q) ?ps"
    using o ok by (intro reject_overlaps_increasing) (auto simp: patch_ok_def)
  have "file_ok env root contents ?f" using c live ord ok inc dec post by (simp add: file_ok_def)
  then show ?thesis using fs(2,3) unfolding st' by (intro exI [of _ ?f]) simp
qed

lemma normalize_files:
  assumes "fold_err (normalize_file env root contents pending) paths st = Inr st'"
    and "pending_ok (ee_sha env) contents pending" and "set paths \<subseteq> set (dict_keys pending)"
  shows "\<exists>fs. fst st' = fst st @ fs \<and> map fe_path fs = paths \<and> (\<forall>f \<in> set fs. file_ok env root contents f)
    \<and> snd st' = snd st + replacement_bytes (concat (map fe_patches fs))
    \<and> (concat (map fe_patches fs) \<noteq> [] \<longrightarrow> snd st' \<le> MAX_REPLACEMENT_BYTES)"
  using assms(1,3)
proof (induction paths arbitrary: st)
  case (Cons path paths)
  then obtain st1 where st1: "normalize_file env root contents pending path st = Inr st1"
    "fold_err (normalize_file env root contents pending) paths st1 = Inr st'" by auto
  from normalize_file_step [OF st1(1) assms(2)] Cons.prems(2) obtain f where
    f: "fst st1 = fst st @ [f]" "fe_path f = path" "file_ok env root contents f"
      "snd st1 = snd st + replacement_bytes (fe_patches f)"
      "fe_patches f \<noteq> [] \<longrightarrow> snd st1 \<le> MAX_REPLACEMENT_BYTES" by auto
  from Cons.IH [OF st1(2)] Cons.prems(2) obtain fs where
    fs: "fst st' = fst st1 @ fs" "map fe_path fs = paths" "\<forall>f \<in> set fs. file_ok env root contents f"
      "snd st' = snd st1 + replacement_bytes (concat (map fe_patches fs))"
      "concat (map fe_patches fs) \<noteq> [] \<longrightarrow> snd st' \<le> MAX_REPLACEMENT_BYTES" by auto
  show ?case
  proof (intro exI [of _ "f # fs"] conjI)
    show "snd st' = snd st + replacement_bytes (concat (map fe_patches (f # fs)))"
      using f(4) fs(4) by (simp add: replacement_bytes_def)
    show "concat (map fe_patches (f # fs)) \<noteq> [] \<longrightarrow> snd st' \<le> MAX_REPLACEMENT_BYTES"
      using f(5) fs(4,5) by (cases "concat (map fe_patches fs) = []") (simp_all add: replacement_bytes_def)
  qed (use f fs in auto)
qed (simp add: replacement_bytes_def)

lemma normalize_workspace_edit_files:
  assumes "normalize_workspace_edit env root contents encoding versions raw = Inr n"
  obtains pending where "pending_ok (ee_sha env) contents pending" "pending \<noteq> []" "length pending \<le> MAX_EDIT_FILES"
    "map fe_path (ne_files n) = sort (dict_keys pending)"
    "\<forall>f \<in> set (ne_files n). file_ok env root contents f"
    "replacement_bytes (concat (map fe_patches (ne_files n))) \<le> MAX_REPLACEMENT_BYTES"
    "length (concat (map fe_patches (ne_files n))) \<le> MAX_TEXT_EDITS"
    "bounded_diff env (ne_files n) = Inr (ne_diff n, ne_truncated n)"
    "ne_patches n = sort_key (\<lambda>p. (ep_path p, patch_key p)) (concat (map fe_patches (ne_files n)))"
proof -
  from assms obtain enc edit pending where
    c: "collect_changes env root contents enc versions edit = Inr pending"
    and np: "normalize_pending env root contents pending = Inr n"
    by (auto simp: normalize_workspace_edit_def split: option.split_asm if_split_asm)
  note ok = collect_changes_ok [OF c]
  from np obtain fs total where
    lim: "pending \<noteq> []" "length pending \<le> MAX_EDIT_FILES"
    and f: "fold_err (normalize_file env root contents pending) (sort (dict_keys pending)) ([], 0) = Inr (fs, total)"
    and n: "length (concat (map fe_patches fs)) \<le> MAX_TEXT_EDITS"
      "bounded_diff env fs = Inr (ne_diff n, ne_truncated n)" "ne_files n = fs"
      "ne_patches n = sort_key (\<lambda>p. (ep_path p, patch_key p)) (concat (map fe_patches fs))"
    by (auto simp: normalize_pending_def Let_def split: if_split_asm)
  from normalize_files [OF f ok] have fs: "map fe_path fs = sort (dict_keys pending)"
    "\<forall>f \<in> set fs. file_ok env root contents f" "total = replacement_bytes (concat (map fe_patches fs))"
    "concat (map fe_patches fs) \<noteq> [] \<longrightarrow> total \<le> MAX_REPLACEMENT_BYTES" by auto
  have "replacement_bytes (concat (map fe_patches fs)) \<le> MAX_REPLACEMENT_BYTES"
  proof (cases "concat (map fe_patches fs) = []")
    case True
    then show ?thesis unfolding True by (simp add: replacement_bytes_def)
  next
    case False
    then show ?thesis using fs(4) unfolding fs(3) by blast
  qed
  with that [OF ok lim] fs n show thesis by simp
qed

lemma utf8_decodable_prefix: "\<exists>r. bs = utf8 (decodable_prefix bs) @ r"
proof (induction bs rule: decodable_prefix.induct)
  case (1 bs)
  show ?case
  proof (cases "decode_char bs")
    case None
    then show ?thesis by (simp add: decodable_prefix.simps [of bs])
  next
    case (Some cr)
    obtain c r where cr: "cr = (c, r)" by (cases cr)
    have "bs = encode_char c @ r" using decode_char_sound [of bs c r] Some cr by simp
    moreover obtain r' where "r = utf8 (decodable_prefix r) @ r'" using 1 [OF Some] cr by blast
    moreover have "decodable_prefix bs = c # decodable_prefix r"
      using Some cr by (simp add: decodable_prefix.simps [of bs])
    ultimately show ?thesis by (metis append.assoc utf8_simps(2))
  qed
qed

lemma bounded_diff_length:
  assumes "bounded_diff env fs = Inr (d, truncated)"
  shows "length (utf8 d) \<le> MAX_DIFF_BYTES + 24"
proof (cases truncated)
  case True
  with assms obtain bs where d: "d = decodable_prefix (take MAX_DIFF_BYTES bs) @ [10] @ u ''... diff truncated ...'' @ [10]"
    by (auto simp: bounded_diff_def Let_def split: if_split_asm)
  obtain r where "take MAX_DIFF_BYTES bs = utf8 (decodable_prefix (take MAX_DIFF_BYTES bs)) @ r"
    using utf8_decodable_prefix by blast
  from arg_cong [OF this, of length] have "length (utf8 (decodable_prefix (take MAX_DIFF_BYTES bs))) \<le> MAX_DIFF_BYTES"
    by simp
  moreover have "length (utf8 ([10] @ u ''... diff truncated ...'' @ [10])) = 24"
    by (simp add: u_def encode_char_def)
  ultimately show ?thesis unfolding d by simp
next
  case False
  with assms show ?thesis by (auto simp: bounded_diff_def Let_def split: if_split_asm)
qed

text \<open>C2: Every file of a normalised \<open>WorkspaceEdit\<close> was read live with exactly the captured preimage, its
  patches are ordered, do not overlap and lie on code-point boundaries inside it, and the
  postimage, spliced back to front, is the preimage rewritten front to back.\<close>

theorem normalized_postimage:
  assumes "normalize_workspace_edit env root contents encoding versions raw = Inr n" and "f \<in> set (ne_files n)"
  shows "map_of contents (fe_path f) = Some (fe_preimage f)
    \<and> (\<exists>live. admit_edit_path (ee_files env) root (fe_path f) = Inr live
         \<and> read_regular_file (ee_files env) live = Inr (fe_preimage f))
    \<and> ordered_from (length (fe_preimage f)) 0 (fe_patches f)
    \<and> (\<forall>p \<in> set (fe_patches f). aligned (fe_preimage f) (ep_start p) \<and> aligned (fe_preimage f) (ep_end p))
    \<and> fe_postimage f = rewrite (fe_preimage f) 0 (fe_patches f)"
proof -
  from normalize_workspace_edit_files [OF assms(1)] assms(2) have "file_ok env root contents f" by metis
  then show ?thesis by (auto simp: file_ok_def patch_ok_def)
qed

text \<open>C38: A normalised \<open>WorkspaceEdit\<close> stays within its limits: between 1 and 256 files in path order, at
  most 4096 patches, at most one mebibyte of replacement text in all, and a diff of at most
  64 KiB and its truncation notice.\<close>

theorem normalized_bounds:
  assumes "normalize_workspace_edit env root contents encoding versions raw = Inr n"
  shows "ne_files n \<noteq> [] \<and> length (ne_files n) \<le> 256 \<and> sorted_wrt (<) (map fe_path (ne_files n))
    \<and> length (ne_patches n) \<le> 4096
    \<and> replacement_bytes (concat (map fe_patches (ne_files n))) \<le> 1048576
    \<and> length (utf8 (ne_diff n)) \<le> 65536 + 24"
proof -
  from normalize_workspace_edit_files [OF assms] obtain pending where
    p: "pending_ok (ee_sha env) contents pending" "pending \<noteq> []" "length pending \<le> MAX_EDIT_FILES"
    and paths: "map fe_path (ne_files n) = sort (dict_keys pending)"
    and lim: "replacement_bytes (concat (map fe_patches (ne_files n))) \<le> MAX_REPLACEMENT_BYTES"
      "length (concat (map fe_patches (ne_files n))) \<le> MAX_TEXT_EDITS"
    and d: "bounded_diff env (ne_files n) = Inr (ne_diff n, ne_truncated n)"
    and ps: "ne_patches n = sort_key (\<lambda>p. (ep_path p, patch_key p)) (concat (map fe_patches (ne_files n)))" .
  have "length (ne_files n) = length pending" using arg_cong [OF paths, of length] by simp
  moreover have "sorted_wrt (<) (sort (dict_keys pending))"
    using p(1) by (intro sorted_strict_distinct) (simp_all add: pending_ok_def dict_ok_def)
  ultimately show ?thesis
    using p(2,3) lim ps bounded_diff_length [OF d] paths
    by (auto simp: MAX_EDIT_FILES_def MAX_TEXT_EDITS_def MAX_REPLACEMENT_BYTES_def MAX_DIFF_BYTES_def)
qed

text \<open>Text edits never break an encoding: every postimage of a normalised \<open>WorkspaceEdit\<close> is valid
  UTF-8 again.\<close>

theorem normalized_postimage_utf8:
  assumes "normalize_workspace_edit env root contents encoding versions raw = Inr n" and "f \<in> set (ne_files n)"
  shows "utf8_decode (fe_postimage f) \<noteq> None"
proof -
  from normalize_workspace_edit_files [OF assms(1)] assms(2) have ok: "file_ok env root contents f" by metis
  have "aligned (fe_preimage f) 0" by (simp add: aligned_def)
  with ok show ?thesis unfolding file_ok_def patch_ok_def
    using rewrite_decodes [of "fe_preimage f" 0 "fe_patches f"] by auto
qed

lemma fold_splice_byte_patch:
  "fold_err splice_byte_patch (rev ps) pre = Inr post \<Longrightarrow> post = splice_all ps pre"
proof (induction ps arbitrary: post)
  case (Cons p ps)
  have app: "fold_err f (xs @ ys) s = bind_err (fold_err f xs s) (fold_err f ys)"
    for f :: "edit_patch \<Rightarrow> bytes \<Rightarrow> (preview_error, bytes) result" and xs ys s
    by (induction xs arbitrary: s) (auto simp: bind_err_def split: sum.split)
  from Cons.prems obtain st1 where st1: "fold_err splice_byte_patch (rev ps) pre = Inr st1"
    and p: "splice_byte_patch p st1 = Inr post" by (auto simp: app)
  from Cons.IH [OF st1] p show ?case
    by (auto simp: splice_byte_patch_def encode_replacement_Inr splice_all_def)
qed (simp add: splice_all_def)

lemma byte_patch_fields:
  "byte_patch env path pre e = Inr p \<Longrightarrow> (ep_start p, ep_end p, ep_text p) = (se_start e, se_end e, se_text e)
     \<and> se_start e \<le> se_end e \<and> se_end e \<le> length pre"
  by (auto simp: byte_patch_def split: if_split_asm)

lemma byte_patches_fields:
  "map_err (byte_patch env path pre) es = Inr ps \<Longrightarrow>
     map patch_key ps = map (\<lambda>e. (se_start e, se_end e, se_text e)) es
     \<and> (\<forall>p \<in> set ps. ep_start p \<le> ep_end p \<and> ep_end p \<le> length pre)"
proof (induction es arbitrary: ps)
  case (Cons e es)
  then obtain p ps' where p: "byte_patch env path pre e = Inr p"
    and ps: "map_err (byte_patch env path pre) es = Inr ps'" "ps = p # ps'" by auto
  from byte_patch_fields [OF p] Cons.IH [OF ps(1)] show ?case by (simp add: ps(2) patch_key_def)
qed simp

lemma map_err_paths:
  assumes "map_err f xs = Inr ys" and "\<And>x y. f x = Inr y \<Longrightarrow> g y = x"
  shows "map g ys = xs"
  using assms(1) by (induction xs arbitrary: ys) (auto dest: assms(2))

text \<open>An engine's byte edits become exactly one file per edited path, in path order, whose patches
  are that path's edits sorted by range, none overlapping or out of bounds, and whose
  postimage is the captured file rewritten front to back.\<close>

theorem byte_edits_exact:
  assumes "normalize_byte_edits env contents edits = Inr n"
  shows "map fe_path (ne_files n) = sort (remdups (map se_path edits))
    \<and> (\<forall>f \<in> set (ne_files n). map_of contents (fe_path f) = Some (fe_preimage f)
        \<and> map patch_key (fe_patches f) = map (\<lambda>e. (se_start e, se_end e, se_text e))
            (sort_key (\<lambda>e. (se_start e, se_end e)) (filter (\<lambda>e. se_path e = fe_path f) edits))
        \<and> ordered_from (length (fe_preimage f)) 0 (fe_patches f)
        \<and> fe_postimage f = rewrite (fe_preimage f) 0 (fe_patches f))"
proof -
  from assms have m: "map_err (normalize_byte_file env contents edits) (sort (remdups (map se_path edits))) = Inr (ne_files n)"
    by (auto simp: normalize_byte_edits_def split: if_split_asm)
  have each: "fe_path f = path \<and> map_of contents path = Some (fe_preimage f)
      \<and> map patch_key (fe_patches f) = map (\<lambda>e. (se_start e, se_end e, se_text e))
            (sort_key (\<lambda>e. (se_start e, se_end e)) (filter (\<lambda>e. se_path e = path) edits))
      \<and> ordered_from (length (fe_preimage f)) 0 (fe_patches f)
      \<and> fe_postimage f = rewrite (fe_preimage f) 0 (fe_patches f)"
    if nf: "normalize_byte_file env contents edits path = Inr f" for path f
  proof -
    let ?es = "sort_key (\<lambda>e. (se_start e, se_end e)) (filter (\<lambda>e. se_path e = path) edits)"
    from nf have c: "map_of contents path = Some (fe_preimage f)"
      and ps: "map_err (byte_patch env path (fe_preimage f)) ?es = Inr (fe_patches f)"
      and o: "reject_overlaps None (fe_patches f) = Inr ()"
      and s: "fold_err splice_byte_patch (rev (fe_patches f)) (fe_preimage f) = Inr (fe_postimage f)"
      and path: "fe_path f = path"
      by (auto simp: normalize_byte_file_def split: option.split_asm)
    note b = byte_patches_fields [OF ps]
    have "ordered_from (length (fe_preimage f)) 0 (fe_patches f)" using reject_overlaps_ordered [OF o] b by blast
    with b c path fold_splice_byte_patch [OF s] splice_all_eq [OF this] show ?thesis by simp
  qed
  have "map fe_path (ne_files n) = sort (remdups (map se_path edits))"
    using map_err_paths [OF m] each by blast
  moreover have "\<exists>path. normalize_byte_file env contents edits path = Inr f" if "f \<in> set (ne_files n)" for f
    using map_err_mem [OF m that] by blast
  ultimately show ?thesis using each by blast
qed

subsection \<open>A concrete edit\<close>

definition demo_files :: files where
  "demo_files = \<lparr>f_host = demo_host, f_lstat = (\<lambda>p. Some Regular), f_stat = (\<lambda>p. Some Regular),
     f_open = (\<lambda>p. Some (Some Regular, Some [104, 105, 10]))\<rparr>"

definition demo_env :: edit_env where
  "demo_env = \<lparr>ee_files = demo_files, ee_sha = (\<lambda>b. b),
     ee_lax_int = (\<lambda>v. case v of JInt i \<Rightarrow> Some i | _ \<Rightarrow> None), ee_diff = (\<lambda>p a b. [])\<rparr>"

definition demo_position :: "int \<Rightarrow> int \<Rightarrow> json" where
  "demo_position l c = JObj [(u ''line'', JInt l), (u ''character'', JInt c)]"

definition demo_edit :: json where
  "demo_edit = JObj [(u ''changes'', JObj [(u ''file:///w/a'',
     JArr [JObj [(u ''range'', JObj [(u ''start'', demo_position 0 0), (u ''end'', demo_position 0 2)]),
                 (u ''newText'', JStr [121, 111])]])])]"

definition demo_patch :: edit_patch where
  "demo_patch = \<lparr>ep_path = u ''a'', ep_range = \<lparr>lr_start = \<lparr>lp_line = 0, lp_character = 0\<rparr>,
      lr_end = \<lparr>lp_line = 0, lp_character = 2\<rparr>\<rparr>, ep_start = 0, ep_end = 2, ep_text = [121, 111],
      ep_hash = [104, 105, 10]\<rparr>"

definition demo_file :: file_edit where
  "demo_file = \<lparr>fe_path = u ''a'', fe_preimage = [104, 105, 10], fe_postimage = [121, 111, 10],
     fe_pre_hash = [104, 105, 10], fe_post_hash = [121, 111, 10], fe_patches = [demo_patch]\<rparr>"

definition demo_root :: ppath where "demo_root = \<lparr>pp_slashes = 1, pp_parts = [u ''w'']\<rparr>"

lemma demo_relative: "relative_path_for_uri demo_files demo_root (u ''file:///w/a'') = Inr (u ''a'')"
  by code_simp

lemma demo_live: "\<exists>p. admit_edit_path demo_files demo_root (u ''a'') = Inr p"
proof -
  have "admit_edit_path demo_files demo_root (u ''a'') = Inr \<lparr>pp_slashes = 1, pp_parts = [u ''real'', u ''w'', u ''a'']\<rparr>"
    by code_simp
  then show ?thesis by blast
qed

lemma demo_read: "read_regular_file demo_files p = Inr [104, 105, 10]"
  by (simp add: read_regular_file_def demo_files_def)

lemma demo_codec: "make_codec [104, 105, 10] = Inr \<lparr>pc_content = [104, 105, 10], pc_line_starts = [0, 3]\<rparr>"
  by (simp add: make_codec_def decode_char.simps)

lemma demo_offsets:
  "position_to_byte \<lparr>pc_content = [104, 105, 10], pc_line_starts = [0, 3]\<rparr> [104, 105, 10] 0 0 UTF16 = Inr 0"
  "position_to_byte \<lparr>pc_content = [104, 105, 10], pc_line_starts = [0, 3]\<rparr> [104, 105, 10] 0 2 UTF16 = Inr 2"
  by (simp_all add: position_to_byte_def point_to_byte_def line_text_def line_end_def slice_def decode_def Let_def
      decode_char.simps content_end_def char_index_def utf16_width_def encode_char_def)

lemma demo_collect:
  "collect_uri_edits demo_env demo_root [(u ''a'', [104, 105, 10])] UTF16 (JStr (u ''file:///w/a''))
     (JArr [JObj [(u ''range'', JObj [(u ''start'', demo_position 0 0), (u ''end'', demo_position 0 2)]),
                  (u ''newText'', JStr [121, 111])]]) [] = Inr [(u ''a'', [demo_patch])]"
proof -
  have fields: "u ''range'' \<noteq> u ''newText''" "u ''start'' \<noteq> u ''end''" "u ''line'' \<noteq> u ''character''"
    "u ''annotationId'' \<noteq> u ''range''" "u ''annotationId'' \<noteq> u ''newText''"
    by (simp_all add: u_def)
  show ?thesis
    by (simp add: collect_uri_edits_def demo_env_def demo_relative object_list_def demo_codec setdefault_def
        collect_edit_def object_mapping_def has_field_def only_fields_def get_field_def fields fields [symmetric]
        encode_replacement_def utf8_encode_def is_scalar_def parse_range_def parse_position_def demo_position_def
        parse_coordinate_def demo_offsets demo_patch_def)
qed

definition demo_normalized :: normalized_edit where
  "demo_normalized = \<lparr>ne_files = [demo_file], ne_patches = [demo_patch], ne_diff = [], ne_truncated = False\<rparr>"

lemma demo_pending:
  "normalize_pending demo_env demo_root [(u ''a'', [104, 105, 10])] [(u ''a'', [demo_patch])] = Inr demo_normalized"
proof -
  obtain p where "admit_edit_path demo_files demo_root (u ''a'') = Inr p" using demo_live by blast
  then have "normalize_file demo_env demo_root [(u ''a'', [104, 105, 10])] [(u ''a'', [demo_patch])] (u ''a'') ([], 0) =
      Inr ([demo_file], 2)"
    by (simp add: normalize_file_def demo_env_def setdefault_def demo_read splice_patch_def encode_replacement_def
        utf8_encode_def is_scalar_def encode_char_def demo_patch_def splice_def MAX_REPLACEMENT_BYTES_def demo_file_def)
  then show ?thesis
    by (simp add: Let_def normalize_pending_def MAX_EDIT_FILES_def MAX_TEXT_EDITS_def demo_file_def bounded_diff_def
        file_diff_def decode_char.simps demo_env_def MAX_DIFF_BYTES_def demo_normalized_def)
qed

lemma demo_normalizes:
  "normalize_workspace_edit demo_env demo_root [(u ''a'', [104, 105, 10])] (u ''utf-16'') [] demo_edit = Inr demo_normalized"
proof -
  have fields: "u ''utf-16'' \<noteq> u ''utf-8''" "u ''changes'' \<noteq> u ''changeAnnotations''" "u ''changes'' \<noteq> u ''documentChanges''"
    by (simp_all add: u_def)
  show ?thesis
    by (simp add: normalize_workspace_edit_def decode_encoding_def fields fields [symmetric] demo_edit_def object_mapping_def
        only_fields_def get_field_def collect_changes_def demo_collect demo_pending)
qed

lemma normalized_postimage_witness: "fe_postimage demo_file = rewrite [104, 105, 10] 0 [demo_patch]"
  using normalized_postimage [OF demo_normalizes, of demo_file] by (simp add: demo_normalized_def demo_file_def)

lemma normalized_bounds_witness: "replacement_bytes [demo_patch] \<le> 1048576"
  using normalized_bounds [OF demo_normalizes] by (simp add: demo_normalized_def demo_file_def)

lemma normalized_postimage_utf8_witness: "utf8_decode (fe_postimage demo_file) \<noteq> None"
  by (rule normalized_postimage_utf8 [OF demo_normalizes]) (simp add: demo_normalized_def)

lemma byte_edits_exact_witness:
  "\<exists>n. normalize_byte_edits demo_env [(u ''a'', [104, 105, 10])]
       [\<lparr>se_path = u ''a'', se_start = 0, se_end = 2, se_text = [121, 111]\<rparr>] = Inr n
     \<and> map fe_path (ne_files n) = [u ''a'']"
proof -
  let ?p = "demo_patch\<lparr>ep_range := \<lparr>lr_start = \<lparr>lp_line = 0, lp_character = 0\<rparr>, lr_end = \<lparr>lp_line = 0, lp_character = 2\<rparr>\<rparr>\<rparr>"
  have "normalize_byte_file demo_env [(u ''a'', [104, 105, 10])]
      [\<lparr>se_path = u ''a'', se_start = 0, se_end = 2, se_text = [121, 111]\<rparr>] (u ''a'') = Inr demo_file"
    by (simp add: normalize_byte_file_def byte_patch_def byte_point_def Let_def decode_char.simps splice_byte_patch_def
        encode_replacement_def utf8_encode_def is_scalar_def encode_char_def splice_def demo_file_def demo_patch_def
        demo_env_def)
  then have n: "normalize_byte_edits demo_env [(u ''a'', [104, 105, 10])]
      [\<lparr>se_path = u ''a'', se_start = 0, se_end = 2, se_text = [121, 111]\<rparr>] = Inr demo_normalized"
    by (simp add: Let_def normalize_byte_edits_def MAX_EDIT_FILES_def MAX_TEXT_EDITS_def demo_file_def bounded_diff_def
        file_diff_def decode_char.simps demo_env_def MAX_DIFF_BYTES_def demo_normalized_def)
  from byte_edits_exact [OF n] n show ?thesis by auto
qed

end
