(* ===== verification/Previews.thy ===== *)
theory Previews
  imports Edits
begin

text \<open>
  The preview registry (\<open>PreviewRegistry\<close> of \<open>editor/preview.py\<close>): previews are issued, signed,
  looked up and consumed once. Clock readings (in ticks), fresh tokens, wall-clock stamps and
  the keyed signature (HMAC-SHA256 over the canonical JSON of the unsigned payload) are
  arguments of the operations. A step relation runs the operations in any order; the lemmas
  show what every reachable registry satisfies and that a preview is claimed at most once.
\<close>

subsection \<open>Data\<close>

datatype origin = LspOrigin | StructuralOrigin | OtherOrigin ustr

record preview_payload =
  pv_id :: ustr
  pv_digest :: ustr
  pv_workspace :: ustr
  pv_epoch :: ustr
  pv_origin :: origin
  pv_provider :: ustr
  pv_provider_epoch :: int
  pv_engine_version :: "ustr option"
  pv_rule_digest :: "ustr option"
  pv_fingerprint :: ustr
  pv_operation :: ustr
  pv_target :: json
  pv_affected :: "ustr list"
  pv_pre_hashes :: "(ustr, ustr) dict"
  pv_post_hashes :: "(ustr, ustr) dict"
  pv_encoding :: ustr
  pv_issued_at :: ustr
  pv_expires_at :: ustr
  pv_patches :: "edit_patch list"
  pv_diff :: ustr
  pv_truncated :: bool

record provider_identity =
  pi_config_digest :: ustr
  pi_project_id :: ustr
  pi_project_root :: ustr
  pi_project_config :: ustr
  pi_compiler :: ustr

record stored_preview =
  sp_payload :: preview_payload
  sp_root :: ppath
  sp_files :: "file_edit list"
  sp_identity :: provider_identity
  sp_expires :: int

record preview_context =
  pc_workspace :: ustr
  pc_origin :: origin
  pc_provider :: ustr
  pc_identity :: provider_identity
  pc_epoch :: int

text \<open>The arguments of \<open>issue\<close>.\<close>

record issue_request =
  iq_workspace :: ustr
  iq_root :: ppath
  iq_provider :: ustr
  iq_identity :: provider_identity
  iq_provider_epoch :: int
  iq_fingerprint :: ustr
  iq_operation :: ustr
  iq_target :: json
  iq_encoding :: ustr
  iq_normalized :: normalized_edit
  iq_origin :: origin
  iq_engine_version :: "ustr option"
  iq_rule_digest :: "ustr option"

record preview_registry =
  rg_epoch :: ustr
  rg_ttl :: int
  rg_max :: int
  rg_previews :: "(ustr, stored_preview) dict"
  rg_consumed :: "ustr set"

datatype registry_value_error = TtlNotPositive | MaxNotPositive

datatype lookup_error =
    UnknownPreview
  | DigestInvalid
  | DigestTypeError
  | PreviewExpired
  | AlreadyConsumed
  | OtherWorkspace
  | OtherProcess
  | StaleProvider

datatype issue_error = PayloadInvalid | PayloadEncodeError

subsection \<open>Operations\<close>

definition new_registry :: "ustr \<Rightarrow> int \<Rightarrow> int \<Rightarrow> (registry_value_error, preview_registry) result" where
  "new_registry epoch ttl max_previews =
     (if ttl \<le> 0 then Inl TtlNotPositive
      else if max_previews < 1 then Inl MaxNotPositive
      else Inr \<lparr>rg_epoch = epoch, rg_ttl = ttl, rg_max = max_previews, rg_previews = [], rg_consumed = {}\<rparr>)"

definition forget :: "ustr \<Rightarrow> preview_registry \<Rightarrow> preview_registry" where
  "forget i r = r\<lparr>rg_previews := AList.delete i (rg_previews r), rg_consumed := rg_consumed r - {i}\<rparr>"

definition prune :: "int \<Rightarrow> preview_registry \<Rightarrow> preview_registry" where
  "prune now r =
     fold forget (map fst (filter (\<lambda>(i, s). now > sp_expires s) (rg_previews r))) r"

definition unsigned_payload :: "ustr \<Rightarrow> issue_request \<Rightarrow> ustr \<Rightarrow> ustr \<Rightarrow> ustr \<Rightarrow> preview_payload" where
  "unsigned_payload epoch q preview_id issued_at expires_at =
     (let n = iq_normalized q in
      \<lparr>pv_id = preview_id, pv_digest = [], pv_workspace = iq_workspace q, pv_epoch = epoch,
       pv_origin = iq_origin q, pv_provider = iq_provider q, pv_provider_epoch = iq_provider_epoch q,
       pv_engine_version = iq_engine_version q, pv_rule_digest = iq_rule_digest q,
       pv_fingerprint = iq_fingerprint q, pv_operation = iq_operation q, pv_target = iq_target q,
       pv_affected = map fe_path (ne_files n),
       pv_pre_hashes = foldl (\<lambda>d f. AList.update (fe_path f) (fe_pre_hash f) d) [] (ne_files n),
       pv_post_hashes = foldl (\<lambda>d f. AList.update (fe_path f) (fe_post_hash f) d) [] (ne_files n),
       pv_encoding = iq_encoding q, pv_issued_at = issued_at, pv_expires_at = expires_at,
       pv_patches = ne_patches n, pv_diff = ne_diff n, pv_truncated = ne_truncated n\<rparr>)"

text \<open>The field constraints of \<open>PreviewPayload\<close> and \<open>EditPatch\<close>.\<close>

definition payload_valid :: "preview_payload \<Rightarrow> bool" where
  "payload_valid p \<longleftrightarrow>
     pv_id p \<noteq> [] \<and> length (pv_digest p) = 64 \<and> pv_workspace p \<noteq> [] \<and> pv_epoch p \<noteq> []
     \<and> (pv_origin p = LspOrigin \<or> pv_origin p = StructuralOrigin) \<and> pv_provider p \<noteq> []
     \<and> pv_provider_epoch p \<ge> 0
     \<and> (case pv_rule_digest p of None \<Rightarrow> True | Some d \<Rightarrow> length d = 64)
     \<and> pv_fingerprint p \<noteq> [] \<and> pv_operation p \<noteq> [] \<and> pv_encoding p \<noteq> []
     \<and> (case pv_target p of JObj _ \<Rightarrow> True | _ \<Rightarrow> False)
     \<and> list_all (\<lambda>e. ep_path e \<noteq> [] \<and> length (ep_hash e) = 64) (pv_patches p)"

text \<open>The eviction loop: the oldest entries go until at most \<open>max_previews\<close> are left.\<close>

function evict :: "preview_registry \<Rightarrow> preview_registry" where
  "evict r =
     (case rg_previews r of
        [] \<Rightarrow> r
      | (oldest, s) # rest \<Rightarrow>
          if int (length (rg_previews r)) > rg_max r then evict (forget oldest r) else r)"
  by pat_completeness auto
termination
proof (relation "measure (\<lambda>r. length (rg_previews r))")
  fix r :: preview_registry and e rest oldest s
  assume "rg_previews r = e # rest" and "(oldest, s) = e"
  then have "length (AList.delete oldest rest) < Suc (length rest)"
    using length_delete_le [of oldest rest] by simp
  then show "(forget oldest r, r) \<in> measure (\<lambda>r. length (rg_previews r))"
    using \<open>rg_previews r = e # rest\<close> \<open>(oldest, s) = e\<close> by (auto simp: forget_def)
qed simp

declare evict.simps [simp del]

text \<open>\<open>issue\<close>: clock readings at the prune and at the store, a fresh token, and the stamps.\<close>

definition issue ::
  "(preview_payload \<Rightarrow> ustr option) \<Rightarrow> int \<Rightarrow> int \<Rightarrow> ustr \<Rightarrow> ustr \<Rightarrow> ustr \<Rightarrow> issue_request \<Rightarrow> preview_registry \<Rightarrow>
   (issue_error, preview_payload) result \<times> preview_registry" where
  "issue sign now stored_at preview_id issued_at expires_at q r =
     (let pruned = prune now r;
          unsigned = unsigned_payload (rg_epoch r) q preview_id issued_at expires_at
      in case sign unsigned of
           None \<Rightarrow> (Inl PayloadEncodeError, pruned)
         | Some digest \<Rightarrow>
             let payload = unsigned\<lparr>pv_digest := digest\<rparr> in
             if \<not> payload_valid payload then (Inl PayloadInvalid, pruned)
             else
               (Inr payload,
                evict (pruned\<lparr>rg_previews := AList.update preview_id
                  \<lparr>sp_payload = payload, sp_root = iq_root q, sp_files = ne_files (iq_normalized q),
                   sp_identity = iq_identity q, sp_expires = stored_at + rg_ttl r\<rparr> (rg_previews pruned)\<rparr>)))"

text \<open>\<open>hmac.compare_digest\<close> raises \<open>TypeError\<close> on strings that are not ASCII.\<close>

definition is_ascii :: "ustr \<Rightarrow> bool" where
  "is_ascii s \<longleftrightarrow> list_all (\<lambda>c. c < 128) s"

definition verified ::
  "int \<Rightarrow> ustr \<Rightarrow> ustr \<Rightarrow> preview_registry \<Rightarrow> (lookup_error, stored_preview) result \<times> preview_registry" where
  "verified now preview_id digest r =
     (case map_of (rg_previews r) preview_id of
        None \<Rightarrow> (Inl UnknownPreview, r)
      | Some s \<Rightarrow>
          if \<not> (is_ascii (pv_digest (sp_payload s)) \<and> is_ascii digest) then (Inl DigestTypeError, r)
          else if pv_digest (sp_payload s) \<noteq> digest then (Inl DigestInvalid, r)
          else if now > sp_expires s then (Inl PreviewExpired, forget preview_id r)
          else (Inr s, r))"

definition registry_context ::
  "int \<Rightarrow> ustr \<Rightarrow> ustr \<Rightarrow> preview_registry \<Rightarrow> (lookup_error, preview_context) result \<times> preview_registry" where
  "registry_context now preview_id digest r =
     (case verified now preview_id digest r of
        (Inl e, r') \<Rightarrow> (Inl e, r')
      | (Inr s, r') \<Rightarrow>
          (Inr \<lparr>pc_workspace = pv_workspace (sp_payload s), pc_origin = pv_origin (sp_payload s),
                pc_provider = pv_provider (sp_payload s), pc_identity = sp_identity s,
                pc_epoch = pv_provider_epoch (sp_payload s)\<rparr>, r'))"

record claim_request =
  cq_id :: ustr
  cq_digest :: ustr
  cq_workspace :: ustr
  cq_process :: ustr
  cq_provider_epoch :: int

definition claim ::
  "int \<Rightarrow> claim_request \<Rightarrow> preview_registry \<Rightarrow> (lookup_error, stored_preview) result \<times> preview_registry" where
  "claim now q r =
     (case verified now (cq_id q) (cq_digest q) r of
        (Inl e, r') \<Rightarrow> (Inl e, r')
      | (Inr s, r') \<Rightarrow>
          if cq_id q \<in> rg_consumed r' then (Inl AlreadyConsumed, r')
          else if pv_workspace (sp_payload s) \<noteq> cq_workspace q then (Inl OtherWorkspace, r')
          else if pv_epoch (sp_payload s) \<noteq> cq_process q then (Inl OtherProcess, r')
          else if pv_provider_epoch (sp_payload s) \<noteq> cq_provider_epoch q then (Inl StaleProvider, r')
          else (Inr s, r'\<lparr>rg_consumed := insert (cq_id q) (rg_consumed r')\<rparr>))"

definition clear :: "preview_registry \<Rightarrow> preview_registry" where
  "clear r = r\<lparr>rg_previews := [], rg_consumed := {}\<rparr>"

subsection \<open>Runs\<close>

text \<open>One call of the registry with what it was given and what it returned.\<close>

datatype registry_event =
    Issued ustr "(issue_error, preview_payload) result"
  | Claimed int claim_request "(lookup_error, stored_preview) result"
  | Viewed int ustr ustr "(lookup_error, preview_context) result"
  | Cleared

inductive registry_step ::
  "(preview_payload \<Rightarrow> ustr option) \<Rightarrow> preview_registry \<Rightarrow> registry_event \<Rightarrow> preview_registry \<Rightarrow> bool"
  for sign where
  issued: "issue sign now stored_at i issued_at expires_at q r = (res, r') \<Longrightarrow> registry_step sign r (Issued i res) r'"
| claimed: "claim now q r = (res, r') \<Longrightarrow> registry_step sign r (Claimed now q res) r'"
| viewed: "registry_context now i digest r = (res, r') \<Longrightarrow> registry_step sign r (Viewed now i digest res) r'"
| cleared: "registry_step sign r Cleared (clear r)"

inductive_cases issuedE: "registry_step sign r (Issued i res) r'"
inductive_cases claimedE: "registry_step sign r (Claimed now q res) r'"
inductive_cases viewedE: "registry_step sign r (Viewed now i digest res) r'"
inductive_cases clearedE: "registry_step sign r Cleared r'"
inductive_cases registry_stepE: "registry_step sign r e r'"

text \<open>Runs from a fresh registry, the latest event first.\<close>

inductive registry_run ::
  "(preview_payload \<Rightarrow> ustr option) \<Rightarrow> preview_registry \<Rightarrow> registry_event list \<Rightarrow> preview_registry \<Rightarrow> bool"
  for sign r0 where
  start: "registry_run sign r0 [] r0"
| more: "registry_run sign r0 es r \<Longrightarrow> registry_step sign r e r' \<Longrightarrow> registry_run sign r0 (e # es) r'"

inductive_cases registry_run_ConsE: "registry_run sign r0 (e # es) r'"

text \<open>The identifiers a registry knows.\<close>

definition live_ids :: "preview_registry \<Rightarrow> ustr set" where
  "live_ids r = fst ` set (rg_previews r)"

definition registry_ok :: "preview_registry \<Rightarrow> bool" where
  "registry_ok r \<longleftrightarrow> dict_ok (rg_previews r) \<and> int (length (rg_previews r)) \<le> rg_max r
     \<and> rg_consumed r \<subseteq> live_ids r
     \<and> (\<forall>(i, s) \<in> set (rg_previews r). pv_id (sp_payload s) = i \<and> pv_epoch (sp_payload s) = rg_epoch r)"

subsection \<open>Single operations\<close>

lemma live_ids_simps [simp]:
  "live_ids (forget i r) = live_ids r - {i}"
  "live_ids (r\<lparr>rg_previews := AList.update i s d\<rparr>) = insert i (fst ` set d)"
  "live_ids (r\<lparr>rg_consumed := c\<rparr>) = live_ids r"
  "live_ids (clear r) = {}"
  by (simp_all add: live_ids_def forget_def delete_keys keys_update_dict clear_def)

lemma live_ids_lookup: "map_of (rg_previews r) i = Some s \<Longrightarrow> i \<in> live_ids r"
  unfolding live_ids_def by (drule map_of_SomeD) (rule rev_image_eqI, auto)

lemma live_ids_fold: "fst ` set (rg_previews r) = live_ids r"
  by (simp add: live_ids_def)

lemma forget_simps [simp]:
  "rg_previews (forget i r) = AList.delete i (rg_previews r)"
  "rg_consumed (forget i r) = rg_consumed r - {i}"
  "rg_max (forget i r) = rg_max r" "rg_epoch (forget i r) = rg_epoch r" "rg_ttl (forget i r) = rg_ttl r"
  by (simp_all add: forget_def)

text \<open>Everything but the bound.\<close>

definition registry_wf :: "preview_registry \<Rightarrow> bool" where
  "registry_wf r \<longleftrightarrow> dict_ok (rg_previews r) \<and> rg_consumed r \<subseteq> live_ids r
     \<and> (\<forall>(i, s) \<in> set (rg_previews r). pv_id (sp_payload s) = i \<and> pv_epoch (sp_payload s) = rg_epoch r)"

lemma registry_ok_wf: "registry_ok r \<longleftrightarrow> registry_wf r \<and> int (length (rg_previews r)) \<le> rg_max r"
  by (auto simp: registry_ok_def registry_wf_def)

lemma forget_wf: "registry_wf r \<Longrightarrow> registry_wf (forget i r)"
  by (auto simp: registry_wf_def mem_delete)

text \<open>What an operation that only drops entries keeps.\<close>

definition shrinks :: "preview_registry \<Rightarrow> preview_registry \<Rightarrow> bool" where
  "shrinks r r' \<longleftrightarrow> rg_epoch r' = rg_epoch r \<and> rg_max r' = rg_max r \<and> rg_ttl r' = rg_ttl r
     \<and> set (rg_previews r') \<subseteq> set (rg_previews r) \<and> length (rg_previews r') \<le> length (rg_previews r)
     \<and> rg_consumed r' \<subseteq> rg_consumed r
     \<and> (\<forall>i \<in> rg_consumed r. i \<in> live_ids r' \<longrightarrow> i \<in> rg_consumed r')
     \<and> (registry_wf r \<longrightarrow> registry_wf r')"

lemma shrinks_refl: "shrinks r r"
  by (simp add: shrinks_def)

lemma shrinks_live: "shrinks r r' \<Longrightarrow> live_ids r' \<subseteq> live_ids r"
  unfolding shrinks_def live_ids_def by (intro image_mono) blast

lemma shrinks_trans:
  assumes "shrinks r1 r2" and "shrinks r2 r3"
  shows "shrinks r1 r3"
proof -
  have "i \<in> rg_consumed r3" if "i \<in> rg_consumed r1" "i \<in> live_ids r3" for i
    using that assms shrinks_live [OF assms(2)] unfolding shrinks_def by blast
  then show ?thesis using assms unfolding shrinks_def by auto
qed

lemma shrinks_forget: "shrinks r (forget i r)"
  using length_delete_le [of i "rg_previews r"] forget_wf [of r i]
  by (auto simp: shrinks_def mem_delete)

lemma shrinks_prune: "shrinks r (prune now r)"
proof -
  have "shrinks r (fold forget is r)" for "is"
    by (induction "is" arbitrary: r) (auto intro: shrinks_refl shrinks_trans [OF shrinks_forget])
  then show ?thesis by (simp add: prune_def)
qed

lemma shrinks_evict: "shrinks r (evict r)"
proof (induction r rule: evict.induct)
  case (1 r)
  show ?case
  proof (cases "rg_previews r")
    case Nil
    then show ?thesis by (simp add: evict.simps [of r] shrinks_refl)
  next
    case (Cons e rest)
    obtain oldest s where e: "e = (oldest, s)" by (cases e)
    show ?thesis
    proof (cases "int (length (rg_previews r)) > rg_max r")
      case True
      then have "evict r = evict (forget oldest r)" using Cons e by (simp add: evict.simps [of r])
      then show ?thesis using shrinks_trans [OF shrinks_forget 1 [OF Cons e [symmetric] True]] by simp
    next
      case False
      then show ?thesis using Cons e by (simp add: evict.simps [of r] shrinks_refl)
    qed
  qed
qed

lemma evict_bound: "rg_max r \<ge> 0 \<Longrightarrow> int (length (rg_previews (evict r))) \<le> rg_max r"
proof (induction r rule: evict.induct)
  case (1 r)
  show ?case
  proof (cases "rg_previews r")
    case Nil
    then show ?thesis using 1(2) by (simp add: evict.simps [of r])
  next
    case (Cons e rest)
    obtain oldest s where e: "e = (oldest, s)" by (cases e)
    then show ?thesis
    proof (cases "int (length (rg_previews r)) > rg_max r")
      case True
      then have "evict r = evict (forget oldest r)" using Cons e by (simp add: evict.simps [of r])
      then show ?thesis using 1(1) [OF Cons e [symmetric] True] 1(2) by simp
    next
      case False
      then show ?thesis using Cons e by (simp add: evict.simps [of r])
    qed
  qed
qed

subsection \<open>Invariants of every run\<close>

lemma update_wf:
  assumes "registry_wf r" and "pv_id (sp_payload s) = i" and "pv_epoch (sp_payload s) = rg_epoch r"
  shows "registry_wf (r\<lparr>rg_previews := AList.update i s (rg_previews r)\<rparr>)"
  using assms by (auto simp: registry_wf_def mem_update_dict live_ids_fold split: if_split_asm)

text \<open>An issue either only drops entries, or drops some, stores the new one, and drops some.\<close>

lemma issue_cases:
  assumes "issue sign now stored_at i issued_at expires_at q r = (res, r')"
  obtains (failed) e where "res = Inl e" "shrinks r r'"
  | (stored) payload p s where "res = Inr payload" "shrinks r p"
      "pv_id (sp_payload s) = i" "pv_epoch (sp_payload s) = rg_epoch p"
      "r' = evict (p\<lparr>rg_previews := AList.update i s (rg_previews p)\<rparr>)"
proof -
  let ?p = "prune now r" and ?u = "unsigned_payload (rg_epoch r) q i issued_at expires_at"
  have e: "rg_epoch ?p = rg_epoch r" using shrinks_prune [of r now] by (simp add: shrinks_def)
  have u: "pv_id (?u\<lparr>pv_digest := d\<rparr>) = i" "pv_epoch (?u\<lparr>pv_digest := d\<rparr>) = rg_epoch r" for d
    by (simp_all add: unsigned_payload_def Let_def)
  show thesis
  proof (cases "sign ?u")
    case None
    then show thesis using assms failed shrinks_prune [of r now] by (auto simp: issue_def Let_def)
  next
    case (Some d)
    let ?s = "\<lparr>sp_payload = ?u\<lparr>pv_digest := d\<rparr>, sp_root = iq_root q, sp_files = ne_files (iq_normalized q),
        sp_identity = iq_identity q, sp_expires = stored_at + rg_ttl r\<rparr>"
    show thesis
    proof (cases "payload_valid (?u\<lparr>pv_digest := d\<rparr>)")
      case True
      then have "res = Inr (?u\<lparr>pv_digest := d\<rparr>)"
        "r' = evict (?p\<lparr>rg_previews := AList.update i ?s (rg_previews ?p)\<rparr>)"
        using assms Some by (simp_all add: issue_def Let_def)
      then show thesis using stored [OF _ shrinks_prune [of r now], of _ ?s] u e by simp
    next
      case False
      then show thesis using assms Some failed shrinks_prune [of r now] by (auto simp: issue_def Let_def)
    qed
  qed
qed

lemma verified_shrinks: "verified now i digest r = (res, r') \<Longrightarrow> shrinks r r'"
  using shrinks_forget shrinks_refl by (auto simp: verified_def split: option.split_asm if_split_asm)

lemma verified_Inr:
  "verified now i digest r = (Inr s, r') \<longleftrightarrow> map_of (rg_previews r) i = Some s \<and> is_ascii digest
     \<and> pv_digest (sp_payload s) = digest \<and> now \<le> sp_expires s \<and> r' = r"
  by (auto simp: verified_def not_less split: option.split)

lemma claim_iff:
  "claim now q r = (Inr s, r') \<longleftrightarrow>
     map_of (rg_previews r) (cq_id q) = Some s \<and> is_ascii (cq_digest q) \<and> pv_digest (sp_payload s) = cq_digest q
     \<and> now \<le> sp_expires s \<and> cq_id q \<notin> rg_consumed r \<and> pv_workspace (sp_payload s) = cq_workspace q
     \<and> pv_epoch (sp_payload s) = cq_process q \<and> pv_provider_epoch (sp_payload s) = cq_provider_epoch q
     \<and> r' = r\<lparr>rg_consumed := insert (cq_id q) (rg_consumed r)\<rparr>"
proof (cases "verified now (cq_id q) (cq_digest q) r")
  case (Pair res r1)
  then show ?thesis
  proof (cases res)
    case (Inr t)
    with Pair have v: "map_of (rg_previews r) (cq_id q) = Some t" "is_ascii (cq_digest q)"
      "pv_digest (sp_payload t) = cq_digest q" "now \<le> sp_expires t" "r1 = r"
      by (simp_all add: verified_Inr)
    then show ?thesis using Pair Inr by (auto simp: claim_def)
  next
    case (Inl e)
    have "\<not> (map_of (rg_previews r) (cq_id q) = Some s \<and> is_ascii (cq_digest q)
        \<and> pv_digest (sp_payload s) = cq_digest q \<and> now \<le> sp_expires s)"
      using verified_Inr [of now "cq_id q" "cq_digest q" r s r] Pair Inl by auto
    then show ?thesis using Pair Inl by (auto simp: claim_def)
  qed
qed

text \<open>A claim either fails and only drops entries, or marks its preview consumed.\<close>

lemma claim_cases:
  assumes "claim now q r = (res, r')"
  obtains (failed) e where "res = Inl e" "shrinks r r'"
  | (taken) s where "res = Inr s" "map_of (rg_previews r) (cq_id q) = Some s" "cq_id q \<notin> rg_consumed r"
      "r' = r\<lparr>rg_consumed := insert (cq_id q) (rg_consumed r)\<rparr>"
proof (cases res)
  case (Inl e)
  obtain res1 r1 where v: "verified now (cq_id q) (cq_digest q) r = (res1, r1)" by fastforce
  have "r' = r1" using assms Inl v by (auto simp: claim_def split: sum.split_asm if_split_asm)
  then show thesis using failed [OF Inl] verified_shrinks [OF v] by simp
next
  case (Inr s)
  then show thesis using taken [OF Inr] assms by (simp add: claim_iff)
qed

lemma context_shrinks: "registry_context now i digest r = (res, r') \<Longrightarrow> shrinks r r'"
  using verified_shrinks [of now i digest r]
  by (cases "verified now i digest r") (auto simp: registry_context_def split: sum.split_asm)

lemma shrinks_ok: "shrinks r r' \<Longrightarrow> registry_ok r \<Longrightarrow> registry_ok r'"
  by (auto simp: registry_ok_wf shrinks_def)

lemma registry_step_ok:
  assumes "registry_step sign r e r'" and "registry_ok r" and "rg_max r \<ge> 0"
  shows "registry_ok r' \<and> rg_max r' = rg_max r"
  using assms(1)
proof cases
  case (issued now stored_at i issued_at expires_at q res)
  from issued(2) show ?thesis
  proof (cases rule: issue_cases)
    case (failed e)
    then show ?thesis using shrinks_ok assms(2) by (simp add: shrinks_def)
  next
    case (stored payload p s)
    let ?u = "p\<lparr>rg_previews := AList.update i s (rg_previews p)\<rparr>"
    have "registry_wf p" "rg_max p = rg_max r" using stored(2) assms(2) by (auto simp: shrinks_def registry_ok_wf)
    then have "registry_wf ?u" using update_wf stored(3,4) by blast
    moreover have "shrinks ?u (evict ?u)" by (rule shrinks_evict)
    ultimately show ?thesis
      using evict_bound [of ?u] assms(3) \<open>rg_max p = rg_max r\<close> unfolding stored(5)
      by (simp add: registry_ok_wf shrinks_def)
  qed
next
  case (claimed now q res)
  from claimed(2) show ?thesis
  proof (cases rule: claim_cases)
    case (failed e)
    then show ?thesis using shrinks_ok assms(2) by (simp add: shrinks_def)
  next
    case (taken s)
    have "cq_id q \<in> live_ids r" by (rule live_ids_lookup [OF taken(2)])
    then show ?thesis using taken(4) assms(2) by (simp add: registry_ok_def)
  qed
next
  case (viewed now i digest res)
  from context_shrinks [OF viewed(2)] show ?thesis using shrinks_ok assms(2) by (simp add: shrinks_def)
next
  case cleared
  then show ?thesis using assms(2,3) by (simp add: registry_ok_def clear_def)
qed

text \<open>C39: In every run of a registry there are never more previews than its maximum, every entry carries
  its own identifier and this process's epoch, and only live entries are marked consumed.\<close>

theorem registry_run_ok:
  assumes "new_registry epoch ttl max_previews = Inr r0" and "registry_run sign r0 es r"
  shows "dict_ok (rg_previews r) \<and> int (length (rg_previews r)) \<le> max_previews
    \<and> rg_consumed r \<subseteq> live_ids r
    \<and> (\<forall>(i, s) \<in> set (rg_previews r). pv_id (sp_payload s) = i \<and> pv_epoch (sp_payload s) = rg_epoch r)"
proof -
  have r0: "rg_max r0 = max_previews" "max_previews \<ge> 0" "registry_ok r0"
    using assms(1) by (auto simp: new_registry_def registry_ok_def split: if_split_asm)
  from assms(2) have "registry_ok r \<and> rg_max r = rg_max r0"
    by (induction rule: registry_run.induct) (use r0 registry_step_ok in auto)
  then show ?thesis using r0 by (simp add: registry_ok_def)
qed

text \<open>A claim succeeds exactly on a live entry that carries the presented digest, has not expired, was
  not consumed, and belongs to the current workspace, process epoch and provider epoch; it
  marks the entry consumed and changes nothing else.\<close>

theorem claim_spec:
  "claim now q r = (Inr s, r') \<longleftrightarrow>
     map_of (rg_previews r) (cq_id q) = Some s \<and> is_ascii (cq_digest q) \<and> pv_digest (sp_payload s) = cq_digest q
     \<and> now \<le> sp_expires s \<and> cq_id q \<notin> rg_consumed r \<and> pv_workspace (sp_payload s) = cq_workspace q
     \<and> pv_epoch (sp_payload s) = cq_process q \<and> pv_provider_epoch (sp_payload s) = cq_provider_epoch q
     \<and> r' = r\<lparr>rg_consumed := insert (cq_id q) (rg_consumed r)\<rparr>"
  by (rule claim_iff)

text \<open>A digest with a character outside ASCII is not refused as an invalid digest: looking up a live
  preview with it raises the \<open>TypeError\<close> of \<open>hmac.compare_digest\<close>.\<close>

theorem non_ascii_digest_type_error:
  assumes "map_of (rg_previews r) (cq_id q) = Some s" and "\<not> is_ascii (cq_digest q)"
  shows "claim now q r = (Inl DigestTypeError, r)"
  using assms by (simp add: claim_def verified_def)

subsection \<open>One claim per preview\<close>

definition issued_ids :: "registry_event list \<Rightarrow> ustr list" where
  "issued_ids es = concat (map (\<lambda>e. case e of Issued i (Inr p) \<Rightarrow> [i] | _ \<Rightarrow> []) es)"

fun claims :: "ustr \<Rightarrow> registry_event \<Rightarrow> bool" where
  "claims i (Claimed now q (Inr s)) \<longleftrightarrow> cq_id q = i"
| "claims i _ \<longleftrightarrow> False"

lemma issued_ids_Cons: "issued_ids (e # es) = (case e of Issued i (Inr p) \<Rightarrow> [i] | _ \<Rightarrow> []) @ issued_ids es"
  by (simp add: issued_ids_def)

text \<open>The trace invariant: what was claimed was issued before, at most once, and is now consumed or gone.\<close>

definition once :: "ustr \<Rightarrow> registry_event list \<Rightarrow> preview_registry \<Rightarrow> bool" where
  "once i es r \<longleftrightarrow> live_ids r \<subseteq> set (issued_ids es)
     \<and> (filter (claims i) es = [] \<or> i \<in> set (issued_ids es) \<and> length (filter (claims i) es) = 1
          \<and> (i \<in> rg_consumed r \<or> i \<notin> live_ids r))"

lemma once_shrinks:
  assumes "once i es r" and "shrinks r r'" and "\<not> claims i e" and "set (issued_ids es) \<subseteq> set (issued_ids (e # es))"
  shows "once i (e # es) r'"
proof -
  note shrinks_live [OF assms(2)]
  moreover have "i \<in> rg_consumed r' \<or> i \<notin> live_ids r'"
    if "i \<in> rg_consumed r \<or> i \<notin> live_ids r"
    using that assms(2) calculation unfolding shrinks_def by blast
  ultimately show ?thesis using assms(1,3,4) unfolding once_def by auto
qed

lemma once_step:
  assumes "registry_step sign r e r'" and "once i es r" and "distinct (issued_ids (e # es))"
  shows "once i (e # es) r'"
  using assms(1)
proof cases
  case (issued now stored_at j issued_at expires_at q res)
  from issued(2) show ?thesis
  proof (cases rule: issue_cases)
    case (failed err)
    then show ?thesis using issued(1) assms(2) by (intro once_shrinks [of i es r]) (auto simp: issued_ids_Cons)
  next
    case (stored payload p s)
    let ?u = "p\<lparr>rg_previews := AList.update j s (rg_previews p)\<rparr>"
    have ids: "issued_ids (e # es) = j # issued_ids es" using issued(1) stored(1) by (simp add: issued_ids_Cons)
    note sub = shrinks_live [OF stored(2)]
    have fresh: "i \<in> set (issued_ids es) \<Longrightarrow> i \<noteq> j" using assms(3) ids by auto
    have keep: "i \<in> rg_consumed p \<or> i \<notin> live_ids p"
      if "i \<in> rg_consumed r \<or> i \<notin> live_ids r"
      using that stored(2) sub unfolding shrinks_def by blast
    have "once i (e # es) ?u"
      using assms(2) sub fresh keep issued(1) unfolding once_def ids
      by (auto simp: live_ids_fold)
    moreover have "shrinks ?u r'" unfolding stored(5) by (rule shrinks_evict)
    moreover have "once i es' x'" if "once i es' x" "shrinks x x'" for es' x x'
    proof -
      show ?thesis using that shrinks_live [OF that(2)] unfolding once_def shrinks_def by blast
    qed
    ultimately show ?thesis by blast
  qed
next
  case (claimed now q res)
  from claimed(2) show ?thesis
  proof (cases rule: claim_cases)
    case (failed err)
    then show ?thesis using claimed(1) assms(2) by (intro once_shrinks [of i es r]) (auto simp: issued_ids_Cons)
  next
    case (taken s)
    have key: "cq_id q \<in> live_ids r" by (rule live_ids_lookup [OF taken(2)])
    show ?thesis
      using assms(2) taken key claimed(1) unfolding once_def issued_ids_Cons by auto
  qed
next
  case (viewed now j digest res)
  then show ?thesis using context_shrinks assms(2) by (intro once_shrinks [of i es r]) (auto simp: issued_ids_Cons)
next
  case cleared
  then show ?thesis using assms(2) by (auto simp: once_def issued_ids_Cons)
qed

text \<open>C3: As long as fresh tokens are distinct, no preview is claimed twice in a run, whatever else is
  issued, claimed, viewed, evicted, expired or cleared in between; and what is claimed was
  issued in this run.\<close>

theorem claim_at_most_once:
  assumes "new_registry epoch ttl max_previews = Inr r0" and "registry_run sign r0 es r" and "distinct (issued_ids es)"
  shows "length (filter (claims i) es) \<le> 1 \<and> (filter (claims i) es \<noteq> [] \<longrightarrow> i \<in> set (issued_ids es))"
proof -
  have "once i [] r0"
    using assms(1) by (auto simp: new_registry_def once_def issued_ids_def live_ids_def split: if_split_asm)
  with assms(2,3) have "once i es r"
  proof (induction rule: registry_run.induct)
    case (more es r e r')
    have "distinct (issued_ids es)" using more.prems(1) by (simp add: issued_ids_Cons)
    then show ?case using once_step [OF more.hyps(2) _ more.prems(1)] more.IH more.prems(2) by blast
  qed simp
  then show ?thesis by (auto simp: once_def)
qed

subsection \<open>A concrete run\<close>

definition demo_identity :: provider_identity where
  "demo_identity = \<lparr>pi_config_digest = [], pi_project_id = [], pi_project_root = [], pi_project_config = [],
     pi_compiler = []\<rparr>"

definition demo_request :: issue_request where
  "demo_request = \<lparr>iq_workspace = u ''main'', iq_root = demo_root, iq_provider = u ''pyright'',
     iq_identity = demo_identity, iq_provider_epoch = 1, iq_fingerprint = u ''g'', iq_operation = u ''rename'',
     iq_target = JObj [], iq_encoding = u ''utf-16'',
     iq_normalized = \<lparr>ne_files = [], ne_patches = [], ne_diff = [], ne_truncated = False\<rparr>,
     iq_origin = LspOrigin, iq_engine_version = None, iq_rule_digest = None\<rparr>"

definition demo_sign :: "preview_payload \<Rightarrow> ustr option" where
  "demo_sign p = Some (replicate 64 97)"

definition demo_payload :: preview_payload where
  "demo_payload = (unsigned_payload (u ''e'') demo_request (u ''p'') [] [])\<lparr>pv_digest := replicate 64 97\<rparr>"

definition demo_stored :: stored_preview where
  "demo_stored = \<lparr>sp_payload = demo_payload, sp_root = demo_root, sp_files = [], sp_identity = demo_identity,
     sp_expires = 300\<rparr>"

definition demo_registry :: "(ustr, stored_preview) dict \<Rightarrow> ustr set \<Rightarrow> preview_registry" where
  "demo_registry d c = \<lparr>rg_epoch = u ''e'', rg_ttl = 300, rg_max = 2, rg_previews = d, rg_consumed = c\<rparr>"

definition demo_claim :: claim_request where
  "demo_claim = \<lparr>cq_id = u ''p'', cq_digest = replicate 64 97, cq_workspace = u ''main'', cq_process = u ''e'',
     cq_provider_epoch = 1\<rparr>"

definition demo_events :: "registry_event list" where
  "demo_events = [Claimed 7 demo_claim (Inl AlreadyConsumed), Claimed 5 demo_claim (Inr demo_stored),
     Issued (u ''p'') (Inr demo_payload)]"

lemma demo_new: "new_registry (u ''e'') 300 2 = Inr (demo_registry [] {})"
  by (simp add: new_registry_def demo_registry_def)

lemma demo_payload_valid: "payload_valid demo_payload"
  by (simp add: payload_valid_def demo_payload_def unsigned_payload_def demo_request_def u_def Let_def)

lemma demo_run:
  "registry_run demo_sign (demo_registry [] {}) demo_events (demo_registry [(u ''p'', demo_stored)] {u ''p''})"
proof -
  have "issue demo_sign 0 0 (u ''p'') [] [] demo_request (demo_registry [] {}) =
      (Inr demo_payload, demo_registry [(u ''p'', demo_stored)] {})"
    using demo_payload_valid
    by (simp add: issue_def prune_def demo_registry_def demo_sign_def demo_payload_def evict.simps demo_stored_def
        demo_request_def Let_def)
  note s1 = registry_step.issued [OF this]
  have stored: "is_ascii (pv_digest demo_payload)" "pv_digest demo_payload = replicate 64 97"
    "pv_workspace demo_payload = u ''main''" "pv_epoch demo_payload = u ''e''" "pv_provider_epoch demo_payload = 1"
    by (simp_all add: is_ascii_def demo_payload_def unsigned_payload_def demo_request_def list_all_length Let_def)
  have "claim 5 demo_claim (demo_registry [(u ''p'', demo_stored)] {}) =
      (Inr demo_stored, demo_registry [(u ''p'', demo_stored)] {u ''p''})"
    using stored by (simp add: claim_iff demo_registry_def demo_claim_def demo_stored_def)
  note s2 = registry_step.claimed [OF this, of demo_sign]
  have "claim 7 demo_claim (demo_registry [(u ''p'', demo_stored)] {u ''p''}) =
      (Inl AlreadyConsumed, demo_registry [(u ''p'', demo_stored)] {u ''p''})"
    using stored by (simp add: claim_def verified_def demo_registry_def demo_claim_def demo_stored_def)
  note s3 = registry_step.claimed [OF this, of demo_sign]
  show ?thesis unfolding demo_events_def
    by (intro registry_run.more [OF registry_run.more [OF registry_run.more [OF registry_run.start s1] s2] s3])
qed

lemma registry_run_ok_witness: "int (length [(u ''p'', demo_stored)]) \<le> 2 \<and> {u ''p''} \<subseteq> fst ` set [(u ''p'', demo_stored)]"
  using registry_run_ok [OF demo_new demo_run] by (simp add: demo_registry_def live_ids_def)

lemma non_ascii_digest_type_error_witness:
  "claim 5 (demo_claim\<lparr>cq_digest := [233]\<rparr>) (demo_registry [(u ''p'', demo_stored)] {}) =
     (Inl DigestTypeError, demo_registry [(u ''p'', demo_stored)] {})"
  by (rule non_ascii_digest_type_error [where s = demo_stored])
    (simp_all add: demo_registry_def demo_claim_def is_ascii_def)

lemma claim_at_most_once_witness: "length (filter (claims (u ''p'')) demo_events) = 1"
proof -
  have "distinct (issued_ids demo_events)" by (simp add: demo_events_def issued_ids_def)
  from claim_at_most_once [OF demo_new demo_run this, of "u ''p''"] show ?thesis
    by (simp add: demo_events_def demo_claim_def)
qed

end
