(* ===== verification/Preflight.thy ===== *)
theory Preflight
  imports Previews
begin

text \<open>
  The integrity check of a stored preview before it is applied: \<open>_preflight\<close> and
  \<open>_stored_edit_integrity_error\<close> of \<open>editor/apply.py\<close>. The check recomputes everything a
  preview claims about its edits; the lemmas show what a preview that passes satisfies, and
  that a preview issued from a normalised edit passes, so that the check never refuses what
  the registry hands out.
\<close>

subsection \<open>Operations\<close>

text \<open>One constructor per message; those about one file carry its path.\<close>

datatype preflight_error =
    FileOrderingInvalid
  | AffectedPathsMismatch
  | PreimageHashesMismatch
  | PostimageHashesMismatch
  | PatchOrderingMismatch
  | StoredPreimageHash ustr
  | StoredPostimageHash ustr
  | StoredPatchOrdering ustr
  | StoredPatchBinding ustr
  | StoredPatchRange ustr
  | StoredPatchesOverlap ustr
  | StoredReplacementNotUtf8 ustr
  | StoredPostimageMismatch ustr

text \<open>Python compares dictionaries by their entries, whatever their order.\<close>

definition dict_eq :: "('k, 'v) dict \<Rightarrow> ('k, 'v) dict \<Rightarrow> bool" where
  "dict_eq d e \<longleftrightarrow> set d = set e"

text \<open>\<open>{key(item): value(item) for item in items}\<close>\<close>

definition dict_of :: "('a \<Rightarrow> 'k) \<Rightarrow> ('a \<Rightarrow> 'v) \<Rightarrow> 'a list \<Rightarrow> ('k, 'v) dict" where
  "dict_of k v items = foldl (\<lambda>d f. AList.update (k f) (v f) d) [] items"

text \<open>The loop over the patches of one file; the second argument is \<open>previous\<close>.\<close>

fun check_patches :: "file_edit \<Rightarrow> edit_patch option \<Rightarrow> edit_patch list \<Rightarrow> preflight_error option" where
  "check_patches item previous [] = None"
| "check_patches item previous (p # ps) =
     (if ep_path p \<noteq> fe_path item \<or> ep_hash p \<noteq> fe_pre_hash item then Some (StoredPatchBinding (fe_path item))
      else if ep_end p < ep_start p \<or> ep_end p > length (fe_preimage item)
      then Some (StoredPatchRange (fe_path item))
      else (case previous of
              Some q \<Rightarrow>
                if ep_start p < ep_end q \<or> ep_start p = ep_start q
                then Some (StoredPatchesOverlap (fe_path item))
                else check_patches item (Some p) ps
            | None \<Rightarrow> check_patches item (Some p) ps))"

text \<open>The splice loop over the patches from the last to the first; \<open>None\<close> is \<open>UnicodeEncodeError\<close>.\<close>

fun reconstruct :: "edit_patch list \<Rightarrow> bytes \<Rightarrow> bytes option" where
  "reconstruct [] reconstructed = Some reconstructed"
| "reconstruct (p # ps) reconstructed =
     (case utf8_encode (ep_text p) of
        None \<Rightarrow> None
      | Some replacement \<Rightarrow>
          reconstruct ps (take (ep_start p) reconstructed @ replacement @ drop (ep_end p) reconstructed))"

definition stored_edit_integrity_error :: "(bytes \<Rightarrow> ustr) \<Rightarrow> file_edit \<Rightarrow> preflight_error option" where
  "stored_edit_integrity_error sha item =
     (if sha (fe_preimage item) \<noteq> fe_pre_hash item then Some (StoredPreimageHash (fe_path item))
      else if sha (fe_postimage item) \<noteq> fe_post_hash item then Some (StoredPostimageHash (fe_path item))
      else if fe_patches item \<noteq> sort_key patch_key (fe_patches item)
      then Some (StoredPatchOrdering (fe_path item))
      else (case check_patches item None (fe_patches item) of
              Some e \<Rightarrow> Some e
            | None \<Rightarrow>
                (case reconstruct (rev (fe_patches item)) (fe_preimage item) of
                   None \<Rightarrow> Some (StoredReplacementNotUtf8 (fe_path item))
                 | Some reconstructed \<Rightarrow>
                     if reconstructed \<noteq> fe_postimage item then Some (StoredPostimageMismatch (fe_path item))
                     else None)))"

text \<open>The first integrity error of the files in order.\<close>

fun first_integrity_error :: "(bytes \<Rightarrow> ustr) \<Rightarrow> file_edit list \<Rightarrow> preflight_error option" where
  "first_integrity_error sha [] = None"
| "first_integrity_error sha (item # items) =
     (case stored_edit_integrity_error sha item of
        Some e \<Rightarrow> Some e
      | None \<Rightarrow> first_integrity_error sha items)"

definition preflight :: "(bytes \<Rightarrow> ustr) \<Rightarrow> stored_preview \<Rightarrow> preflight_error option" where
  "preflight sha record =
     (let files = sp_files record; paths = map fe_path files; payload = sp_payload record in
      if paths \<noteq> sort paths \<or> length (remdups paths) \<noteq> length paths then Some FileOrderingInvalid
      else if paths \<noteq> pv_affected payload then Some AffectedPathsMismatch
      else if \<not> dict_eq (pv_pre_hashes payload) (dict_of fe_path fe_pre_hash files) then Some PreimageHashesMismatch
      else if \<not> dict_eq (pv_post_hashes payload) (dict_of fe_path fe_post_hash files) then Some PostimageHashesMismatch
      else if pv_patches payload \<noteq> concat (map fe_patches files) then Some PatchOrderingMismatch
      else first_integrity_error sha files)"

subsection \<open>What a preview that passes satisfies\<close>

definition stored_file_ok :: "(bytes \<Rightarrow> ustr) \<Rightarrow> file_edit \<Rightarrow> bool" where
  "stored_file_ok sha f \<longleftrightarrow>
     fe_pre_hash f = sha (fe_preimage f) \<and> fe_post_hash f = sha (fe_postimage f)
     \<and> ordered_from (length (fe_preimage f)) 0 (fe_patches f)
     \<and> sorted_wrt (\<lambda>p q. ep_start p < ep_start q) (fe_patches f)
     \<and> list_all (\<lambda>p. ep_path p = fe_path f \<and> ep_hash p = fe_pre_hash f \<and> list_all is_scalar (ep_text p)) (fe_patches f)
     \<and> fe_postimage f = rewrite (fe_preimage f) 0 (fe_patches f)"

lemma reconstruct_append:
  "reconstruct (ps @ qs) bs = (case reconstruct ps bs of None \<Rightarrow> None | Some bs' \<Rightarrow> reconstruct qs bs')"
  by (induction ps arbitrary: bs) (auto split: option.split)

lemma reconstruct_splice:
  "reconstruct (rev ps) pre =
     (if list_all (\<lambda>p. list_all is_scalar (ep_text p)) ps then Some (splice_all ps pre) else None)"
  by (induction ps) (auto simp: reconstruct_append splice_all_def splice_def utf8_encode_def)

lemma ordered_from_bounds:
  "ordered_from n pos ps \<Longrightarrow> \<forall>p \<in> set ps. pos \<le> ep_start p \<and> ep_start p \<le> ep_end p \<and> ep_end p \<le> n"
proof (induction ps arbitrary: pos)
  case (Cons p ps)
  then show ?case using ordered_from_le [of n "ep_end p" ps] by fastforce
qed simp

text \<open>The patch loop accepts exactly ordered, bound patches with increasing starts.\<close>

definition patches_after :: "file_edit \<Rightarrow> edit_patch option \<Rightarrow> edit_patch list \<Rightarrow> bool" where
  "patches_after f previous ps \<longleftrightarrow>
     ordered_from (length (fe_preimage f)) (case previous of None \<Rightarrow> 0 | Some q \<Rightarrow> ep_end q) ps
     \<and> sorted_wrt (\<lambda>p q. ep_start p < ep_start q) (case previous of None \<Rightarrow> ps | Some q \<Rightarrow> q # ps)
     \<and> list_all (\<lambda>p. ep_path p = fe_path f \<and> ep_hash p = fe_pre_hash f) ps"

lemma check_patches_iff:
  assumes "case previous of None \<Rightarrow> True | Some q \<Rightarrow> ep_start q \<le> ep_end q \<and> ep_end q \<le> length (fe_preimage f)"
  shows "check_patches f previous ps = None \<longleftrightarrow> patches_after f previous ps"
  using assms
proof (induction f previous ps rule: check_patches.induct)
  case (2 item previous p ps)
  show ?case
  proof (cases "ep_path p = fe_path item \<and> ep_hash p = fe_pre_hash item \<and> ep_start p \<le> ep_end p
      \<and> ep_end p \<le> length (fe_preimage item)")
    case True
    then have rest: "check_patches item (Some p) ps = None \<longleftrightarrow> patches_after item (Some p) ps"
      if "case previous of None \<Rightarrow> True | Some q \<Rightarrow> \<not> (ep_start p < ep_end q \<or> ep_start p = ep_start q)"
      using 2 that by (cases previous) auto
    show ?thesis
      using True rest 2(3) by (cases previous) (auto simp: patches_after_def)
  next
    case False
    then have "check_patches item previous (p # ps) \<noteq> None" by auto
    moreover have "\<not> patches_after item previous (p # ps)"
      using False ordered_from_le [of "length (fe_preimage item)" "ep_end p" ps] by (auto simp: patches_after_def)
    ultimately show ?thesis by blast
  qed
qed (auto simp: patches_after_def split: option.splits)

lemma increasing_starts_sorted:
  "sorted_wrt (\<lambda>p q. ep_start p < ep_start q) ps \<Longrightarrow> sorted (map patch_key ps)"
  by (auto simp: sorted_map patch_key_def less_eq_prod_def elim: sorted_wrt_mono_rel [rotated])

lemma stored_edit_integrity_iff: "stored_edit_integrity_error sha f = None \<longleftrightarrow> stored_file_ok sha f"
proof -
  note checked = check_patches_iff [where f = f and previous = None and ps = "fe_patches f", simplified patches_after_def option.case]
  have fixed: "sort_key patch_key (fe_patches f) = fe_patches f"
    if "sorted_wrt (\<lambda>p q. ep_start p < ep_start q) (fe_patches f)"
    using increasing_starts_sorted [OF that] by (rule sort_key_id_if_sorted)
  show ?thesis
    using checked fixed splice_all_eq [of "fe_preimage f" 0 "fe_patches f"]
    by (auto simp: stored_edit_integrity_error_def stored_file_ok_def reconstruct_splice list_all_iff
        split: option.splits)
qed


lemma first_integrity_iff: "first_integrity_error sha fs = None \<longleftrightarrow> list_all (stored_file_ok sha) fs"
  by (induction fs) (simp_all add: stored_edit_integrity_iff [symmetric] split: option.split)

definition payload_describes :: "preview_payload \<Rightarrow> file_edit list \<Rightarrow> bool" where
  "payload_describes payload files \<longleftrightarrow>
     pv_affected payload = map fe_path files
     \<and> set (pv_pre_hashes payload) = (\<lambda>f. (fe_path f, fe_pre_hash f)) ` set files
     \<and> set (pv_post_hashes payload) = (\<lambda>f. (fe_path f, fe_post_hash f)) ` set files
     \<and> pv_patches payload = concat (map fe_patches files)"

lemma set_dict_of: "distinct (map k xs) \<Longrightarrow> set (dict_of k v xs) = (\<lambda>x. (k x, v x)) ` set xs"
proof (induction xs rule: rev_induct)
  case (snoc x xs)
  have "dict_ok (dict_of k v xs)" unfolding dict_of_def
    by (induction xs rule: rev_induct) auto
  moreover have "k x \<notin> k ` set xs" using snoc.prems by simp
  ultimately have "e \<in> set (AList.update (k x) (v x) (dict_of k v xs)) \<longleftrightarrow>
      e = (k x, v x) \<or> e \<in> (\<lambda>x. (k x, v x)) ` set xs" for e
    using snoc mem_update_dict [of "dict_of k v xs" "fst e" "snd e" "k x" "v x"] by (cases e) auto
  then show ?case by (simp add: dict_of_def set_eq_iff) 
qed (simp add: dict_of_def)

lemma preflight_iff:
  "preflight sha record = None \<longleftrightarrow>
     sorted_wrt (<) (map fe_path (sp_files record))
     \<and> payload_describes (sp_payload record) (sp_files record)
     \<and> list_all (stored_file_ok sha) (sp_files record)"
proof -
  let ?paths = "map fe_path (sp_files record)"
  have order: "?paths = sort ?paths \<and> length (remdups ?paths) = length ?paths \<longleftrightarrow> sorted_wrt (<) ?paths"
  proof -
    have "xs = sort xs \<longleftrightarrow> sorted xs" for xs :: "ustr list" by (metis sorted_sort sorted_sort_id)
    then show ?thesis by (simp only: length_remdups_eq remdups_id_iff_distinct strict_sorted_iff)
  qed
  show ?thesis
  proof (cases "sorted_wrt (<) ?paths")
    case True
    then have dist: "distinct ?paths" by (simp add: strict_sorted_iff)
    note d = set_dict_of [OF dist, of fe_pre_hash] set_dict_of [OF dist, of fe_post_hash]
    show ?thesis using order True dist
      by (auto simp: preflight_def Let_def dict_eq_def d payload_describes_def first_integrity_iff)
  next
    case False
    then have "?paths \<noteq> sort ?paths \<or> length (remdups ?paths) \<noteq> length ?paths" using order by blast
    then have "preflight sha record = Some FileOrderingInvalid" unfolding preflight_def Let_def by (rule if_P)
    then show ?thesis using False by simp
  qed
qed

subsection \<open>What the registry issues passes\<close>

lemma file_ok_stored: "file_ok env root contents f \<Longrightarrow> stored_file_ok (ee_sha env) f"
  by (auto simp: file_ok_def stored_file_ok_def patch_ok_def list_all_iff)

lemma byte_patch_bound:
  "byte_patch env path pre e = Inr p \<Longrightarrow> ep_path p = path \<and> ep_hash p = ee_sha env pre"
  by (auto simp: byte_patch_def split: if_split_asm)

lemma fold_splice_byte_patch_scalar:
  "fold_err splice_byte_patch ps pre = Inr post \<Longrightarrow> list_all (\<lambda>p. list_all is_scalar (ep_text p)) ps"
  by (induction ps arbitrary: pre) (auto simp: splice_byte_patch_def encode_replacement_Inr)

lemma byte_file_stored:
  assumes "normalize_byte_file env contents edits path = Inr f"
  shows "stored_file_ok (ee_sha env) f \<and> fe_path f = path"
proof -
  let ?es = "sort_key (\<lambda>e. (se_start e, se_end e)) (filter (\<lambda>e. se_path e = path) edits)"
  from assms have ps: "map_err (byte_patch env path (fe_preimage f)) ?es = Inr (fe_patches f)"
    and o: "reject_overlaps None (fe_patches f) = Inr ()"
    and s: "fold_err splice_byte_patch (rev (fe_patches f)) (fe_preimage f) = Inr (fe_postimage f)"
    and h: "fe_pre_hash f = ee_sha env (fe_preimage f)" "fe_post_hash f = ee_sha env (fe_postimage f)" "fe_path f = path"
    by (auto simp: normalize_byte_file_def split: option.split_asm)
  have b: "\<forall>p \<in> set (fe_patches f). ep_start p \<le> ep_end p \<and> ep_end p \<le> length (fe_preimage f)"
    using byte_patches_fields [OF ps] by blast
  note ord = reject_overlaps_ordered [OF o b]
  have "\<forall>p \<in> set (fe_patches f). ep_path p = path \<and> ep_hash p = ee_sha env (fe_preimage f)"
    using map_err_mem [OF ps] byte_patch_bound by blast
  moreover have "list_all (\<lambda>p. list_all is_scalar (ep_text p)) (fe_patches f)"
    using fold_splice_byte_patch_scalar [OF s] by simp
  moreover have "sorted_wrt (\<lambda>p q. ep_start p < ep_start q) (fe_patches f)"
    using reject_overlaps_increasing [OF o] b by blast
  ultimately show ?thesis
    using ord h fold_splice_byte_patch [OF s] splice_all_eq [OF ord] by (simp add: stored_file_ok_def list_all_iff)
qed

text \<open>Both ways in which the editor produces a normalised edit.\<close>

definition normalized_by :: "edit_env \<Rightarrow> normalized_edit \<Rightarrow> bool" where
  "normalized_by env n \<longleftrightarrow>
     (\<exists>root contents encoding versions raw. normalize_workspace_edit env root contents encoding versions raw = Inr n)
     \<or> (\<exists>contents edits. normalize_byte_edits env contents edits = Inr n)"

lemma concat_sorted_by_path:
  assumes "sorted_wrt (<) (map fe_path fs)" and "list_all (stored_file_ok sha) fs"
  shows "sort_key (\<lambda>p. (ep_path p, patch_key p)) (concat (map fe_patches fs)) = concat (map fe_patches fs)"
proof (rule sort_key_id_if_sorted)
  have "sorted_wrt (\<lambda>p q. (ep_path p, patch_key p) \<le> (ep_path q, patch_key q)) (concat (map fe_patches fs))"
    using assms
  proof (induction fs)
    case (Cons f fs)
    have own: "sorted_wrt (\<lambda>p q. (ep_path p, patch_key p) \<le> (ep_path q, patch_key q)) (fe_patches f)"
      using Cons.prems(2) by (auto simp: stored_file_ok_def patch_key_def less_eq_prod_def list_all_iff
          intro: sorted_wrt_mono_rel [of "fe_patches f" "\<lambda>p q. ep_start p < ep_start q"])
    have "(ep_path p, patch_key p) \<le> (ep_path q, patch_key q)"
      if "p \<in> set (fe_patches f)" "g \<in> set fs" "q \<in> set (fe_patches g)" for p g q
    proof -
      have "ep_path p = fe_path f" "ep_path q = fe_path g"
        using that Cons.prems(2) by (auto simp: stored_file_ok_def list_all_iff)
      moreover have "fe_path f < fe_path g" using that(2) Cons.prems(1) by simp
      ultimately show ?thesis by (simp add: less_eq_prod_def)
    qed
    then show ?case using own Cons by (auto simp: sorted_wrt_append)
  qed simp
  then show "sorted (map (\<lambda>p. (ep_path p, patch_key p)) (concat (map fe_patches fs)))"
    by (simp only: sorted_map)
qed

lemma normalized_by_stored:
  assumes "normalized_by env n"
  shows "sorted_wrt (<) (map fe_path (ne_files n)) \<and> list_all (stored_file_ok (ee_sha env)) (ne_files n)
    \<and> ne_patches n = concat (map fe_patches (ne_files n))"
  using assms unfolding normalized_by_def
proof (elim disjE exE)
  fix root contents encoding versions raw
  assume "normalize_workspace_edit env root contents encoding versions raw = Inr n"
  from normalize_workspace_edit_files [OF this] obtain pending where
    p: "pending_ok (ee_sha env) contents pending" "pending \<noteq> []" "length pending \<le> MAX_EDIT_FILES"
      "map fe_path (ne_files n) = sort (dict_keys pending)"
    and ok: "\<forall>f \<in> set (ne_files n). file_ok env root contents f"
    and lim: "replacement_bytes (concat (map fe_patches (ne_files n))) \<le> MAX_REPLACEMENT_BYTES"
      "length (concat (map fe_patches (ne_files n))) \<le> MAX_TEXT_EDITS"
    and d: "bounded_diff env (ne_files n) = Inr (ne_diff n, ne_truncated n)"
    and ps: "ne_patches n = sort_key (\<lambda>p. (ep_path p, patch_key p)) (concat (map fe_patches (ne_files n)))" .
  have 1: "sorted_wrt (<) (map fe_path (ne_files n))"
    unfolding p(4) using p(1) by (intro sorted_strict_distinct) (simp_all add: pending_ok_def dict_ok_def)
  have 2: "list_all (stored_file_ok (ee_sha env)) (ne_files n)" using ok file_ok_stored by (auto simp: list_all_iff)
  show ?thesis using 1 2 concat_sorted_by_path [OF 1 2] ps by simp
next
  fix contents edits
  assume "normalize_byte_edits env contents edits = Inr n"
  then have m: "map_err (normalize_byte_file env contents edits) (sort (remdups (map se_path edits))) = Inr (ne_files n)"
    and ps: "ne_patches n = concat (map fe_patches (ne_files n))"
    by (auto simp: normalize_byte_edits_def split: if_split_asm)
  have "map fe_path (ne_files n) = sort (remdups (map se_path edits))"
    using map_err_paths [OF m] byte_file_stored by blast
  then have "sorted_wrt (<) (map fe_path (ne_files n))"
    by (simp only:) (intro sorted_strict_distinct; simp)
  moreover have "list_all (stored_file_ok (ee_sha env)) (ne_files n)"
    using map_err_mem [OF m] byte_file_stored unfolding list_all_iff by blast
  ultimately show ?thesis using ps by blast
qed

lemma issue_stores:
  assumes "issue sign now stored_at i issued_at expires_at q r = (Inr payload, r')" and "registry_ok r"
    and "map_of (rg_previews r') i = Some s"
  shows "sp_files s = ne_files (iq_normalized q) \<and> sp_payload s = payload
    \<and> (\<exists>d. payload = (unsigned_payload (rg_epoch r) q i issued_at expires_at)\<lparr>pv_digest := d\<rparr>)"
proof -
  let ?p = "prune now r"
  from assms(1) obtain d where d: "payload = (unsigned_payload (rg_epoch r) q i issued_at expires_at)\<lparr>pv_digest := d\<rparr>"
    and r': "r' = evict (?p\<lparr>rg_previews := AList.update i
        \<lparr>sp_payload = payload, sp_root = iq_root q, sp_files = ne_files (iq_normalized q),
         sp_identity = iq_identity q, sp_expires = stored_at + rg_ttl r\<rparr> (rg_previews ?p)\<rparr>)"
    by (auto simp: issue_def Let_def split: option.split_asm if_split_asm)
  have "dict_ok (rg_previews ?p)"
    using assms(2) shrinks_prune [of r now] by (simp add: registry_ok_wf shrinks_def registry_wf_def)
  moreover have "(i, s) \<in> set (rg_previews r')" by (rule map_of_SomeD [OF assms(3)])
  then have "(i, s) \<in> set (AList.update i
        \<lparr>sp_payload = payload, sp_root = iq_root q, sp_files = ne_files (iq_normalized q),
         sp_identity = iq_identity q, sp_expires = stored_at + rg_ttl r\<rparr> (rg_previews ?p))"
    unfolding r' using shrinks_evict [unfolded shrinks_def] by fastforce
  ultimately have "s = \<lparr>sp_payload = payload, sp_root = iq_root q, sp_files = ne_files (iq_normalized q),
         sp_identity = iq_identity q, sp_expires = stored_at + rg_ttl r\<rparr>"
    by (simp add: mem_update_dict)
  then show ?thesis using d by (simp only: stored_preview.select_convs) blast
qed

text \<open>C1: Whatever the registry issues for a normalised edit and later hands out to an apply request passes
  the integrity check: the edit normaliser, the registry and the preflight agree on paths,
  hashes, patch order and postimages.\<close>

theorem claimed_preview_passes_preflight:
  assumes "normalized_by env (iq_normalized q)" and "registry_ok r"
    and "issue sign now stored_at i issued_at expires_at q r = (Inr payload, r')"
    and "claim later c r' = (Inr s, r'')" and "cq_id c = i"
  shows "preflight (ee_sha env) s = None"
proof -
  have "map_of (rg_previews r') i = Some s" using assms(4,5) by (simp add: claim_iff)
  from issue_stores [OF assms(3,2) this] obtain d where s: "sp_files s = ne_files (iq_normalized q)"
    "sp_payload s = (unsigned_payload (rg_epoch r) q i issued_at expires_at)\<lparr>pv_digest := d\<rparr>" by blast
  note n = normalized_by_stored [OF assms(1)]
  have "distinct (map fe_path (ne_files (iq_normalized q)))" using n strict_sorted_iff by blast
  note d = set_dict_of [OF this, of fe_pre_hash, unfolded dict_of_def] set_dict_of [OF this, of fe_post_hash, unfolded dict_of_def]
  have "payload_describes (sp_payload s) (sp_files s)"
    using n by (simp add: s payload_describes_def unsigned_payload_def Let_def d)
  then show ?thesis using n s(1) by (simp add: preflight_iff)
qed

text \<open>A byte edit on one three-byte file, issued and claimed.\<close>

definition byte_env :: edit_env where
  "byte_env = demo_env\<lparr>ee_sha := (\<lambda>bs. replicate 64 (length bs))\<rparr>"

definition byte_edit_patch :: edit_patch where
  "byte_edit_patch = demo_patch\<lparr>ep_hash := replicate 64 3\<rparr>"

definition byte_file :: file_edit where
  "byte_file = demo_file\<lparr>fe_pre_hash := replicate 64 3, fe_post_hash := replicate 64 3, fe_patches := [byte_edit_patch]\<rparr>"

definition byte_request :: issue_request where
  "byte_request = demo_request\<lparr>iq_origin := StructuralOrigin,
     iq_normalized := \<lparr>ne_files = [byte_file], ne_patches = [byte_edit_patch], ne_diff = [], ne_truncated = False\<rparr>\<rparr>"

definition byte_payload :: preview_payload where
  "byte_payload = (unsigned_payload (u ''e'') byte_request (u ''p'') [] [])\<lparr>pv_digest := replicate 64 97\<rparr>"

definition byte_stored :: stored_preview where
  "byte_stored = \<lparr>sp_payload = byte_payload, sp_root = demo_root, sp_files = [byte_file], sp_identity = demo_identity,
     sp_expires = 300\<rparr>"

lemma byte_normalized: "normalized_by byte_env (iq_normalized byte_request)"
proof -
  have "normalize_byte_edits byte_env [(u ''a'', [104, 105, 10])]
      [\<lparr>se_path = u ''a'', se_start = 0, se_end = 2, se_text = [121, 111]\<rparr>] = Inr (iq_normalized byte_request)"
    by (simp add: normalize_byte_edits_def MAX_EDIT_FILES_def MAX_TEXT_EDITS_def normalize_byte_file_def byte_patch_def
        byte_point_def utf8_decode.simps decode_char.simps splice_byte_patch_def encode_replacement_def utf8_encode_def
        is_scalar_def encode_char_def splice_def bounded_diff_def file_diff_def byte_env_def demo_env_def Let_def
        MAX_DIFF_BYTES_def byte_request_def byte_file_def byte_edit_patch_def demo_file_def demo_patch_def)
  then show ?thesis unfolding normalized_by_def by blast
qed

lemma byte_payload_fields [simp]:
  "pv_digest byte_payload = replicate 64 97" "pv_workspace byte_payload = u ''main''"
  "pv_epoch byte_payload = u ''e''" "pv_provider_epoch byte_payload = 1"
  by (simp_all add: byte_payload_def unsigned_payload_def byte_request_def demo_request_def Let_def)

lemma byte_payload_valid: "payload_valid byte_payload"
  by (simp add: payload_valid_def byte_payload_def unsigned_payload_def byte_request_def demo_request_def u_def
      byte_edit_patch_def demo_patch_def Let_def)

lemma byte_issue:
  "issue demo_sign 0 0 (u ''p'') [] [] byte_request (demo_registry [] {}) =
     (Inr byte_payload, demo_registry [(u ''p'', byte_stored)] {})"
  using byte_payload_valid
  by (simp add: issue_def prune_def demo_registry_def demo_sign_def byte_payload_def evict.simps byte_stored_def
      byte_request_def demo_request_def Let_def)

lemma byte_claim:
  "claim 5 demo_claim (demo_registry [(u ''p'', byte_stored)] {}) =
     (Inr byte_stored, demo_registry [(u ''p'', byte_stored)] {u ''p''})"
  by (simp add: claim_iff demo_registry_def demo_claim_def byte_stored_def is_ascii_def list_all_length)

lemma claimed_preview_passes_preflight_witness: "preflight (ee_sha byte_env) byte_stored = None"
proof (rule claimed_preview_passes_preflight [OF byte_normalized _ byte_issue byte_claim])
  show "registry_ok (demo_registry [] {})" by (simp add: registry_ok_def demo_registry_def)
  show "cq_id demo_claim = u ''p''" by (simp add: demo_claim_def)
qed

end
