(* ===== verification/Effects.thy ===== *)
theory Effects
  imports Prelude
begin

text \<open>
  Effectful code as functions on an explicit world: a computation returns its result or the
  exception it raised, with the world it leaves. \<open>try\<close>, \<open>finally\<close> and \<open>with\<close> blocks are
  combinators. A triple states what a computation establishes when it returns and when it
  raises; its rules are declared for use by \<open>intro\<close>.
\<close>

named_theorems triples \<open>rules for triples, one for each combinator\<close>

type_synonym ('w, 'e, 'a) io = "'w \<Rightarrow> ('e, 'a) result \<times> 'w"

definition io_ret :: "'a \<Rightarrow> ('w, 'e, 'a) io" where
  "io_ret x = (\<lambda>w. (Inr x, w))"

definition io_raise :: "'e \<Rightarrow> ('w, 'e, 'a) io" where
  "io_raise e = (\<lambda>w. (Inl e, w))"

definition io_lift :: "('e, 'a) result \<Rightarrow> ('w, 'e, 'a) io" where
  "io_lift r = (\<lambda>w. (r, w))"

definition io_bind :: "('w, 'e, 'a) io \<Rightarrow> ('a \<Rightarrow> ('w, 'e, 'b) io) \<Rightarrow> ('w, 'e, 'b) io" where
  "io_bind m k = (\<lambda>w. case m w of (Inl e, w') \<Rightarrow> (Inl e, w') | (Inr x, w') \<Rightarrow> k x w')"

text \<open>\<open>if b: raise e\<close>\<close>

definition io_raise_if :: "bool \<Rightarrow> 'e \<Rightarrow> ('w, 'e, unit) io" where
  "io_raise_if b e = (if b then io_raise e else io_ret ())"

text \<open>\<open>try: m except p as e: h(e)\<close>\<close>

definition io_catch :: "('w, 'e, 'a) io \<Rightarrow> ('e \<Rightarrow> bool) \<Rightarrow> ('e \<Rightarrow> ('w, 'e, 'a) io) \<Rightarrow> ('w, 'e, 'a) io" where
  "io_catch m p h = (\<lambda>w. case m w of
      (Inl e, w') \<Rightarrow> if p e then h e w' else (Inl e, w')
    | (Inr x, w') \<Rightarrow> (Inr x, w'))"

text \<open>\<open>try: m except BaseException: c; raise\<close>\<close>

definition io_on_error :: "('w, 'e, 'a) io \<Rightarrow> ('w, 'e, unit) io \<Rightarrow> ('w, 'e, 'a) io" where
  "io_on_error m c = (\<lambda>w. case m w of
      (Inl e, w') \<Rightarrow> (case c w' of (Inl e', w'') \<Rightarrow> (Inl e', w'') | (Inr _, w'') \<Rightarrow> (Inl e, w''))
    | (Inr x, w') \<Rightarrow> (Inr x, w'))"

text \<open>\<open>try: m finally: c\<close>: an exception of \<open>c\<close> replaces the outcome of \<open>m\<close>.\<close>

definition io_finally :: "('w, 'e, 'a) io \<Rightarrow> ('w, 'e, unit) io \<Rightarrow> ('w, 'e, 'a) io" where
  "io_finally m c = (\<lambda>w. case m w of
      (r, w') \<Rightarrow> (case c w' of (Inl e', w'') \<Rightarrow> (Inl e', w'') | (Inr _, w'') \<Rightarrow> (r, w'')))"

text \<open>The outcome of a computation as a value, for code that inspects the exception it caught.\<close>

definition io_attempt :: "('w, 'e, 'a) io \<Rightarrow> ('w, 'e, ('e, 'a) result) io" where
  "io_attempt m = (\<lambda>w. case m w of (r, w') \<Rightarrow> (Inr r, w'))"

lemmas io_defs = io_ret_def io_raise_def io_lift_def io_bind_def io_raise_if_def io_catch_def io_on_error_def
  io_finally_def io_attempt_def

lemma io_run:
  "io_ret x w = (Inr x, w)"
  "io_raise e w = (Inl e, w)"
  "io_lift r w = (r, w)"
  "io_raise_if b e w = (if b then Inl e else Inr (), w)"
  by (simp_all add: io_defs)

lemma io_bind_run: "io_bind m k w = (case fst (m w) of Inl e \<Rightarrow> (Inl e, snd (m w)) | Inr x \<Rightarrow> k x (snd (m w)))"
  by (cases "m w") (auto simp: io_bind_def split: sum.split)

lemma io_bind_ret [simp]: "io_bind (io_ret x) k = k x"
  by (simp add: io_defs)

lemma io_bind_raise [simp]: "io_bind (io_raise e) k = io_raise e"
  by (simp add: io_defs)

subsection \<open>Triples\<close>

text \<open>From a world with \<open>P\<close>, \<open>m\<close> returns \<open>x\<close> in a world with \<open>Q x\<close> or raises \<open>e\<close> in one with \<open>R e\<close>.\<close>

definition triple :: "('w \<Rightarrow> bool) \<Rightarrow> ('w, 'e, 'a) io \<Rightarrow> ('a \<Rightarrow> 'w \<Rightarrow> bool) \<Rightarrow> ('e \<Rightarrow> 'w \<Rightarrow> bool) \<Rightarrow> bool" where
  "triple P m Q R \<longleftrightarrow> (\<forall>w. P w \<longrightarrow> (case m w of (Inl e, w') \<Rightarrow> R e w' | (Inr x, w') \<Rightarrow> Q x w'))"

lemma tripleI:
  assumes "\<And>w x w'. P w \<Longrightarrow> m w = (Inr x, w') \<Longrightarrow> Q x w'" and "\<And>w e w'. P w \<Longrightarrow> m w = (Inl e, w') \<Longrightarrow> R e w'"
  shows "triple P m Q R"
  using assms by (auto simp: triple_def split: prod.split sum.split)

lemma triple_returns: "triple P m Q R \<Longrightarrow> P w \<Longrightarrow> m w = (Inr x, w') \<Longrightarrow> Q x w'"
  by (fastforce simp: triple_def)

lemma triple_raises: "triple P m Q R \<Longrightarrow> P w \<Longrightarrow> m w = (Inl e, w') \<Longrightarrow> R e w'"
  by (fastforce simp: triple_def)

lemma triple_weaken:
  assumes "triple P' m Q' R'" and "\<And>w. P w \<Longrightarrow> P' w" and "\<And>x w. Q' x w \<Longrightarrow> Q x w" and "\<And>e w. R' e w \<Longrightarrow> R e w"
  shows "triple P m Q R"
  using assms triple_returns [OF assms(1)] triple_raises [OF assms(1)] by (intro tripleI) blast+

lemma triple_ret [triples]: "(\<And>w. P w \<Longrightarrow> Q x w) \<Longrightarrow> triple P (io_ret x) Q R"
  by (simp add: triple_def io_run)

lemma triple_raise [triples]: "(\<And>w. P w \<Longrightarrow> R e w) \<Longrightarrow> triple P (io_raise e) Q R"
  by (simp add: triple_def io_run)

lemma triple_lift [triples]:
  "(\<And>w x. P w \<Longrightarrow> r = Inr x \<Longrightarrow> Q x w) \<Longrightarrow> (\<And>w e. P w \<Longrightarrow> r = Inl e \<Longrightarrow> R e w) \<Longrightarrow> triple P (io_lift r) Q R"
  by (auto simp: triple_def io_run split: sum.split)

lemma triple_raise_if [triples]:
  "(\<And>w. P w \<Longrightarrow> b \<Longrightarrow> R e w) \<Longrightarrow> (\<And>w. P w \<Longrightarrow> \<not> b \<Longrightarrow> Q () w) \<Longrightarrow> triple P (io_raise_if b e) Q R"
  by (simp add: triple_def io_run)

lemma triple_bind:
  "triple P m S R \<Longrightarrow> (\<And>x. triple (S x) (k x) Q R) \<Longrightarrow> triple P (io_bind m k) Q R"
  by (rule tripleI; auto simp: io_bind_def split: prod.splits sum.splits if_splits dest: triple_returns triple_raises)

lemma triple_catch:
  "triple P m Q S \<Longrightarrow> (\<And>e. p e \<Longrightarrow> triple (S e) (h e) Q R) \<Longrightarrow> (\<And>e w. \<not> p e \<Longrightarrow> S e w \<Longrightarrow> R e w)
     \<Longrightarrow> triple P (io_catch m p h) Q R"
  by (rule tripleI; auto simp: io_catch_def split: prod.splits sum.splits if_splits dest: triple_returns triple_raises)

lemma triple_on_error:
  "triple P m Q S \<Longrightarrow> (\<And>e. triple (S e) c (\<lambda>_. R e) R) \<Longrightarrow> triple P (io_on_error m c) Q R"
  by (rule tripleI; auto simp: io_on_error_def split: prod.splits sum.splits if_splits dest: triple_returns triple_raises)

lemma triple_finally:
  assumes m: "triple P m S T" and c: "\<And>x. triple (S x) c (\<lambda>_. Q x) R" and d: "\<And>e. triple (T e) c (\<lambda>_. R e) R"
  shows "triple P (io_finally m c) Q R"
proof (rule tripleI)
  fix w x w' assume P: "P w" and run: "io_finally m c w = (Inr x, w')"
  then obtain w1 where "m w = (Inr x, w1)" "c w1 = (Inr (), w')"
    by (auto simp: io_finally_def split: prod.splits sum.splits)
  then show "Q x w'" using triple_returns [OF m P] triple_returns [OF c] by blast
next
  fix w e w' assume P: "P w" and run: "io_finally m c w = (Inl e, w')"
  then obtain r w1 where m1: "m w = (r, w1)" and c1: "c w1 = (Inl e, w') \<or> r = Inl e \<and> c w1 = (Inr (), w')"
    by (auto simp: io_finally_def split: prod.splits sum.splits)
  show "R e w'"
  proof (cases r)
    case (Inl e0)
    then show ?thesis using c1 m1 triple_raises [OF m P] triple_raises [OF d] triple_returns [OF d] by blast
  next
    case (Inr x)
    then show ?thesis using c1 m1 triple_returns [OF m P] triple_raises [OF c] by blast
  qed
qed

lemma triple_attempt:
  assumes "triple P m (\<lambda>x. Q (Inr x)) (\<lambda>e. Q (Inl e))"
  shows "triple P (io_attempt m) Q R"
proof (rule tripleI)
  fix w x w' assume P: "P w" and run: "io_attempt m w = (Inr x, w')"
  then have "m w = (x, w')" by (auto simp: io_attempt_def split: prod.splits)
  then show "Q x w'" using triple_returns [OF assms P] triple_raises [OF assms P] by (cases x) auto
qed (auto simp: io_attempt_def split: prod.splits)

lemma triple_if [triples]:
  "(b \<Longrightarrow> triple P m Q R) \<Longrightarrow> (\<not> b \<Longrightarrow> triple P m' Q R) \<Longrightarrow> triple P (if b then m else m') Q R"
  by simp

text \<open>What every computation built from steps that keep an invariant keeps.\<close>

abbreviation keeps :: "('w \<Rightarrow> bool) \<Rightarrow> ('w, 'e, 'a) io \<Rightarrow> bool" where
  "keeps I m \<equiv> triple I m (\<lambda>_. I) (\<lambda>_. I)"

lemma keeps_intros [triples]:
  "keeps I (io_ret x)" "keeps I (io_raise e)" "keeps I (io_lift r)" "keeps I (io_raise_if b e)"
  by (auto intro!: triples)

lemma keeps_bind: "keeps I m \<Longrightarrow> (\<And>x. keeps I (k x)) \<Longrightarrow> keeps I (io_bind m k)"
  by (rule triple_bind)

lemma keeps_catch: "keeps I m \<Longrightarrow> (\<And>e. keeps I (h e)) \<Longrightarrow> keeps I (io_catch m p h)"
  by (rule triple_catch)

lemma keeps_on_error: "keeps I m \<Longrightarrow> keeps I c \<Longrightarrow> keeps I (io_on_error m c)"
  by (rule triple_on_error)

lemma keeps_finally: "keeps I m \<Longrightarrow> keeps I c \<Longrightarrow> keeps I (io_finally m c)"
  by (rule triple_finally)

lemma keeps_attempt: "keeps I m \<Longrightarrow> keeps I (io_attempt m)"
  by (rule triple_attempt)

lemma keeps_if: "keeps I m \<Longrightarrow> keeps I m' \<Longrightarrow> keeps I (if b then m else m')"
  by simp

lemmas keeps_rules = keeps_bind keeps_catch keeps_on_error keeps_finally keeps_attempt keeps_if keeps_intros

text \<open>What a computation returns, whatever the world.\<close>

abbreviation yields :: "('w, 'e, 'a) io \<Rightarrow> ('a \<Rightarrow> bool) \<Rightarrow> bool" where
  "yields m Q \<equiv> triple (\<lambda>_. True) m (\<lambda>x _. Q x) (\<lambda>_ _. True)"

lemma yields_intros [intro]:
  "Q x \<Longrightarrow> yields (io_ret x) Q" "yields (io_raise e) Q" "(\<And>x. r = Inr x \<Longrightarrow> Q x) \<Longrightarrow> yields (io_lift r) Q"
  by (auto intro!: triples)

lemma yields_top: "yields m (\<lambda>_. True)"
  by (rule tripleI) simp_all

lemma yields_bind: "yields m S \<Longrightarrow> (\<And>x. S x \<Longrightarrow> yields (k x) Q) \<Longrightarrow> yields (io_bind m k) Q"
  by (rule triple_bind, assumption) (auto simp: triple_def)

lemma yields_then: "(\<And>x. yields (k x) Q) \<Longrightarrow> yields (io_bind m k) Q"
  by (rule yields_bind [OF yields_top]) simp

lemma yields_catch: "yields m Q \<Longrightarrow> (\<And>e. yields (h e) Q) \<Longrightarrow> yields (io_catch m p h) Q"
  by (rule triple_catch)

lemma yields_finally: "yields m Q \<Longrightarrow> yields (io_finally m c) Q"
  by (rule triple_finally) (auto simp: triple_def split: prod.split sum.split)

lemma yields_on_error: "yields m Q \<Longrightarrow> yields (io_on_error m c) Q"
  by (rule triple_on_error) (auto simp: triple_def split: prod.split sum.split)

lemma yields_attempt: "yields m Q \<Longrightarrow> yields (io_attempt m) (\<lambda>r. \<forall>x. r = Inr x \<longrightarrow> Q x)"
  by (rule triple_attempt) (simp add: triple_def split: prod.split sum.split)

lemma yields_if: "(b \<Longrightarrow> yields m Q) \<Longrightarrow> (\<not> b \<Longrightarrow> yields m' Q) \<Longrightarrow> yields (if b then m else m') Q"
  by simp

end
