(* ===== verification/Apply.thy ===== *)
theory Apply
  imports Preflight Effects
begin

unbundle bit_operations_syntax

text \<open>
  Conflict-safe application of a stored preview (\<open>editor/apply.py\<close>): the targets are bound to
  directories and identities, both images of every file are staged, every target is verified
  and replaced, and on a failure exactly the task's own postimages are rolled back.

  The operating system is the record \<^term>\<open>os\<close> of the calls the module makes, each an effect on
  a world about which nothing is assumed: between any two calls other processes may have
  changed it. Descriptors are closed where the code closes them (\<open>finally\<close> blocks and exit
  stacks). A message is kept as the exception it is made of.
\<close>

subsection \<open>Data\<close>

record file_identity =
  fi_device :: nat
  fi_inode :: nat

datatype inode_kind = RegularInode | DirectoryInode | OtherInode

record file_status =
  st_identity :: file_identity
  st_kind :: inode_kind
  st_mode :: nat

record workspace_binding =
  wb_root :: ppath
  wb_descriptor :: int
  wb_identity :: file_identity

record directory_binding =
  db_descriptor :: int
  db_parts :: "ustr list"
  db_identity :: file_identity

record target_binding =
  tb_item :: file_edit
  tb_directory :: directory_binding
  tb_name :: ustr
  tb_identity :: file_identity
  tb_mode :: nat

record staged_file =
  sf_name :: ustr
  sf_identity :: file_identity

record staged_images =
  si_post :: staged_file
  si_pre :: staged_file

record applied_target =
  at_target :: target_binding
  at_staged :: staged_images

datatype image_label = PreimageLabel | StagedPostimage | PostimageLabel | RollbackPostimage | StagedPreimage | RestoredPreimage

datatype editor_reason =
    UnsupportedPlatform
  | RootNotDirectory
  | RootIdentityChanged
  | StagingIdentityChanged
  | DirectoryNotAbsolute
  | ParentNotDirectory ustr
  | DirectoryChanged ustr
  | TargetChanged ustr
  | TargetNotWritable ustr
  | DirectoryNotWritable ustr
  | TargetDrift ustr
  | CannotReadSafely ustr
  | NotRegular ustr
  | ImageDrift image_label ustr
  | Admission preview_error

text \<open>The exceptions of the module and those that pass through it.\<close>

datatype apply_exn =
    OsError
  | ValueErr
  | RuntimeErr
  | EditorError editor_reason
  | CommitAncestry ustr
  | RollbackAncestry ustr
  | Cancelled
  | IndexErr
  | KeyErr
  | OtherException

fun is_editor :: "apply_exn \<Rightarrow> bool" where
  "is_editor (EditorError _) \<longleftrightarrow> True"
| "is_editor (CommitAncestry _) \<longleftrightarrow> True"
| "is_editor (RollbackAncestry _) \<longleftrightarrow> True"
| "is_editor _ \<longleftrightarrow> False"

fun is_commit_conflict :: "apply_exn \<Rightarrow> bool" where
  "is_commit_conflict (CommitAncestry _) \<longleftrightarrow> True"
| "is_commit_conflict _ \<longleftrightarrow> False"

fun is_rollback_conflict :: "apply_exn \<Rightarrow> bool" where
  "is_rollback_conflict (RollbackAncestry _) \<longleftrightarrow> True"
| "is_rollback_conflict _ \<longleftrightarrow> False"

text \<open>The tuples of exception classes the module catches.\<close>

definition is_os_or_editor :: "apply_exn \<Rightarrow> bool" where
  "is_os_or_editor e \<longleftrightarrow> e = OsError \<or> is_editor e"

definition is_stage_failure :: "apply_exn \<Rightarrow> bool" where
  "is_stage_failure e \<longleftrightarrow> e = OsError \<or> is_editor e \<or> e = RuntimeErr \<or> e = ValueErr"

datatype apply_state = APPLIED | CONFLICTED | ROLLED_BACK | PARTIAL_FAILURE

record file_result =
  fr_path :: ustr
  fr_state :: apply_state
  fr_pre_hash :: ustr
  fr_post_hash :: ustr
  fr_live :: "ustr option"

datatype apply_message =
    PreflightMessage preflight_error
  | StageMessage apply_exn
  | FailureMessage apply_exn "apply_exn list"

record apply_payload =
  ap_preview :: ustr
  ap_state :: apply_state
  ap_files :: "file_result list"
  ap_message :: "apply_message option"

text \<open>The calls of the operating system. \<open>os_view\<close> is what path admission sees; \<open>os_open_root\<close>,
  \<open>os_open_dir\<close> and \<open>os_open_read\<close> are \<open>os.open\<close> with the flags of the module, \<open>os_write\<close> writes,
  flushes and syncs, \<open>os_checkpoint\<close> is \<open>asyncio.sleep(0)\<close>.\<close>

type_synonym ('w, 'a) eff = "('w, apply_exn, 'a) io"

record 'w os =
  os_secure :: bool
  os_view :: "('w, files) eff"
  os_resolve :: "ppath \<Rightarrow> ('w, ppath) eff"
  os_lstat :: "ppath \<Rightarrow> ('w, file_status) eff"
  os_open_root :: "ustr \<Rightarrow> ('w, int) eff"
  os_open_dir :: "ustr \<Rightarrow> int \<Rightarrow> ('w, int) eff"
  os_open_read :: "ustr \<Rightarrow> int \<Rightarrow> ('w, int) eff"
  os_create :: "ustr \<Rightarrow> nat \<Rightarrow> int \<Rightarrow> ('w, int) eff"
  os_dup :: "int \<Rightarrow> ('w, int) eff"
  os_close :: "int \<Rightarrow> ('w, unit) eff"
  os_fstat :: "int \<Rightarrow> ('w, file_status) eff"
  os_fchmod :: "int \<Rightarrow> nat \<Rightarrow> ('w, unit) eff"
  os_read :: "int \<Rightarrow> ('w, bytes) eff"
  os_write :: "int \<Rightarrow> bytes \<Rightarrow> ('w, unit) eff"
  os_access :: "int \<Rightarrow> ('w, bool) eff"
  os_mkdtemp :: "ppath \<Rightarrow> ('w, ppath) eff"
  os_rmtree :: "ppath \<Rightarrow> ('w, unit) eff"
  os_checkpoint :: "('w, unit) eff"

text \<open>The replacement operation, \<open>os.replace\<close> by default.\<close>

type_synonym 'w replace_file = "ustr \<Rightarrow> ustr \<Rightarrow> int \<Rightarrow> int \<Rightarrow> ('w, unit) eff"

subsection \<open>Directories\<close>

text \<open>\<open>with\<close> an exit stack on which the opened descriptor is pushed.\<close>

definition with_descriptor :: "'w os \<Rightarrow> int \<Rightarrow> ('w, 'a) eff \<Rightarrow> ('w, 'a) eff" where
  "with_descriptor os fd m = io_finally m (os_close os fd)"

text \<open>The loop of both directory openers: the descriptor moves down one component at a time, and
  is closed when a step fails.\<close>

fun descend :: "'w os \<Rightarrow> int \<Rightarrow> ustr list \<Rightarrow> ('w, int) eff" where
  "descend os fd [] = io_ret fd"
| "descend os fd (part # parts) =
     io_bind (io_on_error (io_bind (os_open_dir os part fd) (\<lambda>next_fd.
                io_bind (os_close os fd) (\<lambda>_. io_ret next_fd)))
              (os_close os fd))
       (\<lambda>next_fd. descend os next_fd parts)"

definition anchor :: "ppath \<Rightarrow> ustr" where
  "anchor path = replicate (pp_slashes path) 47"

definition open_absolute_directory :: "'w os \<Rightarrow> ppath \<Rightarrow> ('w, int) eff" where
  "open_absolute_directory os path =
     (if \<not> is_absolute path then io_raise (EditorError DirectoryNotAbsolute)
      else io_bind (os_open_root os (anchor path)) (\<lambda>fd. descend os fd (pp_parts path)))"

definition open_relative_directory :: "'w os \<Rightarrow> int \<Rightarrow> ustr list \<Rightarrow> ('w, int) eff" where
  "open_relative_directory os root_fd parts = io_bind (os_dup os root_fd) (\<lambda>fd. descend os fd parts)"

definition directory_binding_matches :: "'w os \<Rightarrow> workspace_binding \<Rightarrow> directory_binding \<Rightarrow> ('w, bool) eff" where
  "directory_binding_matches os workspace directory =
     io_catch
       (io_bind (open_absolute_directory os (wb_root workspace)) (\<lambda>root_fd.
          with_descriptor os root_fd
            (io_bind (os_fstat os root_fd) (\<lambda>root_status.
               if st_identity root_status \<noteq> wb_identity workspace then io_ret False
               else io_bind (open_relative_directory os root_fd (db_parts directory)) (\<lambda>parent_fd.
                      with_descriptor os parent_fd
                        (io_bind (os_fstat os parent_fd) (\<lambda>parent_status.
                           io_ret (st_identity parent_status = db_identity directory))))))))
       is_stage_failure (\<lambda>_. io_ret False)"

definition require_directory_binding ::
  "'w os \<Rightarrow> workspace_binding \<Rightarrow> directory_binding \<Rightarrow> apply_exn \<Rightarrow> ('w, unit) eff" where
  "require_directory_binding os workspace directory err =
     io_bind (directory_binding_matches os workspace directory) (\<lambda>ok. io_raise_if (\<not> ok) err)"

subsection \<open>Images\<close>

definition read_regular_at :: "'w os \<Rightarrow> int \<Rightarrow> ustr \<Rightarrow> ustr \<Rightarrow> ('w, bytes \<times> file_status) eff" where
  "read_regular_at os dir_fd name display =
     io_bind (io_catch (os_open_read os name dir_fd) (\<lambda>e. e = OsError \<or> e = ValueErr)
                (\<lambda>_. io_raise (EditorError (CannotReadSafely display)))) (\<lambda>fd.
       io_finally
         (io_catch
            (io_bind (os_fstat os fd) (\<lambda>opened.
               if st_kind opened \<noteq> RegularInode then io_raise (EditorError (NotRegular display))
               else io_bind (os_read os fd) (\<lambda>content. io_ret (content, opened))))
            (\<lambda>e. e = OsError) (\<lambda>_. io_raise (EditorError (CannotReadSafely display))))
         (os_close os fd))"

definition require_file_image ::
  "'w os \<Rightarrow> (bytes \<Rightarrow> ustr) \<Rightarrow> int \<Rightarrow> ustr \<Rightarrow> ustr \<Rightarrow> file_identity \<Rightarrow> ustr \<Rightarrow> image_label \<Rightarrow> ('w, ustr) eff" where
  "require_file_image os sha dir_fd name display expected_identity expected_hash label =
     io_bind (read_regular_at os dir_fd name display) (\<lambda>(content, status).
       if st_identity status \<noteq> expected_identity \<or> sha content \<noteq> expected_hash
       then io_raise (EditorError (ImageDrift label display))
       else io_ret (sha content))"

text \<open>The display paths of the staged images.\<close>

definition staged_post_display :: "file_edit \<Rightarrow> ustr" where
  "staged_post_display item = u ''staged postimage for '' @ fe_path item"

definition staged_pre_display :: "file_edit \<Rightarrow> ustr" where
  "staged_pre_display item = u ''staged preimage for '' @ fe_path item"

definition commit_target ::
  "'w os \<Rightarrow> (bytes \<Rightarrow> ustr) \<Rightarrow> 'w replace_file \<Rightarrow> workspace_binding \<Rightarrow> int \<Rightarrow> target_binding \<Rightarrow> staged_images \<Rightarrow>
   ('w, applied_target) eff" where
  "commit_target os sha replace_file workspace staging_fd target staged =
     (let item = tb_item target; directory = tb_directory target in
      io_bind (require_directory_binding os workspace directory (CommitAncestry (fe_path item))) (\<lambda>_.
      io_bind (require_file_image os sha (db_descriptor directory) (tb_name target) (fe_path item)
                 (tb_identity target) (fe_pre_hash item) PreimageLabel) (\<lambda>_.
      io_bind (require_file_image os sha staging_fd (sf_name (si_post staged)) (staged_post_display item)
                 (sf_identity (si_post staged)) (fe_post_hash item) StagedPostimage) (\<lambda>_.
      io_bind (replace_file (sf_name (si_post staged)) (tb_name target) staging_fd (db_descriptor directory)) (\<lambda>_.
      io_bind (require_file_image os sha (db_descriptor directory) (tb_name target) (fe_path item)
                 (sf_identity (si_post staged)) (fe_post_hash item) PostimageLabel) (\<lambda>_.
      io_bind (require_directory_binding os workspace directory (CommitAncestry (fe_path item))) (\<lambda>_.
        io_ret \<lparr>at_target = target, at_staged = staged\<rparr>)))))))"

definition is_exact_task_postimage ::
  "'w os \<Rightarrow> (bytes \<Rightarrow> ustr) \<Rightarrow> target_binding \<Rightarrow> staged_file \<Rightarrow> ('w, bool) eff" where
  "is_exact_task_postimage os sha target staged =
     io_catch
       (io_bind (require_file_image os sha (db_descriptor (tb_directory target)) (tb_name target)
                   (fe_path (tb_item target)) (sf_identity staged) (fe_post_hash (tb_item target)) PostimageLabel)
          (\<lambda>_. io_ret True))
       is_os_or_editor (\<lambda>_. io_ret False)"

definition rollback_target ::
  "'w os \<Rightarrow> (bytes \<Rightarrow> ustr) \<Rightarrow> 'w replace_file \<Rightarrow> workspace_binding \<Rightarrow> int \<Rightarrow> bool \<Rightarrow> applied_target \<Rightarrow> ('w, ustr) eff" where
  "rollback_target os sha replace_file workspace staging_fd allow_unbound applied =
     (let target = at_target applied; staged = at_staged applied; item = tb_item target;
          directory = tb_directory target in
      io_bind (directory_binding_matches os workspace directory) (\<lambda>ancestry_was_bound.
      io_bind (require_file_image os sha (db_descriptor directory) (tb_name target) (fe_path item)
                 (sf_identity (si_post staged)) (fe_post_hash item) RollbackPostimage) (\<lambda>_.
      io_bind (require_file_image os sha staging_fd (sf_name (si_pre staged)) (staged_pre_display item)
                 (sf_identity (si_pre staged)) (fe_pre_hash item) StagedPreimage) (\<lambda>_.
      io_bind (replace_file (sf_name (si_pre staged)) (tb_name target) staging_fd (db_descriptor directory)) (\<lambda>_.
      io_bind (require_file_image os sha (db_descriptor directory) (tb_name target) (fe_path item)
                 (sf_identity (si_pre staged)) (fe_pre_hash item) RestoredPreimage) (\<lambda>restored.
        if allow_unbound then io_ret restored
        else if \<not> ancestry_was_bound then io_raise (RollbackAncestry (fe_path item))
        else io_bind (directory_binding_matches os workspace directory) (\<lambda>still_bound.
               if \<not> still_bound then io_raise (RollbackAncestry (fe_path item)) else io_ret restored)))))))"

subsection \<open>Results\<close>

definition make_file_result :: "file_edit \<Rightarrow> apply_state \<Rightarrow> ustr option \<Rightarrow> file_result" where
  "make_file_result item state live =
     \<lparr>fr_path = fe_path item, fr_state = state, fr_pre_hash = fe_pre_hash item, fr_post_hash = fe_post_hash item,
      fr_live = live\<rparr>"

definition admission_exn :: "preview_error \<Rightarrow> apply_exn" where
  "admission_exn e = (if e = RaisedOSError then OsError else EditorError (Admission e))"

definition lift_preview :: "(preview_error, 'a) result \<Rightarrow> ('w, 'a) eff" where
  "lift_preview r = (case r of Inl e \<Rightarrow> io_raise (admission_exn e) | Inr x \<Rightarrow> io_ret x)"

definition safe_bound_live_hash ::
  "'w os \<Rightarrow> (bytes \<Rightarrow> ustr) \<Rightarrow> workspace_binding \<Rightarrow> target_binding \<Rightarrow> ('w, ustr option) eff" where
  "safe_bound_live_hash os sha workspace target =
     io_bind (directory_binding_matches os workspace (tb_directory target)) (\<lambda>ok.
       if \<not> ok then io_ret None
       else io_catch
              (io_bind (read_regular_at os (db_descriptor (tb_directory target)) (tb_name target)
                          (fe_path (tb_item target))) (\<lambda>(content, _). io_ret (Some (sha content))))
              is_os_or_editor (\<lambda>_. io_ret None))"

definition safe_live_hash :: "'w os \<Rightarrow> (bytes \<Rightarrow> ustr) \<Rightarrow> ppath \<Rightarrow> ustr \<Rightarrow> ('w, ustr option) eff" where
  "safe_live_hash os sha root path =
     io_catch
       (io_bind (os_view os) (\<lambda>fs.
        io_bind (lift_preview (admit_edit_path fs root path)) (\<lambda>admitted.
        io_bind (lift_preview (read_regular_file fs admitted)) (\<lambda>content. io_ret (Some (sha content))))))
       is_os_or_editor (\<lambda>_. io_ret None)"

fun conflicted_files :: "'w os \<Rightarrow> (bytes \<Rightarrow> ustr) \<Rightarrow> ppath \<Rightarrow> file_edit list \<Rightarrow> ('w, file_result list) eff" where
  "conflicted_files os sha root [] = io_ret []"
| "conflicted_files os sha root (item # items) =
     io_bind (safe_live_hash os sha root (fe_path item)) (\<lambda>live.
     io_bind (conflicted_files os sha root items) (\<lambda>rest.
       io_ret (make_file_result item CONFLICTED live # rest)))"

definition conflicted :: "'w os \<Rightarrow> (bytes \<Rightarrow> ustr) \<Rightarrow> stored_preview \<Rightarrow> apply_message \<Rightarrow> ('w, apply_payload) eff" where
  "conflicted os sha record message =
     io_bind (conflicted_files os sha (sp_root record) (sp_files record)) (\<lambda>files.
       io_ret \<lparr>ap_preview = pv_id (sp_payload record), ap_state = CONFLICTED, ap_files = files,
               ap_message = Some message\<rparr>)"

subsection \<open>Commit and rollback\<close>

type_synonym result_dict = "(ustr, file_result) dict"

text \<open>The commit loop. It returns the applied targets, the states, and, when it stopped, the failure and
  the ancestry conflict that is known for it.\<close>

fun commit_loop ::
  "'w os \<Rightarrow> (bytes \<Rightarrow> ustr) \<Rightarrow> 'w replace_file \<Rightarrow> workspace_binding \<Rightarrow> int \<Rightarrow> (ustr, staged_images) dict \<Rightarrow>
   target_binding list \<Rightarrow> applied_target list \<Rightarrow> result_dict \<Rightarrow>
   ('w, applied_target list \<times> result_dict \<times> (apply_exn \<times> apply_exn option) option) eff" where
  "commit_loop os sha replace_file workspace staging_fd staged [] applied states = io_ret (applied, states, None)"
| "commit_loop os sha replace_file workspace staging_fd staged (target # targets) applied states =
     (let item = tb_item target; path = fe_path item in
      io_bind
        (io_attempt
           (io_bind (os_checkpoint os) (\<lambda>_.
              case map_of staged path of
                None \<Rightarrow> io_raise KeyErr
              | Some images \<Rightarrow> commit_target os sha replace_file workspace staging_fd target images)))
        (\<lambda>outcome.
           case outcome of
             Inr a \<Rightarrow>
               commit_loop os sha replace_file workspace staging_fd staged targets (applied @ [a])
                 (AList.update path (make_file_result item APPLIED None) states)
           | Inl failure \<Rightarrow>
               io_bind
                 (if is_commit_conflict failure then io_ret (Some failure)
                  else io_catch
                         (io_bind (require_directory_binding os workspace (tb_directory target) (CommitAncestry path))
                            (\<lambda>_. io_ret None))
                         is_commit_conflict (\<lambda>e. io_ret (Some e)))
                 (\<lambda>conflict.
                    case map_of staged path of
                      None \<Rightarrow> io_raise KeyErr
                    | Some images \<Rightarrow>
                        io_bind (is_exact_task_postimage os sha target (si_post images)) (\<lambda>exact.
                          if exact
                          then io_ret (applied @ [\<lparr>at_target = target, at_staged = images\<rparr>],
                                 AList.update path (make_file_result item APPLIED (Some (fe_post_hash item))) states,
                                 Some (failure, conflict))
                          else io_ret (applied, states, Some (failure, conflict))))))"

text \<open>The rollback loop over the applied targets, the last first. The accumulators are
  \<open>rollback_complete\<close>, \<open>rollback_errors\<close> and the states.\<close>

fun rollback_loop ::
  "'w os \<Rightarrow> (bytes \<Rightarrow> ustr) \<Rightarrow> 'w replace_file \<Rightarrow> workspace_binding \<Rightarrow> int \<Rightarrow> ustr list set \<Rightarrow>
   applied_target list \<Rightarrow> bool \<Rightarrow> apply_exn list \<Rightarrow> result_dict \<Rightarrow>
   ('w, bool \<times> apply_exn list \<times> result_dict) eff" where
  "rollback_loop os sha replace_file workspace staging_fd conflict_directories [] complete errors states =
     io_ret (complete, errors, states)"
| "rollback_loop os sha replace_file workspace staging_fd conflict_directories (a # applied) complete errors states =
     (let target = at_target a; item = tb_item target; path = fe_path item;
          allow_unbound = db_parts (tb_directory target) \<in> conflict_directories in
      io_bind (io_attempt (rollback_target os sha replace_file workspace staging_fd allow_unbound a)) (\<lambda>outcome.
        case outcome of
          Inr restored \<Rightarrow>
            rollback_loop os sha replace_file workspace staging_fd conflict_directories applied complete errors
              (AList.update path (make_file_result item ROLLED_BACK (Some restored)) states)
        | Inl e \<Rightarrow>
            if \<not> is_os_or_editor e then io_raise e
            else io_bind
                   (if allow_unbound then io_ret e
                    else io_bind (directory_binding_matches os workspace (tb_directory target)) (\<lambda>ok.
                           io_ret (if \<not> ok \<and> \<not> is_rollback_conflict e then RollbackAncestry path else e)))
                   (\<lambda>rollback_error.
                      io_bind (safe_bound_live_hash os sha workspace target) (\<lambda>live.
                        rollback_loop os sha replace_file workspace staging_fd conflict_directories applied False
                          (errors @ [rollback_error])
                          (AList.update path (make_file_result item PARTIAL_FAILURE live) states)))))"

text \<open>Files without a state are reported as conflicted.\<close>

fun fill_states ::
  "'w os \<Rightarrow> (bytes \<Rightarrow> ustr) \<Rightarrow> ppath \<Rightarrow> file_edit list \<Rightarrow> result_dict \<Rightarrow> ('w, result_dict) eff" where
  "fill_states os sha root [] states = io_ret states"
| "fill_states os sha root (item # items) states =
     (if fe_path item \<in> set (dict_keys states) then fill_states os sha root items states
      else io_bind (safe_live_hash os sha root (fe_path item)) (\<lambda>live.
             fill_states os sha root items
               (AList.update (fe_path item) (make_file_result item CONFLICTED live) states)))"

text \<open>\<open>tuple(states[item.path] for item in record.files)\<close>\<close>

definition collect_states :: "file_edit list \<Rightarrow> result_dict \<Rightarrow> (apply_exn, file_result list) result" where
  "collect_states items states =
     map_err (\<lambda>item. case map_of states (fe_path item) of None \<Rightarrow> Inl KeyErr | Some r \<Rightarrow> Inr r) items"

definition overall_state :: "bool \<Rightarrow> bool \<Rightarrow> bool \<Rightarrow> apply_state" where
  "overall_state nothing_applied commit_conflict rollback_complete =
     (if nothing_applied \<or> commit_conflict \<and> rollback_complete then CONFLICTED
      else if rollback_complete then ROLLED_BACK
      else PARTIAL_FAILURE)"

definition replace_staged_files ::
  "'w os \<Rightarrow> (bytes \<Rightarrow> ustr) \<Rightarrow> 'w replace_file \<Rightarrow> stored_preview \<Rightarrow> workspace_binding \<Rightarrow> target_binding list \<Rightarrow> int \<Rightarrow>
   (ustr, staged_images) dict \<Rightarrow> ('w, apply_payload) eff" where
  "replace_staged_files os sha replace_file record workspace targets staging_fd staged =
     io_bind (commit_loop os sha replace_file workspace staging_fd staged targets [] []) (\<lambda>(applied, states, stopped).
       case stopped of
         None \<Rightarrow>
           io_bind (io_lift (collect_states (sp_files record) states)) (\<lambda>files.
             io_ret \<lparr>ap_preview = pv_id (sp_payload record), ap_state = APPLIED, ap_files = files, ap_message = None\<rparr>)
       | Some (failure, conflict) \<Rightarrow>
           let conflict_directories =
             (if conflict = None then {} else set (map (\<lambda>a. db_parts (tb_directory (at_target a))) applied)) in
           io_bind (rollback_loop os sha replace_file workspace staging_fd conflict_directories (rev applied)
                      True [] states) (\<lambda>(complete, errors, rolled).
           io_bind (fill_states os sha (sp_root record) (sp_files record) rolled) (\<lambda>filled.
             if failure = Cancelled then io_raise failure
             else io_bind (io_lift (collect_states (sp_files record) filled)) (\<lambda>files.
               io_ret \<lparr>ap_preview = pv_id (sp_payload record),
                       ap_state = overall_state (applied = []) (conflict \<noteq> None) complete,
                       ap_files = files,
                       ap_message = Some (FailureMessage (case conflict of Some c \<Rightarrow> c | None \<Rightarrow> failure) errors)\<rparr>))))"

subsection \<open>Binding and staging\<close>

text \<open>The parts of a pure path, its anchor first when it has one.\<close>

definition path_parts :: "ppath \<Rightarrow> ustr list" where
  "path_parts p = (if is_absolute p then [anchor p] else []) @ pp_parts p"

text \<open>\<open>k\<close> is the rest of the block in which the descriptor stays open.\<close>

definition bind_workspace :: "'w os \<Rightarrow> ppath \<Rightarrow> (workspace_binding \<Rightarrow> ('w, 'a) eff) \<Rightarrow> ('w, 'a) eff" where
  "bind_workspace os root k =
     io_bind (os_resolve os root) (\<lambda>root_path.
     io_bind (os_lstat os root_path) (\<lambda>path_status.
     io_bind (open_absolute_directory os root_path) (\<lambda>fd.
       with_descriptor os fd
         (io_bind (os_fstat os fd) (\<lambda>status.
            if st_kind status \<noteq> DirectoryInode then io_raise (EditorError RootNotDirectory)
            else if st_identity path_status \<noteq> st_identity status then io_raise (EditorError RootIdentityChanged)
            else k \<lparr>wb_root = root_path, wb_descriptor = fd, wb_identity = st_identity status\<rparr>)))))"

text \<open>The checks of one target whose directory is bound.\<close>

definition bind_target ::
  "'w os \<Rightarrow> (bytes \<Rightarrow> ustr) \<Rightarrow> workspace_binding \<Rightarrow> file_edit \<Rightarrow> file_status \<Rightarrow> file_status \<Rightarrow> directory_binding \<Rightarrow>
   ('w, target_binding) eff" where
  "bind_target os sha workspace item admitted_status admitted_parent_status directory =
     (let path = fe_path item; parts = path_parts (pure_path path); fd = db_descriptor directory in
      if st_identity admitted_parent_status \<noteq> db_identity directory then io_raise (EditorError (DirectoryChanged path))
      else io_bind (require_directory_binding os workspace directory (EditorError (DirectoryChanged path))) (\<lambda>_.
        if parts = [] then io_raise IndexErr
        else io_bind (read_regular_at os fd (last parts) path) (\<lambda>(content, status).
          if st_identity admitted_status \<noteq> st_identity status then io_raise (EditorError (TargetChanged path))
          else if st_mode status AND 146 = 0 then io_raise (EditorError (TargetNotWritable path))
          else io_bind (os_access os fd) (\<lambda>writable.
            if \<not> writable then io_raise (EditorError (DirectoryNotWritable path))
            else if sha content \<noteq> fe_pre_hash item then io_raise (EditorError (TargetDrift path))
            else io_ret \<lparr>tb_item = item, tb_directory = directory, tb_name = last parts,
                         tb_identity = st_identity status, tb_mode = st_mode status AND 4095\<rparr>))))"

fun bind_targets ::
  "'w os \<Rightarrow> (bytes \<Rightarrow> ustr) \<Rightarrow> workspace_binding \<Rightarrow> file_edit list \<Rightarrow> (ustr list, directory_binding) dict \<Rightarrow>
   target_binding list \<Rightarrow> (target_binding list \<Rightarrow> ('w, 'a) eff) \<Rightarrow> ('w, 'a) eff" where
  "bind_targets os sha workspace [] directories targets k = k targets"
| "bind_targets os sha workspace (item # items) directories targets k =
     io_bind (os_view os) (\<lambda>fs.
     io_bind (lift_preview (admit_edit_path fs (wb_root workspace) (fe_path item))) (\<lambda>admitted.
     io_bind (os_lstat os admitted) (\<lambda>admitted_status.
     io_bind (os_lstat os (path_parent admitted)) (\<lambda>admitted_parent_status.
       let parent_parts = butlast (path_parts (pure_path (fe_path item))) in
       case map_of directories parent_parts of
         Some directory \<Rightarrow>
           io_bind (bind_target os sha workspace item admitted_status admitted_parent_status directory) (\<lambda>target.
             bind_targets os sha workspace items directories (targets @ [target]) k)
       | None \<Rightarrow>
           io_bind (open_relative_directory os (wb_descriptor workspace) parent_parts) (\<lambda>fd.
             with_descriptor os fd
               (io_bind (os_fstat os fd) (\<lambda>status.
                  if st_kind status \<noteq> DirectoryInode then io_raise (EditorError (ParentNotDirectory (fe_path item)))
                  else let directory = \<lparr>db_descriptor = fd, db_parts = parent_parts,
                                         db_identity = st_identity status\<rparr> in
                    io_bind (bind_target os sha workspace item admitted_status admitted_parent_status directory) (\<lambda>target.
                      bind_targets os sha workspace items (AList.update parent_parts directory directories)
                        (targets @ [target]) k))))))))"

definition write_stage :: "'w os \<Rightarrow> ustr \<Rightarrow> bytes \<Rightarrow> nat \<Rightarrow> int \<Rightarrow> ('w, staged_file) eff" where
  "write_stage os name content mode dir_fd =
     io_bind (os_create os name mode dir_fd) (\<lambda>fd.
     io_bind
       (io_finally
          (io_bind (os_fchmod os fd mode) (\<lambda>_.
           io_bind (os_write os fd content) (\<lambda>_.
           io_bind (os_fstat os fd) (\<lambda>status. io_ret (st_identity status)))))
          (os_close os fd))
       (\<lambda>identity. io_ret \<lparr>sf_name = name, sf_identity = identity\<rparr>))"

fun stage_targets ::
  "'w os \<Rightarrow> int \<Rightarrow> nat \<Rightarrow> target_binding list \<Rightarrow> (ustr, staged_images) dict \<Rightarrow> ('w, (ustr, staged_images) dict) eff" where
  "stage_targets os staging_fd index [] staged = io_ret staged"
| "stage_targets os staging_fd index (target # targets) staged =
     io_bind (write_stage os (u (show_nat index @ ''.post'')) (fe_postimage (tb_item target)) (tb_mode target) staging_fd) (\<lambda>post.
     io_bind (write_stage os (u (show_nat index @ ''.pre'')) (fe_preimage (tb_item target)) (tb_mode target) staging_fd) (\<lambda>pre.
       stage_targets os staging_fd (Suc index) targets
         (AList.update (fe_path (tb_item target)) \<lparr>si_post = post, si_pre = pre\<rparr> staged)))"

text \<open>The block of the temporary directory, removed whatever happens.\<close>

definition with_staging ::
  "'w os \<Rightarrow> (bytes \<Rightarrow> ustr) \<Rightarrow> 'w replace_file \<Rightarrow> stored_preview \<Rightarrow> workspace_binding \<Rightarrow> target_binding list \<Rightarrow>
   ('w, apply_payload) eff" where
  "with_staging os sha replace_file record workspace targets =
     io_bind (os_mkdtemp os (path_parent (wb_root workspace))) (\<lambda>staging_path.
       io_finally
         (io_bind (os_lstat os staging_path) (\<lambda>staging_status.
          io_bind (open_absolute_directory os staging_path) (\<lambda>staging_fd.
            with_descriptor os staging_fd
              (io_bind (os_fstat os staging_fd) (\<lambda>opened.
                 if st_identity staging_status \<noteq> st_identity opened
                 then io_raise (EditorError StagingIdentityChanged)
                 else io_bind (stage_targets os staging_fd 0 targets []) (\<lambda>staged.
                   replace_staged_files os sha replace_file record workspace targets staging_fd staged))))))
         (os_rmtree os staging_path))"

definition apply_stored_preview ::
  "'w os \<Rightarrow> (bytes \<Rightarrow> ustr) \<Rightarrow> 'w replace_file \<Rightarrow> stored_preview \<Rightarrow> ('w, apply_payload) eff" where
  "apply_stored_preview os sha replace_file record =
     (case preflight sha record of
        Some e \<Rightarrow> conflicted os sha record (PreflightMessage e)
      | None \<Rightarrow>
          io_catch
            (io_bind (io_raise_if (\<not> os_secure os) (EditorError UnsupportedPlatform)) (\<lambda>_.
               bind_workspace os (sp_root record) (\<lambda>workspace.
                 bind_targets os sha workspace (sp_files record)
                   [([], \<lparr>db_descriptor = wb_descriptor workspace, db_parts = [], db_identity = wb_identity workspace\<rparr>)]
                   [] (\<lambda>targets. with_staging os sha replace_file record workspace targets))))
            is_stage_failure
            (\<lambda>e. conflicted os sha record (StageMessage e)))"

end
