(* ===== verification/ApplyReports.thy ===== *)
theory ApplyReports
  imports Apply
begin

text \<open>
  What an apply payload says, whatever the operating system does between and during the
  calls: one result per file of the preview, in order, an overall state that follows from the
  states of the files, and a rolled-back file always reported with its preimage hash as the
  hash that was read back.
\<close>

subsection \<open>Steps\<close>

lemma require_file_image_yields:
  "yields (require_file_image os sha fd name display identity expected label) (\<lambda>h. h = expected)"
  unfolding require_file_image_def
  by (intro yields_then) (auto intro!: yields_if yields_intros split: prod.split)

lemma rollback_target_yields:
  "yields (rollback_target os sha rep ws sfd allow a) (\<lambda>h. h = fe_pre_hash (tb_item (at_target a)))"
  unfolding rollback_target_def Let_def
  by (intro yields_then yields_bind [OF require_file_image_yields]) (auto intro!: yields_if yields_then yields_intros)

lemma commit_target_yields:
  "yields (commit_target os sha rep ws sfd target images) (\<lambda>a. at_target a = target)"
  unfolding commit_target_def Let_def by (intro yields_then) auto

subsection \<open>Loops\<close>

text \<open>The path of an applied target and the result a dictionary holds for it.\<close>

definition item_of :: "applied_target \<Rightarrow> file_edit" where
  "item_of a = tb_item (at_target a)"

definition reported :: "result_dict \<Rightarrow> file_edit \<Rightarrow> apply_state \<Rightarrow> bool" where
  "reported states item state \<longleftrightarrow>
     (\<exists>live. map_of states (fe_path item) = Some (make_file_result item state live)
        \<and> (state = ROLLED_BACK \<longrightarrow> live = Some (fe_pre_hash item)))"

lemma reported_update:
  "reported (AList.update (fe_path item) (make_file_result item s live) d) item' s' \<longleftrightarrow>
     (if fe_path item' = fe_path item
      then make_file_result item s live = make_file_result item' s' live \<and> (s' = ROLLED_BACK \<longrightarrow> live = Some (fe_pre_hash item'))
      else reported d item' s')"
  by (auto simp: reported_def update_conv' make_file_result_def)

lemma reported_state_unique: "reported d item s \<Longrightarrow> reported d item s' \<Longrightarrow> s = s'"
  by (auto simp: reported_def make_file_result_def)

text \<open>The commit loop stops after a prefix of the targets and reports exactly that prefix.\<close>

definition committed :: "file_edit list \<Rightarrow> applied_target list \<Rightarrow> result_dict \<Rightarrow> bool" where
  "committed items applied states \<longleftrightarrow>
     map item_of applied = items \<and> set (dict_keys states) = fe_path ` set items
     \<and> (\<forall>item \<in> set items. reported states item APPLIED)"

lemma committed_snoc:
  assumes "committed items applied states" and "item_of a = item" and "fe_path item \<notin> fe_path ` set items"
  shows "committed (items @ [item]) (applied @ [a])
    (AList.update (fe_path item) (make_file_result item APPLIED live) states)"
  using assms by (auto simp: committed_def reported_update keys_update_dict image_iff)

lemma commit_loop_yields:
  assumes "committed items applied states" and "distinct (map fe_path (items @ map tb_item targets))"
  shows "yields (commit_loop os sha rep ws sfd staged targets applied states) (\<lambda>(applied', states', stopped).
    \<exists>n \<le> length targets. committed (items @ take n (map tb_item targets)) applied' states'
      \<and> (stopped = None \<longrightarrow> n = length targets))"
  using assms
proof (induction targets arbitrary: items applied states)
  case Nil
  then show ?case by (auto intro!: yields_intros)
next
  case (Cons target targets)
  let ?item = "tb_item target"
  let ?Q = "\<lambda>(applied', states', stopped). \<exists>n \<le> length (target # targets).
    committed (items @ take n (map tb_item (target # targets))) applied' states'
      \<and> (stopped = None \<longrightarrow> n = length (target # targets))"
  have fresh: "fe_path ?item \<notin> fe_path ` set items" using Cons.prems(2) by auto
  have step: "yields (io_bind (os_checkpoint os) (\<lambda>_.
              case map_of staged (fe_path ?item) of
                None \<Rightarrow> io_raise KeyErr
              | Some images \<Rightarrow> commit_target os sha rep ws sfd target images)) (\<lambda>a. at_target a = target)"
    by (intro yields_then) (auto intro: commit_target_yields split: option.split)
  have done_case: "?Q (applied @ [a], AList.update (fe_path ?item) (make_file_result ?item APPLIED live) states, Some x)"
    if "item_of a = ?item" for a live x
    using committed_snoc [OF Cons.prems(1) that fresh] by (auto intro!: exI [of _ 1])
  have stop_case: "?Q (applied, states, Some x)" for x
    using Cons.prems(1) by (auto intro!: exI [of _ 0])
  have rest: "yields (commit_loop os sha rep ws sfd staged targets (applied @ [a])
      (AList.update (fe_path ?item) (make_file_result ?item APPLIED None) states)) ?Q" if "at_target a = target" for a
  proof (rule triple_weaken [OF Cons.IH [OF committed_snoc [OF Cons.prems(1) _ fresh]]], goal_cases)
    case 1
    then show ?case using that by (simp add: item_of_def)
  next
    case 2
    then show ?case using Cons.prems(2) by simp
  next
    case (4 x w)
    then obtain n where "n \<le> length targets" "committed ((items @ [?item]) @ take n (map tb_item targets)) (fst x) (fst (snd x))"
      "snd (snd x) = None \<longrightarrow> n = length targets" by (auto split: prod.splits)
    then show ?case by (cases x) (auto intro!: exI [of _ "Suc n"])
  qed simp_all
  show ?case
    unfolding commit_loop.simps Let_def
  proof (rule yields_bind [OF yields_attempt [OF step]])
    fix outcome :: "(apply_exn, applied_target) result"
    assume o: "\<forall>a. outcome = Inr a \<longrightarrow> at_target a = target"
    show "yields (case outcome of
             Inr a \<Rightarrow>
               commit_loop os sha rep ws sfd staged targets (applied @ [a])
                 (AList.update (fe_path ?item) (make_file_result ?item APPLIED None) states)
           | Inl failure \<Rightarrow>
               io_bind
                 (if is_commit_conflict failure then io_ret (Some failure)
                  else io_catch
                         (io_bind (require_directory_binding os ws (tb_directory target) (CommitAncestry (fe_path ?item)))
                            (\<lambda>_. io_ret None))
                         is_commit_conflict (\<lambda>e. io_ret (Some e)))
                 (\<lambda>conflict.
                    case map_of staged (fe_path ?item) of
                      None \<Rightarrow> io_raise KeyErr
                    | Some images \<Rightarrow>
                        io_bind (is_exact_task_postimage os sha target (si_post images)) (\<lambda>exact.
                          if exact
                          then io_ret (applied @ [\<lparr>at_target = target, at_staged = images\<rparr>],
                                 AList.update (fe_path ?item) (make_file_result ?item APPLIED (Some (fe_post_hash ?item))) states,
                                 Some (failure, conflict))
                          else io_ret (applied, states, Some (failure, conflict))))) ?Q"
    proof (cases outcome)
      case (Inr a)
      with o have "at_target a = target" by simp
      then show ?thesis unfolding Inr sum.case by (rule rest)
    next
      case (Inl failure)
      have exact: "yields (io_bind (is_exact_task_postimage os sha target (si_post images)) (\<lambda>exact.
            if exact
            then io_ret (applied @ [\<lparr>at_target = target, at_staged = images\<rparr>],
                   AList.update (fe_path ?item) (make_file_result ?item APPLIED (Some (fe_post_hash ?item))) states,
                   Some (failure, conflict))
            else io_ret (applied, states, Some (failure, conflict)))) ?Q" for images conflict
      proof (intro yields_then yields_if yields_intros(1))
        show "?Q (applied @ [\<lparr>at_target = target, at_staged = images\<rparr>],
            AList.update (fe_path ?item) (make_file_result ?item APPLIED (Some (fe_post_hash ?item))) states,
            Some (failure, conflict))" by (rule done_case) (simp add: item_of_def)
        show "?Q (applied, states, Some (failure, conflict))" by (rule stop_case)
      qed
      show ?thesis unfolding Inl sum.case
      proof (rule yields_then)
        fix conflict
        show "yields (case map_of staged (fe_path ?item) of
                      None \<Rightarrow> io_raise KeyErr
                    | Some images \<Rightarrow>
                        io_bind (is_exact_task_postimage os sha target (si_post images)) (\<lambda>exact.
                          if exact
                          then io_ret (applied @ [\<lparr>at_target = target, at_staged = images\<rparr>],
                                 AList.update (fe_path ?item) (make_file_result ?item APPLIED (Some (fe_post_hash ?item))) states,
                                 Some (failure, conflict))
                          else io_ret (applied, states, Some (failure, conflict)))) ?Q"
          by (cases "map_of staged (fe_path ?item)") (simp_all only: option.case exact yields_intros(2))
      qed
    qed
  qed
qed

text \<open>The rollback loop replaces the report of every applied target and of nothing else.\<close>

definition paths_of :: "applied_target list \<Rightarrow> ustr set" where
  "paths_of applied = (\<lambda>a. fe_path (item_of a)) ` set applied"

definition rolled_back :: "applied_target list \<Rightarrow> result_dict \<Rightarrow> result_dict \<Rightarrow> bool" where
  "rolled_back applied states states' \<longleftrightarrow>
     (\<forall>path. path \<notin> paths_of applied \<longrightarrow> map_of states' path = map_of states path)
     \<and> (\<forall>a \<in> set applied. reported states' (item_of a) ROLLED_BACK \<or> reported states' (item_of a) PARTIAL_FAILURE)"

definition all_rolled_back :: "applied_target list \<Rightarrow> result_dict \<Rightarrow> bool" where
  "all_rolled_back applied states \<longleftrightarrow> (\<forall>a \<in> set applied. reported states (item_of a) ROLLED_BACK)"

lemma reported_cong: "map_of d (fe_path item) = map_of d' (fe_path item) \<Longrightarrow> reported d item s = reported d' item s"
  by (simp add: reported_def)

lemma rolled_back_Cons:
  assumes "rolled_back applied (AList.update (fe_path (item_of a)) (make_file_result (item_of a) s live) states) states'"
    and "fe_path (item_of a) \<notin> paths_of applied"
    and "s = ROLLED_BACK \<and> live = Some (fe_pre_hash (item_of a)) \<or> s = PARTIAL_FAILURE"
  shows "rolled_back (a # applied) states states' \<and> reported states' (item_of a) s"
proof -
  let ?mid = "AList.update (fe_path (item_of a)) (make_file_result (item_of a) s live) states"
  have "map_of states' (fe_path (item_of a)) = map_of ?mid (fe_path (item_of a))"
    using assms(1,2) by (simp add: rolled_back_def)
  then have "reported states' (item_of a) s"
    using assms(3) by (subst reported_cong [of _ _ ?mid]) (auto simp: reported_update)
  then show ?thesis using assms
    by (auto simp: rolled_back_def paths_of_def update_conv')
qed

lemma rolled_back_items:
  "rolled_back applied states states' \<Longrightarrow> \<forall>item \<in> item_of ` set applied.
     reported states' item ROLLED_BACK \<or> reported states' item PARTIAL_FAILURE"
  by (simp add: rolled_back_def)

lemma rollback_loop_yields:
  assumes "distinct (map (\<lambda>a. fe_path (item_of a)) applied)"
  shows "yields (rollback_loop os sha rep ws sfd dirs applied complete errors states)
    (\<lambda>(complete', errors', states'). rolled_back applied states states'
       \<and> (complete' \<longleftrightarrow> complete \<and> all_rolled_back applied states'))"
  using assms
proof (induction applied arbitrary: complete errors states)
  case Nil
  then show ?case by (auto intro!: yields_intros simp: rolled_back_def all_rolled_back_def)
next
  case (Cons a applied)
  let ?item = "item_of a"
  let ?Q = "\<lambda>(complete', errors', states'). rolled_back (a # applied) states states'
       \<and> (complete' \<longleftrightarrow> complete \<and> all_rolled_back (a # applied) states')"
  have fresh: "fe_path ?item \<notin> paths_of applied" and dist: "distinct (map (\<lambda>a. fe_path (item_of a)) applied)"
    using Cons.prems by (auto simp: paths_of_def)
  have restored: "yields (rollback_loop os sha rep ws sfd dirs applied complete errors
      (AList.update (fe_path ?item) (make_file_result ?item ROLLED_BACK (Some (fe_pre_hash ?item))) states)) ?Q"
    by (rule triple_weaken [OF Cons.IH [OF dist]])
      (auto dest: rolled_back_Cons [OF _ fresh] simp: all_rolled_back_def)
  have failed: "yields (rollback_loop os sha rep ws sfd dirs applied False errors'
      (AList.update (fe_path ?item) (make_file_result ?item PARTIAL_FAILURE live) states)) ?Q" for errors' live
    by (rule triple_weaken [OF Cons.IH [OF dist]])
      (auto dest: rolled_back_Cons [OF _ fresh] reported_state_unique simp: all_rolled_back_def)
  show ?case
    unfolding rollback_loop.simps Let_def
  proof (rule yields_bind [OF yields_attempt [OF rollback_target_yields]], goal_cases)
    case (1 outcome)
    then show ?case
    proof (cases outcome)
      case (Inr restored_hash)
      then show ?thesis using 1 restored by (simp add: item_of_def)
    next
      case (Inl e)
      then show ?thesis using failed by (auto intro!: yields_then yields_intros simp: item_of_def)
    qed
  qed
qed

lemma fill_states_yields:
  assumes "distinct (map fe_path items)"
  shows "yields (fill_states os sha root items states) (\<lambda>states'.
    (\<forall>path \<in> set (dict_keys states). map_of states' path = map_of states path)
    \<and> (\<forall>item \<in> set items. fe_path item \<notin> set (dict_keys states) \<longrightarrow> reported states' item CONFLICTED))"
  using assms
proof (induction items arbitrary: states)
  case Nil
  then show ?case by (auto intro!: yields_intros)
next
  case (Cons item items)
  have other: "\<forall>i \<in> set items. fe_path i \<noteq> fe_path item" using Cons.prems by (auto simp: image_iff)
  have keep: "yields (fill_states os sha root items states) (\<lambda>states'.
      (\<forall>path \<in> set (dict_keys states). map_of states' path = map_of states path)
      \<and> (\<forall>i \<in> set (item # items). fe_path i \<notin> set (dict_keys states) \<longrightarrow> reported states' i CONFLICTED))"
    if "fe_path item \<in> set (dict_keys states)"
    using Cons that by (auto elim!: triple_weaken)
  have add: "yields (fill_states os sha root items (AList.update (fe_path item) (make_file_result item CONFLICTED live) states))
      (\<lambda>states'. (\<forall>path \<in> set (dict_keys states). map_of states' path = map_of states path)
      \<and> (\<forall>i \<in> set (item # items). fe_path i \<notin> set (dict_keys states) \<longrightarrow> reported states' i CONFLICTED))"
    if "fe_path item \<notin> set (dict_keys states)" for live
  proof (rule triple_weaken [OF Cons.IH])
    show "distinct (map fe_path items)" using Cons.prems by simp
  next
    fix states' w
    let ?mid = "AList.update (fe_path item) (make_file_result item CONFLICTED live) states"
    assume q: "(\<forall>path \<in> set (dict_keys ?mid). map_of states' path = map_of ?mid path)
      \<and> (\<forall>i \<in> set items. fe_path i \<notin> set (dict_keys ?mid) \<longrightarrow> reported states' i CONFLICTED)"
    have "map_of states' (fe_path item) = map_of ?mid (fe_path item)" using q by (simp add: keys_update_dict)
    then have own: "reported states' item CONFLICTED"
      by (subst reported_cong [of _ _ ?mid]) (simp_all add: reported_update)
    show "(\<forall>path \<in> set (dict_keys states). map_of states' path = map_of states path)
      \<and> (\<forall>i \<in> set (item # items). fe_path i \<notin> set (dict_keys states) \<longrightarrow> reported states' i CONFLICTED)"
    proof (intro conjI ballI impI)
      fix path assume path: "path \<in> set (dict_keys states)"
      then have "path \<in> set (dict_keys ?mid)" by (simp only: list.set_map keys_update_dict insert_iff simp_thms)
      moreover have "path \<noteq> fe_path item" using path that by metis
      ultimately show "map_of states' path = map_of states path" using q by (simp only: update_conv' fun_upd_apply if_False)
    next
      fix i assume "i \<in> set (item # items)" "fe_path i \<notin> set (dict_keys states)"
      then show "reported states' i CONFLICTED" using q own other by (auto simp: keys_update_dict)
    qed
  qed simp_all
  show ?case
  proof (cases "fe_path item \<in> set (dict_keys states)")
    case True
    then show ?thesis using keep by simp
  next
    case False
    then show ?thesis using add by (auto intro!: yields_then)
  qed
qed

subsection \<open>The whole payload\<close>

text \<open>What a report says of the files of a preview.\<close>

definition report_of :: "stored_preview \<Rightarrow> (file_edit \<Rightarrow> apply_state \<Rightarrow> bool) \<Rightarrow> apply_payload \<Rightarrow> bool" where
  "report_of record allowed p \<longleftrightarrow>
     ap_preview p = pv_id (sp_payload record)
     \<and> list_all2 (\<lambda>item r. (\<exists>live. r = make_file_result item (fr_state r) live
          \<and> (fr_state r = ROLLED_BACK \<longrightarrow> live = Some (fe_pre_hash item))) \<and> allowed item (fr_state r))
         (sp_files record) (ap_files p)"

definition consistent_report :: "stored_preview \<Rightarrow> apply_payload \<Rightarrow> bool" where
  "consistent_report record p \<longleftrightarrow>
     report_of record (\<lambda>_ s. (s = APPLIED) = (ap_state p = APPLIED)) p
     \<and> (ap_state p = PARTIAL_FAILURE \<longleftrightarrow> PARTIAL_FAILURE \<in> fr_state ` set (ap_files p))
     \<and> (ap_state p = ROLLED_BACK \<longrightarrow> ROLLED_BACK \<in> fr_state ` set (ap_files p))
     \<and> (ap_state p = APPLIED \<longleftrightarrow> ap_message p = None)"

lemma collect_states_reported:
  assumes "collect_states items states = Inr files" and "\<forall>item \<in> set items. \<exists>s. reported states item s \<and> allowed item s"
  shows "list_all2 (\<lambda>item r. (\<exists>live. r = make_file_result item (fr_state r) live
          \<and> (fr_state r = ROLLED_BACK \<longrightarrow> live = Some (fe_pre_hash item)))
          \<and> reported states item (fr_state r) \<and> allowed item (fr_state r)) items files"
proof -
  have "list_all2 (\<lambda>item r. map_of states (fe_path item) = Some r) items files"
    using assms(1) by (auto simp: collect_states_def map_err_list_all2 elim!: list_all2_mono split: option.split_asm)
  then show ?thesis
  proof (rule list.rel_mono_strong)
    fix item r
    assume "item \<in> set items" and r: "map_of states (fe_path item) = Some r"
    then obtain s where "reported states item s" "allowed item s" using assms(2) by blast
    with r obtain live where s: "r = make_file_result item s live" "s = ROLLED_BACK \<longrightarrow> live = Some (fe_pre_hash item)"
      "allowed item s" by (auto simp: reported_def)
    then have "fr_state r = s" by (simp add: make_file_result_def)
    then show "(\<exists>live. r = make_file_result item (fr_state r) live
          \<and> (fr_state r = ROLLED_BACK \<longrightarrow> live = Some (fe_pre_hash item)))
          \<and> reported states item (fr_state r) \<and> allowed item (fr_state r)"
      using s r by (auto simp: reported_def)
  qed
qed

lemma conflicted_files_yields:
  "yields (conflicted_files os sha root items) (\<lambda>files.
     list_all2 (\<lambda>item r. fr_state r = CONFLICTED \<and> (\<exists>live. r = make_file_result item CONFLICTED live)) items files)"
proof (induction items)
  case (Cons item items)
  show ?case unfolding conflicted_files.simps
    by (intro yields_then yields_bind [OF Cons.IH] yields_intros(1)) (auto simp: make_file_result_def)
qed (auto intro!: yields_intros)

lemma list_all2_states: "list_all2 P xs ys \<Longrightarrow> (\<And>x y. P x y \<Longrightarrow> f y = c) \<Longrightarrow> f ` set ys \<subseteq> {c}"
  by (induction rule: list_all2_induct) auto

lemma conflicted_yields: "yields (conflicted os sha record message) (consistent_report record)"
  unfolding conflicted_def
proof (rule yields_bind [OF conflicted_files_yields], rule yields_intros(1))
  fix files
  assume all: "list_all2 (\<lambda>item r. fr_state r = CONFLICTED \<and> (\<exists>live. r = make_file_result item CONFLICTED live))
    (sp_files record) files"
  then have states: "fr_state ` set files \<subseteq> {CONFLICTED}" by (rule list_all2_states) simp
  have "list_all2 (\<lambda>item r. (\<exists>live. r = make_file_result item (fr_state r) live
          \<and> (fr_state r = ROLLED_BACK \<longrightarrow> live = Some (fe_pre_hash item))) \<and> (fr_state r = APPLIED) = (CONFLICTED = APPLIED))
         (sp_files record) files"
    using all by (rule list_all2_mono) auto
  then show "consistent_report record \<lparr>ap_preview = pv_id (sp_payload record), ap_state = CONFLICTED,
      ap_files = files, ap_message = Some message\<rparr>"
    using states by (auto simp: consistent_report_def report_of_def)
qed

lemma reported_states:
  assumes "list_all2 (\<lambda>item r. reported d item (fr_state r)) items files"
  shows "s \<in> fr_state ` set files \<longleftrightarrow> (\<exists>item \<in> set items. reported d item s)"
  using assms
proof (induction rule: list_all2_induct)
  case (Cons item items r files)
  then have "s = fr_state r \<longleftrightarrow> reported d item s" using reported_state_unique by metis
  then show ?case using Cons.IH by auto
qed simp

text \<open>The states after a stopped run: the applied files are rolled back or partial, the others conflicted.\<close>

definition stopped_state :: "file_edit set \<Rightarrow> file_edit \<Rightarrow> apply_state \<Rightarrow> bool" where
  "stopped_state applied item s \<longleftrightarrow> (if item \<in> applied then s = ROLLED_BACK \<or> s = PARTIAL_FAILURE else s = CONFLICTED)"

lemma filled_reports:
  assumes c: "committed (take n items) applied states" and r: "rolled_back (rev applied) states rolled"
    and f: "\<forall>path \<in> set (dict_keys rolled). map_of filled path = map_of rolled path"
      "\<forall>item \<in> set items. fe_path item \<notin> set (dict_keys rolled) \<longrightarrow> reported filled item CONFLICTED"
    and d: "distinct (map fe_path items)" and item: "item \<in> set items"
  shows "\<exists>s. reported filled item s \<and> stopped_state (set (take n items)) item s"
    and "item \<in> set (take n items) \<Longrightarrow> reported filled item s = reported rolled item s"
proof -
  have applied: "item_of ` set applied = set (take n items)" using c by (metis committed_def set_map)
  have paths: "paths_of (rev applied) = fe_path ` set (take n items)"
    unfolding paths_of_def set_rev applied [symmetric] image_image ..
  have undone: "reported rolled i ROLLED_BACK \<or> reported rolled i PARTIAL_FAILURE" if "i \<in> set (take n items)" for i
    using rolled_back_items [OF r, unfolded set_rev applied] that by blast
  have known: "fe_path i \<in> set (dict_keys rolled)" if "i \<in> set (take n items)" for i
    using undone [OF that] map_of_keys [of rolled "fe_path i"] by (auto simp: reported_def)
  show same: "reported filled item s = reported rolled item s" if "item \<in> set (take n items)" for s
    by (rule reported_cong) (use f(1) known [OF that] in blast)
  show "\<exists>s. reported filled item s \<and> stopped_state (set (take n items)) item s"
  proof (cases "item \<in> set (take n items)")
    case True
    then show ?thesis using undone [OF True] same [OF True] by (auto simp: stopped_state_def)
  next
    case False
    have "inj_on fe_path (set items)" using d by (simp add: distinct_map)
    then have "fe_path item \<notin> fe_path ` set (take n items)"
      using False inj_on_image_mem_iff [of fe_path "set items" item, OF _ item set_take_subset [of n items]] by blast
    then have "map_of rolled (fe_path item) = None"
      using r c paths map_of_keys [of states "fe_path item"] by (simp add: rolled_back_def committed_def)
    then have "fe_path item \<notin> set (dict_keys rolled)" using map_of_keys [of rolled] by simp
    then show ?thesis using f(2) item False by (auto simp: stopped_state_def)
  qed
qed

lemma applied_report:
  assumes "committed items applied states" and "collect_states items states = Inr files" and "items = sp_files record"
  shows "consistent_report record \<lparr>ap_preview = pv_id (sp_payload record), ap_state = APPLIED, ap_files = files,
    ap_message = None\<rparr>"
proof -
  have "\<forall>item \<in> set items. \<exists>s. reported states item s \<and> s = APPLIED" using assms(1) by (simp add: committed_def)
  note all = collect_states_reported [OF assms(2) this]
  then have "list_all2 (\<lambda>item r. fr_state r = APPLIED) items files" by (rule list_all2_mono) simp
  then have "fr_state ` set files \<subseteq> {APPLIED}" by (rule list_all2_states)
  moreover have "list_all2 (\<lambda>item r. (\<exists>live. r = make_file_result item (fr_state r) live
          \<and> (fr_state r = ROLLED_BACK \<longrightarrow> live = Some (fe_pre_hash item))) \<and> (fr_state r = APPLIED) = (APPLIED = APPLIED))
         (sp_files record) files"
    using all unfolding assms(3) by (rule list_all2_mono) auto
  ultimately show ?thesis by (auto simp: consistent_report_def report_of_def)
qed

lemma stopped_report:
  assumes c: "committed (take n (sp_files record)) applied states" and r: "rolled_back (rev applied) states rolled"
    and f: "\<forall>path \<in> set (dict_keys rolled). map_of filled path = map_of rolled path"
      "\<forall>item \<in> set (sp_files record). fe_path item \<notin> set (dict_keys rolled) \<longrightarrow> reported filled item CONFLICTED"
    and d: "distinct (map fe_path (sp_files record))"
    and files: "collect_states (sp_files record) filled = Inr files"
    and complete: "complete \<longleftrightarrow> all_rolled_back (rev applied) rolled"
  shows "consistent_report record \<lparr>ap_preview = pv_id (sp_payload record),
    ap_state = overall_state (applied = []) conflict complete, ap_files = files, ap_message = Some m\<rparr>"
proof -
  let ?items = "sp_files record" and ?done = "set (take n (sp_files record))"
  note reports = filled_reports [OF c r f d]
  have applied: "item_of ` set applied = ?done" using c by (metis committed_def set_map)
  have "\<forall>item \<in> set ?items. \<exists>s. reported filled item s \<and> stopped_state ?done item s" using reports(1) by blast
  note all = collect_states_reported [OF files this]
  then have "list_all2 (\<lambda>item r. reported filled item (fr_state r)) ?items files" by (rule list_all2_mono) simp
  note states = reported_states [OF this]
  have done_items: "?done \<subseteq> set ?items" by (rule set_take_subset)
  have undone: "reported rolled i ROLLED_BACK \<or> reported rolled i PARTIAL_FAILURE" if "i \<in> ?done" for i
    using rolled_back_items [OF r, unfolded set_rev applied] that by blast
  have not_partial: "\<not> reported filled i PARTIAL_FAILURE" if "i \<in> set ?items" "i \<notin> ?done" for i
    using reports(1) [OF that(1)] that(2) reported_state_unique by (fastforce simp: stopped_state_def)
  have partial: "PARTIAL_FAILURE \<in> fr_state ` set files \<longleftrightarrow> \<not> complete"
  proof -
    have "PARTIAL_FAILURE \<in> fr_state ` set files \<longleftrightarrow> (\<exists>i \<in> ?done. reported rolled i PARTIAL_FAILURE)"
      using states not_partial reports(2) done_items by (metis subsetD)
    also have "\<dots> \<longleftrightarrow> \<not> all_rolled_back (rev applied) rolled"
      using undone reported_state_unique unfolding all_rolled_back_def set_rev applied [symmetric] by fastforce
    finally show ?thesis by (simp add: complete)
  qed
  have rolled_one: "ROLLED_BACK \<in> fr_state ` set files" if ne: "applied \<noteq> []" and complete
  proof -
    obtain a where a: "a \<in> set applied" using ne by (cases applied) auto
    then have "reported rolled (item_of a) ROLLED_BACK" using \<open>complete\<close> by (simp add: complete all_rolled_back_def)
    moreover have "item_of a \<in> ?done" using a applied by blast
    ultimately show ?thesis using states reports(2) done_items by (metis subsetD)
  qed
  have "list_all2 (\<lambda>item r. (\<exists>live. r = make_file_result item (fr_state r) live
          \<and> (fr_state r = ROLLED_BACK \<longrightarrow> live = Some (fe_pre_hash item)))
          \<and> (fr_state r = APPLIED) = (overall_state (applied = []) conflict complete = APPLIED)) ?items files"
    using all by (rule list_all2_mono) (auto simp: stopped_state_def overall_state_def split: if_split_asm)
  moreover have "overall_state (applied = []) conflict complete = PARTIAL_FAILURE \<longleftrightarrow> \<not> complete"
    using complete by (auto simp: overall_state_def all_rolled_back_def)
  moreover have "overall_state (applied = []) conflict complete = ROLLED_BACK \<longrightarrow> applied \<noteq> [] \<and> complete"
    by (simp add: overall_state_def)
  moreover have "overall_state (applied = []) conflict complete \<noteq> APPLIED" by (simp add: overall_state_def)
  ultimately show ?thesis using partial rolled_one
    unfolding consistent_report_def report_of_def apply_payload.select_convs by blast
qed

lemma replace_staged_files_yields:
  assumes "map tb_item targets = sp_files record" and "distinct (map fe_path (sp_files record))"
  shows "yields (replace_staged_files os sha rep record ws targets sfd staged) (consistent_report record)"
  unfolding replace_staged_files_def
proof (rule yields_bind)
  show "yields (commit_loop os sha rep ws sfd staged targets [] []) (\<lambda>(applied', states', stopped).
    \<exists>n \<le> length targets. committed ([] @ take n (map tb_item targets)) applied' states'
      \<and> (stopped = None \<longrightarrow> n = length targets))"
    by (rule commit_loop_yields) (use assms in \<open>simp_all add: committed_def\<close>)
next
  fix out1 :: "applied_target list \<times> result_dict \<times> (apply_exn \<times> apply_exn option) option"
  obtain applied states stopped where o1: "out1 = (applied, states, stopped)" by (cases out1)
  assume "case out1 of (applied', states', stopped) \<Rightarrow>
    \<exists>n \<le> length targets. committed ([] @ take n (map tb_item targets)) applied' states'
      \<and> (stopped = None \<longrightarrow> n = length targets)"
  then obtain n where c: "committed (take n (sp_files record)) applied states"
    and n: "stopped = None \<longrightarrow> n = length targets"
    using assms(1) by (auto simp: o1)
  have dist: "distinct (map (\<lambda>a. fe_path (item_of a)) (rev applied))"
  proof -
    have "map item_of applied = take n (sp_files record)" using c by (simp add: committed_def)
    then have "map fe_path (map item_of applied) = take n (map fe_path (sp_files record))" by (simp only: take_map)
    then have "map (\<lambda>a. fe_path (item_of a)) applied = take n (map fe_path (sp_files record))" by (simp add: comp_def)
    then have "distinct (map (\<lambda>a. fe_path (item_of a)) applied)" using assms(2) distinct_take by metis
    then show ?thesis by (simp add: rev_map [symmetric])
  qed
  show "yields (case out1 of (applied, states, stopped) \<Rightarrow> (case stopped of
         None \<Rightarrow>
           io_bind (io_lift (collect_states (sp_files record) states)) (\<lambda>files.
             io_ret \<lparr>ap_preview = pv_id (sp_payload record), ap_state = APPLIED, ap_files = files, ap_message = None\<rparr>)
       | Some (failure, conflict) \<Rightarrow>
           let conflict_directories =
             (if conflict = None then {} else set (map (\<lambda>a. db_parts (tb_directory (at_target a))) applied)) in
           io_bind (rollback_loop os sha rep ws sfd conflict_directories (rev applied)
                      True [] states) (\<lambda>(complete, errors, rolled).
           io_bind (fill_states os sha (sp_root record) (sp_files record) rolled) (\<lambda>filled.
             if failure = Cancelled then io_raise failure
             else io_bind (io_lift (collect_states (sp_files record) filled)) (\<lambda>files.
               io_ret \<lparr>ap_preview = pv_id (sp_payload record),
                       ap_state = overall_state (applied = []) (conflict \<noteq> None) complete,
                       ap_files = files,
                       ap_message = Some (FailureMessage (case conflict of Some c \<Rightarrow> c | None \<Rightarrow> failure) errors)\<rparr>)))))
     (consistent_report record)"
  proof (cases stopped)
    case None
    then have "take n (sp_files record) = sp_files record" using n assms(1) by (metis length_map order_refl take_all)
    then show ?thesis unfolding o1 None prod.case option.case using c
      by (intro yields_bind [OF yields_intros(3) [where Q = "\<lambda>files. collect_states (sp_files record) states = Inr files"]]
          yields_intros(1)) (auto intro: applied_report)
  next
    case (Some fc)
    obtain failure conflict where fc: "fc = (failure, conflict)" by (cases fc)
    show ?thesis unfolding o1 Some fc prod.case option.case Let_def
    proof (rule yields_bind [OF rollback_loop_yields [OF dist]], unfold split_beta,
        rule yields_bind [OF fill_states_yields [OF assms(2)]], goal_cases)
      case (1 r filled)
      have "consistent_report record \<lparr>ap_preview = pv_id (sp_payload record),
          ap_state = overall_state (applied = []) (conflict \<noteq> None) (fst r), ap_files = files, ap_message = Some m\<rparr>"
        if "collect_states (sp_files record) filled = Inr files" for files m
        by (rule stopped_report [OF c _ _ _ assms(2) that, of "snd (snd r)"]) (use 1 in blast)+
      then show ?case
        by (intro yields_if yields_intros(2)
            yields_bind [OF yields_intros(3) [where Q = "\<lambda>files. collect_states (sp_files record) filled = Inr files"]]
            yields_intros(1))
    qed
  qed
qed

lemma bind_target_yields: "yields (bind_target os sha ws item st pst directory) (\<lambda>t. tb_item t = item)"
  unfolding bind_target_def Let_def
  by (intro yields_if yields_intros yields_then) (auto intro!: yields_if yields_intros yields_then split: prod.split)

lemma bind_targets_yields:
  assumes "\<And>ts. map tb_item ts = map tb_item targets @ items \<Longrightarrow> yields (k ts) Q"
  shows "yields (bind_targets os sha ws items directories targets k) Q"
  using assms
proof (induction items arbitrary: directories targets)
  case (Cons item items)
  have bound: "yields (io_bind (bind_target os sha ws item st pst directory) (\<lambda>target.
      bind_targets os sha ws items ds (targets @ [target]) k)) Q" for st pst directory ds
    by (rule yields_bind [OF bind_target_yields], rule Cons.IH) (rule Cons.prems, simp)
  show ?case unfolding bind_targets.simps Let_def with_descriptor_def
    by (intro yields_then) (auto intro!: bound yields_then yields_finally yields_if yields_intros split: option.split)
qed simp

lemma with_staging_yields:
  assumes "map tb_item targets = sp_files record" and "distinct (map fe_path (sp_files record))"
  shows "yields (with_staging os sha rep record ws targets) (consistent_report record)"
  unfolding with_staging_def with_descriptor_def
  by (intro yields_then yields_finally yields_if yields_intros(2) replace_staged_files_yields assms)

text \<open>C4: Whatever the operating system does, a payload of apply reports the files of the preview one to one and
  in order with their hashes; the overall state is \<open>APPLIED\<close> exactly when every file is, and
  then without a message, \<open>PARTIAL_FAILURE\<close> exactly when some file is, \<open>ROLLED_BACK\<close> only when
  some file was; and a file is reported rolled back only with its preimage hash read back.\<close>

theorem apply_report_consistent:
  assumes "apply_stored_preview os sha replace_file record w = (Inr p, w')" and "sp_files record \<noteq> []"
  shows "ap_preview p = pv_id (sp_payload record)
    \<and> map fr_path (ap_files p) = map fe_path (sp_files record)
    \<and> map fr_pre_hash (ap_files p) = map fe_pre_hash (sp_files record)
    \<and> (ap_state p = APPLIED \<longleftrightarrow> fr_state ` set (ap_files p) = {APPLIED})
    \<and> (ap_state p = APPLIED \<longleftrightarrow> ap_message p = None)
    \<and> (ap_state p = PARTIAL_FAILURE \<longleftrightarrow> PARTIAL_FAILURE \<in> fr_state ` set (ap_files p))
    \<and> (ap_state p = ROLLED_BACK \<longrightarrow> ROLLED_BACK \<in> fr_state ` set (ap_files p))
    \<and> (\<forall>r \<in> set (ap_files p). fr_state r = ROLLED_BACK \<longrightarrow> fr_live r = Some (fr_pre_hash r))"
proof -
  have "yields (apply_stored_preview os sha replace_file record) (consistent_report record)"
  proof (cases "preflight sha record")
    case None
    then have "distinct (map fe_path (sp_files record))" by (simp add: preflight_iff strict_sorted_iff)
    then show ?thesis unfolding apply_stored_preview_def None option.case bind_workspace_def with_descriptor_def
      by (intro yields_catch conflicted_yields yields_then yields_finally yields_if yields_intros(2)
          bind_targets_yields with_staging_yields) simp_all
  qed (simp add: apply_stored_preview_def conflicted_yields)
  from triple_returns [OF this _ assms(1)] have rep: "consistent_report record p" by simp
  define P where "P = (\<lambda>item r. ((\<exists>live. r = make_file_result item (fr_state r) live
          \<and> (fr_state r = ROLLED_BACK \<longrightarrow> live = Some (fe_pre_hash item))) \<and> (fr_state r = APPLIED) = (ap_state p = APPLIED)))"
  have all: "list_all2 P (sp_files record) (ap_files p)" using rep unfolding consistent_report_def report_of_def P_def by (elim conjE)
  have maps: "map g (ap_files p) = map f (sp_files record)" if "\<And>item r. P item r \<Longrightarrow> g r = f item"
    for f :: "file_edit \<Rightarrow> ustr" and g
    using all by (induction rule: list_all2_induct) (simp_all add: that)
  have fields: "P item r \<Longrightarrow> fr_path r = fe_path item \<and> fr_pre_hash r = fe_pre_hash item
      \<and> (fr_state r = ROLLED_BACK \<longrightarrow> fr_live r = Some (fr_pre_hash r)) \<and> (fr_state r = APPLIED) = (ap_state p = APPLIED)" for item r
    unfolding P_def by (elim conjE exE) (auto simp: make_file_result_def dest: arg_cong [where f = fr_path]
        arg_cong [where f = fr_pre_hash] arg_cong [where f = fr_live])
  have each: "(fr_state r = ROLLED_BACK \<longrightarrow> fr_live r = Some (fr_pre_hash r))
      \<and> (fr_state r = APPLIED) = (ap_state p = APPLIED)" if "r \<in> set (ap_files p)" for r
  proof -
    from all that have "\<exists>item. P item r" by (induction rule: list_all2_induct) auto
    then show ?thesis using fields by blast
  qed
  have ne: "ap_files p \<noteq> []" using all assms(2) by auto
  have "ap_state p = APPLIED \<longleftrightarrow> fr_state ` set (ap_files p) = {APPLIED}"
    using each ne by (auto simp: image_iff set_eq_iff) (metis list.set_intros(1) list.exhaust)+
  then show ?thesis using rep maps [of fr_path fe_path] maps [of fr_pre_hash fe_pre_hash] fields each
    unfolding consistent_report_def report_of_def by blast
qed

text \<open>A platform without directory-relative operations, in which every other call fails.\<close>

definition dead_os :: "unit os" where
  "dead_os = \<lparr>os_secure = False, os_view = io_raise OsError, os_resolve = (\<lambda>_. io_raise OsError),
     os_lstat = (\<lambda>_. io_raise OsError), os_open_root = (\<lambda>_. io_raise OsError),
     os_open_dir = (\<lambda>_ _. io_raise OsError), os_open_read = (\<lambda>_ _. io_raise OsError),
     os_create = (\<lambda>_ _ _. io_raise OsError), os_dup = (\<lambda>_. io_raise OsError), os_close = (\<lambda>_. io_raise OsError),
     os_fstat = (\<lambda>_. io_raise OsError), os_fchmod = (\<lambda>_ _. io_raise OsError), os_read = (\<lambda>_. io_raise OsError),
     os_write = (\<lambda>_ _. io_raise OsError), os_access = (\<lambda>_. io_raise OsError),
     os_mkdtemp = (\<lambda>_. io_raise OsError), os_rmtree = (\<lambda>_. io_raise OsError), os_checkpoint = io_raise OsError\<rparr>"

lemma dead_apply:
  "apply_stored_preview dead_os (ee_sha byte_env) (\<lambda>_ _ _ _. io_raise OsError) byte_stored () =
     (Inr \<lparr>ap_preview = u ''p'', ap_state = CONFLICTED, ap_files = [make_file_result byte_file CONFLICTED None],
           ap_message = Some (StageMessage (EditorError UnsupportedPlatform))\<rparr>, ())"
proof -
  have "stored_file_ok (ee_sha byte_env) byte_file \<and> payload_describes byte_payload [byte_file]"
    by (simp add: stored_file_ok_def payload_describes_def byte_file_def byte_env_def byte_edit_patch_def demo_file_def
        demo_patch_def is_scalar_def slice_def encode_char_def byte_payload_def unsigned_payload_def byte_request_def Let_def)
  then have "preflight (ee_sha byte_env) byte_stored = None" by (simp add: preflight_iff byte_stored_def)
  then show ?thesis
    by (simp add: apply_stored_preview_def io_catch_def io_bind_def io_run dead_os_def conflicted_def byte_stored_def
        safe_live_hash_def is_stage_failure_def is_os_or_editor_def byte_payload_def unsigned_payload_def Let_def)
qed

lemma apply_report_consistent_witness:
  "fr_path (make_file_result byte_file CONFLICTED None) = u ''a''"
  using apply_report_consistent [OF dead_apply] by (simp add: byte_stored_def byte_file_def demo_file_def)

end
