(* ===== verification/StructuralCache.thy ===== *)
theory StructuralCache
  imports Prelude
begin

text \<open>
  Bounded reuse of structural results (\<open>structural/cache.py\<close>): a least-recently-used cache
  weighted by bytes. The ordered dictionary is an association list, the least recently used
  entry first. The lemmas show that every sequence of operations keeps the limits and the
  byte count, that an insertion evicts exactly the shortest prefix of least recently used
  entries that makes it fit, and that a lookup only ever returns what was last stored.
\<close>

type_synonym bytes = "nat list"

record cache_key =
  ck_workspace :: string
  ck_fingerprint :: string
  ck_projection :: string
  ck_language :: string
  ck_sgconfig :: string
  ck_rules :: string
  ck_analyzer :: string
  ck_schema :: string
  ck_extractor :: string

record memory_cache =
  mc_max_entries :: int
  mc_max_bytes :: int
  mc_entries :: "(cache_key, bytes \<times> int) dict"
  mc_bytes :: int

subsection \<open>Operations\<close>

definition new_cache :: "int \<Rightarrow> int \<Rightarrow> memory_cache" where
  "new_cache max_entries max_bytes =
     \<lparr>mc_max_entries = max_entries, mc_max_bytes = max_bytes, mc_entries = [], mc_bytes = 0\<rparr>"

text \<open>\<open>move_to_end\<close>: the entry becomes the most recently used one.\<close>

definition cache_get :: "cache_key \<Rightarrow> memory_cache \<Rightarrow> bytes option \<times> memory_cache" where
  "cache_get key c =
     (case map_of (mc_entries c) key of
        None \<Rightarrow> (None, c)
      | Some entry \<Rightarrow> (Some (fst entry), c\<lparr>mc_entries := AList.delete key (mc_entries c) @ [(key, entry)]\<rparr>))"

text \<open>The eviction loop; \<open>popitem\<close> of an empty dictionary raises \<open>KeyError\<close>.\<close>

datatype cache_error = EmptyPopitem

fun cache_evict :: "int \<Rightarrow> int \<Rightarrow> (cache_key, bytes \<times> int) dict \<Rightarrow> int \<Rightarrow>
    (cache_error, (cache_key, bytes \<times> int) dict \<times> int) result" where
  "cache_evict max_entries max_bytes [] held =
     (if 0 > max_entries \<or> held > max_bytes then Inl EmptyPopitem else Inr ([], held))"
| "cache_evict max_entries max_bytes ((k, (v, weight)) # entries) held =
     (if int (length ((k, (v, weight)) # entries)) > max_entries \<or> held > max_bytes
      then cache_evict max_entries max_bytes entries (held - weight)
      else Inr ((k, (v, weight)) # entries, held))"

definition cache_put :: "cache_key \<Rightarrow> bytes \<Rightarrow> memory_cache \<Rightarrow> (cache_error, memory_cache) result" where
  "cache_put key val c =
     (let weight = int (length val) in
      if weight > mc_max_bytes c then Inr c
      else let held = (case map_of (mc_entries c) key of None \<Rightarrow> mc_bytes c | Some old \<Rightarrow> mc_bytes c - snd old) in
        bind_err (cache_evict (mc_max_entries c) (mc_max_bytes c)
                    (AList.delete key (mc_entries c) @ [(key, (val, weight))]) (held + weight))
          (\<lambda>(entries, held). Inr (c\<lparr>mc_entries := entries, mc_bytes := held\<rparr>)))"

definition cache_clear :: "memory_cache \<Rightarrow> memory_cache" where
  "cache_clear c = c\<lparr>mc_entries := [], mc_bytes := 0\<rparr>"

definition cache_size :: "memory_cache \<Rightarrow> nat \<times> int" where
  "cache_size c = (length (mc_entries c), mc_bytes c)"

subsection \<open>The invariant\<close>

definition entry_bytes :: "(cache_key, bytes \<times> int) dict \<Rightarrow> int" where
  "entry_bytes es = sum_list (map (\<lambda>(k, v, w). w) es)"

definition cache_wf :: "(cache_key, bytes \<times> int) dict \<Rightarrow> bool" where
  "cache_wf es \<longleftrightarrow> dict_ok es \<and> (\<forall>(k, v, w) \<in> set es. w = int (length v))"

definition cache_ok :: "memory_cache \<Rightarrow> bool" where
  "cache_ok c \<longleftrightarrow> cache_wf (mc_entries c) \<and> mc_bytes c = entry_bytes (mc_entries c)
     \<and> int (length (mc_entries c)) \<le> mc_max_entries c \<and> mc_bytes c \<le> mc_max_bytes c"

definition fits :: "int \<Rightarrow> int \<Rightarrow> (cache_key, bytes \<times> int) dict \<Rightarrow> bool" where
  "fits max_entries max_bytes es \<longleftrightarrow> int (length es) \<le> max_entries \<and> entry_bytes es \<le> max_bytes"

lemma entry_bytes_simps [simp]:
  "entry_bytes [] = 0"
  "entry_bytes ((k, (v, w)) # es) = w + entry_bytes es"
  "entry_bytes (es @ es') = entry_bytes es + entry_bytes es'"
  by (simp_all add: entry_bytes_def)

lemma entry_bytes_nonneg: "cache_wf es \<Longrightarrow> 0 \<le> entry_bytes es"
  by (fastforce simp: cache_wf_def entry_bytes_def intro!: sum_list_nonneg)

lemma cache_wf_sub: "cache_wf (e # es) \<Longrightarrow> cache_wf es"
  by (simp add: cache_wf_def dict_ok_def)

text \<open>The loop drops the shortest prefix after which the rest fits, and never pops an empty dictionary.\<close>

lemma cache_evict_drop:
  assumes "0 \<le> max_entries" and "0 \<le> max_bytes"
  shows "\<exists>n \<le> length es. cache_evict max_entries max_bytes es (entry_bytes es) = Inr (drop n es, entry_bytes (drop n es))
    \<and> fits max_entries max_bytes (drop n es) \<and> (\<forall>m < n. \<not> fits max_entries max_bytes (drop m es))"
proof (induction es)
  case (Cons e es)
  obtain k v w where e: "e = (k, (v, w))" by (cases e)
  show ?case
  proof (cases "fits max_entries max_bytes (e # es)")
    case True
    then show ?thesis using e by (intro exI [of _ 0]) (auto simp: fits_def)
  next
    case False
    from Cons obtain n where n: "n \<le> length es"
      "cache_evict max_entries max_bytes es (entry_bytes es) = Inr (drop n es, entry_bytes (drop n es))"
      "fits max_entries max_bytes (drop n es)" "\<forall>m < n. \<not> fits max_entries max_bytes (drop m es)" by blast
    have "\<not> fits max_entries max_bytes (drop m (e # es))" if "m < Suc n" for m
      using that n(4) False by (cases m) auto
    moreover have "cache_evict max_entries max_bytes (e # es) (entry_bytes (e # es)) =
        cache_evict max_entries max_bytes es (entry_bytes es)"
      using False e by (auto simp: fits_def)
    ultimately show ?thesis using n by (intro exI [of _ "Suc n"]) auto
  qed
qed (use assms in \<open>auto simp: fits_def\<close>)

lemma delete_bytes:
  "dict_ok es \<Longrightarrow> entry_bytes (AList.delete key es) =
     (case map_of es key of None \<Rightarrow> entry_bytes es | Some e \<Rightarrow> entry_bytes es - snd e)"
proof (induction es)
  case (Cons e es)
  obtain k v w where e: "e = (k, (v, w))" by (cases e)
  then show ?case using Cons
    by (cases "k = key") (auto simp: dict_ok_def delete_notin_dom split: option.split)
qed simp

lemma dict_ok_snoc: "dict_ok es \<Longrightarrow> dict_ok (AList.delete key es @ [(key, e)])"
  by (auto simp: dict_ok_def distinct_delete delete_keys)

lemma touched_wf:
  "cache_wf es \<Longrightarrow> snd e = int (length (fst e)) \<Longrightarrow> cache_wf (AList.delete key es @ [(key, e)])"
  by (cases e) (auto simp: cache_wf_def dict_ok_snoc mem_delete)

lemma drop_wf: "cache_wf es \<Longrightarrow> cache_wf (drop n es)"
  by (auto simp: cache_wf_def dict_ok_def drop_map [symmetric] dest: in_set_dropD)

subsection \<open>Runs\<close>

datatype cache_op = CacheGet cache_key | CachePut cache_key bytes | CacheClear

fun cache_do :: "cache_op \<Rightarrow> memory_cache \<Rightarrow> (cache_error, memory_cache) result" where
  "cache_do (CacheGet key) c = Inr (snd (cache_get key c))"
| "cache_do (CachePut key val) c = cache_put key val c"
| "cache_do CacheClear c = Inr (cache_clear c)"

text \<open>What was stored last under a key since the last clear; a value above the byte limit is not stored.\<close>

fun last_stored :: "int \<Rightarrow> cache_key \<Rightarrow> cache_op \<Rightarrow> bytes option \<Rightarrow> bytes option" where
  "last_stored max_bytes key (CacheGet _) r = r"
| "last_stored max_bytes key (CachePut key' val) r =
     (if key' = key \<and> int (length val) \<le> max_bytes then Some val else r)"
| "last_stored max_bytes key CacheClear r = None"

lemma cache_put_drop:
  fixes key :: cache_key
  assumes ok: "cache_ok c" and small: "int (length val) \<le> mc_max_bytes c"
  defines "touched \<equiv> AList.delete key (mc_entries c) @ [(key, (val, int (length val)))]"
  obtains n where "n \<le> length touched" "cache_put key val c = Inr (c\<lparr>mc_entries := drop n touched, mc_bytes := entry_bytes (drop n touched)\<rparr>)"
    "fits (mc_max_entries c) (mc_max_bytes c) (drop n touched)"
    "\<forall>m < n. \<not> fits (mc_max_entries c) (mc_max_bytes c) (drop m touched)"
proof -
  have wf: "cache_wf (mc_entries c)" and held: "mc_bytes c = entry_bytes (mc_entries c)"
    using ok by (simp_all add: cache_ok_def)
  have "0 \<le> mc_max_entries c" "0 \<le> mc_max_bytes c" using ok small by (auto simp: cache_ok_def)
  from cache_evict_drop [OF this, of touched] obtain n where n: "n \<le> length touched"
    "cache_evict (mc_max_entries c) (mc_max_bytes c) touched (entry_bytes touched) = Inr (drop n touched, entry_bytes (drop n touched))"
    "fits (mc_max_entries c) (mc_max_bytes c) (drop n touched)"
    "\<forall>m < n. \<not> fits (mc_max_entries c) (mc_max_bytes c) (drop m touched)" by blast
  have "dict_ok (mc_entries c)" using wf by (simp add: cache_wf_def)
  from delete_bytes [OF this, of key]
  have "entry_bytes touched = (case map_of (mc_entries c) key of None \<Rightarrow> mc_bytes c | Some old \<Rightarrow> mc_bytes c - snd old) + int (length val)"
    by (simp add: touched_def held split: option.split)
  with n(2) have "cache_put key val c = Inr (c\<lparr>mc_entries := drop n touched, mc_bytes := entry_bytes (drop n touched)\<rparr>)"
    using small unfolding cache_put_def Let_def touched_def [symmetric] by simp
  with that n show thesis by blast
qed

lemma cache_put_ok:
  assumes "cache_ok c"
  shows "\<exists>c'. cache_put key val c = Inr c' \<and> cache_ok c' \<and> mc_max_bytes c' = mc_max_bytes c \<and> mc_max_entries c' = mc_max_entries c
    \<and> (\<forall>k v w. (k, (v, w)) \<in> set (mc_entries c') \<longrightarrow>
         (if k = key \<and> int (length val) \<le> mc_max_bytes c then v = val else (k, (v, w)) \<in> set (mc_entries c)))"
proof (cases "int (length val) \<le> mc_max_bytes c")
  case True
  let ?touched = "AList.delete key (mc_entries c) @ [(key, (val, int (length val)))]"
  have "cache_wf ?touched" using assms by (intro touched_wf) (simp_all add: cache_ok_def)
  then have wf: "cache_wf (drop n ?touched)" for n by (rule drop_wf)
  obtain n where n: "cache_put key val c = Inr (c\<lparr>mc_entries := drop n ?touched, mc_bytes := entry_bytes (drop n ?touched)\<rparr>)"
    "fits (mc_max_entries c) (mc_max_bytes c) (drop n ?touched)"
    using cache_put_drop [OF assms True, of key] by metis
  have "if k = key then v = val else (k, (v, w)) \<in> set (mc_entries c)" if "(k, (v, w)) \<in> set (drop n ?touched)" for k v w
    using in_set_dropD [OF that] by (auto simp: mem_delete)
  then show ?thesis using n(1) wf [of n] True n(2)
    by (intro exI [of _ "c\<lparr>mc_entries := drop n ?touched, mc_bytes := entry_bytes (drop n ?touched)\<rparr>"])
      (simp add: cache_ok_def fits_def del: drop_append)
qed (use assms in \<open>auto simp: cache_put_def\<close>)

lemma cache_get_ok:
  assumes "cache_ok c"
  shows "cache_ok (snd (cache_get key c)) \<and> set (mc_entries (snd (cache_get key c))) = set (mc_entries c)
    \<and> mc_max_bytes (snd (cache_get key c)) = mc_max_bytes c \<and> mc_max_entries (snd (cache_get key c)) = mc_max_entries c"
proof (cases "map_of (mc_entries c) key")
  case None
  then show ?thesis using assms by (simp add: cache_get_def)
next
  case (Some e)
  have wf: "cache_wf (mc_entries c)" using assms by (simp add: cache_ok_def)
  then have d: "dict_ok (mc_entries c)" by (simp add: cache_wf_def)
  have mem: "(key, e) \<in> set (mc_entries c)" using map_of_SomeD [OF Some] .
  then have "snd e = int (length (fst e))" using wf by (auto simp: cache_wf_def)
  note wf' = touched_wf [OF wf this, of key]
  have uniq: "(key, e') \<in> set (mc_entries c) \<longleftrightarrow> e' = e" for e'
    using map_of_dict_ok [OF d, of key e'] Some by auto
  have same: "set (AList.delete key (mc_entries c) @ [(key, e)]) = set (mc_entries c)"
  proof -
    have "(k, e') \<in> set (AList.delete key (mc_entries c) @ [(key, e)]) \<longleftrightarrow> (k, e') \<in> set (mc_entries c)" for k e'
      using uniq by (cases "k = key") (auto simp: mem_delete)
    then show ?thesis by (auto simp only: set_eq_iff split_paired_all)
  qed
  have "length (AList.delete key (mc_entries c) @ [(key, e)]) = length (mc_entries c)"
  proof -
    have "distinct (AList.delete key (mc_entries c) @ [(key, e)])" "distinct (mc_entries c)"
      using wf' d unfolding cache_wf_def dict_ok_def distinct_map by blast+
    from distinct_card [OF this(1)] distinct_card [OF this(2)] show ?thesis unfolding same by simp
  qed
  moreover have "entry_bytes (AList.delete key (mc_entries c) @ [(key, e)]) = entry_bytes (mc_entries c)"
    using delete_bytes [OF d, of key] Some by (cases e) simp
  ultimately show ?thesis using assms wf' same Some by (simp add: cache_get_def cache_ok_def)
qed

lemma cache_do_sound:
  assumes "cache_ok c" and "\<forall>k v w. (k, (v, w)) \<in> set (mc_entries c) \<longrightarrow> r k = Some v"
  shows "\<exists>c'. cache_do op c = Inr c' \<and> cache_ok c' \<and> mc_max_bytes c' = mc_max_bytes c
    \<and> mc_max_entries c' = mc_max_entries c
    \<and> (\<forall>k v w. (k, (v, w)) \<in> set (mc_entries c') \<longrightarrow> last_stored (mc_max_bytes c) k op (r k) = Some v)"
proof (cases op)
  case (CacheGet key)
  then show ?thesis using cache_get_ok [OF assms(1), of key] assms(2) by simp
next
  case (CachePut key val)
  from cache_put_ok [OF assms(1), of key val] obtain c' where c': "cache_put key val c = Inr c'" "cache_ok c'"
    "mc_max_bytes c' = mc_max_bytes c" "mc_max_entries c' = mc_max_entries c"
    and ent: "\<forall>k v w. (k, (v, w)) \<in> set (mc_entries c') \<longrightarrow>
         (if k = key \<and> int (length val) \<le> mc_max_bytes c then v = val else (k, (v, w)) \<in> set (mc_entries c))" by blast
  have "last_stored (mc_max_bytes c) k op (r k) = Some v" if "(k, (v, w)) \<in> set (mc_entries c')" for k v w
    using ent [rule_format, OF that] assms(2) CachePut by (auto split: if_split_asm)
  then show ?thesis using c' unfolding CachePut cache_do.simps by blast
next
  case CacheClear
  have "0 \<le> mc_bytes c" using assms(1) entry_bytes_nonneg by (simp add: cache_ok_def)
  then show ?thesis using assms(1) CacheClear by (auto simp: cache_clear_def cache_ok_def cache_wf_def)
qed

lemma cache_run:
  assumes "cache_ok c" and "\<forall>k v w. (k, (v, w)) \<in> set (mc_entries c) \<longrightarrow> r k = Some v"
  shows "\<exists>c'. fold_err cache_do ops c = Inr c' \<and> cache_ok c' \<and> mc_max_bytes c' = mc_max_bytes c
    \<and> mc_max_entries c' = mc_max_entries c
    \<and> (\<forall>k v w. (k, (v, w)) \<in> set (mc_entries c') \<longrightarrow> fold (last_stored (mc_max_bytes c) k) ops (r k) = Some v)"
  using assms
proof (induction ops arbitrary: c r)
  case (Cons op ops)
  from cache_do_sound [OF Cons.prems, of op] obtain c1 where c1: "cache_do op c = Inr c1" "cache_ok c1"
    "mc_max_bytes c1 = mc_max_bytes c" "mc_max_entries c1 = mc_max_entries c"
    "\<forall>k v w. (k, (v, w)) \<in> set (mc_entries c1) \<longrightarrow> last_stored (mc_max_bytes c) k op (r k) = Some v" by blast
  from Cons.IH [OF c1(2,5)] c1 show ?case by simp
qed simp

text \<open>C29: Starting from an empty cache with limits that are not negative, no sequence of lookups, insertions and clears
  raises; afterwards the number of entries and the bytes held are within the limits, the byte
  count is exact, and a lookup only returns what was stored last under its key.\<close>

theorem cache_run_sound:
  assumes "0 \<le> max_entries" and "0 \<le> max_bytes"
  shows "\<exists>c. fold_err cache_do ops (new_cache max_entries max_bytes) = Inr c
    \<and> int (length (mc_entries c)) \<le> max_entries \<and> mc_bytes c = entry_bytes (mc_entries c) \<and> mc_bytes c \<le> max_bytes
    \<and> (\<forall>key val c'. cache_get key c = (Some val, c') \<longrightarrow> fold (last_stored max_bytes key) ops None = Some val)"
proof -
  have "cache_ok (new_cache max_entries max_bytes)" using assms by (simp add: cache_ok_def new_cache_def cache_wf_def)
  from cache_run [OF this, of "\<lambda>_. None" ops] obtain c where c: "fold_err cache_do ops (new_cache max_entries max_bytes) = Inr c"
    "cache_ok c" "mc_max_bytes c = max_bytes" "mc_max_entries c = max_entries"
    and e: "\<forall>k v w. (k, (v, w)) \<in> set (mc_entries c) \<longrightarrow> fold (last_stored max_bytes k) ops None = Some v"
    by (auto simp: new_cache_def)
  have "fold (last_stored max_bytes key) ops None = Some val" if g: "cache_get key c = (Some val, c')" for key val c'
  proof -
    from g obtain w where "map_of (mc_entries c) key = Some (val, w)"
      by (auto simp: cache_get_def split: option.split_asm)
    from map_of_SomeD [OF this] e show ?thesis by blast
  qed
  then show ?thesis using c by (auto simp: cache_ok_def)
qed


definition demo_key :: "string \<Rightarrow> cache_key" where
  "demo_key fingerprint = \<lparr>ck_workspace = ''w'', ck_fingerprint = fingerprint, ck_projection = ''symbols'',
     ck_language = ''python'', ck_sgconfig = ''s'', ck_rules = ''r'', ck_analyzer = ''0.1'', ck_schema = ''1'',
     ck_extractor = ''1''\<rparr>"

lemma cache_run_sound_witness:
  "\<exists>c. fold_err cache_do [CachePut (demo_key ''a'') [1, 2], CachePut (demo_key ''b'') [3, 4]] (new_cache 2 3) = Inr c
     \<and> mc_bytes c \<le> 3"
  using cache_run_sound [of 2 3] by fastforce


end
