(* ===== verification/Diagnostics.thy ===== *)
theory Diagnostics
  imports Edits
begin

text \<open>
  Diagnostic state of one language-server broker (\<open>lsp/diagnostics.py\<close>): URIs are bound to a
  document version, a provider epoch and a generation; pushed publications and pulled reports
  become the state of a URI. An \<open>asyncio.Event\<close> is a flag; the waiting loop takes the
  resumptions it sees (the store it finds when it wakes, or its time-out) as a list, and the
  clock readings as arguments. Payloads are JSON values as in theory \<open>Edits\<close>.
\<close>

record diagnostic_state =
  ds_uri :: ustr
  ds_items :: "(ustr, json) dict list"
  ds_version :: "int option"
  ds_result :: "ustr option"
  ds_epoch :: int
  ds_generation :: ustr
  ds_updated :: int

record diagnostic_binding =
  bi_uri :: ustr
  bi_version :: int
  bi_epoch :: int
  bi_generation :: ustr

record diagnostic_store =
  st_bindings :: "(ustr, diagnostic_binding) dict"
  st_states :: "(ustr, diagnostic_state) dict"
  st_events :: "(ustr, bool) dict"

record publication =
  pb_uri :: ustr
  pb_version :: "int option"
  pb_items :: "(ustr, json) dict list"

datatype pull_report =
    FullReport "ustr option" "(ustr, json) dict list"
  | UnchangedReport ustr

datatype diagnostic_error =
    EmptyUri | NegativeVersion | NegativeEpoch | EmptyFingerprint
  | UriNotBound | InvalidReport | InvalidReportKind | NoPriorState
  | TimeoutNotPositive

subsection \<open>Payloads\<close>

text \<open>A list of objects, as \<open>list[dict[str, JsonValue]]\<close> validates strictly.\<close>

fun parse_items :: "json list \<Rightarrow> (ustr, json) dict list option" where
  "parse_items [] = Some []"
| "parse_items (v # vs) =
     (case v of
        JObj d \<Rightarrow> map_option ((#) d) (parse_items vs)
      | _ \<Rightarrow> None)"

text \<open>\<open>_PublishDiagnosticsParams.model_validate\<close>\<close>

definition parse_publication :: "json \<Rightarrow> publication option" where
  "parse_publication v =
     (case v of
        JObj d \<Rightarrow>
          (case (map_of d (u ''uri''), get_field d ''version'', map_of d (u ''diagnostics'')) of
             (Some (JStr uri), version, Some (JArr items)) \<Rightarrow>
               if uri = [] then None
               else (case parse_items items of
                       None \<Rightarrow> None
                     | Some ds \<Rightarrow>
                         (case version of
                            JNull \<Rightarrow> Some \<lparr>pb_uri = uri, pb_version = None, pb_items = ds\<rparr>
                          | JInt n \<Rightarrow>
                              if n < 0 then None else Some \<lparr>pb_uri = uri, pb_version = Some n, pb_items = ds\<rparr>
                          | _ \<Rightarrow> None))
           | _ \<Rightarrow> None)
      | _ \<Rightarrow> None)"

text \<open>The alias is read first, then the field name.\<close>

definition result_id_field :: "(ustr, json) dict \<Rightarrow> json option" where
  "result_id_field d =
     (case map_of d (u ''resultId'') of Some v \<Rightarrow> Some v | None \<Rightarrow> map_of d (u ''result_id''))"

definition parse_report :: "json \<Rightarrow> (diagnostic_error, pull_report) result" where
  "parse_report v =
     (case v of
        JObj d \<Rightarrow>
          if get_field d ''kind'' = JStr (u ''full'')
          then (case map_of d (u ''items'') of
                  Some (JArr items) \<Rightarrow>
                    (case (parse_items items, result_id_field d) of
                       (Some ds, None) \<Rightarrow> Inr (FullReport None ds)
                     | (Some ds, Some JNull) \<Rightarrow> Inr (FullReport None ds)
                     | (Some ds, Some (JStr i)) \<Rightarrow> Inr (FullReport (Some i) ds)
                     | _ \<Rightarrow> Inl InvalidReport)
                | _ \<Rightarrow> Inl InvalidReport)
          else if get_field d ''kind'' = JStr (u ''unchanged'')
          then (case result_id_field d of
                  Some (JStr i) \<Rightarrow> if i = [] then Inl InvalidReport else Inr (UnchangedReport i)
                | _ \<Rightarrow> Inl InvalidReport)
          else Inl InvalidReportKind
      | _ \<Rightarrow> Inl InvalidReport)"

subsection \<open>The store\<close>

definition new_store :: diagnostic_store where
  "new_store = \<lparr>st_bindings = [], st_states = [], st_events = []\<rparr>"

definition compatible :: "diagnostic_state \<Rightarrow> diagnostic_binding \<Rightarrow> bool" where
  "compatible state binding \<longleftrightarrow>
     ds_uri state = bi_uri binding
     \<and> (ds_version state = None \<or> ds_version state = Some (bi_version binding))
     \<and> ds_epoch state = bi_epoch binding \<and> ds_generation state = bi_generation binding"

definition bind_uri :: "ustr \<Rightarrow> int \<Rightarrow> int \<Rightarrow> ustr \<Rightarrow> diagnostic_store \<Rightarrow> (diagnostic_error, diagnostic_store) result" where
  "bind_uri uri version epoch generation s =
     (if uri = [] then Inl EmptyUri
      else if version < 0 then Inl NegativeVersion
      else if epoch < 0 then Inl NegativeEpoch
      else if generation = [] then Inl EmptyFingerprint
      else
        let binding = \<lparr>bi_uri = uri, bi_version = version, bi_epoch = epoch, bi_generation = generation\<rparr>;
            keep = (case map_of (st_states s) uri of None \<Rightarrow> False | Some state \<Rightarrow> compatible state binding)
        in Inr \<lparr>st_bindings = AList.update uri binding (st_bindings s),
                st_states = (if keep then st_states s else AList.delete uri (st_states s)),
                st_events = AList.update uri keep (st_events s)\<rparr>)"

definition publish :: "int \<Rightarrow> json \<Rightarrow> diagnostic_store \<Rightarrow> bool \<times> diagnostic_store" where
  "publish now params s =
     (case parse_publication params of
        None \<Rightarrow> (False, s)
      | Some p \<Rightarrow>
          (case map_of (st_bindings s) (pb_uri p) of
             None \<Rightarrow> (False, s)
           | Some binding \<Rightarrow>
               if \<not> (pb_version p = None \<or> pb_version p = Some (bi_version binding)) then (False, s)
               else if (case (map_of (st_states s) (pb_uri p), pb_version p) of
                          (Some current, Some v) \<Rightarrow> (case ds_version current of None \<Rightarrow> False | Some v' \<Rightarrow> v < v')
                        | _ \<Rightarrow> False)
               then (False, s)
               else (True, s\<lparr>st_states := AList.update (pb_uri p)
                       \<lparr>ds_uri = pb_uri p, ds_items = pb_items p, ds_version = pb_version p, ds_result = None,
                        ds_epoch = bi_epoch binding, ds_generation = bi_generation binding, ds_updated = now\<rparr>
                       (st_states s), st_events := AList.update (pb_uri p) True (st_events s)\<rparr>)))"

definition current_state :: "diagnostic_binding \<Rightarrow> diagnostic_store \<Rightarrow> diagnostic_state option" where
  "current_state binding s =
     (case map_of (st_states s) (bi_uri binding) of
        None \<Rightarrow> None
      | Some state \<Rightarrow> if compatible state binding then Some state else None)"

definition previous_result_id :: "diagnostic_binding \<Rightarrow> diagnostic_store \<Rightarrow> ustr option" where
  "previous_result_id binding s =
     (case current_state binding s of None \<Rightarrow> None | Some state \<Rightarrow> ds_result state)"

definition apply_pull_report ::
  "int \<Rightarrow> ustr \<Rightarrow> json \<Rightarrow> diagnostic_store \<Rightarrow> (diagnostic_error, diagnostic_state \<times> diagnostic_store) result" where
  "apply_pull_report now uri report s =
     (case map_of (st_bindings s) uri of
        None \<Rightarrow> Inl UriNotBound
      | Some binding \<Rightarrow>
          bind_err (parse_report report) (\<lambda>parsed.
          bind_err
            (case parsed of
               FullReport i items \<Rightarrow> Inr (items, i)
             | UnchangedReport i \<Rightarrow>
                 (case current_state \<lparr>bi_uri = uri, bi_version = bi_version binding, bi_epoch = bi_epoch binding,
                                      bi_generation = bi_generation binding\<rparr> s of
                    None \<Rightarrow> Inl NoPriorState
                  | Some current \<Rightarrow>
                      if ds_result current = None then Inl NoPriorState else Inr (ds_items current, Some i)))
            (\<lambda>(items, i).
               let state = \<lparr>ds_uri = uri, ds_items = items, ds_version = Some (bi_version binding), ds_result = i,
                            ds_epoch = bi_epoch binding, ds_generation = bi_generation binding, ds_updated = now\<rparr>
               in Inr (state, s\<lparr>st_states := AList.update uri state (st_states s),
                                st_events := AList.update uri True (st_events s)\<rparr>))))"

definition invalidate :: "diagnostic_store \<Rightarrow> diagnostic_store" where
  "invalidate s = s\<lparr>st_states := [], st_events := map (\<lambda>(uri, _). (uri, True)) (st_events s)\<rparr>"

definition clear_store :: "diagnostic_store \<Rightarrow> diagnostic_store" where
  "clear_store s = \<lparr>st_bindings = [], st_states = [], st_events = []\<rparr>"

text \<open>What the waiter sees each time it gives up control: the store when its event is set, or its
  time-out, and the clock after it.\<close>

datatype resumption = Woken int diagnostic_store | TimedOut diagnostic_store

datatype wait_result = Found diagnostic_state | GaveUp | StillWaiting

fun wait_loop :: "diagnostic_binding \<Rightarrow> int \<Rightarrow> int \<Rightarrow> resumption list \<Rightarrow> diagnostic_store \<Rightarrow> wait_result \<times> diagnostic_store" where
  "wait_loop binding deadline now resumptions s =
     (case current_state binding s of
        Some state \<Rightarrow> (Found state, s)
      | None \<Rightarrow>
          let cleared = s\<lparr>st_events := AList.update (bi_uri binding) False (st_events s)\<rparr> in
          (case current_state binding cleared of
             Some state \<Rightarrow> (Found state, cleared)
           | None \<Rightarrow>
               if deadline - now \<le> 0 then (GaveUp, cleared)
               else (case resumptions of
                       [] \<Rightarrow> (StillWaiting, cleared)
                     | TimedOut s' # _ \<Rightarrow> (GaveUp, s')
                     | Woken now' s' # rest \<Rightarrow> wait_loop binding deadline now' rest s')))"

declare wait_loop.simps [simp del]

definition wait_for ::
  "diagnostic_binding \<Rightarrow> int \<Rightarrow> int \<Rightarrow> resumption list \<Rightarrow> diagnostic_store \<Rightarrow> (diagnostic_error, wait_result \<times> diagnostic_store) result" where
  "wait_for binding timeout now resumptions s =
     (if timeout \<le> 0 then Inl TimeoutNotPositive
      else Inr (wait_loop binding (now + timeout) now resumptions
             (if bi_uri binding \<in> set (dict_keys (st_events s)) then s
              else s\<lparr>st_events := AList.update (bi_uri binding) False (st_events s)\<rparr>)))"

subsection \<open>Runs\<close>

text \<open>The operations a broker performs on its store, with their results.\<close>

datatype diagnostic_event =
    Bound ustr int int ustr
  | Published json bool
  | Pulled ustr json
  | Invalidated
  | ClearedAll

inductive diagnostic_step :: "diagnostic_store \<Rightarrow> diagnostic_event \<Rightarrow> diagnostic_store \<Rightarrow> bool" where
  bound: "bind_uri uri v e g s = Inr s' \<Longrightarrow> diagnostic_step s (Bound uri v e g) s'"
| published: "publish now params s = (ok, s') \<Longrightarrow> diagnostic_step s (Published params ok) s'"
| pulled: "apply_pull_report now uri report s = Inr (state, s') \<Longrightarrow> diagnostic_step s (Pulled uri report) s'"
| invalidated: "diagnostic_step s Invalidated (invalidate s)"
| cleared_all: "diagnostic_step s ClearedAll (clear_store s)"

inductive_cases diagnostic_stepE: "diagnostic_step s e s'"

inductive diagnostic_run :: "diagnostic_event list \<Rightarrow> diagnostic_store \<Rightarrow> bool" where
  fresh: "diagnostic_run [] new_store"
| extend: "diagnostic_run es s \<Longrightarrow> diagnostic_step s e s' \<Longrightarrow> diagnostic_run (e # es) s'"

text \<open>Every retained state belongs to the binding its URI has now, and an event exists for it.\<close>

definition store_ok :: "diagnostic_store \<Rightarrow> bool" where
  "store_ok s \<longleftrightarrow> dict_ok (st_states s) \<and> dict_ok (st_bindings s)
     \<and> (\<forall>uri state. map_of (st_states s) uri = Some state \<longrightarrow>
          (\<exists>binding. map_of (st_bindings s) uri = Some binding \<and> bi_uri binding = uri \<and> compatible state binding))
     \<and> (\<forall>uri binding. map_of (st_bindings s) uri = Some binding \<longrightarrow> bi_uri binding = uri
          \<and> uri \<noteq> [] \<and> 0 \<le> bi_version binding \<and> 0 \<le> bi_epoch binding \<and> bi_generation binding \<noteq> [])"

lemma store_ok_set_state:
  assumes "store_ok s" and "map_of (st_bindings s) uri = Some binding" and "compatible state binding"
  shows "store_ok (s\<lparr>st_states := AList.update uri state (st_states s), st_events := events\<rparr>)"
  using assms by (auto simp: store_ok_def dict_lookup)

lemma publish_cases:
  assumes "publish now params s = (ok, s')"
  obtains (refused) "ok = False" "s' = s"
  | (stored) uri binding state events where "ok = True" "map_of (st_bindings s) uri = Some binding" "ds_uri state = uri"
      "ds_version state = None \<or> ds_version state = Some (bi_version binding)" "ds_epoch state = bi_epoch binding"
      "ds_generation state = bi_generation binding"
      "s' = s\<lparr>st_states := AList.update uri state (st_states s), st_events := events\<rparr>"
proof (cases "parse_publication params")
  case None
  then show thesis using assms refused by (simp add: publish_def)
next
  case (Some p)
  note parsed = Some
  show thesis
  proof (cases "map_of (st_bindings s) (pb_uri p)")
    case None
    then show thesis using assms refused parsed by (simp add: publish_def)
  next
    case (Some binding)
    let ?state = "\<lparr>ds_uri = pb_uri p, ds_items = pb_items p, ds_version = pb_version p, ds_result = None,
      ds_epoch = bi_epoch binding, ds_generation = bi_generation binding, ds_updated = now\<rparr>"
    have "ok = False \<and> s' = s \<or> ok = True \<and> (pb_version p = None \<or> pb_version p = Some (bi_version binding))
        \<and> s' = s\<lparr>st_states := AList.update (pb_uri p) ?state (st_states s),
                 st_events := AList.update (pb_uri p) True (st_events s)\<rparr>"
      using assms unfolding publish_def parsed Some option.case by (simp split: if_split_asm)
    then show thesis using refused stored [OF _ Some, of ?state] by auto
  qed
qed

text \<open>What a pull report yields and stores.\<close>

lemma pull_cases:
  assumes "apply_pull_report now uri report s = Inr (state, s')"
  obtains binding parsed events where "map_of (st_bindings s) uri = Some binding" "parse_report report = Inr parsed"
    "ds_uri state = uri" "ds_version state = Some (bi_version binding)" "ds_epoch state = bi_epoch binding"
    "ds_generation state = bi_generation binding"
    "s' = s\<lparr>st_states := AList.update uri state (st_states s), st_events := events\<rparr>"
    "case parsed of
       FullReport i items \<Rightarrow> ds_items state = items \<and> ds_result state = i
     | UnchangedReport i \<Rightarrow> ds_result state = Some i \<and>
         (\<exists>old. current_state \<lparr>bi_uri = uri, bi_version = bi_version binding, bi_epoch = bi_epoch binding,
                               bi_generation = bi_generation binding\<rparr> s = Some old
            \<and> ds_result old \<noteq> None \<and> ds_items state = ds_items old)"
proof -
  from assms obtain binding parsed where b: "map_of (st_bindings s) uri = Some binding" "parse_report report = Inr parsed"
    by (auto simp: apply_pull_report_def split: option.split_asm)
  show thesis
  proof (cases parsed)
    case (FullReport i items)
    then show thesis using assms b that by (auto simp: apply_pull_report_def Let_def)
  next
    case (UnchangedReport i)
    then show thesis using assms b that
      by (auto simp: apply_pull_report_def Let_def split: option.split_asm if_split_asm)
  qed
qed

lemma store_ok_bind:
  assumes "bind_uri uri v e g s = Inr s'" and ok: "store_ok s"
  shows "store_ok s'"
proof -
  let ?b = "\<lparr>bi_uri = uri, bi_version = v, bi_epoch = e, bi_generation = g\<rparr>"
  define keep where
    "keep = (case map_of (st_states s) uri of None \<Rightarrow> False | Some state \<Rightarrow> compatible state ?b)"
  have valid: "uri \<noteq> []" "0 \<le> v" "0 \<le> e" "g \<noteq> []" and
    s': "s' = \<lparr>st_bindings = AList.update uri ?b (st_bindings s),
        st_states = (if keep then st_states s else AList.delete uri (st_states s)),
        st_events = AList.update uri keep (st_events s)\<rparr>"
    using assms(1) by (simp_all add: bind_uri_def Let_def keep_def [symmetric] split: if_split_asm)
  have keep: "\<exists>state. map_of (st_states s) uri = Some state \<and> compatible state ?b" if keep
    using that by (auto simp: keep_def split: option.split_asm)
  show ?thesis
  proof (cases keep)
    case True
    then obtain state where "map_of (st_states s) uri = Some state" "compatible state ?b" using keep by blast
    then show ?thesis using ok valid True by (auto simp: s' store_ok_def dict_lookup)
  next
    case False
    then show ?thesis using ok valid by (auto simp: s' store_ok_def dict_lookup split: if_split_asm)
  qed
qed

lemma store_ok_publish:
  assumes "publish now params s = (ok, s')" and ok: "store_ok s"
  shows "store_ok s'"
  using assms(1)
proof (cases rule: publish_cases)
  case (stored uri binding state events)
  have "compatible state binding" using stored ok by (auto simp: compatible_def store_ok_def)
  from store_ok_set_state [OF ok stored(2) this] show ?thesis using stored(7) by simp
qed (use ok in simp)

lemma store_ok_pull:
  assumes "apply_pull_report now uri report s = Inr (state, s')" and ok: "store_ok s"
  shows "store_ok s'"
  using assms(1)
proof (cases rule: pull_cases)
  case (1 binding parsed events)
  have "compatible state binding" using 1 ok by (auto simp: compatible_def store_ok_def)
  from store_ok_set_state [OF ok 1(1) this] show ?thesis using 1(7) by simp
qed

lemma store_ok_step:
  assumes "diagnostic_step s e s'" and "store_ok s"
  shows "store_ok s'"
  using assms(1)
proof cases
  case (bound uri v ea g)
  show ?thesis using bound(2) assms(2) by (rule store_ok_bind)
next
  case (published now params ok)
  show ?thesis using published(2) assms(2) by (rule store_ok_publish)
next
  case (pulled now uri report state)
  show ?thesis using pulled(2) assms(2) by (rule store_ok_pull)
qed (use assms(2) in \<open>simp_all add: store_ok_def invalidate_def clear_store_def\<close>)

lemma reachable_store_ok: "diagnostic_run es s \<Longrightarrow> store_ok s"
proof (induction rule: diagnostic_run.induct)
  case fresh
  show ?case by (simp add: store_ok_def new_store_def)
next
  case (extend es s e s')
  then show ?case by (blast intro: store_ok_step)
qed

subsection \<open>Freshness\<close>

text \<open>C31: After any sequence of bindings, publications, pull reports and invalidations, a request is given
  diagnostics only when its URI is bound now, to the provider epoch and the generation the
  request names, and diagnostics that carry a document version carry the one bound now, which
  is the one requested.\<close>

theorem diagnostics_fresh:
  assumes "diagnostic_run es s" and "current_state request s = Some state"
  shows "\<exists>binding. map_of (st_bindings s) (bi_uri request) = Some binding
    \<and> ds_uri state = bi_uri request
    \<and> bi_epoch binding = bi_epoch request \<and> bi_generation binding = bi_generation request
    \<and> ds_epoch state = bi_epoch request \<and> ds_generation state = bi_generation request
    \<and> (ds_version state = None \<or> ds_version state = Some (bi_version request) \<and> bi_version binding = bi_version request)"
proof -
  from assms(2) have state: "map_of (st_states s) (bi_uri request) = Some state" and c: "compatible state request"
    by (auto simp: current_state_def split: option.split_asm if_split_asm)
  from reachable_store_ok [OF assms(1)] state obtain binding where
    "map_of (st_bindings s) (bi_uri request) = Some binding" "compatible state binding"
    unfolding store_ok_def by blast
  with c show ?thesis by (auto simp: compatible_def)
qed

text \<open>A pull report replaces the state of a bound URI for the binding of the moment: a full report by its own
  items and cursor; an unchanged report keeps the items of the compatible state it requires,
  which had a cursor, and moves the cursor; the new cursor is the one the next pull sends.\<close>

theorem pull_report_spec:
  assumes "diagnostic_run es s" and "apply_pull_report now uri report s = Inr (state, s')"
  shows "\<exists>binding. map_of (st_bindings s) uri = Some binding
    \<and> current_state binding s' = Some state \<and> previous_result_id binding s' = ds_result state
    \<and> (case parse_report report of
         Inr (FullReport i items) \<Rightarrow> ds_items state = items \<and> ds_result state = i
       | Inr (UnchangedReport i) \<Rightarrow> ds_result state = Some i \<and>
           (\<exists>old. current_state binding s = Some old \<and> ds_result old \<noteq> None \<and> ds_items state = ds_items old)
       | Inl _ \<Rightarrow> False)"
  using assms(2)
proof (cases rule: pull_cases)
  case (1 binding parsed events)
  have uri: "bi_uri binding = uri" using reachable_store_ok [OF assms(1)] 1(1) by (simp add: store_ok_def)
  then have b: "\<lparr>bi_uri = uri, bi_version = bi_version binding, bi_epoch = bi_epoch binding,
      bi_generation = bi_generation binding\<rparr> = binding" by simp
  have "current_state binding s' = Some state"
    using 1 uri by (simp add: current_state_def dict_lookup compatible_def)
  then show ?thesis using 1(1,2,8) unfolding b
    by (auto simp: previous_result_id_def split: pull_report.splits)
qed

subsection \<open>A concrete run\<close>

definition demo_binding :: diagnostic_binding where
  "demo_binding = \<lparr>bi_uri = u ''f'', bi_version = 1, bi_epoch = 2, bi_generation = u ''g''\<rparr>"

definition demo_report :: json where
  "demo_report = JObj [(u ''kind'', JStr (u ''full'')), (u ''items'', JArr [JObj []]), (u ''resultId'', JStr (u ''r''))]"

definition demo_state :: diagnostic_state where
  "demo_state = \<lparr>ds_uri = u ''f'', ds_items = [[]], ds_version = Some 1, ds_result = Some (u ''r''), ds_epoch = 2,
     ds_generation = u ''g'', ds_updated = 9\<rparr>"

definition bound_store :: diagnostic_store where
  "bound_store = \<lparr>st_bindings = [(u ''f'', demo_binding)], st_states = [], st_events = [(u ''f'', False)]\<rparr>"

definition pulled_store :: diagnostic_store where
  "pulled_store = \<lparr>st_bindings = [(u ''f'', demo_binding)], st_states = [(u ''f'', demo_state)], st_events = [(u ''f'', True)]\<rparr>"

lemma demo_bound: "diagnostic_run [Bound (u ''f'') 1 2 (u ''g'')] bound_store"
proof (rule diagnostic_run.extend [OF diagnostic_run.fresh diagnostic_step.bound])
  have "u ''f'' \<noteq> []" "u ''g'' \<noteq> []" by (simp_all add: u_def)
  then show "bind_uri (u ''f'') 1 2 (u ''g'') new_store = Inr bound_store"
    by (simp add: bind_uri_def new_store_def bound_store_def demo_binding_def Let_def)
qed

lemma demo_parsed: "parse_report demo_report = Inr (FullReport (Some (u ''r'')) [[]])"
proof -
  have "u ''items'' \<noteq> u ''kind''" "u ''resultId'' \<noteq> u ''kind''" "u ''resultId'' \<noteq> u ''items''" by (simp_all add: u_def)
  then show ?thesis by (simp add: parse_report_def demo_report_def get_field_def result_id_field_def)
qed

lemma demo_pull: "apply_pull_report 9 (u ''f'') demo_report bound_store = Inr (demo_state, pulled_store)"
  by (simp add: apply_pull_report_def bound_store_def demo_parsed demo_binding_def demo_state_def pulled_store_def Let_def)

lemma diagnostics_fresh_witness:
  "\<exists>binding. map_of (st_bindings pulled_store) (u ''f'') = Some binding \<and> bi_epoch binding = 2"
proof -
  have "current_state demo_binding pulled_store = Some demo_state"
    by (simp add: current_state_def demo_binding_def pulled_store_def demo_state_def compatible_def)
  from diagnostics_fresh [OF diagnostic_run.extend [OF demo_bound diagnostic_step.pulled [OF demo_pull]] this]
  show ?thesis by (auto simp: demo_binding_def)
qed

lemma pull_report_spec_witness:
  "\<exists>binding. map_of (st_bindings bound_store) (u ''f'') = Some binding
     \<and> previous_result_id binding pulled_store = Some (u ''r'')"
  using pull_report_spec [OF demo_bound demo_pull] by (auto simp: demo_state_def)

end
