(* ===== verification/Generations.thy ===== *)
theory Generations
  imports Edits
begin

text \<open>
  Semantic generations (\<open>lsp/generation.py\<close>): the identity of everything one semantic request
  may read, built from a frozen snapshot, and the plan that moves a language-server session
  from one generation to the next. The digests (SHA-256 of captured bytes, and of the
  canonical JSON of the two payloads) are arguments; a payload is a record of its fields.
\<close>

subsection \<open>Snapshots\<close>

record captured_file =
  cf_path :: ustr
  cf_language :: "ustr option"
  cf_language_id :: "ustr option"
  cf_hash :: ustr

record snapshot_bundle =
  sb_workspace :: ustr
  sb_files :: "captured_file list"
  sb_changed :: bool
  sb_contents :: "(ustr, bytes) dict"

text \<open>\<open>sorted(bundle.contents.items())\<close>\<close>

definition sorted_contents :: "snapshot_bundle \<Rightarrow> (ustr \<times> bytes) list" where
  "sorted_contents bundle = sort_key fst (sb_contents bundle)"

subsection \<open>Generations\<close>

record generation_input =
  gi_path :: ustr
  gi_hash :: ustr

record project_identity =
  pj_id :: ustr
  pj_root :: ustr
  pj_digest :: ustr
  pj_compiler :: ustr

record project_payload =
  pp_project :: ustr
  pp_project_root :: ustr
  pp_controls :: "(ustr \<times> ustr option) list"

datatype generation_status = Verified | UnverifiedInputs

datatype verification_issue = MissingInputs | SnapshotChanged

text \<open>The fields under the fingerprint.\<close>

record generation_payload =
  gp_workspace :: ustr
  gp_provider :: ustr
  gp_config :: ustr
  gp_project :: project_identity
  gp_epoch :: int
  gp_requested :: ustr
  gp_requested_hash :: "ustr option"
  gp_dependencies :: "generation_input list"
  gp_controls :: "generation_input list"
  gp_missing_dependencies :: "ustr list"
  gp_missing_controls :: "ustr list"
  gp_changed :: bool

record semantic_generation =
  sg_payload :: generation_payload
  sg_missing_inputs :: "ustr list"
  sg_issues :: "verification_issue list"
  sg_status :: generation_status
  sg_complete :: bool
  sg_fingerprint :: ustr

record digests =
  dg_content :: "bytes \<Rightarrow> ustr"
  dg_project :: "project_payload \<Rightarrow> ustr"
  dg_generation :: "generation_payload \<Rightarrow> ustr"

record generation_request =
  gr_provider :: ustr
  gr_config :: ustr
  gr_epoch :: int
  gr_requested :: ustr
  gr_dependencies :: "ustr list"
  gr_controls :: "ustr list"
  gr_project :: "project_identity option"

datatype generation_error = DuplicateCapture ustr | HashMismatch ustr | FieldConstraint

definition sorted_set :: "ustr list \<Rightarrow> ustr list" where
  "sorted_set xs = sort (remdups xs)"

text \<open>\<open>_captured_inputs\<close>\<close>

definition capture_row ::
  "digests \<Rightarrow> snapshot_bundle \<Rightarrow> captured_file \<Rightarrow> (ustr, generation_input) dict \<Rightarrow>
   (generation_error, (ustr, generation_input) dict) result" where
  "capture_row dg bundle row captured =
     (if cf_path row \<in> set (dict_keys captured) then Inl (DuplicateCapture (cf_path row))
      else case map_of (sb_contents bundle) (cf_path row) of
        None \<Rightarrow> Inr captured
      | Some content \<Rightarrow>
          if dg_content dg content \<noteq> cf_hash row then Inl (HashMismatch (cf_path row))
          else if cf_path row = [] \<or> cf_hash row = [] then Inl FieldConstraint
          else Inr (AList.update (cf_path row) \<lparr>gi_path = cf_path row, gi_hash = cf_hash row\<rparr> captured))"

definition captured_inputs ::
  "digests \<Rightarrow> snapshot_bundle \<Rightarrow> (generation_error, (ustr, generation_input) dict) result" where
  "captured_inputs dg bundle = fold_err (capture_row dg bundle) (sb_files bundle) []"

text \<open>\<open>_partition_inputs\<close>\<close>

definition partition_inputs ::
  "(ustr, generation_input) dict \<Rightarrow> ustr list \<Rightarrow> generation_input list \<times> ustr list" where
  "partition_inputs captured paths =
     (map (\<lambda>path. the (map_of captured path)) (filter (\<lambda>path. path \<in> set (dict_keys captured)) paths),
      filter (\<lambda>path. path \<notin> set (dict_keys captured)) paths)"

text \<open>\<open>_nearest_control_root\<close>: \<open>rpartition\<close> keeps what precedes the last slash; \<open>max\<close> returns the
  first of the greatest candidates.\<close>

definition rpartition_parent :: "ustr \<Rightarrow> ustr" where
  "rpartition_parent path = rev (drop 1 (dropWhile (\<lambda>c. c \<noteq> 47) (rev path)))"

fun max_first :: "('a \<Rightarrow> 'b::linorder) \<Rightarrow> 'a \<Rightarrow> 'a list \<Rightarrow> 'a" where
  "max_first key best [] = best"
| "max_first key best (x # xs) = max_first key (if key x > key best then x else best) xs"

definition root_key :: "ustr \<Rightarrow> nat \<times> nat" where
  "root_key v = (count_list v 47, length v)"

definition nearest_control_root :: "ustr \<Rightarrow> ustr list \<Rightarrow> ustr" where
  "nearest_control_root requested control_paths =
     (let parts = split_on 47 requested;
          parents = map rpartition_parent control_paths;
          candidates = filter (\<lambda>parent.
            (let parent_parts = (if parent = [] then [] else split_on 47 parent)
             in take (length parent_parts) parts = parent_parts)) parents
      in case candidates of [] \<Rightarrow> [] | c # cs \<Rightarrow> max_first root_key c cs)"

definition fallback_identity :: "digests \<Rightarrow> snapshot_bundle \<Rightarrow> ustr \<Rightarrow> ustr \<Rightarrow> ustr list \<Rightarrow>
    (generation_error, project_identity) result" where
  "fallback_identity dg bundle provider requested control_paths =
     (let captured = rev (map (\<lambda>row. (cf_path row, cf_hash row))
                            (filter (\<lambda>row. cf_path row \<in> set (dict_keys (sb_contents bundle))) (sb_files bundle)));
          controls = map (\<lambda>path. (path, map_of captured path)) (sorted_set control_paths);
          root = nearest_control_root requested (map fst controls);
          ident = sb_workspace bundle @ u '':'' @ (if root = [] then u ''.'' else root);
          digest = dg_project dg \<lparr>pp_project = ident, pp_project_root = root, pp_controls = controls\<rparr>
      in if length digest \<noteq> 64 then Inl FieldConstraint
         else Inr \<lparr>pj_id = ident, pj_root = root, pj_digest = digest, pj_compiler = provider @ u '':initialize''\<rparr>)"

text \<open>The field constraints of the model.\<close>

definition payload_constraints :: "generation_payload \<Rightarrow> bool" where
  "payload_constraints p \<longleftrightarrow>
     gp_workspace p \<noteq> [] \<and> gp_provider p \<noteq> [] \<and> gp_config p \<noteq> [] \<and> pj_id (gp_project p) \<noteq> []
     \<and> length (pj_digest (gp_project p)) = 64 \<and> pj_compiler (gp_project p) \<noteq> [] \<and> 0 \<le> gp_epoch p
     \<and> gp_requested p \<noteq> []"

definition make_payload ::
  "snapshot_bundle \<Rightarrow> generation_request \<Rightarrow> project_identity \<Rightarrow> (ustr, generation_input) dict \<Rightarrow> generation_payload" where
  "make_payload bundle q ident captured =
     (let requested = map_of captured (gr_requested q);
          control_names = filter (\<lambda>path. path \<noteq> gr_requested q) (sorted_set (gr_controls q));
          dependency_names = filter (\<lambda>path. path \<notin> set control_names \<and> path \<noteq> gr_requested q)
            (sorted_set (gr_dependencies q));
          (dependencies, missing_dependencies) = partition_inputs captured dependency_names;
          (controls, missing_controls) = partition_inputs captured control_names
      in \<lparr>gp_workspace = sb_workspace bundle, gp_provider = gr_provider q, gp_config = gr_config q,
          gp_project = ident, gp_epoch = gr_epoch q, gp_requested = gr_requested q,
          gp_requested_hash = map_option gi_hash requested, gp_dependencies = dependencies, gp_controls = controls,
          gp_missing_dependencies = missing_dependencies, gp_missing_controls = missing_controls,
          gp_changed = sb_changed bundle\<rparr>)"

definition from_snapshot ::
  "digests \<Rightarrow> snapshot_bundle \<Rightarrow> generation_request \<Rightarrow> (generation_error, semantic_generation) result" where
  "from_snapshot dg bundle q =
     bind_err (case gr_project q of
                 Some ident \<Rightarrow> Inr ident
               | None \<Rightarrow> fallback_identity dg bundle (gr_provider q) (gr_requested q) (gr_controls q)) (\<lambda>ident.
     bind_err (captured_inputs dg bundle) (\<lambda>captured.
       let payload = make_payload bundle q ident captured;
           missing = sorted_set (gp_missing_dependencies payload @ gp_missing_controls payload @
             (if gp_requested_hash payload = None then [gr_requested q] else []));
           issues = (if missing \<noteq> [] then [MissingInputs] else []) @ (if sb_changed bundle then [SnapshotChanged] else []);
           fingerprint = dg_generation dg payload
       in if \<not> payload_constraints payload \<or> fingerprint = [] then Inl FieldConstraint
          else Inr \<lparr>sg_payload = payload, sg_missing_inputs = missing, sg_issues = issues,
                    sg_status = (if issues = [] then Verified else UnverifiedInputs), sg_complete = (issues = []),
                    sg_fingerprint = fingerprint\<rparr>))"

subsection \<open>Reconciliation\<close>

datatype action_kind = DID_CHANGE | DID_CHANGE_WATCHED_FILES | RESTART

datatype action_reason =
    SessionReasons bool bool bool
  | UnopenedCannotBeNotified
  | OpenDocumentsChanged
  | UnopenedInputsChanged

record reconciliation_action =
  ra_kind :: action_kind
  ra_paths :: "ustr list"
  ra_reason :: action_reason

record reconciliation_plan =
  rp_before :: ustr
  rp_after :: ustr
  rp_actions :: "reconciliation_action list"
  rp_complete :: bool
  rp_missing :: "ustr list"

text \<open>The hash dictionaries; a later entry for the same path replaces an earlier one.\<close>

definition control_hashes :: "semantic_generation \<Rightarrow> (ustr, ustr option) dict" where
  "control_hashes g =
     (let p = sg_payload g in
      foldl (\<lambda>d path. AList.update path None d)
        (foldl (\<lambda>d i. AList.update (gi_path i) (Some (gi_hash i)) d) [] (gp_controls p))
        (gp_missing_controls p))"

definition semantic_hashes :: "semantic_generation \<Rightarrow> (ustr, ustr option) dict" where
  "semantic_hashes g =
     (let p = sg_payload g in
      foldl (\<lambda>d path. AList.update path None d)
        (foldl (\<lambda>d i. AList.update (gi_path i) (Some (gi_hash i)) d) [(gp_requested p, gp_requested_hash p)]
           (gp_dependencies p))
        (gp_missing_dependencies p))"

text \<open>\<open>d.get(path)\<close>: an absent path reads like a missing input.\<close>

definition get_hash :: "(ustr, ustr option) dict \<Rightarrow> ustr \<Rightarrow> ustr option" where
  "get_hash d path = (case map_of d path of None \<Rightarrow> None | Some h \<Rightarrow> h)"

definition changed_paths :: "(ustr, ustr option) dict \<Rightarrow> (ustr, ustr option) dict \<Rightarrow> ustr list" where
  "changed_paths before after =
     filter (\<lambda>path. get_hash before path \<noteq> get_hash after path) (sorted_set (dict_keys before @ dict_keys after))"

definition session_identity_changed :: "semantic_generation \<Rightarrow> semantic_generation \<Rightarrow> bool" where
  "session_identity_changed before after =
     (let b = sg_payload before; a = sg_payload after in
      gp_workspace b \<noteq> gp_workspace a \<or> gp_provider b \<noteq> gp_provider a
      \<or> pj_id (gp_project b) \<noteq> pj_id (gp_project a) \<or> pj_root (gp_project b) \<noteq> pj_root (gp_project a)
      \<or> pj_digest (gp_project b) \<noteq> pj_digest (gp_project a)
      \<or> pj_compiler (gp_project b) \<noteq> pj_compiler (gp_project a) \<or> gp_epoch b \<noteq> gp_epoch a)"

definition plan_actions ::
  "semantic_generation \<Rightarrow> semantic_generation \<Rightarrow> ustr set \<Rightarrow> bool \<Rightarrow> reconciliation_action list" where
  "plan_actions before after open_documents watched_files_supported =
     (let identity = session_identity_changed before after;
          config = gp_config (sg_payload before) \<noteq> gp_config (sg_payload after);
          changed_controls = changed_paths (control_hashes before) (control_hashes after)
      in if identity \<or> config \<or> changed_controls \<noteq> []
         then [\<lparr>ra_kind = RESTART, ra_paths = changed_controls,
                ra_reason = SessionReasons identity config (changed_controls \<noteq> [])\<rparr>]
         else
           let changed = changed_paths (semantic_hashes before) (semantic_hashes after);
               open_changes = filter (\<lambda>path. path \<in> open_documents) changed;
               unopened_changes = filter (\<lambda>path. path \<notin> open_documents) changed
           in if unopened_changes \<noteq> [] \<and> \<not> watched_files_supported
              then [\<lparr>ra_kind = RESTART, ra_paths = changed, ra_reason = UnopenedCannotBeNotified\<rparr>]
              else (if open_changes \<noteq> []
                    then [\<lparr>ra_kind = DID_CHANGE, ra_paths = open_changes, ra_reason = OpenDocumentsChanged\<rparr>] else [])
                @ (if unopened_changes \<noteq> []
                   then [\<lparr>ra_kind = DID_CHANGE_WATCHED_FILES, ra_paths = unopened_changes,
                          ra_reason = UnopenedInputsChanged\<rparr>] else []))"

definition plan_reconciliation ::
  "semantic_generation \<Rightarrow> semantic_generation \<Rightarrow> ustr set \<Rightarrow> bool \<Rightarrow> reconciliation_plan" where
  "plan_reconciliation before after open_documents watched_files_supported =
     \<lparr>rp_before = sg_fingerprint before, rp_after = sg_fingerprint after,
      rp_actions = plan_actions before after open_documents watched_files_supported,
      rp_complete = sg_complete after, rp_missing = sg_missing_inputs after\<rparr>"

subsection \<open>What a generation captures\<close>

text \<open>The hash a snapshot gives a path: that of its captured bytes, if it was captured.\<close>

definition captured_ok :: "digests \<Rightarrow> snapshot_bundle \<Rightarrow> captured_file list \<Rightarrow> (ustr, generation_input) dict \<Rightarrow> bool" where
  "captured_ok dg bundle rows captured \<longleftrightarrow> dict_ok captured \<and>
     (\<forall>path. map_of captured path =
        (if path \<in> cf_path ` set rows
         then map_option (\<lambda>content. \<lparr>gi_path = path, gi_hash = dg_content dg content\<rparr>) (map_of (sb_contents bundle) path)
         else None))"

lemma capture_row_ok:
  assumes "capture_row dg bundle row captured = Inr captured'" and "captured_ok dg bundle rows captured"
  shows "captured_ok dg bundle (rows @ [row]) captured'"
proof (cases "map_of (sb_contents bundle) (cf_path row)")
  case None
  then show ?thesis using assms by (auto simp: capture_row_def captured_ok_def split: if_split_asm)
next
  case (Some content)
  then have "captured' = AList.update (cf_path row) \<lparr>gi_path = cf_path row, gi_hash = cf_hash row\<rparr> captured"
    "cf_hash row = dg_content dg content" using assms(1) by (auto simp: capture_row_def split: if_split_asm)
  then show ?thesis using assms(2) Some by (simp add: captured_ok_def dict_lookup)
qed

lemma captured_inputs_ok:
  assumes "captured_inputs dg bundle = Inr captured"
  shows "captured_ok dg bundle (sb_files bundle) captured"
proof -
  have "captured_ok dg bundle (done @ rows) c'"
    if "fold_err (capture_row dg bundle) rows c = Inr c'" "captured_ok dg bundle done c" for rows c c' "done"
    using that
  proof (induction rows arbitrary: c "done")
    case (Cons row rows)
    then obtain c1 where "capture_row dg bundle row c = Inr c1" "fold_err (capture_row dg bundle) rows c1 = Inr c'" by auto
    with Cons.IH [OF this(2) capture_row_ok [OF this(1) Cons.prems(2)]] show ?case by simp
  qed simp
  from this [of "sb_files bundle" "[]" captured "[]"] assms show ?thesis
    by (simp add: captured_inputs_def captured_ok_def)
qed

definition snapshot_hash :: "digests \<Rightarrow> snapshot_bundle \<Rightarrow> ustr \<Rightarrow> ustr option" where
  "snapshot_hash dg bundle path =
     (if path \<in> cf_path ` set (sb_files bundle) then map_option (dg_content dg) (map_of (sb_contents bundle) path) else None)"

lemma captured_hash:
  assumes "captured_inputs dg bundle = Inr captured"
  shows "map_of captured path = map_option (\<lambda>h. \<lparr>gi_path = path, gi_hash = h\<rparr>) (snapshot_hash dg bundle path)"
  using captured_inputs_ok [OF assms] by (simp add: captured_ok_def snapshot_hash_def option.map_comp comp_def)

text \<open>The inputs of a generation, as a function of the hashes of the named paths.\<close>

definition inputs_of :: "(ustr \<Rightarrow> ustr option) \<Rightarrow> ustr list \<Rightarrow> generation_input list \<times> ustr list" where
  "inputs_of h names =
     (map (\<lambda>path. \<lparr>gi_path = path, gi_hash = the (h path)\<rparr>) (filter (\<lambda>path. h path \<noteq> None) names),
      filter (\<lambda>path. h path = None) names)"

lemma partition_inputs_of:
  assumes "captured_inputs dg bundle = Inr captured"
  shows "partition_inputs captured names = inputs_of (snapshot_hash dg bundle) names"
proof -
  have keys: "path \<in> set (dict_keys captured) \<longleftrightarrow> snapshot_hash dg bundle path \<noteq> None" for path
    using captured_hash [OF assms, of path] map_of_keys [of captured path] by auto
  show ?thesis unfolding partition_inputs_def inputs_of_def keys
    by (auto simp: captured_hash [OF assms])
qed

definition control_names :: "generation_request \<Rightarrow> ustr list" where
  "control_names q = filter (\<lambda>path. path \<noteq> gr_requested q) (sorted_set (gr_controls q))"

definition dependency_names :: "generation_request \<Rightarrow> ustr list" where
  "dependency_names q = filter (\<lambda>path. path \<notin> set (control_names q) \<and> path \<noteq> gr_requested q) (sorted_set (gr_dependencies q))"

definition ideal_payload :: "digests \<Rightarrow> snapshot_bundle \<Rightarrow> generation_request \<Rightarrow> project_identity \<Rightarrow> generation_payload" where
  "ideal_payload dg bundle q ident =
     (let h = snapshot_hash dg bundle in
      \<lparr>gp_workspace = sb_workspace bundle, gp_provider = gr_provider q, gp_config = gr_config q,
       gp_project = ident, gp_epoch = gr_epoch q, gp_requested = gr_requested q,
       gp_requested_hash = h (gr_requested q), gp_dependencies = fst (inputs_of h (dependency_names q)),
       gp_controls = fst (inputs_of h (control_names q)),
       gp_missing_dependencies = snd (inputs_of h (dependency_names q)),
       gp_missing_controls = snd (inputs_of h (control_names q)), gp_changed = sb_changed bundle\<rparr>)"

lemma make_payload_ideal:
  assumes "captured_inputs dg bundle = Inr captured"
  shows "make_payload bundle q ident captured = ideal_payload dg bundle q ident"
  unfolding make_payload_def ideal_payload_def Let_def partition_inputs_of [OF assms] control_names_def [symmetric]
    dependency_names_def [symmetric] split_beta
  by (simp add: captured_hash [OF assms] option.map_comp comp_def option.map_ident)

lemma from_snapshot_payload:
  assumes "from_snapshot dg bundle q = Inr g"
  obtains ident where "sg_payload g = ideal_payload dg bundle q ident"
    "sg_fingerprint g = dg_generation dg (sg_payload g)"
    "sg_missing_inputs g = sorted_set (gp_missing_dependencies (sg_payload g) @ gp_missing_controls (sg_payload g) @
             (if gp_requested_hash (sg_payload g) = None then [gr_requested q] else []))"
    "sg_complete g \<longleftrightarrow> sg_missing_inputs g = [] \<and> \<not> sb_changed bundle"
    "sg_status g = (if sg_complete g then Verified else UnverifiedInputs)"
proof -
  from assms obtain ident captured where c: "captured_inputs dg bundle = Inr captured"
    and g: "\<not> (\<not> payload_constraints (make_payload bundle q ident captured) \<or> dg_generation dg (make_payload bundle q ident captured) = [])"
      "g = \<lparr>sg_payload = make_payload bundle q ident captured,
          sg_missing_inputs = sorted_set (gp_missing_dependencies (make_payload bundle q ident captured) @
             gp_missing_controls (make_payload bundle q ident captured) @
             (if gp_requested_hash (make_payload bundle q ident captured) = None then [gr_requested q] else [])),
          sg_issues = sg_issues g, sg_status = sg_status g, sg_complete = sg_complete g,
          sg_fingerprint = dg_generation dg (make_payload bundle q ident captured)\<rparr>"
      "sg_issues g = (if sg_missing_inputs g \<noteq> [] then [MissingInputs] else []) @ (if sb_changed bundle then [SnapshotChanged] else [])"
      "sg_status g = (if sg_issues g = [] then Verified else UnverifiedInputs)" "sg_complete g = (sg_issues g = [])"
    unfolding from_snapshot_def Let_def by (auto split: if_split_asm)
  show thesis
  proof (rule that)
    show "sg_payload g = ideal_payload dg bundle q ident"
      by (subst g(2)) (simp add: make_payload_ideal [OF c])
    show "sg_fingerprint g = dg_generation dg (sg_payload g)" by (subst (1 2) g(2)) simp
    show "sg_missing_inputs g = sorted_set (gp_missing_dependencies (sg_payload g) @ gp_missing_controls (sg_payload g) @
             (if gp_requested_hash (sg_payload g) = None then [gr_requested q] else []))"
      by (subst (1 2 3 4) g(2)) simp
    show "sg_complete g \<longleftrightarrow> sg_missing_inputs g = [] \<and> \<not> sb_changed bundle" using g(3,5) by simp
    show "sg_status g = (if sg_complete g then Verified else UnverifiedInputs)" using g(4,5) by simp
  qed
qed

lemma set_sorted_set [simp]: "set (sorted_set xs) = set xs"
  by (simp add: sorted_set_def)

lemma sorted_set_empty [simp]: "sorted_set xs = [] \<longleftrightarrow> xs = []"
  using set_sorted_set [of xs] by (metis set_empty)

lemma inputs_of_sets:
  "set (snd (inputs_of h names)) = {path \<in> set names. h path = None}"
  "i \<in> set (fst (inputs_of h names)) \<longleftrightarrow> gi_path i \<in> set names \<and> h (gi_path i) = Some (gi_hash i)"
  by (auto simp: inputs_of_def image_iff)

lemma request_names:
  "insert (gr_requested q) (set (control_names q) \<union> set (dependency_names q)) =
     insert (gr_requested q) (set (gr_controls q) \<union> set (gr_dependencies q))"
  by (auto simp: control_names_def dependency_names_def)

lemma inputs_pairs:
  "(\<lambda>i. (gi_path i, gi_hash i)) ` set (fst (inputs_of h names)) = {(path, x). path \<in> set names \<and> h path = Some x}"
  by (auto simp: inputs_of_def image_image image_iff)

lemma inputs_order: "sorted_wrt (<) names \<Longrightarrow> sorted_wrt (<) (map gi_path (fst (inputs_of h names)))"
  by (simp add: inputs_of_def comp_def sorted_wrt_filter)

lemma request_names_sorted: "sorted_wrt (<) (control_names q)" "sorted_wrt (<) (dependency_names q)"
  by (simp_all add: control_names_def dependency_names_def sorted_set_def strict_sorted_iff sorted_wrt_filter)

text \<open>C32: The controls of a generation are, in order and once each, the captured paths among the controls
  it was asked for, its dependencies the captured paths among the other dependencies, each with the
  digest of the bytes captured for it; the requested file is in neither and has its own digest. The
  missing inputs are, in order, the named paths that were not captured, and the generation is
  complete (verified) exactly when there is none and the snapshot did not change under the analysis.\<close>

theorem generation_inputs_exact:
  assumes "from_snapshot dg bundle q = Inr g"
  defines "named \<equiv> insert (gr_requested q) (set (gr_dependencies q) \<union> set (gr_controls q))"
  shows "(\<lambda>i. (gi_path i, gi_hash i)) ` set (gp_controls (sg_payload g)) =
        {(path, h). path \<in> set (gr_controls q) - {gr_requested q} \<and> snapshot_hash dg bundle path = Some h}
    \<and> (\<lambda>i. (gi_path i, gi_hash i)) ` set (gp_dependencies (sg_payload g)) =
        {(path, h). path \<in> set (gr_dependencies q) - set (gr_controls q) - {gr_requested q} \<and> snapshot_hash dg bundle path = Some h}
    \<and> sorted_wrt (<) (map gi_path (gp_controls (sg_payload g))) \<and> sorted_wrt (<) (map gi_path (gp_dependencies (sg_payload g)))
    \<and> gp_requested (sg_payload g) = gr_requested q
    \<and> gp_requested_hash (sg_payload g) = snapshot_hash dg bundle (gr_requested q)
    \<and> sorted (sg_missing_inputs g) \<and> distinct (sg_missing_inputs g)
    \<and> set (sg_missing_inputs g) = {path \<in> named. snapshot_hash dg bundle path = None}
    \<and> (sg_complete g \<longleftrightarrow> (\<forall>path \<in> named. snapshot_hash dg bundle path \<noteq> None) \<and> \<not> sb_changed bundle)
    \<and> (sg_status g = Verified \<longleftrightarrow> sg_complete g)"
proof -
  let ?h = "snapshot_hash dg bundle"
  from from_snapshot_payload [OF assms(1)] obtain ident where p: "sg_payload g = ideal_payload dg bundle q ident"
    and m: "sg_missing_inputs g = sorted_set (gp_missing_dependencies (sg_payload g) @ gp_missing_controls (sg_payload g) @
             (if gp_requested_hash (sg_payload g) = None then [gr_requested q] else []))"
    and c: "sg_complete g \<longleftrightarrow> sg_missing_inputs g = [] \<and> \<not> sb_changed bundle"
    and st: "sg_status g = (if sg_complete g then Verified else UnverifiedInputs)" by metis
  have named: "named = insert (gr_requested q) (set (control_names q) \<union> set (dependency_names q))"
    unfolding named_def request_names by blast
  have fields: "gp_requested (sg_payload g) = gr_requested q" "gp_requested_hash (sg_payload g) = ?h (gr_requested q)"
    "set (gp_missing_dependencies (sg_payload g)) = {path \<in> set (dependency_names q). ?h path = None}"
    "set (gp_missing_controls (sg_payload g)) = {path \<in> set (control_names q). ?h path = None}"
    "gp_controls (sg_payload g) = fst (inputs_of ?h (control_names q))"
    "gp_dependencies (sg_payload g) = fst (inputs_of ?h (dependency_names q))"
    unfolding p ideal_payload_def Let_def by (simp_all add: inputs_of_sets(1))
  have missing: "set (sg_missing_inputs g) = {path \<in> named. ?h path = None}"
    unfolding m named set_sorted_set set_append fields by auto
  have names: "set (control_names q) = set (gr_controls q) - {gr_requested q}"
    "set (dependency_names q) = set (gr_dependencies q) - set (gr_controls q) - {gr_requested q}"
    by (auto simp: control_names_def dependency_names_def)
  have "sg_missing_inputs g = [] \<longleftrightarrow> (\<forall>path \<in> named. ?h path \<noteq> None)" using missing by (auto simp flip: set_empty)
  moreover have "sorted (sg_missing_inputs g) \<and> distinct (sg_missing_inputs g)" unfolding m by (simp add: sorted_set_def)
  ultimately show ?thesis
    unfolding fields(5,6) inputs_pairs names using inputs_order [OF request_names_sorted(1)] inputs_order [OF request_names_sorted(2)]
      fields(1,2) missing c st by (intro conjI) (auto split: if_split_asm)
qed

subsection \<open>What a plan covers\<close>

lemma map_of_foldl_update:
  assumes "\<forall>x \<in> set xs. v x = f (k x)"
  shows "map_of (foldl (\<lambda>d x. AList.update (k x) (v x) d) d xs) path =
    (if path \<in> k ` set xs then Some (f path) else map_of d path)"
  using assms by (induction xs arbitrary: d) (auto simp: update_conv')

lemma get_hash_inputs:
  "map_of (foldl (\<lambda>d path. AList.update path None d)
        (foldl (\<lambda>d i. AList.update (gi_path i) (Some (gi_hash i)) d) d (fst (inputs_of h names)))
        (snd (inputs_of h names))) path = (if path \<in> set names then Some (h path) else map_of d path)"
proof -
  have "map_of (foldl (\<lambda>d i. AList.update (gi_path i) (Some (gi_hash i)) d) d (fst (inputs_of h names))) path =
      (if path \<in> gi_path ` set (fst (inputs_of h names)) then Some (h path) else map_of d path)"
    by (rule map_of_foldl_update) (auto simp: inputs_of_sets(2))
  moreover have "gi_path ` set (fst (inputs_of h names)) = {path \<in> set names. h path \<noteq> None}"
    by (auto simp: inputs_of_def image_image)
  ultimately show ?thesis
    by (subst map_of_foldl_update [where f = "\<lambda>_. None" and k = "\<lambda>x. x"]) (auto simp: inputs_of_sets(1))
qed

lemma changed_paths_empty:
  "changed_paths d e = [] \<longleftrightarrow> (\<forall>path. get_hash d path = get_hash e path)"
proof -
  have "get_hash d path = None" if "path \<notin> set (dict_keys d)" for d :: "(ustr, ustr option) dict" and path
    using that map_of_keys [of d path] by (simp add: get_hash_def)
  then have "get_hash d path = get_hash e path" if "path \<notin> set (dict_keys d @ dict_keys e)" for path
    using that by simp
  then show ?thesis by (auto simp: changed_paths_def filter_empty_conv simp del: set_map)
qed

text \<open>Two lists of inputs.\<close>

lemma same_inputs:
  assumes "\<forall>path \<in> set names. h path = h' path"
  shows "inputs_of h names = inputs_of h' names"
  using assms by (auto simp: inputs_of_def cong: filter_cong)

lemma inputs_determine:
  assumes "inputs_of h names = inputs_of h' names" and "path \<in> set names"
  shows "h path = h' path"
proof (cases "h path")
  case None
  then have "path \<in> set (snd (inputs_of h' names))" using assms inputs_of_sets(1) [of h names] by simp
  then show ?thesis using None by (simp add: inputs_of_sets(1))
next
  case (Some x)
  then have "\<lparr>gi_path = path, gi_hash = x\<rparr> \<in> set (fst (inputs_of h' names))"
    unfolding assms(1) [symmetric] inputs_of_sets(2) using assms(2) by simp
  then show ?thesis using Some by (simp add: inputs_of_sets(2))
qed

lemma control_get:
  assumes "sg_payload g = ideal_payload dg bundle q ident"
  shows "get_hash (control_hashes g) path = (if path \<in> set (control_names q) then snapshot_hash dg bundle path else None)"
  unfolding get_hash_def control_hashes_def assms ideal_payload_def Let_def
  by (simp add: get_hash_inputs)

lemma semantic_get:
  assumes "sg_payload g = ideal_payload dg bundle q ident"
  shows "get_hash (semantic_hashes g) path =
    (if path \<in> insert (gr_requested q) (set (dependency_names q)) then snapshot_hash dg bundle path else None)"
  unfolding get_hash_def semantic_hashes_def assms ideal_payload_def Let_def
  by (auto simp: get_hash_inputs)

lemma split_empty: "xs = [] \<longleftrightarrow> filter (\<lambda>x. x \<in> A) xs = [] \<and> filter (\<lambda>x. x \<notin> A) xs = []"
  by (cases xs) auto

lemma plan_shape:
  "(if a then [x] else if b \<and> \<not> w then [y] else (if c then [z] else []) @ (if b then [v] else [])) = [] \<longleftrightarrow>
     \<not> a \<and> \<not> b \<and> \<not> c"
  by auto

text \<open>The hashes a session depends on: of the controls, and of the requested file and the dependencies.\<close>

definition control_seen :: "digests \<Rightarrow> snapshot_bundle \<Rightarrow> generation_request \<Rightarrow> ustr \<Rightarrow> ustr option" where
  "control_seen dg bundle q path =
     (if path \<in> set (gr_controls q) - {gr_requested q} then snapshot_hash dg bundle path else None)"

definition input_seen :: "digests \<Rightarrow> snapshot_bundle \<Rightarrow> generation_request \<Rightarrow> ustr \<Rightarrow> ustr option" where
  "input_seen dg bundle q path =
     (if path = gr_requested q \<or> path \<in> set (gr_dependencies q) - set (gr_controls q) then snapshot_hash dg bundle path else None)"

lemma seen_names:
  "control_seen dg b q path = (if path \<in> set (control_names q) then snapshot_hash dg b path else None)"
  "input_seen dg b q path = (if path \<in> insert (gr_requested q) (set (dependency_names q)) then snapshot_hash dg b path else None)"
  by (auto simp: control_seen_def input_seen_def control_names_def dependency_names_def)

lemma actions_empty:
  assumes p1: "sg_payload before = ideal_payload dg b1 q1 i1" and p2: "sg_payload after = ideal_payload dg b2 q2 i2"
  shows "plan_actions before after open_documents watched = [] \<longleftrightarrow>
    sb_workspace b1 = sb_workspace b2 \<and> gr_provider q1 = gr_provider q2 \<and> gr_config q1 = gr_config q2 \<and> gr_epoch q1 = gr_epoch q2 \<and> i1 = i2
    \<and> control_seen dg b1 q1 = control_seen dg b2 q2 \<and> input_seen dg b1 q1 = input_seen dg b2 q2"
proof -
  let ?c = "changed_paths (control_hashes before) (control_hashes after)"
  let ?s = "changed_paths (semantic_hashes before) (semantic_hashes after)"
  have config: "gp_config (sg_payload before) = gp_config (sg_payload after) \<longleftrightarrow> gr_config q1 = gr_config q2"
    unfolding p1 p2 by (simp add: ideal_payload_def Let_def)
  have ident: "session_identity_changed before after \<longleftrightarrow>
      \<not> (sb_workspace b1 = sb_workspace b2 \<and> gr_provider q1 = gr_provider q2 \<and> gr_epoch q1 = gr_epoch q2 \<and> i1 = i2)"
    unfolding session_identity_changed_def p1 p2 by (cases i1; cases i2) (auto simp: ideal_payload_def Let_def)
  have "plan_actions before after open_documents watched = [] \<longleftrightarrow>
      \<not> session_identity_changed before after \<and> gp_config (sg_payload before) = gp_config (sg_payload after) \<and> ?c = [] \<and> ?s = []"
    unfolding plan_actions_def Let_def plan_shape using split_empty [of ?s open_documents] by blast
  moreover have "?c = [] \<longleftrightarrow> control_seen dg b1 q1 = control_seen dg b2 q2"
    unfolding changed_paths_empty control_get [OF p1] control_get [OF p2] fun_eq_iff seen_names ..
  moreover have "?s = [] \<longleftrightarrow> input_seen dg b1 q1 = input_seen dg b2 q2"
    unfolding changed_paths_empty semantic_get [OF p1] semantic_get [OF p2] fun_eq_iff seen_names ..
  ultimately show ?thesis using ident config by blast
qed

lemma seen_everywhere:
  "control_seen dg b1 q = control_seen dg b2 q \<and> input_seen dg b1 q = input_seen dg b2 q \<longleftrightarrow>
    (\<forall>path \<in> insert (gr_requested q) (set (control_names q) \<union> set (dependency_names q)). snapshot_hash dg b1 path = snapshot_hash dg b2 path)"
  unfolding fun_eq_iff seen_names by auto

lemma ideal_payload_eq:
  "ideal_payload dg b1 q i1 = ideal_payload dg b2 q i2 \<longleftrightarrow>
     sb_workspace b1 = sb_workspace b2 \<and> i1 = i2 \<and> sb_changed b1 = sb_changed b2 \<and>
     (\<forall>path \<in> insert (gr_requested q) (set (control_names q) \<union> set (dependency_names q)).
        snapshot_hash dg b1 path = snapshot_hash dg b2 path)"
  (is "?eq \<longleftrightarrow> ?same")
proof
  assume ?eq
  then have "inputs_of (snapshot_hash dg b1) (control_names q) = inputs_of (snapshot_hash dg b2) (control_names q)"
    "inputs_of (snapshot_hash dg b1) (dependency_names q) = inputs_of (snapshot_hash dg b2) (dependency_names q)"
    "snapshot_hash dg b1 (gr_requested q) = snapshot_hash dg b2 (gr_requested q)"
    "sb_workspace b1 = sb_workspace b2" "i1 = i2" "sb_changed b1 = sb_changed b2"
    by (simp_all add: ideal_payload_def Let_def prod_eq_iff)
  then show ?same using inputs_determine [of "snapshot_hash dg b1" _ "snapshot_hash dg b2"] by blast
next
  assume same: ?same
  then have "inputs_of (snapshot_hash dg b1) (control_names q) = inputs_of (snapshot_hash dg b2) (control_names q)"
    "inputs_of (snapshot_hash dg b1) (dependency_names q) = inputs_of (snapshot_hash dg b2) (dependency_names q)"
    by (auto intro!: same_inputs)
  with same show ?eq by (simp add: ideal_payload_def Let_def)
qed

text \<open>C33: Between two generations, of any two requests, the plan asks for nothing exactly when the
  workspace, the provider, the configuration, the server epoch and the project are the same and every
  path has the same digest as a control and the same digest as an input, where a path that was not
  asked for or not captured has none. For one request this says that, the changed-under-analysis
  flag aside, everything under the fingerprint is the same.\<close>

theorem reconciliation_complete:
  assumes "from_snapshot dg before_bundle q1 = Inr before" and "from_snapshot dg after_bundle q2 = Inr after"
  shows "(rp_actions (plan_reconciliation before after open_documents watched) = [] \<longleftrightarrow>
        sb_workspace before_bundle = sb_workspace after_bundle \<and> gr_provider q1 = gr_provider q2 \<and> gr_config q1 = gr_config q2
        \<and> gr_epoch q1 = gr_epoch q2 \<and> gp_project (sg_payload before) = gp_project (sg_payload after)
        \<and> (\<forall>path. control_seen dg before_bundle q1 path = control_seen dg after_bundle q2 path)
        \<and> (\<forall>path. input_seen dg before_bundle q1 path = input_seen dg after_bundle q2 path))
    \<and> (q1 = q2 \<longrightarrow>
        (rp_actions (plan_reconciliation before after open_documents watched) = [] \<and> sb_changed before_bundle = sb_changed after_bundle
          \<longleftrightarrow> sg_payload before = sg_payload after))"
proof -
  from from_snapshot_payload [OF assms(1)] obtain i1 where p1: "sg_payload before = ideal_payload dg before_bundle q1 i1" by metis
  from from_snapshot_payload [OF assms(2)] obtain i2 where p2: "sg_payload after = ideal_payload dg after_bundle q2 i2" by metis
  have plan: "rp_actions (plan_reconciliation before after open_documents watched) = plan_actions before after open_documents watched"
    by (simp add: plan_reconciliation_def)
  have idents: "gp_project (sg_payload before) = i1" "gp_project (sg_payload after) = i2"
    unfolding p1 p2 by (simp_all add: ideal_payload_def Let_def)
  note empty = actions_empty [OF p1 p2, of open_documents watched]
  have "plan_actions before after open_documents watched = [] \<and> sb_changed before_bundle = sb_changed after_bundle
      \<longleftrightarrow> sg_payload before = sg_payload after" if "q1 = q2"
    unfolding empty p1 p2 that ideal_payload_eq seen_everywhere [symmetric] by blast
  then show ?thesis unfolding plan idents empty by (simp add: fun_eq_iff)
qed

subsection \<open>A concrete generation\<close>

definition demo_digests :: digests where
  "demo_digests = \<lparr>dg_content = (\<lambda>bs. replicate 64 (length bs)), dg_project = (\<lambda>_. replicate 64 1),
     dg_generation = (\<lambda>_. [1])\<rparr>"

definition demo_bundle :: snapshot_bundle where
  "demo_bundle = \<lparr>sb_workspace = u ''w'', sb_files = [\<lparr>cf_path = u ''a'', cf_language = None, cf_language_id = None, cf_hash = replicate 64 2\<rparr>],
     sb_changed = False, sb_contents = [(u ''a'', [104, 105])]\<rparr>"

definition demo_generation_request :: generation_request where
  "demo_generation_request = \<lparr>gr_provider = u ''p'', gr_config = u ''c'', gr_epoch = 1, gr_requested = u ''a'',
     gr_dependencies = [u ''b''], gr_controls = [],
     gr_project = Some \<lparr>pj_id = u ''w'', pj_root = [], pj_digest = replicate 64 1, pj_compiler = u ''tsc''\<rparr>\<rparr>"

lemma demo_generation:
  obtains g where "from_snapshot demo_digests demo_bundle demo_generation_request = Inr g"
proof -
  have "u ''a'' \<noteq> []" "u ''w'' \<noteq> []" "u ''p'' \<noteq> []" "u ''c'' \<noteq> []" "u ''tsc'' \<noteq> []" by (simp_all add: u_def)
  then have "\<exists>g. from_snapshot demo_digests demo_bundle demo_generation_request = Inr g"
    by (simp add: from_snapshot_def demo_generation_request_def captured_inputs_def capture_row_def demo_bundle_def
        demo_digests_def make_payload_def payload_constraints_def Let_def split_beta)
  then show thesis using that by blast
qed

lemma generation_inputs_exact_witness:
  "\<exists>g. from_snapshot demo_digests demo_bundle demo_generation_request = Inr g \<and> u ''b'' \<in> set (sg_missing_inputs g)
     \<and> \<not> sg_complete g"
proof -
  obtain g where g: "from_snapshot demo_digests demo_bundle demo_generation_request = Inr g" by (rule demo_generation)
  have "snapshot_hash demo_digests demo_bundle (u ''b'') = None" by (simp add: snapshot_hash_def demo_bundle_def u_def)
  moreover have named: "u ''b'' \<in> insert (gr_requested demo_generation_request)
      (set (gr_dependencies demo_generation_request) \<union> set (gr_controls demo_generation_request))"
    by (simp add: demo_generation_request_def)
  note exact = generation_inputs_exact [OF g]
  have "set (sg_missing_inputs g) = {path \<in> insert (gr_requested demo_generation_request)
      (set (gr_dependencies demo_generation_request) \<union> set (gr_controls demo_generation_request)).
        snapshot_hash demo_digests demo_bundle path = None}" using exact by (elim conjE)
  moreover have "sg_complete g \<longleftrightarrow> (\<forall>path \<in> insert (gr_requested demo_generation_request)
      (set (gr_dependencies demo_generation_request) \<union> set (gr_controls demo_generation_request)).
        snapshot_hash demo_digests demo_bundle path \<noteq> None) \<and> \<not> sb_changed demo_bundle" using exact by (elim conjE)
  ultimately show ?thesis using g named by blast
qed

lemma reconciliation_complete_witness:
  "\<exists>g. from_snapshot demo_digests demo_bundle demo_generation_request = Inr g
     \<and> rp_actions (plan_reconciliation g g {} False) = []"
proof -
  obtain g where g: "from_snapshot demo_digests demo_bundle demo_generation_request = Inr g" by (rule demo_generation)
  from reconciliation_complete [OF g g] g show ?thesis by blast
qed

end
