(* ===== verification/Texts.thy ===== *)
theory Texts
  imports Positions
begin

text \<open>
  Python text and sequence operations that several parts use: \<open>str.split()\<close>, \<open>str.splitlines\<close> with
  and without the line ends, and indexing and slicing with negative positions.
\<close>

subsection \<open>White space and lines\<close>

text \<open>The line boundaries of \<open>str.splitlines\<close>.\<close>

definition line_boundary :: "nat \<Rightarrow> bool" where
  "line_boundary c \<longleftrightarrow> 10 \<le> c \<and> c \<le> 13 \<or> 28 \<le> c \<and> c \<le> 30 \<or> c = 133 \<or> c = 8232 \<or> c = 8233"

text \<open>\<open>s.split()\<close>\<close>

fun words_of :: "ustr \<Rightarrow> ustr \<Rightarrow> ustr list" where
  "words_of current [] = (if current = [] then [] else [current])"
| "words_of current (c # cs) =
     (if unicode_space c then (if current = [] then words_of [] cs else current # words_of [] cs)
      else words_of (current @ [c]) cs)"

text \<open>\<open>s.splitlines(keepends=True)\<close>; the carriage return of a pair ends no line of its own.\<close>

fun split_keepends :: "ustr \<Rightarrow> ustr \<Rightarrow> ustr list" where
  "split_keepends current [] = (if current = [] then [] else [current])"
| "split_keepends current (c # cs) =
     (if line_boundary c \<and> \<not> (c = 13 \<and> cs \<noteq> [] \<and> hd cs = 10)
      then (current @ [c]) # split_keepends [] cs
      else split_keepends (current @ [c]) cs)"

text \<open>\<open>s.splitlines()\<close>\<close>

fun split_lines :: "ustr \<Rightarrow> ustr \<Rightarrow> ustr list" where
  "split_lines current [] = (if current = [] then [] else [current])"
| "split_lines current (c # cs) =
     (if line_boundary c
      then current # split_lines [] (if c = 13 \<and> cs \<noteq> [] \<and> hd cs = 10 then tl cs else cs)
      else split_lines (current @ [c]) cs)"

lemma concat_split_keepends: "concat (split_keepends current s) = current @ s"
  by (induction current s rule: split_keepends.induct) auto

lemma split_keepends_nonempty: "line \<in> set (split_keepends current s) \<Longrightarrow> line \<noteq> []"
  by (induction current s rule: split_keepends.induct) (auto split: if_split_asm)

subsection \<open>Negative positions\<close>

text \<open>\<open>xs[i]\<close>; \<open>None\<close> is an \<open>IndexError\<close>.\<close>

definition py_get :: "'a list \<Rightarrow> int \<Rightarrow> 'a option" where
  "py_get xs i =
     (if 0 \<le> i \<and> i < int (length xs) then Some (xs ! nat i)
      else if i < 0 \<and> 0 \<le> i + int (length xs) then Some (xs ! nat (i + int (length xs))) else None)"

definition clamp :: "nat \<Rightarrow> int \<Rightarrow> nat" where
  "clamp n i = nat (if i < 0 then max 0 (i + int n) else min i (int n))"

definition py_slice :: "'a list \<Rightarrow> int \<Rightarrow> int \<Rightarrow> 'a list" where
  "py_slice xs i j = slice xs (clamp (length xs) i) (clamp (length xs) j)"

lemma py_get_nat: "py_get xs (int i) = (if i < length xs then Some (xs ! i) else None)"
  by (simp add: py_get_def)

lemma py_get_bound: "py_get xs i = Some x \<Longrightarrow> 0 \<le> i + int (length xs)"
  by (auto simp: py_get_def split: if_split_asm)

lemma py_slice_nat:
  assumes "j \<le> length xs"
  shows "py_slice xs (int i) (int j) = slice xs i j"
  using assms by (cases "i \<le> length xs") (simp_all add: py_slice_def clamp_def slice_def min_def)

subsection \<open>First results\<close>

text \<open>The first result of a loop that returns as soon as it has one.\<close>

fun first_some :: "('a \<Rightarrow> 'b option) \<Rightarrow> 'a list \<Rightarrow> 'b option" where
  "first_some f [] = None"
| "first_some f (x # xs) = (case f x of Some y \<Rightarrow> Some y | None \<Rightarrow> first_some f xs)"

lemma first_some_cong [fundef_cong]:
  "xs = ys \<Longrightarrow> (\<And>x. x \<in> set ys \<Longrightarrow> f x = g x) \<Longrightarrow> first_some f xs = first_some g ys"
  by (induction xs arbitrary: ys) (auto split: option.split)

lemma first_some_Some: "first_some f xs = Some y \<Longrightarrow> \<exists>x \<in> set xs. f x = Some y"
  by (induction xs) (auto split: option.split_asm)

lemma first_some_None: "first_some f xs = None \<longleftrightarrow> (\<forall>x \<in> set xs. f x = None)"
  by (induction xs) (auto split: option.split)

text \<open>A list of results where each has to exist.\<close>

fun map_opt :: "('a \<Rightarrow> 'b option) \<Rightarrow> 'a list \<Rightarrow> 'b list option" where
  "map_opt f [] = Some []"
| "map_opt f (x # xs) = Option.bind (f x) (\<lambda>y. map_option ((#) y) (map_opt f xs))"

lemma map_opt_list_all2: "map_opt f xs = Some ys \<longleftrightarrow> list_all2 (\<lambda>x y. f x = Some y) xs ys"
  by (induction xs arbitrary: ys) (auto simp: list_all2_Cons1 bind_eq_Some_conv)

subsection \<open>Distinct values and numbers\<close>

text \<open>\<open>tuple(dict.fromkeys(xs))\<close> keeps the first of equal values.\<close>

definition first_unique :: "'a list \<Rightarrow> 'a list" where
  "first_unique xs = rev (remdups (rev xs))"

lemma set_first_unique [simp]: "set (first_unique xs) = set xs"
  by (simp add: first_unique_def)

lemma distinct_first_unique [simp]: "distinct (first_unique xs)"
  by (simp add: first_unique_def)

text \<open>\<open>str(i)\<close>\<close>

definition show_int :: "int \<Rightarrow> ustr" where
  "show_int i = (if i < 0 then 45 # u (show_nat (nat (- i))) else u (show_nat (nat i)))"

subsection \<open>Members of related lists\<close>

lemma list_all2_left: "list_all2 R xs ys \<Longrightarrow> x \<in> set xs \<Longrightarrow> \<exists>y \<in> set ys. R x y"
  by (induction rule: list_all2_induct) auto

lemma list_all2_right: "list_all2 R xs ys \<Longrightarrow> y \<in> set ys \<Longrightarrow> \<exists>x \<in> set xs. R x y"
  by (induction rule: list_all2_induct) auto

lemma mem_map_filter: "y \<in> set (List.map_filter f xs) \<longleftrightarrow> (\<exists>x \<in> set xs. f x = Some y)"
  by (induction xs) (auto simp: List.map_filter_simps split: option.split)

end
