(* ===== verification/Modules.thy ===== *)
theory Modules
  imports Generations Texts
begin

text \<open>
  Module resolution against one frozen snapshot (\<open>relations/modules.py\<close>) for TypeScript,
  Python and Go. \<open>json.loads\<close> on captured bytes is an argument, \<open>None\<close> when it raises one of the errors its
  callers catch (\<open>JSONDecodeError\<close> and \<open>UnicodeDecodeError\<close>; in the framework detector any \<open>ValueError\<close>); the errors
  nobody catches there, for an integer of too many digits or too deep a nesting, are outside the
  parameter. A missing key of an object reads as null. Reasons are constructors, one for each message.
\<close>

subsection \<open>Paths\<close>

definition slash :: ustr where "slash = u ''/''"

text \<open>\<open>posixpath.join\<close>\<close>

fun posix_join :: "ustr \<Rightarrow> ustr list \<Rightarrow> ustr" where
  "posix_join path [] = path"
| "posix_join path (b # bs) =
     posix_join (if startswith b slash then b
                 else if path = [] \<or> endswith path slash then path @ b
                 else path @ slash @ b) bs"

text \<open>The loop of \<open>posixpath.normpath\<close> over the components; \<open>new_comps\<close> is kept reversed.\<close>

fun norm_components :: "bool \<Rightarrow> ustr list \<Rightarrow> ustr list \<Rightarrow> ustr list" where
  "norm_components rooted new_comps [] = new_comps"
| "norm_components rooted new_comps (part # parts) =
     (if part = [] \<or> part = u ''.'' then norm_components rooted new_comps parts
      else if part \<noteq> u ''..'' \<or> \<not> rooted \<and> new_comps = [] \<or> new_comps \<noteq> [] \<and> hd new_comps = u ''..''
      then norm_components rooted (part # new_comps) parts
      else norm_components rooted (tl new_comps) parts)"

definition normpath :: "ustr \<Rightarrow> ustr" where
  "normpath path =
     (if path = [] then u ''.''
      else
        let slashes = (if startswith path (u ''//'') \<and> \<not> startswith path (u ''///'') then 2
                       else if startswith path slash then 1 else 0);
            body = join_with slash (rev (norm_components (slashes > 0) [] (split_on 47 path)));
            normed = replicate slashes 47 @ body
        in if normed = [] then u ''.'' else normed)"

text \<open>\<open>_directory\<close>: the parent of a pure path, empty for the current directory.\<close>

definition directory_of :: "ustr \<Rightarrow> ustr" where
  "directory_of path =
     (let p = pure_path path; parent = as_posix (p\<lparr>pp_parts := butlast (pp_parts p)\<rparr>)
      in if parent = u ''.'' then [] else parent)"

definition join_workspace :: "ustr list \<Rightarrow> ustr option" where
  "join_workspace parts =
     (let joined = normpath (posix_join (hd parts) (tl parts)) in
      if joined = [] \<or> joined = u ''.'' then Some []
      else if startswith joined slash \<or> joined = u ''..'' \<or> startswith joined (u ''../'') then None
      else Some (removeprefix joined (u ''./'')))"

subsection \<open>Manifests\<close>

record ts_config =
  tc_directory :: ustr
  tc_base_url :: ustr
  tc_paths :: "(ustr \<times> ustr list) list"

record package =
  pk_directory :: ustr
  pk_name :: ustr
  pk_exports :: json
  pk_default :: "ustr option"

definition object_dict :: "json \<Rightarrow> (ustr, json) dict" where
  "object_dict v = (case v of JObj d \<Rightarrow> d | _ \<Rightarrow> [])"

definition json_text :: "json \<Rightarrow> ustr option" where
  "json_text v = (case v of JStr s \<Rightarrow> Some s | _ \<Rightarrow> None)"

type_synonym json_loads = "bytes \<Rightarrow> json option"

definition control_file_names :: "ustr set" where
  "control_file_names = {u ''go.mod'', u ''jsconfig.json'', u ''package.json'', u ''pyproject.toml'', u ''tsconfig.json''}"

definition base_name :: "ustr \<Rightarrow> ustr" where
  "base_name path = path_name (pure_path path)"

definition control_paths :: "snapshot_bundle \<Rightarrow> ustr list" where
  "control_paths bundle = filter (\<lambda>path. base_name path \<in> control_file_names) (sort (dict_keys (sb_contents bundle)))"

text \<open>The \<open>paths\<close> of one configuration: patterns in order, with the replacements that are strings.\<close>

definition ts_paths :: "(ustr, json) dict \<Rightarrow> (ustr \<times> ustr list) list" where
  "ts_paths options =
     List.map_filter
       (\<lambda>(pattern, v). case v of
          JArr vs \<Rightarrow> (let replacements = List.map_filter json_text vs
                     in if replacements = [] then None else Some (pattern, replacements))
        | _ \<Rightarrow> None)
       (sort_key fst (object_dict (get_field options ''paths'')))"

definition load_ts_config :: "json_loads \<Rightarrow> ustr \<times> bytes \<Rightarrow> ts_config option" where
  "load_ts_config loads entry =
     (if base_name (fst entry) \<notin> {u ''jsconfig.json'', u ''tsconfig.json''} then None
      else case loads (snd entry) of
        None \<Rightarrow> None
      | Some raw \<Rightarrow>
          let options = object_dict (get_field (object_dict raw) ''compilerOptions'')
          in Some \<lparr>tc_directory = directory_of (fst entry),
                   tc_base_url = (case json_text (get_field options ''baseUrl'') of None \<Rightarrow> [] | Some s \<Rightarrow> s),
                   tc_paths = ts_paths options\<rparr>)"

definition path_parts_count :: "ustr \<Rightarrow> int" where
  "path_parts_count path =
     (let p = pure_path path in int (length (pp_parts p)) + (if is_absolute p then 1 else 0))"

definition load_ts_configs :: "json_loads \<Rightarrow> snapshot_bundle \<Rightarrow> ts_config list" where
  "load_ts_configs loads bundle =
     sort_key (\<lambda>c. (- path_parts_count (tc_directory c), tc_directory c))
       (List.map_filter (load_ts_config loads) (sorted_contents bundle))"

definition load_package :: "json_loads \<Rightarrow> ustr \<times> bytes \<Rightarrow> package option" where
  "load_package loads entry =
     (if base_name (fst entry) \<noteq> u ''package.json'' then None
      else case loads (snd entry) of
        None \<Rightarrow> None
      | Some raw \<Rightarrow>
          let manifest = object_dict raw in
          (case json_text (get_field manifest ''name'') of
             None \<Rightarrow> None
           | Some name \<Rightarrow>
               if name = [] then None
               else Some \<lparr>pk_directory = directory_of (fst entry), pk_name = name,
                          pk_exports = get_field manifest ''exports'',
                          pk_default = json_text (case map_of manifest (u ''module'') of
                            Some v \<Rightarrow> v | None \<Rightarrow> get_field manifest ''main'')\<rparr>))"

definition load_packages :: "json_loads \<Rightarrow> snapshot_bundle \<Rightarrow> package list" where
  "load_packages loads bundle =
     sort_key (\<lambda>p. (- int (length (pk_name p)), pk_name p))
       (List.map_filter (load_package loads) (sorted_contents bundle))"

fun module_of_lines :: "ustr list \<Rightarrow> ustr option" where
  "module_of_lines [] = None"
| "module_of_lines (line # lines) =
     (let parts = words_of [] line in
      if length parts = 2 \<and> hd parts = u ''module'' then Some (parts ! 1) else module_of_lines lines)"

definition load_go_module :: "snapshot_bundle \<Rightarrow> ustr option" where
  "load_go_module bundle =
     (case map_of (sb_contents bundle) (u ''go.mod'') of
        None \<Rightarrow> None
      | Some content \<Rightarrow> (case utf8_decode content of None \<Rightarrow> None | Some s \<Rightarrow> module_of_lines (split_lines [] s)))"

record module_resolver =
  mr_bundle :: snapshot_bundle
  mr_paths :: "ustr set"
  mr_ts_configs :: "ts_config list"
  mr_packages :: "package list"
  mr_go_module :: "ustr option"

definition make_resolver :: "json_loads \<Rightarrow> snapshot_bundle \<Rightarrow> module_resolver" where
  "make_resolver loads bundle =
     \<lparr>mr_bundle = bundle, mr_paths = set (dict_keys (sb_contents bundle)), mr_ts_configs = load_ts_configs loads bundle,
      mr_packages = load_packages loads bundle, mr_go_module = load_go_module bundle\<rparr>"

subsection \<open>Targets\<close>

datatype module_reason =
    OtherWorkspace
  | OtherSource
  | UnsupportedLanguage ustr
  | EscapesWorkspace
  | NoCapturedModule ustr
  | UnresolvedPackage ustr
  | UnresolvedPython ustr
  | UnresolvedGo ustr
  | NoGoFile ustr
  | GenerationIssue verification_issue

type_synonym target = "ustr option \<times> module_reason list"

definition typescript_suffixes :: "ustr list" where
  "typescript_suffixes = map u [''.ts'', ''.tsx'', ''.mts'', ''.cts'', ''.js'', ''.jsx'', ''.mjs'', ''.cjs'']"

definition possibilities :: "ustr \<Rightarrow> ustr list \<Rightarrow> ustr list" where
  "possibilities candidate exts =
     [candidate] @ (if path_suffix (pure_path candidate) = [] then map (\<lambda>s. candidate @ s) exts else [])
     @ map (\<lambda>s. candidate @ u ''/index'' @ s) exts"

definition resolved_file :: "ustr set \<Rightarrow> ustr option \<Rightarrow> ustr list \<Rightarrow> target" where
  "resolved_file paths candidate exts =
     (case candidate of
        None \<Rightarrow> (None, [EscapesWorkspace])
      | Some c \<Rightarrow>
          (case List.find (\<lambda>path. path \<in> paths) (possibilities c exts) of
             Some path \<Rightarrow> (Some path, [])
           | None \<Rightarrow> (None, [NoCapturedModule c])))"

lemma json_size_array: "v \<in> set vs \<Longrightarrow> size v < size (JArr vs)"
  by (induction vs) auto

lemma json_size_object: "map_of d k = Some v \<Longrightarrow> size v < size (JObj d)"
  by (induction d) (auto split: if_split_asm)

function conditional_target :: "json \<Rightarrow> ustr option" where
  "conditional_target (JStr s) = Some s"
| "conditional_target (JArr vs) = first_some conditional_target vs"
| "conditional_target (JObj d) =
     (if d = [] then None
      else first_some (\<lambda>condition. case map_of d condition of None \<Rightarrow> None | Some v \<Rightarrow> conditional_target v)
             (map u [''types'', ''import'', ''default'', ''require''] @ sort (dict_keys d)))"
| "conditional_target JNull = None"
| "conditional_target (JBool b) = None"
| "conditional_target (JInt n) = None"
| "conditional_target (JFloat _) = None"
| "conditional_target (JOther _) = None"
  by pat_completeness auto
termination
  by (relation "measure size") (auto intro: json_size_array [simplified] json_size_object [simplified])

definition export_target :: "json \<Rightarrow> ustr \<Rightarrow> ustr option" where
  "export_target exports subpath =
     (case exports of
        JStr s \<Rightarrow> if subpath = u ''.'' then Some s else None
      | JObj mapping \<Rightarrow>
          if mapping = [] then None
          else if \<exists>key \<in> set (dict_keys mapping). startswith key (u ''.'')
          then (case map_of mapping subpath of None \<Rightarrow> None | Some v \<Rightarrow> conditional_target v)
          else if subpath = u ''.'' then conditional_target exports else None
      | _ \<Rightarrow> None)"

definition match_path_pattern :: "ustr \<Rightarrow> ustr \<Rightarrow> ustr option" where
  "match_path_pattern pattern specifier =
     (if 42 \<notin> set pattern then (if pattern = specifier then Some [] else None)
      else let before = takeWhile (\<lambda>c. c \<noteq> 42) pattern; after = drop (Suc (length before)) pattern in
        if \<not> startswith specifier before \<or> \<not> endswith specifier after then None
        else Some (slice specifier (length before) (length specifier - length after)))"

definition expand_wildcard :: "ustr \<Rightarrow> ustr \<Rightarrow> ustr" where
  "expand_wildcard replacement wildcard = concat (map (\<lambda>c. if c = 42 then wildcard else [c]) replacement)"

subsection \<open>Resolution\<close>

definition applicable_ts_configs :: "module_resolver \<Rightarrow> ustr \<Rightarrow> ts_config list" where
  "applicable_ts_configs r source_path =
     filter (\<lambda>c. tc_directory c = [] \<or> startswith source_path (tc_directory c @ slash)) (mr_ts_configs r)"

text \<open>The body of the loop over the configurations: path patterns first, then the base URL.\<close>

definition config_target :: "module_resolver \<Rightarrow> ustr \<Rightarrow> ts_config \<Rightarrow> ustr option" where
  "config_target r specifier config =
     (case first_some
        (\<lambda>(pattern, replacements).
           (case match_path_pattern pattern specifier of
              None \<Rightarrow> None
            | Some wildcard \<Rightarrow>
                first_some (\<lambda>replacement.
                  fst (resolved_file (mr_paths r)
                    (join_workspace [tc_directory config, tc_base_url config, expand_wildcard replacement wildcard])
                    typescript_suffixes)) replacements))
        (tc_paths config) of
        Some target \<Rightarrow> Some target
      | None \<Rightarrow>
          fst (resolved_file (mr_paths r) (join_workspace [tc_directory config, tc_base_url config, specifier])
                 typescript_suffixes))"

text \<open>The first package whose name matches decides.\<close>

fun resolve_package :: "ustr set \<Rightarrow> package list \<Rightarrow> ustr \<Rightarrow> ustr option" where
  "resolve_package paths [] specifier = None"
| "resolve_package paths (package # packages) specifier =
     (if specifier \<noteq> pk_name package \<and> \<not> startswith specifier (pk_name package @ slash)
      then resolve_package paths packages specifier
      else
        let subpath = (if specifier = pk_name package then u ''.''
                       else u ''./'' @ removeprefix specifier (pk_name package @ slash));
            exported = export_target (pk_exports package) subpath;
            defaulted = (if exported = None \<and> subpath = u ''.''
                         then Some (case pk_default package of
                           None \<Rightarrow> u ''index'' | Some d \<Rightarrow> if d = [] then u ''index'' else d)
                         else exported);
            target = (case defaulted of None \<Rightarrow> removeprefix subpath (u ''./'') | Some t \<Rightarrow> t)
        in fst (resolved_file paths (join_workspace [pk_directory package, target]) typescript_suffixes))"

definition resolve_typescript :: "module_resolver \<Rightarrow> ustr \<Rightarrow> ustr \<Rightarrow> target" where
  "resolve_typescript r source_path specifier =
     (if startswith specifier (u ''.'')
      then resolved_file (mr_paths r) (join_workspace [directory_of source_path, specifier]) typescript_suffixes
      else case first_some (config_target r specifier) (applicable_ts_configs r source_path) of
        Some target \<Rightarrow> (Some target, [])
      | None \<Rightarrow>
          (case resolve_package (mr_paths r) (mr_packages r) specifier of
             Some target \<Rightarrow> (Some target, [])
           | None \<Rightarrow> (None, [UnresolvedPackage specifier])))"

text \<open>\<open>str.replace('.', '/')\<close>\<close>

definition dots_to_slashes :: "ustr \<Rightarrow> ustr" where
  "dots_to_slashes s = map (\<lambda>c. if c = 46 then 47 else c) s"

definition resolve_python :: "ustr set \<Rightarrow> ustr \<Rightarrow> ustr \<Rightarrow> target" where
  "resolve_python paths source_path specifier =
     (let module_name = lstrip_char 46 specifier;
          level = length specifier - length module_name;
          candidate = (if level > 0
            then join_workspace [(directory_of ^^ (level - 1)) (directory_of source_path), dots_to_slashes module_name]
            else join_workspace [dots_to_slashes specifier])
      in if candidate = None then (None, [EscapesWorkspace])
         else case resolved_file paths candidate [u ''.py''] of
           (Some target, _) \<Rightarrow> (Some target, [])
         | (None, _) \<Rightarrow> (None, [UnresolvedPython specifier]))"

definition resolve_go :: "ustr list \<Rightarrow> ustr option \<Rightarrow> ustr \<Rightarrow> ustr \<Rightarrow> target" where
  "resolve_go paths go_module source_path specifier =
     (let directory =
        (if startswith specifier (u ''.'') then join_workspace [directory_of source_path, specifier]
         else case go_module of
           None \<Rightarrow> None
         | Some m \<Rightarrow>
             if specifier = m \<or> startswith specifier (m @ slash)
             then Some (removeprefix (removeprefix specifier m) slash) else None)
      in case directory of
           None \<Rightarrow> (None, [UnresolvedGo specifier])
         | Some d \<Rightarrow>
             let before = (if d = [] then [] else d @ slash);
                 candidates = sort (filter (\<lambda>path. startswith path before \<and> 47 \<notin> set (drop (length before) path)
                   \<and> endswith path (u ''.go'') \<and> \<not> endswith path (u ''_test.go'')) (remdups paths))
             in (case candidates of [] \<Rightarrow> (None, [NoGoFile specifier]) | c # _ \<Rightarrow> (Some c, [])))"

record module_resolution =
  mo_source :: ustr
  mo_specifier :: ustr
  mo_target :: "ustr option"
  mo_fingerprint :: ustr
  mo_complete :: bool
  mo_reasons :: "module_reason list"

definition unresolved :: "ustr \<Rightarrow> ustr \<Rightarrow> semantic_generation \<Rightarrow> module_reason list \<Rightarrow> module_resolution" where
  "unresolved source_path specifier g reasons =
     \<lparr>mo_source = source_path, mo_specifier = specifier, mo_target = None, mo_fingerprint = sg_fingerprint g,
      mo_complete = False, mo_reasons = reasons @ map GenerationIssue (sg_issues g)\<rparr>"

text \<open>The language of the first captured row of the path, in lower case.\<close>

definition language_for :: "module_resolver \<Rightarrow> ustr \<Rightarrow> ustr" where
  "language_for r source_path =
     (case List.find (\<lambda>row. cf_path row = source_path) (sb_files (mr_bundle r)) of
        None \<Rightarrow> []
      | Some row \<Rightarrow> (case cf_language row of None \<Rightarrow> [] | Some l \<Rightarrow> map ascii_lower l))"

definition typescript_languages :: "ustr set" where
  "typescript_languages = {u ''javascript'', u ''typescript'', u ''tsx'', u ''typescriptreact''}"

definition resolve_module :: "module_resolver \<Rightarrow> ustr \<Rightarrow> ustr \<Rightarrow> semantic_generation \<Rightarrow> module_resolution" where
  "resolve_module r source_path specifier g =
     (if gp_workspace (sg_payload g) \<noteq> sb_workspace (mr_bundle r)
      then unresolved source_path specifier g [OtherWorkspace]
      else if gp_requested (sg_payload g) \<noteq> source_path then unresolved source_path specifier g [OtherSource]
      else
        let language = language_for r source_path;
            (target, reasons) =
              (if language \<in> typescript_languages then resolve_typescript r source_path specifier
               else if language = u ''python'' then resolve_python (mr_paths r) source_path specifier
               else if language = u ''go''
               then resolve_go (dict_keys (sb_contents (mr_bundle r))) (mr_go_module r) source_path specifier
               else (None, [UnsupportedLanguage (if language = [] then u ''unknown'' else language)]))
        in case target of
             None \<Rightarrow> unresolved source_path specifier g reasons
           | Some t \<Rightarrow>
               \<lparr>mo_source = source_path, mo_specifier = specifier, mo_target = Some t,
                mo_fingerprint = sg_fingerprint g, mo_complete = sg_complete g,
                mo_reasons = (if sg_complete g then [] else map GenerationIssue (sg_issues g))\<rparr>)"

text \<open>\<open>module_generation\<close>: every captured path is a dependency or a control.\<close>

definition module_generation :: "digests \<Rightarrow> ustr \<Rightarrow> snapshot_bundle \<Rightarrow> ustr \<Rightarrow> (generation_error, semantic_generation) result" where
  "module_generation dg config_digest bundle source_path =
     (let controls = control_paths bundle;
          dependencies = filter (\<lambda>path. path \<noteq> source_path \<and> path \<notin> set controls) (sort (dict_keys (sb_contents bundle)))
      in from_snapshot dg bundle
           \<lparr>gr_provider = u ''soleaux-module-resolver'', gr_config = config_digest, gr_epoch = 0,
            gr_requested = source_path, gr_dependencies = dependencies, gr_controls = controls, gr_project = None\<rparr>)"


subsection \<open>Candidates stay inside the workspace\<close>

text \<open>The reference walk: a directory stack that \<open>..\<close> pops, and that may not leave its root.\<close>

fun walk :: "ustr list \<Rightarrow> ustr list \<Rightarrow> ustr list option" where
  "walk stack [] = Some (rev stack)"
| "walk stack (part # parts) =
     (if part = [] \<or> part = u ''.'' then walk stack parts
      else if part = u ''..'' then (case stack of [] \<Rightarrow> None | _ # rest \<Rightarrow> walk rest parts)
      else walk (part # stack) parts)"

lemma dots_simps [simp]: "u ''..'' \<noteq> []" "u ''..'' \<noteq> u ''.''" "u ''.'' \<noteq> []" "u ''.'' \<noteq> u ''..''"
  by (simp_all add: u_def)

lemma walk_plain:
  assumes "walk stack parts = Some c" and "\<forall>p \<in> set stack. plain_part p" and "\<forall>p \<in> set parts. 47 \<notin> set p"
  shows "\<forall>p \<in> set c. plain_part p"
  using assms
proof (induction stack parts rule: walk.induct)
  case (2 stack part parts)
  consider "part = [] \<or> part = u ''.''" | "part = u ''..''" | "part \<noteq> []" "part \<noteq> u ''.''" "part \<noteq> u ''..''"
    by blast
  then show ?case
  proof cases
    case 1
    then have "walk stack parts = Some c" using 2 (4) by simp
    then show ?thesis using 2 (1) [OF 1] 2 (5,6) by simp
  next
    case part: 2
    then obtain x rest where "stack = x # rest" and "walk rest parts = Some c"
      using 2 (4) by (cases stack) simp_all
    then show ?thesis using 2 (2) part 2 (5,6) by simp
  next
    case 3
    then have step: "walk (part # stack) parts = Some c" using 2 (4) by simp
    have plain: "\<forall>p \<in> set (part # stack). plain_part p" using 3 2 (5,6) by (simp add: plain_part_def)
    have other: "\<not> (part = [] \<or> part = u ''.'')" using 3 by blast
    have rest: "\<forall>p \<in> set parts. 47 \<notin> set p" using 2 (6) by simp
    show ?thesis by (rule 2 (3) [OF other 3 (3) step plain rest])
  qed
qed auto

lemma norm_components_keeps_escape:
  "stack \<noteq> [] \<Longrightarrow> last stack = u ''..'' \<Longrightarrow>
   norm_components False stack parts \<noteq> [] \<and> last (norm_components False stack parts) = u ''..''"
proof (induction parts arbitrary: stack)
  case (Cons part parts)
  then obtain x rest where stack: "stack = x # rest" by (cases stack) auto
  show ?case
  proof (cases "part = u ''..'' \<and> x \<noteq> u ''..''")
    case True
    then have "rest \<noteq> []" using Cons.prems stack by auto
    then show ?thesis using Cons.IH [of rest] Cons.prems True stack by simp
  next
    case False
    then show ?thesis using Cons.IH [of stack] Cons.IH [of "part # stack"] Cons.prems stack by auto
  qed
qed simp

lemma norm_components_walk:
  assumes "\<forall>p \<in> set stack. p \<noteq> u ''..''"
  shows "case walk stack parts of
      Some c \<Rightarrow> norm_components False stack parts = rev c
    | None \<Rightarrow> norm_components False stack parts \<noteq> [] \<and> last (norm_components False stack parts) = u ''..''"
  using assms
proof (induction stack parts rule: walk.induct)
  case (2 stack part parts)
  show ?case
  proof (cases "part = u ''..''")
    case True
    show ?thesis
    proof (cases stack)
      case Nil
      then show ?thesis using True norm_components_keeps_escape [of "[u ''..'']" parts] by simp
    next
      case (Cons x rest)
      then have step: "norm_components False stack (part # parts) = norm_components False rest parts"
          "walk stack (part # parts) = walk rest parts"
        using True 2 (4) by simp_all
      have other: "\<not> (part = [] \<or> part = u ''.'')" using True by simp
      have rest: "\<forall>p \<in> set rest. p \<noteq> u ''..''" using 2 (4) Cons by simp
      show ?thesis unfolding step by (rule 2 (2) [OF other True Cons rest])
    qed
  next
    case False
    show ?thesis
    proof (cases "part = [] \<or> part = u ''.''")
      case True
      then have step: "norm_components False stack (part # parts) = norm_components False stack parts"
          "walk stack (part # parts) = walk stack parts"
        by simp_all
      show ?thesis unfolding step by (rule 2 (1) [OF True 2 (4)])
    next
      case other: False
      then have step: "norm_components False stack (part # parts) = norm_components False (part # stack) parts"
          "walk stack (part # parts) = walk (part # stack) parts"
        using False by simp_all
      have rest: "\<forall>p \<in> set (part # stack). p \<noteq> u ''..''" using 2 (4) False by simp
      show ?thesis unfolding step by (rule 2 (3) [OF other False rest])
    qed
  qed
qed simp

lemma split_on_append: "c \<notin> set x \<Longrightarrow> split_on c (x @ c # r) = x # split_on c r"
  by (induction x) auto

lemma split_on_single: "c \<notin> set x \<Longrightarrow> split_on c x = [x]"
  by (induction x) auto

lemma slash_eq: "slash = [47]"
  by (simp add: slash_def u_def)

lemma startswith_split: "startswith s p \<Longrightarrow> s = p @ drop (length p) s"
  unfolding startswith_def by (metis append_take_drop_id)

lemma split_joined:
  assumes "c \<noteq> []" and "\<forall>p \<in> set c. 47 \<notin> set p"
  shows "split_on 47 (join_with slash c) = c"
  using split_join_on [OF assms] by (simp add: slash_eq)

lemma joined_starts:
  assumes "c \<noteq> []" and "\<forall>p \<in> set c. 47 \<notin> set p" and "47 \<notin> set x"
    and "startswith (join_with slash c) (x @ [47])"
  shows "hd c = x"
proof -
  have "join_with slash c = x @ 47 # drop (length (x @ [47])) (join_with slash c)"
    using startswith_split [OF assms(4)] by simp
  then have "split_on 47 (join_with slash c) = x # split_on 47 (drop (length (x @ [47])) (join_with slash c))"
    using split_on_append [OF assms(3)] by metis
  then show ?thesis using split_joined [OF assms(1,2)] by (metis list.sel(1))
qed

lemma joined_eq:
  assumes "c \<noteq> []" and "\<forall>p \<in> set c. 47 \<notin> set p" and "47 \<notin> set x" and "join_with slash c = x"
  shows "c = [x]"
  using split_joined [OF assms(1,2)] split_on_single [OF assms(3)] assms(4) by metis


lemma normpath_relative:
  assumes "path \<noteq> []" and "\<not> startswith path slash"
  shows "normpath path = (let body = join_with slash (rev (norm_components False [] (split_on 47 path)))
    in if body = [] then u ''.'' else body)"
proof -
  obtain c cs where path: "path = c # cs" using assms(1) by (cases path) auto
  have "c \<noteq> 47" using assms(2) path by (simp add: slash_eq startswith_def)
  then have "\<not> startswith path (u ''//'')" using path by (simp add: u_def startswith_def)
  then show ?thesis using assms by (simp add: normpath_def Let_def)
qed

lemma plain_join_relative:
  assumes "c \<noteq> []" and "\<forall>p \<in> set c. plain_part p"
  shows "join_with slash c \<noteq> []" "join_with slash c \<noteq> u ''.''" "join_with slash c \<noteq> u ''..''"
    "\<not> startswith (join_with slash c) slash" "\<not> startswith (join_with slash c) (u ''../'')"
    "\<not> startswith (join_with slash c) (u ''./'')"
proof -
  have clean: "\<forall>p \<in> set c. 47 \<notin> set p" using assms(2) by (simp add: plain_part_def)
  have head: "plain_part (hd c)" using assms by simp
  have no: "join_with slash c \<noteq> x" if "47 \<notin> set x" "\<not> plain_part x" for x
  proof
    assume "join_with slash c = x"
    then have "x \<in> set c" using joined_eq [OF assms(1) clean that(1)] by (metis list.set_intros(1))
    then show False using that(2) assms(2) by blast
  qed
  have start: "\<not> startswith (join_with slash c) (x @ [47])" if "47 \<notin> set x" "\<not> plain_part x" for x
    using joined_starts [OF assms(1) clean that(1)] that(2) head by blast
  show "join_with slash c \<noteq> []" "join_with slash c \<noteq> u ''.''" "join_with slash c \<noteq> u ''..''"
    by (rule no; simp add: plain_part_def u_def)+
  show "\<not> startswith (join_with slash c) slash"
    using start [of "[]"] by (simp add: plain_part_def slash_eq)
  show "\<not> startswith (join_with slash c) (u ''../'')"
    using start [of "u ''..''"] by (simp add: plain_part_def u_def)
  show "\<not> startswith (join_with slash c) (u ''./'')"
    using start [of "u ''.''"] by (simp add: plain_part_def u_def)
qed

lemma join_workspace_relative:
  assumes "\<not> startswith joined slash" and "joined = posix_join (hd parts) (tl parts)"
  shows "join_workspace parts = map_option (join_with slash) (walk [] (split_on 47 joined))"
proof (cases "joined = []")
  case True
  then show ?thesis using assms(2) by (simp add: join_workspace_def normpath_def)
next
  case False
  define comps where "comps = rev (norm_components False [] (split_on 47 joined))"
  have normal: "normpath joined = (if join_with slash comps = [] then u ''.'' else join_with slash comps)"
    using normpath_relative [OF False assms(1)] by (simp add: comps_def)
  have pieces: "\<forall>p \<in> set (split_on 47 joined). 47 \<notin> set p" by (auto dest: split_on_no_sep)
  show ?thesis
  proof (cases "walk [] (split_on 47 joined)")
    case None
    then have last: "comps \<noteq> []" "hd comps = u ''..''"
      using norm_components_walk [of "[]" "split_on 47 joined"] by (simp_all add: comps_def hd_rev)
    then obtain rest where comps: "comps = u ''..'' # rest" by (cases comps) auto
    have "normpath joined = (if rest = [] then u ''..'' else u ''../'' @ join_with slash rest)"
      unfolding normal comps by (auto simp: join_with_Cons slash_def u_def)
    then have "normpath joined = u ''..'' \<or> startswith (normpath joined) (u ''../'')" by (metis startswith_append)
    moreover have "normpath joined \<noteq> []" "normpath joined \<noteq> u ''.''"
      using calculation by (auto simp: startswith_def u_def)
    ultimately show ?thesis using None assms(2) by (auto simp: join_workspace_def Let_def)
  next
    case (Some c)
    then have "comps = c"
      using norm_components_walk [of "[]" "split_on 47 joined"] by (simp add: comps_def)
    moreover have "\<forall>p \<in> set c. plain_part p" using walk_plain [OF Some] pieces by simp
    ultimately show ?thesis
      using Some normal plain_join_relative [of c] assms(2)
      by (cases "c = []") (simp_all add: join_workspace_def Let_def removeprefix_def)
  qed
qed


lemma normpath_absolute: "startswith path slash \<Longrightarrow> startswith (normpath path) slash"
  by (cases path) (auto simp: normpath_def Let_def startswith_def slash_eq u_def)

text \<open>The candidate that \<open>_join_workspace\<close> computes through \<open>posixpath.join\<close> and \<open>posixpath.normpath\<close> is
  the walk from the workspace root along the joined path: an absolute path or a \<open>..\<close> that would
  leave the root gives \<open>None\<close>, anything else the parts that remain.
\<close>

theorem join_workspace_walks:
  "join_workspace parts =
     (let joined = posix_join (hd parts) (tl parts)
      in if startswith joined slash then None
         else map_option (join_with slash) (walk [] (split_on 47 joined)))"
proof (cases "startswith (posix_join (hd parts) (tl parts)) slash")
  case True
  then have "startswith (normpath (posix_join (hd parts) (tl parts))) slash" by (rule normpath_absolute)
  then show ?thesis using True by (auto simp: join_workspace_def Let_def startswith_def slash_eq u_def)
next
  case False
  then show ?thesis using join_workspace_relative [OF False refl] by (simp add: Let_def)
qed


subsection \<open>Resolution answers with captured paths\<close>

definition within :: "ustr set \<Rightarrow> target \<Rightarrow> bool" where
  "within paths t \<longleftrightarrow> (case fst t of Some path \<Rightarrow> path \<in> paths | None \<Rightarrow> snd t \<noteq> [])"

lemma within_Pair [simp]:
  "within paths (Some path, reasons) \<longleftrightarrow> path \<in> paths"
  "within paths (None, reasons) \<longleftrightarrow> reasons \<noteq> []"
  by (simp_all add: within_def)

lemma within_resolved_file [simp]: "within paths (resolved_file paths candidate exts)"
  by (auto simp: resolved_file_def find_Some_iff split: option.split)

lemma resolved_file_mem: "fst (resolved_file paths candidate exts) = Some path \<Longrightarrow> path \<in> paths"
  using within_resolved_file [of paths candidate exts] by (simp add: within_def)

lemma config_target_mem: "config_target r specifier config = Some path \<Longrightarrow> path \<in> mr_paths r"
  unfolding config_target_def
  by (auto split: option.split_asm prod.split_asm dest!: first_some_Some dest: resolved_file_mem)

lemma resolve_package_mem: "resolve_package paths packages specifier = Some path \<Longrightarrow> path \<in> paths"
  by (induction packages) (auto simp: Let_def split: if_split_asm dest: resolved_file_mem)

lemma within_typescript: "within (mr_paths r) (resolve_typescript r source specifier)"
  unfolding resolve_typescript_def
  by (auto split: option.split dest: first_some_Some config_target_mem resolve_package_mem)

lemma resolved_file_pair: "resolved_file paths candidate exts = (Some path, reasons) \<Longrightarrow> path \<in> paths"
  using resolved_file_mem [of paths candidate exts path] by simp

lemma within_python: "within paths (resolve_python paths source specifier)"
  unfolding resolve_python_def Let_def
  by (auto split: option.split prod.split dest: resolved_file_pair)

lemma within_first:
  assumes "\<And>d. set (candidates d) \<subseteq> paths"
  shows "within paths (case directory of None \<Rightarrow> (None, [x])
    | Some d \<Rightarrow> (case candidates d of [] \<Rightarrow> (None, [y]) | c # _ \<Rightarrow> (Some c, [])))"
proof (cases directory)
  case (Some d)
  then show ?thesis using assms [of d] by (cases "candidates d") simp_all
qed simp

lemma within_go: "within (set paths) (resolve_go paths module source specifier)"
  unfolding resolve_go_def Let_def by (rule within_first) auto

text \<open>What one resolution promises about the captured paths and the generation it was made for.\<close>

definition resolution_ok :: "snapshot_bundle \<Rightarrow> ustr \<Rightarrow> ustr \<Rightarrow> semantic_generation \<Rightarrow> module_resolution \<Rightarrow> bool" where
  "resolution_ok bundle source specifier g m \<longleftrightarrow>
     mo_source m = source \<and> mo_specifier m = specifier \<and> mo_fingerprint m = sg_fingerprint g \<and>
     (case mo_target m of
        Some path \<Rightarrow>
          path \<in> set (dict_keys (sb_contents bundle)) \<and> mo_complete m = sg_complete g \<and>
          mo_reasons m = (if sg_complete g then [] else map GenerationIssue (sg_issues g)) \<and>
          gp_workspace (sg_payload g) = sb_workspace bundle \<and> gp_requested (sg_payload g) = source
      | None \<Rightarrow> \<not> mo_complete m \<and> mo_reasons m \<noteq> [])"

lemma resolution_ok_unresolved: "reasons \<noteq> [] \<Longrightarrow> resolution_ok bundle source specifier g (unresolved source specifier g reasons)"
  by (simp add: resolution_ok_def unresolved_def)

text \<open>The target of one resolution before the generation is attached.\<close>

definition language_target :: "module_resolver \<Rightarrow> ustr \<Rightarrow> ustr \<Rightarrow> target" where
  "language_target r source specifier =
     (let language = language_for r source in
      if language \<in> typescript_languages then resolve_typescript r source specifier
      else if language = u ''python'' then resolve_python (mr_paths r) source specifier
      else if language = u ''go''
      then resolve_go (dict_keys (sb_contents (mr_bundle r))) (mr_go_module r) source specifier
      else (None, [UnsupportedLanguage (if language = [] then u ''unknown'' else language)]))"

lemma within_language_target:
  assumes "mr_paths r = set (dict_keys (sb_contents (mr_bundle r)))"
  shows "within (mr_paths r) (language_target r source specifier)"
  using within_typescript [of r source specifier] within_python [of "mr_paths r" source specifier]
    within_go [of "dict_keys (sb_contents (mr_bundle r))" "mr_go_module r" source specifier]
  unfolding language_target_def Let_def assms by (simp split: if_split)

lemma resolve_module_target:
  "resolve_module r source specifier g =
     (if gp_workspace (sg_payload g) \<noteq> sb_workspace (mr_bundle r)
      then unresolved source specifier g [OtherWorkspace]
      else if gp_requested (sg_payload g) \<noteq> source then unresolved source specifier g [OtherSource]
      else case fst (language_target r source specifier) of
         None \<Rightarrow> unresolved source specifier g (snd (language_target r source specifier))
       | Some t \<Rightarrow>
           \<lparr>mo_source = source, mo_specifier = specifier, mo_target = Some t,
            mo_fingerprint = sg_fingerprint g, mo_complete = sg_complete g,
            mo_reasons = (if sg_complete g then [] else map GenerationIssue (sg_issues g))\<rparr>)"
  unfolding resolve_module_def language_target_def Let_def by (simp only: split_beta)

text \<open>C34: Resolving a specifier against a snapshot echoes the source, the specifier and the generation's
  fingerprint. A resolved target is a captured path, made for a generation of the same workspace
  and source, and is complete exactly when the generation is, with the generation's issues as
  the reasons otherwise. Without a target the answer is incomplete and gives a reason.
\<close>

theorem resolution_sound:
  "resolution_ok bundle source specifier g (resolve_module (make_resolver loads bundle) source specifier g)"
proof -
  define r where "r = make_resolver loads bundle"
  have r: "mr_bundle r = bundle" "mr_paths r = set (dict_keys (sb_contents (mr_bundle r)))"
    by (simp_all add: r_def make_resolver_def)
  have target: "within (mr_paths r) (language_target r source specifier)"
    by (rule within_language_target [OF r(2)])
  show ?thesis
    unfolding r_def [symmetric] resolve_module_target
    using target r
    by (cases "fst (language_target r source specifier)")
      (simp_all add: resolution_ok_unresolved within_def, simp add: resolution_ok_def)
qed

subsection \<open>Where resolution departs from the languages' rules\<close>

text \<open>
  A package directory with an \<open>__init__.py\<close> is looked up as \<open>index.py\<close>: a captured regular package
  is reported as external, absolutely and relatively.
\<close>

lemma python_package_unresolved:
  "resolve_python {u ''pkg/__init__.py'', u ''pkg/a.py''} (u ''main.py'') (u ''pkg'') =
     (None, [UnresolvedPython (u ''pkg'')])"
  "resolve_python {u ''pkg/__init__.py'', u ''pkg/a.py''} (u ''pkg/a.py'') (u ''.'') =
     (None, [UnresolvedPython (u ''.'')])"
  by code_simp+

text \<open>A relative import with more dots than directories stops at the root instead of escaping.\<close>

lemma python_dots_clamped:
  "resolve_python {u ''b.py''} (u ''pkg/a.py'') (u ''....b'') = (Some (u ''b.py''), [])"
  by code_simp

text \<open>The two ends of a pattern may overlap in the specifier.\<close>

lemma pattern_ends_overlap: "match_path_pattern (u ''ab*ba'') (u ''aba'') = Some []"
  by code_simp

text \<open>\<open>import "."\<close> next to an index file of the workspace root looks for \<open>/index.ts\<close>.\<close>

lemma root_index_unresolved:
  "resolved_file {u ''index.ts''} (join_workspace [directory_of (u ''app.ts''), u ''.'']) typescript_suffixes =
     (None, [NoCapturedModule []])"
  by code_simp

end
