(* ===== verification/Chunks.thy ===== *)
theory Chunks
  imports Texts Generations
begin

text \<open>
  Retrieval chunks (the first part of \<open>catalog/generation.py\<close>): which captured files are cut, and
  the byte- and line-bounded segments of each. The lemmas show that cutting always ends, that
  the segments tile the file, and that each is within its limits and is the text of its lines.
\<close>

subsection \<open>Eligibility\<close>

definition chunk_kind :: "ustr \<Rightarrow> ustr" where
  "chunk_kind path =
     (let name = path_name (pure_path path) in
      if name \<in> {u ''AGENTS.md'', u ''SKILL.md''} then u ''instruction''
      else if name \<in> {u ''package.json'', u ''pyproject.toml'', u ''pnpm-workspace.yaml''} then u ''manifest''
      else if (\<exists>p \<in> {u ''tsconfig'', u ''jsconfig''}. startswith name p)
        \<or> (\<exists>e \<in> {u ''.json'', u ''.jsonc'', u ''.toml'', u ''.yaml'', u ''.yml''}. endswith name e)
      then u ''configuration''
      else if \<exists>e \<in> {u ''.md'', u ''.mdx''}. endswith name e then u ''section''
      else u ''source'')"

definition excluded_names :: "ustr set" where
  "excluded_names = {u ''bun.lock'', u ''package-lock.json'', u ''pnpm-lock.yaml'', u ''uv.lock'', u ''yarn.lock''}"

definition excluded_parts :: "ustr set" where
  "excluded_parts = {u ''.git'', u ''.next'', u ''.turbo'', u ''.venv'', u ''build'', u ''coverage'', u ''dist'',
     u ''node_modules'', u ''vendor''}"

definition eligible_for_chunks :: "ustr \<Rightarrow> bytes \<Rightarrow> bool" where
  "eligible_for_chunks path content =
     (let p = pure_path path; name = path_name p in
      if name \<in> excluded_names then False
      else if \<exists>part \<in> set (pp_parts p). part \<in> excluded_parts then False
      else if \<exists>e \<in> {u ''.min.js'', u ''.min.css'', u ''.map''}. endswith name e then False
      else length content \<le> 4 * 1024 * 1024)"

subsection \<open>Cutting one file\<close>

definition DEFAULT_CHUNK_BYTES :: nat where "DEFAULT_CHUNK_BYTES = 8 * 1024"

definition DEFAULT_CHUNK_LINES :: nat where "DEFAULT_CHUNK_LINES = 120"

text \<open>The inner loop of \<open>_split_large_line\<close>; \<open>None\<close> is the \<open>IndexError\<close> of running off the front.\<close>

function back_up :: "bytes \<Rightarrow> int \<Rightarrow> int option" where
  "back_up encoded i =
     (if i < int (length encoded)
      then case py_get encoded i of
          None \<Rightarrow> None
        | Some b \<Rightarrow> if is_cont b then back_up encoded (i - 1) else Some i
      else Some i)"
  by pat_completeness auto
termination
  by (relation "measure (\<lambda>(encoded, i). nat (i + int (length encoded) + 1))") (auto dest: py_get_bound)

declare back_up.simps [simp del]

text \<open>The outer loop; it may not return on bytes that are no UTF-8, which is \<open>None\<close> as well.\<close>

partial_function (option) split_from :: "bytes \<Rightarrow> int \<Rightarrow> bytes list option" where
  "split_from encoded start =
     (if start < int (length encoded)
      then Option.bind (back_up encoded (min (start + int DEFAULT_CHUNK_BYTES) (int (length encoded)))) (\<lambda>stop.
           Option.bind (split_from encoded stop) (\<lambda>segments.
             Some (py_slice encoded start stop # segments)))
      else Some [])"

definition split_large_line :: "bytes \<Rightarrow> bytes list option" where
  "split_large_line encoded = split_from encoded 0"

record segment =
  sm_byte_start :: nat
  sm_byte_end :: nat
  sm_start_line :: nat
  sm_end_line :: nat
  sm_text :: ustr

datatype chunk_error = ChunkDecodeError | ChunkEncodeError | SplitDiverges | NotCaptured ustr

record chunk_state =
  cs_segments :: "segment list"
  cs_pending :: "bytes list"
  cs_pending_bytes :: nat
  cs_start_line :: nat
  cs_byte_start :: nat
  cs_cursor :: nat

definition decode_chunk :: "bytes \<Rightarrow> (chunk_error, ustr) result" where
  "decode_chunk bs = (case utf8_decode bs of None \<Rightarrow> Inl ChunkDecodeError | Some s \<Rightarrow> Inr s)"

definition flush :: "nat \<Rightarrow> chunk_state \<Rightarrow> (chunk_error, chunk_state) result" where
  "flush end_line st =
     (if cs_pending st = [] then Inr st
      else let encoded = concat (cs_pending st) in
        bind_err (decode_chunk encoded) (\<lambda>s.
          Inr (st\<lparr>cs_segments := cs_segments st @
                   [\<lparr>sm_byte_start = cs_byte_start st, sm_byte_end = cs_byte_start st + length encoded,
                     sm_start_line = cs_start_line st, sm_end_line = end_line, sm_text = s\<rparr>],
                 cs_pending := [], cs_pending_bytes := 0\<rparr>)))"

definition add_part :: "nat \<Rightarrow> bytes \<Rightarrow> chunk_state \<Rightarrow> (chunk_error, chunk_state) result" where
  "add_part line_number part st =
     bind_err (decode_chunk part) (\<lambda>s.
       Inr (st\<lparr>cs_segments := cs_segments st @
                [\<lparr>sm_byte_start = cs_cursor st, sm_byte_end = cs_cursor st + length part,
                  sm_start_line = line_number, sm_end_line = line_number, sm_text = s\<rparr>],
              cs_cursor := cs_cursor st + length part\<rparr>))"

definition chunk_line :: "nat \<times> ustr \<Rightarrow> chunk_state \<Rightarrow> (chunk_error, chunk_state) result" where
  "chunk_line entry st0 =
     (case entry of (line_number, line) \<Rightarrow>
      (case utf8_encode line of
         None \<Rightarrow> Inl ChunkEncodeError
       | Some encoded \<Rightarrow>
           bind_err
             (if cs_pending st0 \<noteq> [] \<and>
                 (cs_pending_bytes st0 + length encoded > DEFAULT_CHUNK_BYTES \<or>
                  length (cs_pending st0) \<ge> DEFAULT_CHUNK_LINES)
              then bind_err (flush (line_number - 1) st0) (\<lambda>st. Inr (st\<lparr>cs_byte_start := cs_cursor st\<rparr>))
              else Inr st0) (\<lambda>st.
           if length encoded > DEFAULT_CHUNK_BYTES
           then (case split_large_line encoded of
                   None \<Rightarrow> Inl SplitDiverges
                 | Some parts \<Rightarrow>
                     bind_err (fold_err (add_part line_number) parts st) (\<lambda>st.
                       Inr (st\<lparr>cs_byte_start := cs_cursor st, cs_start_line := line_number + 1\<rparr>)))
           else
             let st' = (if cs_pending st = []
                        then st\<lparr>cs_start_line := line_number, cs_byte_start := cs_cursor st\<rparr> else st)
             in Inr (st'\<lparr>cs_pending := cs_pending st' @ [encoded],
                         cs_pending_bytes := cs_pending_bytes st' + length encoded,
                         cs_cursor := cs_cursor st' + length encoded\<rparr>))))"

definition chunk_lines :: "bytes \<Rightarrow> (chunk_error, ustr list) result" where
  "chunk_lines content =
     bind_err (decode_chunk content) (\<lambda>s.
       let lines = split_keepends [] s in Inr (if lines = [] then [[]] else lines))"

definition chunk_segments :: "bytes \<Rightarrow> (chunk_error, segment list) result" where
  "chunk_segments content =
     bind_err (chunk_lines content) (\<lambda>lines.
     bind_err (fold_err chunk_line (zip [1..<Suc (length lines)] lines)
       \<lparr>cs_segments = [], cs_pending = [], cs_pending_bytes = 0, cs_start_line = 1, cs_byte_start = 0,
        cs_cursor = 0\<rparr>) (\<lambda>st.
     bind_err (flush (length lines) st) (\<lambda>st. Inr (cs_segments st))))"


subsection \<open>Cutting a large line\<close>

definition char_start :: "ustr \<Rightarrow> nat \<Rightarrow> bool" where
  "char_start s i \<longleftrightarrow> (\<exists>k \<le> length s. i = length (utf8 (take k s)))"

lemma encode_char_heads:
  assumes "is_scalar c" and "i < length (encode_char c)"
  shows "is_cont (encode_char c ! i) \<longleftrightarrow> i > 0"
  using assms
  by (auto simp: encode_char_def is_cont_def is_scalar_def nth_Cons less_Suc_eq numeral_3_eq_3 numeral_2_eq_2
      split: nat.splits if_split_asm)

lemma length_encode_char: "length (encode_char c) \<le> 4" "\<exists>n. length (encode_char c) = Suc n"
  by (auto simp: encode_char_def)

lemma char_start_Cons:
  "char_start (c # s) i \<longleftrightarrow> i = 0 \<or> length (encode_char c) \<le> i \<and> char_start s (i - length (encode_char c))"
proof
  assume "char_start (c # s) i"
  then obtain k where k: "k \<le> Suc (length s)" "i = length (utf8 (take k (c # s)))" by (auto simp: char_start_def)
  show "i = 0 \<or> length (encode_char c) \<le> i \<and> char_start s (i - length (encode_char c))"
    using k by (cases k) (auto simp: char_start_def)
next
  assume "i = 0 \<or> length (encode_char c) \<le> i \<and> char_start s (i - length (encode_char c))"
  then show "char_start (c # s) i"
  proof
    assume "i = 0"
    then show ?thesis unfolding char_start_def by (intro exI [of _ 0]) simp
  next
    assume a: "length (encode_char c) \<le> i \<and> char_start s (i - length (encode_char c))"
    then obtain k where "k \<le> length s" "i - length (encode_char c) = length (utf8 (take k s))" by (auto simp: char_start_def)
    moreover have "i = length (encode_char c) + (i - length (encode_char c))" using a by simp
    ultimately show ?thesis unfolding char_start_def by (intro exI [of _ "Suc k"]) simp
  qed
qed

lemma cont_iff:
  assumes "list_all is_scalar s" and "i < length (utf8 s)"
  shows "is_cont (utf8 s ! i) \<longleftrightarrow> \<not> char_start s i"
  using assms
proof (induction s arbitrary: i)
  case (Cons c s)
  show ?case
  proof (cases "i < length (encode_char c)")
    case True
    then show ?thesis using Cons.prems encode_char_heads [of c i] by (auto simp: char_start_Cons nth_append)
  next
    case False
    moreover obtain n where "length (encode_char c) = Suc n" using length_encode_char(2) by blast
    ultimately show ?thesis using Cons.prems Cons.IH [of "i - length (encode_char c)"]
      by (auto simp: char_start_Cons nth_append)
  qed
qed simp

lemma back_up_lands:
  assumes "list_all is_scalar s" and "i \<le> length (utf8 s)"
  shows "\<exists>j. back_up (utf8 s) (int i) = Some (int j) \<and> char_start s j \<and> j \<le> i \<and> (\<forall>m \<le> i. char_start s m \<longrightarrow> m \<le> j)"
  using assms(2)
proof (induction i)
  case 0
  have zero: "char_start s 0" unfolding char_start_def by (intro exI [of _ 0]) simp
  then have "back_up (utf8 s) (int 0) = Some (int 0)"
    using cont_iff [OF assms(1), of 0] by (cases "utf8 s") (simp_all add: back_up.simps py_get_def)
  then show ?case using zero by (intro exI [of _ 0]) simp
next
  case (Suc i)
  show ?case
  proof (cases "char_start s (Suc i)")
    case True
    then have "back_up (utf8 s) (int (Suc i)) = Some (int (Suc i))"
      using cont_iff [OF assms(1), of "Suc i"] by (subst back_up.simps) (auto simp: py_get_nat simp del: of_nat_Suc)
    then show ?thesis using True by (intro exI [of _ "Suc i"]) simp
  next
    case False
    have "char_start s (length (utf8 s))" unfolding char_start_def by (intro exI [of _ "length s"]) simp
    then have less: "Suc i < length (utf8 s)" using False Suc.prems by (cases "Suc i = length (utf8 s)") auto
    then have "is_cont (utf8 s ! Suc i)" using cont_iff [OF assms(1) less] False by simp
    then have step: "back_up (utf8 s) (int (Suc i)) = back_up (utf8 s) (int i)"
      using less by (subst back_up.simps) (simp add: py_get_nat del: of_nat_Suc, simp)
    obtain j where j: "back_up (utf8 s) (int i) = Some (int j)" "char_start s j" "j \<le> i"
      "\<forall>m \<le> i. char_start s m \<longrightarrow> m \<le> j"
      using Suc.IH Suc.prems by auto
    have "\<forall>m \<le> Suc i. char_start s m \<longrightarrow> m \<le> j" using j(4) False by (metis le_SucE)
    then show ?thesis using step j by auto
  qed
qed

lemma slice_utf8:
  assumes "k \<le> j"
  shows "slice (utf8 s) (length (utf8 (take k s))) (length (utf8 (take j s))) = utf8 (take (j - k) (drop k s))"
proof -
  have split: "s = take k s @ take (j - k) (drop k s) @ drop j s"
    using assms by (metis append_take_drop_id drop_drop le_add_diff_inverse2)
  have "take j s = take k s @ take (j - k) (drop k s)"
    using assms by (metis le_add_diff_inverse take_add)
  then have "length (utf8 (take j s)) = length (utf8 (take k s)) + length (utf8 (take (j - k) (drop k s)))" by simp
  moreover have "utf8 s = utf8 (take k s) @ utf8 (take (j - k) (drop k s)) @ utf8 (drop j s)"
    by (subst split) (simp only: utf8_simps)
  ultimately show ?thesis by (simp add: slice_def)
qed

lemma back_up_step:
  assumes "list_all is_scalar s" and "k < length s"
    and "limit = min (length (utf8 (take k s)) + DEFAULT_CHUNK_BYTES) (length (utf8 s))"
  shows "\<exists>e. k < e \<and> e \<le> length s \<and> back_up (utf8 s) (int limit) = Some (int (length (utf8 (take e s))))
    \<and> length (utf8 (take e s)) \<le> limit"
proof -
  have next_start: "take (Suc k) s = take k s @ [s ! k]" using assms(2) by (rule take_Suc_conv_app_nth)
  have whole: "length (utf8 s) = length (utf8 (take (Suc k) s)) + length (utf8 (drop (Suc k) s))"
    by (metis append_take_drop_id length_append utf8_simps(3))
  have "limit \<le> length (utf8 s)" using assms(3) by simp
  from back_up_lands [OF assms(1) this] obtain j where j: "back_up (utf8 s) (int limit) = Some (int j)" "char_start s j"
    "j \<le> limit" "\<forall>m \<le> limit. char_start s m \<longrightarrow> m \<le> j"
    by auto
  obtain e where e: "e \<le> length s" "j = length (utf8 (take e s))" using j(2) by (auto simp: char_start_def)
  have "char_start s (length (utf8 (take (Suc k) s)))"
    using assms(2) unfolding char_start_def by (intro exI [of _ "Suc k"]) simp
  moreover have "length (utf8 (take (Suc k) s)) \<le> limit"
    using next_start whole length_encode_char(1) [of "s ! k"] assms(3) by (simp add: DEFAULT_CHUNK_BYTES_def)
  ultimately have "length (utf8 (take (Suc k) s)) \<le> j" using j(4) by blast
  moreover obtain n where "length (encode_char (s ! k)) = Suc n" using length_encode_char(2) by blast
  ultimately have far: "length (utf8 (take k s)) < j" using next_start by simp
  have "k < e"
  proof (rule ccontr)
    assume "\<not> k < e"
    then have "take k s = take e s @ take (k - e) (drop e s)" by (metis le_add_diff_inverse not_less take_add)
    then show False using e far by simp
  qed
  then show ?thesis using j e by auto
qed

lemma drop_pieces: "k \<le> e \<Longrightarrow> take (e - k) (drop k s) @ drop e s = drop k s"
  by (metis append_take_drop_id drop_drop le_add_diff_inverse2)

lemma split_from_utf8:
  assumes "list_all is_scalar s" and "k \<le> length s"
  shows "\<exists>parts. split_from (utf8 s) (int (length (utf8 (take k s)))) = Some (map utf8 parts)
    \<and> concat parts = drop k s \<and> (\<forall>p \<in> set parts. p \<noteq> [] \<and> length (utf8 p) \<le> DEFAULT_CHUNK_BYTES)"
  using assms(2)
proof (induction "length s - k" arbitrary: k rule: less_induct)
  case less
  let ?start = "length (utf8 (take k s))" and ?limit = "min (length (utf8 (take k s)) + DEFAULT_CHUNK_BYTES) (length (utf8 s))"
  show ?case
  proof (cases "k = length s")
    case True
    then show ?thesis by (intro exI [of _ "[]"]) (simp add: split_from.simps)
  next
    case False
    then have k: "k < length s" using less.prems by simp
    obtain e where e: "k < e" "e \<le> length s" "back_up (utf8 s) (int ?limit) = Some (int (length (utf8 (take e s))))"
      "length (utf8 (take e s)) \<le> ?limit"
      using back_up_step [OF assms(1) k refl] by blast
    have "length s - e < length s - k" using e(1) k by simp
    from less.hyps [OF this e(2)] obtain parts where parts:
      "split_from (utf8 s) (int (length (utf8 (take e s)))) = Some (map utf8 parts)" "concat parts = drop e s"
      "\<forall>p \<in> set parts. p \<noteq> [] \<and> length (utf8 p) \<le> DEFAULT_CHUNK_BYTES"
      by blast
    let ?part = "take (e - k) (drop k s)"
    have piece: "slice (utf8 s) ?start (length (utf8 (take e s))) = utf8 ?part" using slice_utf8 [of k e s] e(1) by simp
    have "length (utf8 ?part) \<le> length (utf8 (take e s)) - ?start"
      using arg_cong [OF piece, of length] by (simp add: slice_def)
    then have small: "length (utf8 ?part) \<le> DEFAULT_CHUNK_BYTES" using e(4) by (simp, linarith)
    have "?part \<noteq> []" using e(1) k by simp
    have "?start < length (utf8 s)"
      by (metis append_take_drop_id encode_char_not_Nil k length_append length_greater_0_conv less_add_same_cancel1 utf8_simps(3) Cons_nth_drop_Suc utf8_simps(2) append_is_Nil_conv)
    moreover have limit: "min (int ?start + int DEFAULT_CHUNK_BYTES) (int (length (utf8 s))) = int ?limit" by simp
    ultimately have "split_from (utf8 s) (int ?start) = Some (map utf8 (?part # parts))"
      using e(4) parts(1) piece by (subst split_from.simps) (simp add: py_slice_nat limit e(3) del: of_nat_min)
    moreover have "concat (?part # parts) = drop k s" using parts(2) drop_pieces [of k e s] e(1) by simp
    ultimately show ?thesis using parts(3) small \<open>?part \<noteq> []\<close> by (intro exI [of _ "?part # parts"]) auto
  qed
qed


lemma split_large_line_utf8:
  assumes "list_all is_scalar s"
  shows "\<exists>parts. split_large_line (utf8 s) = Some (map utf8 parts) \<and> concat parts = s
    \<and> (\<forall>p \<in> set parts. p \<noteq> [] \<and> length (utf8 p) \<le> DEFAULT_CHUNK_BYTES)"
  using split_from_utf8 [OF assms, of 0] by (simp add: split_large_line_def)

subsection \<open>The segments of one file\<close>

text \<open>Segments that tile a range of bytes, in order.\<close>

fun tiles :: "nat \<Rightarrow> segment list \<Rightarrow> nat \<Rightarrow> bool" where
  "tiles i [] j \<longleftrightarrow> i = j"
| "tiles i (g # gs) j \<longleftrightarrow> sm_byte_start g = i \<and> i \<le> sm_byte_end g \<and> tiles (sm_byte_end g) gs j"

definition segment_ok :: "bytes \<Rightarrow> ustr list \<Rightarrow> segment \<Rightarrow> bool" where
  "segment_ok content lines g \<longleftrightarrow>
     utf8 (sm_text g) = slice content (sm_byte_start g) (sm_byte_end g)
     \<and> list_all is_scalar (sm_text g)
     \<and> length (utf8 (sm_text g)) \<le> DEFAULT_CHUNK_BYTES \<and> (sm_text g \<noteq> [] \<or> content = [])
     \<and> 1 \<le> sm_start_line g \<and> sm_start_line g \<le> sm_end_line g \<and> sm_end_line g \<le> length lines
     \<and> sm_end_line g - sm_start_line g < DEFAULT_CHUNK_LINES
     \<and> (sm_text g = concat (slice lines (sm_start_line g - 1) (sm_end_line g))
        \<or> sm_start_line g = sm_end_line g \<and> sublist (sm_text g) (lines ! (sm_start_line g - 1)))"

lemma tiles_append: "tiles i (gs @ hs) j \<longleftrightarrow> (\<exists>m. tiles i gs m \<and> tiles m hs j)"
  by (induction gs arbitrary: i) auto

definition lines_ok :: "ustr list \<Rightarrow> bool" where
  "lines_ok lines \<longleftrightarrow> list_all (list_all is_scalar) lines \<and> ([] \<notin> set lines \<or> concat lines = [])"

lemma lines_ok_scalar: "lines_ok lines \<Longrightarrow> list_all (list_all is_scalar) lines"
  by (simp add: lines_ok_def)

lemma lines_ok_slice:
  assumes "lines_ok lines" and "slice lines m k \<noteq> []"
  shows "concat (slice lines m k) \<noteq> [] \<or> utf8 (concat lines) = []"
proof (cases "concat lines = []")
  case False
  obtain x xs where slice: "slice lines m k = x # xs" using assms(2) by (cases "slice lines m k") auto
  then have "x \<in> set (slice lines m k)" by simp
  then have "x \<in> set lines" unfolding slice_def by (blast dest: in_set_takeD in_set_dropD)
  then show ?thesis using assms(1) False slice by (auto simp: lines_ok_def)
qed (simp only: utf8_simps simp_thms)

lemma slice_mid: "length xs = i \<Longrightarrow> j = i + length ys \<Longrightarrow> slice (xs @ ys @ zs) i j = ys"
  by (simp add: slice_def)

lemma split_lines_at: "m \<le> k \<Longrightarrow> concat lines = concat (take m lines) @ concat (slice lines m k) @ concat (drop k lines)"
  by (metis append_take_drop_id concat_append drop_drop le_add_diff_inverse2 slice_def)

lemma take_slice_concat: "m \<le> k \<Longrightarrow> concat (take k lines) = concat (take m lines) @ concat (slice lines m k)"
  by (metis concat_append le_add_diff_inverse slice_def take_add)

lemma slice_Suc: "m \<le> k \<Longrightarrow> k < length xs \<Longrightarrow> slice xs m (Suc k) = slice xs m k @ [xs ! k]"
  by (simp add: slice_def Suc_diff_le take_Suc_conv_app_nth)

lemma slice_scalar: "list_all (list_all is_scalar) lines \<Longrightarrow> list_all is_scalar (concat (slice lines m k))"
  by (auto simp: slice_def list_all_iff dest!: in_set_takeD in_set_dropD)

lemma decode_chunk_utf8: "list_all is_scalar s \<Longrightarrow> decode_chunk (utf8 s) = Inr s"
  by (simp add: decode_chunk_def utf8_decode_encode)

lemma concat_map_utf8: "concat (map utf8 ss) = utf8 (concat ss)"
  by (induction ss) simp_all

text \<open>The loop after the first \<open>k\<close> lines: with nothing pending, and with the lines from \<open>m\<close> on pending.\<close>

definition settled :: "ustr list \<Rightarrow> nat \<Rightarrow> chunk_state \<Rightarrow> bool" where
  "settled lines k st \<longleftrightarrow>
     tiles 0 (cs_segments st) (length (utf8 (concat (take k lines))))
     \<and> list_all (segment_ok (utf8 (concat lines)) lines) (cs_segments st)
     \<and> cs_pending st = [] \<and> cs_pending_bytes st = 0
     \<and> cs_cursor st = length (utf8 (concat (take k lines)))"

definition gathering :: "ustr list \<Rightarrow> nat \<Rightarrow> nat \<Rightarrow> chunk_state \<Rightarrow> bool" where
  "gathering lines m k st \<longleftrightarrow> m < k
     \<and> tiles 0 (cs_segments st) (length (utf8 (concat (take m lines))))
     \<and> list_all (segment_ok (utf8 (concat lines)) lines) (cs_segments st)
     \<and> cs_pending st = map utf8 (slice lines m k)
     \<and> cs_pending_bytes st = length (utf8 (concat (slice lines m k)))
     \<and> cs_pending_bytes st \<le> DEFAULT_CHUNK_BYTES \<and> k - m \<le> DEFAULT_CHUNK_LINES
     \<and> cs_cursor st = length (utf8 (concat (take k lines)))
     \<and> cs_start_line st = Suc m \<and> cs_byte_start st = length (utf8 (concat (take m lines)))"

definition cut :: "ustr list \<Rightarrow> nat \<Rightarrow> chunk_state \<Rightarrow> bool" where
  "cut lines k st \<longleftrightarrow> settled lines k st \<or> (\<exists>m. gathering lines m k st)"

lemma settled_byte_start [simp]: "settled lines k (st\<lparr>cs_byte_start := b\<rparr>) = settled lines k st"
  by (simp add: settled_def)

lemma flush_gathering:
  assumes "gathering lines m k st" and "k \<le> length lines" and "lines_ok lines"
  shows "\<exists>st'. flush k st = Inr st' \<and> settled lines k st'"
proof -
  from assms(1) have mk: "m < k" by (simp add: gathering_def)
  let ?text = "concat (slice lines m k)" and ?pre = "concat (take m lines)"
  let ?new = "\<lparr>sm_byte_start = length (utf8 ?pre), sm_byte_end = length (utf8 ?pre) + length (utf8 ?text),
    sm_start_line = Suc m, sm_end_line = k, sm_text = ?text\<rparr>"
  have nonempty: "slice lines m k \<noteq> []" using mk assms(2) by (simp add: slice_def)
  have scalar: "list_all is_scalar ?text" by (rule slice_scalar [OF lines_ok_scalar [OF assms(3)]])
  have small: "length (utf8 ?text) \<le> DEFAULT_CHUNK_BYTES" "k - m \<le> DEFAULT_CHUNK_LINES"
    using assms(1) by (simp_all add: gathering_def)
  have few: "k - Suc m < DEFAULT_CHUNK_LINES" using small(2) mk by linarith
  have "slice (utf8 (concat lines)) (length (utf8 ?pre)) (length (utf8 ?pre) + length (utf8 ?text)) = utf8 ?text"
    using mk by (simp add: split_lines_at [of m k lines] slice_mid)
  then have "segment_ok (utf8 (concat lines)) lines ?new"
    using assms(2) mk scalar small few lines_ok_slice [OF assms(3) nonempty] by (simp add: segment_ok_def)
  moreover have "length (utf8 (concat (take k lines))) = length (utf8 ?pre) + length (utf8 ?text)"
    using mk by (simp add: take_slice_concat [of m k])
  ultimately have "settled lines k (st\<lparr>cs_segments := cs_segments st @ [?new], cs_pending := [], cs_pending_bytes := 0\<rparr>)"
    using assms(1) by (auto simp: settled_def gathering_def tiles_append)
  moreover have "flush k st = Inr (st\<lparr>cs_segments := cs_segments st @ [?new], cs_pending := [], cs_pending_bytes := 0\<rparr>)"
    using assms(1) nonempty scalar by (simp add: flush_def gathering_def concat_map_utf8 decode_chunk_utf8)
  ultimately show ?thesis by blast
qed

lemma flush_cut:
  assumes "cut lines k st" and "k \<le> length lines" and "lines_ok lines"
  shows "\<exists>st'. flush k st = Inr st' \<and> settled lines k st'"
  using assms(1) unfolding cut_def
proof
  assume "settled lines k st"
  then show ?thesis by (simp add: flush_def settled_def)
qed (use flush_gathering assms in blast)

text \<open>The parts of one large line.\<close>

lemma add_parts:
  assumes "list_all is_scalar (concat parts)" and "content = pre @ utf8 (concat parts) @ post" and "cs_cursor st = length pre"
  shows "\<exists>gs. fold_err (add_part n) (map utf8 parts) st =
      Inr (st\<lparr>cs_segments := cs_segments st @ gs, cs_cursor := length pre + length (utf8 (concat parts))\<rparr>)
    \<and> tiles (length pre) gs (length pre + length (utf8 (concat parts))) \<and> map sm_text gs = parts
    \<and> (\<forall>g \<in> set gs. sm_start_line g = n \<and> sm_end_line g = n \<and> utf8 (sm_text g) = slice content (sm_byte_start g) (sm_byte_end g))"
  using assms
proof (induction parts arbitrary: pre st)
  case Nil
  then show ?case by (intro exI [of _ "[]"]) simp
next
  case (Cons p parts)
  let ?g = "\<lparr>sm_byte_start = length pre, sm_byte_end = length pre + length (utf8 p), sm_start_line = n, sm_end_line = n, sm_text = p\<rparr>"
  let ?st = "st\<lparr>cs_segments := cs_segments st @ [?g], cs_cursor := length pre + length (utf8 p)\<rparr>"
  have first: "add_part n (utf8 p) st = Inr ?st"
    using Cons.prems by (simp add: add_part_def decode_chunk_utf8)
  have content: "content = (pre @ utf8 p) @ utf8 (concat parts) @ post" using Cons.prems(2) by simp
  have "list_all is_scalar (concat parts)" "cs_cursor ?st = length (pre @ utf8 p)" using Cons.prems(1) by simp_all
  from Cons.IH [OF this(1) content this(2)] obtain gs where gs: "fold_err (add_part n) (map utf8 parts) ?st =
      Inr (?st\<lparr>cs_segments := cs_segments ?st @ gs, cs_cursor := length (pre @ utf8 p) + length (utf8 (concat parts))\<rparr>)"
    "tiles (length (pre @ utf8 p)) gs (length (pre @ utf8 p) + length (utf8 (concat parts)))" "map sm_text gs = parts"
    "\<forall>g \<in> set gs. sm_start_line g = n \<and> sm_end_line g = n \<and> utf8 (sm_text g) = slice content (sm_byte_start g) (sm_byte_end g)"
    by blast
  have "utf8 p = slice content (length pre) (length pre + length (utf8 p))"
    using Cons.prems(2) slice_mid [of pre _ _ "utf8 p"] by simp
  then show ?case using gs first by (intro exI [of _ "?g # gs"]) (simp add: add.assoc)
qed


lemma large_line_settled:
  assumes "settled lines k st" and "k < length lines" and "lines_ok lines"
  shows "\<exists>parts st'. split_large_line (utf8 (lines ! k)) = Some parts
    \<and> fold_err (add_part (Suc k)) parts st = Inr st' \<and> settled lines (Suc k) st'"
proof -
  let ?line = "lines ! k" and ?pre = "utf8 (concat (take k lines))"
  have scalar: "list_all is_scalar ?line" using assms(2) lines_ok_scalar [OF assms(3)] by (simp add: list_all_length)
  from split_large_line_utf8 [OF scalar] obtain parts where parts: "split_large_line (utf8 ?line) = Some (map utf8 parts)"
    "concat parts = ?line" "\<forall>p \<in> set parts. p \<noteq> [] \<and> length (utf8 p) \<le> DEFAULT_CHUNK_BYTES" by blast
  have one: "slice lines k (Suc k) = [?line]" using slice_Suc [of k k lines] assms(2) by (simp add: slice_def)
  have content: "utf8 (concat lines) = ?pre @ utf8 (concat parts) @ utf8 (concat (drop (Suc k) lines))"
    using split_lines_at [of k "Suc k" lines] one parts(2) by simp
  have upto: "utf8 (concat (take (Suc k) lines)) = ?pre @ utf8 (concat parts)"
    using take_slice_concat [of k "Suc k" lines] one parts(2) by simp
  have "list_all is_scalar (concat parts)" "cs_cursor st = length ?pre"
    using scalar parts(2) assms(1) by (simp_all add: settled_def)
  from add_parts [OF this(1) content this(2), of "Suc k"] obtain gs where gs:
    "fold_err (add_part (Suc k)) (map utf8 parts) st =
       Inr (st\<lparr>cs_segments := cs_segments st @ gs, cs_cursor := length ?pre + length (utf8 (concat parts))\<rparr>)"
    "tiles (length ?pre) gs (length ?pre + length (utf8 (concat parts)))" "map sm_text gs = parts"
    "\<forall>g \<in> set gs. sm_start_line g = Suc k \<and> sm_end_line g = Suc k
       \<and> utf8 (sm_text g) = slice (utf8 (concat lines)) (sm_byte_start g) (sm_byte_end g)"
    by blast
  have "segment_ok (utf8 (concat lines)) lines g" if "g \<in> set gs" for g
  proof -
    have mem: "sm_text g \<in> set parts" using that gs(3) by auto
    then obtain xs ys where "parts = xs @ sm_text g # ys" by (metis split_list)
    then have sub: "?line = concat xs @ sm_text g @ concat ys" using parts(2) by simp
    then have "sublist (sm_text g) ?line" by (metis sublist_appendI)
    moreover have "list_all is_scalar (sm_text g)" using scalar sub by simp
    moreover have "length (utf8 (sm_text g)) \<le> DEFAULT_CHUNK_BYTES" "sm_text g \<noteq> []" using parts(3) mem by blast+
    ultimately show ?thesis
      using gs(4) that assms(2) by (simp add: segment_ok_def DEFAULT_CHUNK_LINES_def)
  qed
  then have "list_all (segment_ok (utf8 (concat lines)) lines) gs" by (simp add: list_all_iff)
  then have "settled lines (Suc k) (st\<lparr>cs_segments := cs_segments st @ gs, cs_cursor := length ?pre + length (utf8 (concat parts))\<rparr>)"
    using assms(1) gs(2) upto by (auto simp: settled_def tiles_append)
  then show ?thesis using parts(1) gs(1) by blast
qed

lemma settled_start_line [simp]: "settled lines k (st\<lparr>cs_start_line := b\<rparr>) = settled lines k st"
  by (simp add: settled_def)

text \<open>What the first guard leaves: nothing pending, or pending lines that the new one still fits.\<close>

lemma chunk_guard:
  assumes "cut lines k st" and "k < length lines" and "lines_ok lines"
  shows "\<exists>st'. (if cs_pending st \<noteq> [] \<and> (cs_pending_bytes st + n > DEFAULT_CHUNK_BYTES \<or> length (cs_pending st) \<ge> DEFAULT_CHUNK_LINES)
       then bind_err (flush k st) (\<lambda>st. Inr (st\<lparr>cs_byte_start := cs_cursor st\<rparr>)) else Inr st) = Inr st'
    \<and> (settled lines k st' \<or> (\<exists>m. gathering lines m k st') \<and> cs_pending_bytes st' + n \<le> DEFAULT_CHUNK_BYTES
        \<and> length (cs_pending st') < DEFAULT_CHUNK_LINES)"
proof (cases "cs_pending st \<noteq> [] \<and> (cs_pending_bytes st + n > DEFAULT_CHUNK_BYTES \<or> length (cs_pending st) \<ge> DEFAULT_CHUNK_LINES)")
  case True
  obtain st' where "flush k st = Inr st'" "settled lines k st'"
    using flush_cut [OF assms(1) _ assms(3)] assms(2) by auto
  then show ?thesis using True by auto
next
  case False
  have "settled lines k st" if "cs_pending st = []"
    using assms(1,2) that by (auto simp: cut_def gathering_def slice_def)
  then show ?thesis using False assms(1) unfolding cut_def by auto
qed

lemma chunk_line_run:
  assumes "utf8_encode line = Some encoded"
    and "(if cs_pending st \<noteq> [] \<and> (cs_pending_bytes st + length encoded > DEFAULT_CHUNK_BYTES \<or> length (cs_pending st) \<ge> DEFAULT_CHUNK_LINES)
       then bind_err (flush k st) (\<lambda>st. Inr (st\<lparr>cs_byte_start := cs_cursor st\<rparr>)) else Inr st) = Inr st'"
  shows "chunk_line (Suc k, line) st =
    (if length encoded > DEFAULT_CHUNK_BYTES
     then (case split_large_line encoded of
             None \<Rightarrow> Inl SplitDiverges
           | Some parts \<Rightarrow>
               bind_err (fold_err (add_part (Suc k)) parts st') (\<lambda>st.
                 Inr (st\<lparr>cs_byte_start := cs_cursor st, cs_start_line := Suc k + 1\<rparr>)))
     else
       let st'' = (if cs_pending st' = [] then st'\<lparr>cs_start_line := Suc k, cs_byte_start := cs_cursor st'\<rparr> else st')
       in Inr (st''\<lparr>cs_pending := cs_pending st'' @ [encoded], cs_pending_bytes := cs_pending_bytes st'' + length encoded,
                   cs_cursor := cs_cursor st'' + length encoded\<rparr>))"
  unfolding chunk_line_def prod.case assms(1) option.case diff_Suc_1 assms(2) bind_err_simps ..

lemma chunk_line_step:
  assumes "cut lines k st" and "k < length lines" and "lines_ok lines"
  shows "\<exists>st'. chunk_line (Suc k, lines ! k) st = Inr st' \<and> cut lines (Suc k) st'"
proof -
  let ?line = "lines ! k"
  let ?add = "\<lambda>st. st\<lparr>cs_pending := cs_pending st @ [utf8 ?line], cs_pending_bytes := cs_pending_bytes st + length (utf8 ?line),
    cs_cursor := cs_cursor st + length (utf8 ?line)\<rparr>"
  have "list_all is_scalar ?line" using assms(2) lines_ok_scalar [OF assms(3)] by (simp add: list_all_length)
  then have encoded: "utf8_encode ?line = Some (utf8 ?line)" by (simp add: utf8_encode_def)
  obtain st' where guard: "(if cs_pending st \<noteq> [] \<and> (cs_pending_bytes st + length (utf8 ?line) > DEFAULT_CHUNK_BYTES \<or> length (cs_pending st) \<ge> DEFAULT_CHUNK_LINES)
       then bind_err (flush k st) (\<lambda>st. Inr (st\<lparr>cs_byte_start := cs_cursor st\<rparr>)) else Inr st) = Inr st'"
    and st': "settled lines k st' \<or> (\<exists>m. gathering lines m k st') \<and> cs_pending_bytes st' + length (utf8 ?line) \<le> DEFAULT_CHUNK_BYTES
        \<and> length (cs_pending st') < DEFAULT_CHUNK_LINES"
    using chunk_guard [OF assms, of "length (utf8 ?line)"] by blast
  have upto: "concat (take (Suc k) lines) = concat (take k lines) @ ?line"
    using assms(2) by (simp add: take_Suc_conv_app_nth)
  note run = chunk_line_run [OF encoded guard]
  show ?thesis
  proof (cases "length (utf8 ?line) > DEFAULT_CHUNK_BYTES")
    case True
    then have "settled lines k st'" using st' by auto
    from large_line_settled [OF this assms(2,3)] obtain parts st'' where
      "split_large_line (utf8 ?line) = Some parts" "fold_err (add_part (Suc k)) parts st' = Inr st''" "settled lines (Suc k) st''"
      by blast
    then show ?thesis using True by (simp add: run cut_def)
  next
    case False
    show ?thesis using st'
    proof
      assume s: "settled lines k st'"
      let ?st = "?add (st'\<lparr>cs_start_line := Suc k, cs_byte_start := cs_cursor st'\<rparr>)"
      have "gathering lines k (Suc k) ?st"
        using s False assms(2) by (simp add: gathering_def settled_def slice_Suc upto DEFAULT_CHUNK_LINES_def) (simp add: slice_def)
      then show ?thesis using False s by (auto simp: run cut_def settled_def)
    next
      assume "(\<exists>m. gathering lines m k st') \<and> cs_pending_bytes st' + length (utf8 ?line) \<le> DEFAULT_CHUNK_BYTES
        \<and> length (cs_pending st') < DEFAULT_CHUNK_LINES"
      then obtain m where g: "gathering lines m k st'" "cs_pending_bytes st' + length (utf8 ?line) \<le> DEFAULT_CHUNK_BYTES"
        "length (cs_pending st') < DEFAULT_CHUNK_LINES" by blast
      have pending: "cs_pending st' \<noteq> []" using g(1) assms(2) by (simp add: gathering_def slice_def)
      have "gathering lines m (Suc k) (?add st')"
        using g assms(2) by (auto simp: gathering_def slice_Suc upto)
      then show ?thesis using False pending by (auto simp: run cut_def)
    qed
  qed
qed


lemma chunk_lines_run:
  assumes "cut lines k st" and "k \<le> length lines" and "lines_ok lines"
  shows "\<exists>st'. fold_err chunk_line (zip [Suc k..<Suc (length lines)] (drop k lines)) st = Inr st' \<and> cut lines (length lines) st'"
  using assms(1,2)
proof (induction "length lines - k" arbitrary: k st)
  case 0
  then show ?case by simp
next
  case (Suc n)
  then have k: "k < length lines" by simp
  from chunk_line_step [OF Suc.prems(1) k assms(3)] obtain st' where
    st': "chunk_line (Suc k, lines ! k) st = Inr st'" "cut lines (Suc k) st'" by blast
  have "zip [Suc k..<Suc (length lines)] (drop k lines) =
      (Suc k, lines ! k) # zip [Suc (Suc k)..<Suc (length lines)] (drop (Suc k) lines)"
    using k by (simp add: upt_conv_Cons Cons_nth_drop_Suc [symmetric] del: upt_Suc)
  then show ?case using Suc.hyps(1) [OF _ st'(2)] Suc.hyps(2) k st'(1) by simp
qed

lemma tiles_le: "tiles i gs j \<Longrightarrow> i \<le> j"
  by (induction gs arbitrary: i) force+

lemma tiles_text:
  "tiles i gs j \<Longrightarrow> j \<le> length content \<Longrightarrow> list_all (segment_ok content lines) gs \<Longrightarrow>
   utf8 (concat (map sm_text gs)) = slice content i j"
proof (induction gs arbitrary: i)
  case (Cons g gs)
  then have g: "utf8 (sm_text g) = slice content i (sm_byte_end g)" "i \<le> sm_byte_end g" "sm_byte_end g \<le> j"
    by (auto simp: segment_ok_def dest: tiles_le)
  have "slice content i j = slice content i (sm_byte_end g) @ slice content (sm_byte_end g) j"
    by (rule slice_append [OF g(2,3)])
  then show ?case using Cons g by simp
qed (simp add: slice_def)

lemma chunk_segments_cut:
  "case utf8_decode content of
     None \<Rightarrow> chunk_segments content = Inl ChunkDecodeError
   | Some s \<Rightarrow> \<exists>lines segs. chunk_lines content = Inr lines \<and> concat lines = s \<and> chunk_segments content = Inr segs
       \<and> tiles 0 segs (length content) \<and> list_all (segment_ok content lines) segs \<and> concat (map sm_text segs) = s"
proof (cases "utf8_decode content")
  case None
  then show ?thesis by (simp add: chunk_segments_def chunk_lines_def decode_chunk_def)
next
  case (Some s)
  then have s: "list_all is_scalar s" "content = utf8 s" by (simp_all add: utf8_decode_iff)
  define lines where "lines = (if split_keepends [] s = [] then [[]] else split_keepends [] s)"
  have lines: "chunk_lines content = Inr lines" "concat lines = s"
    using Some concat_split_keepends [of "[]" s]
    by (cases "split_keepends [] s = []"; simp add: chunk_lines_def decode_chunk_def lines_def Let_def)+
  have "list_all (list_all is_scalar) lines" using s(1) unfolding lines(2) [symmetric] by (auto simp: list_all_iff)
  moreover have "[] \<notin> set lines \<or> concat lines = []" using split_keepends_nonempty [of "[]" "[]" s] by (auto simp: lines_def)
  ultimately have scalar: "lines_ok lines" by (simp add: lines_ok_def)
  let ?st = "\<lparr>cs_segments = [], cs_pending = [], cs_pending_bytes = 0, cs_start_line = 1, cs_byte_start = 0, cs_cursor = 0\<rparr>"
  have "cut lines 0 ?st" by (simp add: cut_def settled_def)
  from chunk_lines_run [OF this _ scalar] obtain st' where st': "cut lines (length lines) st'"
    "fold_err chunk_line (zip [1..<Suc (length lines)] lines) ?st = Inr st'" by auto
  obtain st'' where st'': "flush (length lines) st' = Inr st''" "settled lines (length lines) st''"
    using flush_cut [OF st'(1) _ scalar] by auto
  have segs: "chunk_segments content = Inr (cs_segments st'')"
    using lines(1) st'(2) st''(1) by (simp add: chunk_segments_def)
  have ok: "tiles 0 (cs_segments st'') (length content)" "list_all (segment_ok content lines) (cs_segments st'')"
    using st''(2) lines(2) s(2) by (simp_all add: settled_def)
  have "utf8 (concat (map sm_text (cs_segments st''))) = utf8 s"
    using tiles_text [OF ok(1) _ ok(2)] s(2) by (simp add: slice_def)
  moreover have "list_all is_scalar (concat (map sm_text (cs_segments st'')))"
    using ok(2) by (auto simp: list_all_iff segment_ok_def)
  ultimately have "concat (map sm_text (cs_segments st'')) = s" using s(1) by (simp add: utf8_inject)
  then show ?thesis using Some lines segs ok by auto
qed

text \<open>C26: Cutting a file ends for every captured content. Content that is no UTF-8 raises; otherwise the
  segments tile the bytes of the file in order, their texts concatenate to its text, and each is
  at most 8192 bytes and 120 lines long, within one line or made of whole lines, and carries
  the numbers of its lines.
\<close>

theorem chunk_segments_tile:
  "case utf8_decode content of
     None \<Rightarrow> chunk_segments content = Inl ChunkDecodeError
   | Some s \<Rightarrow> \<exists>lines segs. chunk_lines content = Inr lines \<and> concat lines = s \<and> chunk_segments content = Inr segs
       \<and> tiles 0 segs (length content) \<and> list_all (segment_ok content lines) segs \<and> concat (map sm_text segs) = s"
  by (rule chunk_segments_cut)

text \<open>
  The line numbers of a chunk count every boundary of \<open>str.splitlines\<close>, where the position codec of
  the other facts counts line feeds: a form feed moves the numbers of the lines after it.
\<close>

lemma chunk_lines_count_form_feeds:
  "chunk_segments [97, 12, 98, 10] =
     Inr [\<lparr>sm_byte_start = 0, sm_byte_end = 4, sm_start_line = 1, sm_end_line = 2, sm_text = [97, 12, 98, 10]\<rparr>]"
  "make_codec [97, 12, 98, 10] = Inr \<lparr>pc_content = [97, 12, 98, 10], pc_line_starts = [0, 4]\<rparr>"
proof -
  have decoded: "utf8_decode [97, 12, 98, 10] = Some [97, 12, 98, 10]" by code_simp
  then show "chunk_segments [97, 12, 98, 10] =
      Inr [\<lparr>sm_byte_start = 0, sm_byte_end = 4, sm_start_line = 1, sm_end_line = 2, sm_text = [97, 12, 98, 10]\<rparr>]"
    by (simp add: decoded chunk_segments_def chunk_lines_def decode_chunk_def chunk_line_def flush_def line_boundary_def
        utf8_encode_def is_scalar_def encode_char_def DEFAULT_CHUNK_BYTES_def DEFAULT_CHUNK_LINES_def)
  show "make_codec [97, 12, 98, 10] = Inr \<lparr>pc_content = [97, 12, 98, 10], pc_line_starts = [0, 4]\<rparr>"
    by (simp add: make_codec_def decoded del: utf8_decode.simps)
qed


end
