(* ===== verification/CatalogFacts.thy ===== *)
theory CatalogFacts
  imports Chunks
begin

text \<open>
  The facts of a catalog generation (\<open>catalog/contracts.py\<close>), the retrieval chunks of a snapshot
  (\<open>catalog/generation.py\<close>), and the merge of structural fragments into the facts
  (\<open>catalog/structural.py\<close>). Records leave out the constant schema version, and the confidence
  of a route, which no operation reads; the facts leave out the TypeScript routes, which
  these operations carry unchanged. SHA-256, the full \<open>str.casefold\<close>, the LibCST version and the
  installed distributions are an environment.
\<close>

subsection \<open>Records\<close>

record catalog_record =
  cr_workspace :: ustr
  cr_source_path :: ustr
  cr_source_digest :: ustr
  cr_producer :: ustr
  cr_producer_version :: ustr

datatype project_kind = NodeProject | PythonProject

fun project_kind_value :: "project_kind \<Rightarrow> ustr" where
  "project_kind_value NodeProject = u ''node''"
| "project_kind_value PythonProject = u ''python''"

datatype dependency_scope = RuntimeScope | DevelopmentScope | OptionalScope | PeerScope | BuildScope

datatype dependency_usage =
    Declared | DirectImport | DynamicLoad | ManagedRuntime | ExternalProvider | Transitive | Unresolved

fun scope_value :: "dependency_scope \<Rightarrow> ustr" where
  "scope_value RuntimeScope = u ''runtime''"
| "scope_value DevelopmentScope = u ''development''"
| "scope_value OptionalScope = u ''optional''"
| "scope_value PeerScope = u ''peer''"
| "scope_value BuildScope = u ''build''"

fun usage_value :: "dependency_usage \<Rightarrow> ustr" where
  "usage_value Declared = u ''declared''"
| "usage_value DirectImport = u ''direct_import''"
| "usage_value DynamicLoad = u ''dynamic_load''"
| "usage_value ManagedRuntime = u ''managed_runtime''"
| "usage_value ExternalProvider = u ''external_provider''"
| "usage_value Transitive = u ''transitive''"
| "usage_value Unresolved = u ''unresolved''"

record project_fact = catalog_record +
  pf_id :: ustr
  pf_root :: ustr
  pf_manifest :: ustr
  pf_kind :: project_kind
  pf_name :: "ustr option"
  pf_version :: "ustr option"
  pf_private :: "bool option"
  pf_frameworks :: "ustr list"

record dependency_fact = catalog_record +
  dp_project :: ustr
  dp_package :: ustr
  dp_declared :: ustr
  dp_resolved :: "ustr option"
  dp_scope :: dependency_scope
  dp_usage :: dependency_usage
  dp_direct :: bool

record engine_fact = catalog_record +
  en_project :: ustr
  en_id :: ustr
  en_role :: ustr
  en_package :: "ustr option"
  en_package_version :: "ustr option"
  en_runtime_version :: "ustr option"
  en_api :: "ustr option"
  en_binary_version :: "ustr option"
  en_protocol_version :: "ustr option"
  en_command :: "ustr option"
  en_process_id :: "int option"
  en_process_epoch :: "int option"
  en_reported_name :: "ustr option"
  en_capabilities :: "ustr list"
  en_available :: bool
  en_coverage :: ustr
  en_omitted :: "ustr list"

record chunk_fact = catalog_record +
  ch_id :: ustr
  ch_path :: ustr
  ch_language_id :: "ustr option"
  ch_kind :: ustr
  ch_start_line :: nat
  ch_end_line :: nat
  ch_byte_start :: nat
  ch_byte_end :: nat
  ch_text :: ustr

record route_fact = catalog_record +
  ro_id :: ustr
  ro_project :: "ustr option"
  ro_framework :: ustr
  ro_route :: "ustr option"
  ro_registration :: ustr
  ro_router :: "ustr option"
  ro_methods :: "ustr list"
  ro_runtime :: "ustr option"
  ro_complete :: bool
  ro_omitted :: "ustr list"

record semantic_location =
  sl_path :: ustr
  sl_start :: nat
  sl_end :: nat
  sl_kind :: "ustr option"
  sl_name :: "ustr option"

record semantic_call_site = semantic_location +
  sl_callee :: ustr
  sl_signature :: "ustr option"
  sl_return_type :: "ustr option"

record symbol_fact = catalog_record +
  sy_id :: ustr
  sy_revision :: ustr
  sy_project :: ustr
  sy_path :: ustr
  sy_name :: ustr
  sy_kind :: ustr
  sy_start :: nat
  sy_end :: nat
  sy_exported :: bool
  sy_type :: "ustr option"
  sy_documentation :: "ustr option"
  sy_signatures :: "ustr list"
  sy_declarations :: "semantic_location list"
  sy_definitions :: "semantic_location list"
  sy_implementations :: "semantic_location list"
  sy_references :: "semantic_location list"
  sy_calls :: "semantic_call_site list"
  sy_assignable :: "bool option"
  sy_engine :: ustr
  sy_coverage :: ustr

record import_fact = catalog_record +
  im_id :: ustr
  im_project :: ustr
  im_path :: ustr
  im_specifier :: ustr
  im_resolved :: "ustr option"
  im_usage :: dependency_usage
  im_type_only :: bool
  im_engine :: ustr

record diagnostic_fact = catalog_record +
  di_id :: ustr
  di_project :: ustr
  di_path :: ustr
  di_engine :: ustr
  di_category :: ustr
  di_code :: "ustr option"
  di_message :: ustr
  di_start :: nat
  di_end :: nat
  di_coverage :: ustr

datatype change_operation = Added | Changed | Deleted

record change_fact = catalog_record +
  ca_id :: ustr
  ca_generation :: nat
  ca_path :: ustr
  ca_operation :: change_operation
  ca_previous :: "ustr option"
  ca_current :: "ustr option"

record script_fact = catalog_record +
  sr_project :: ustr
  sr_name :: ustr
  sr_command :: ustr
  sr_typecheck :: bool
  sr_tasks :: "ustr list"
  sr_prerequisites :: "ustr list"

record task_fact = catalog_record +
  tk_project :: ustr
  tk_runner :: ustr
  tk_id :: ustr
  tk_depends_on :: "ustr list"
  tk_outputs :: "ustr list"
  tk_inputs :: "ustr list"
  tk_cache :: "bool option"
  tk_persistent :: bool
  tk_extends_root :: bool

record config_fact = catalog_record +
  co_project :: ustr
  co_path :: ustr
  co_kind :: ustr
  co_parser :: ustr
  co_closure :: "ustr list"
  co_complete :: bool
  co_omitted :: "ustr list"

record rule_fact = catalog_record +
  ru_id :: ustr
  ru_language :: ustr
  ru_severity :: ustr
  ru_message :: ustr
  ru_note :: ustr
  ru_digest :: ustr
  ru_config_digest :: ustr
  ru_globs :: "ustr list"
  ru_ignores :: "ustr list"

record policy_fact = catalog_record +
  po_id :: ustr
  po_title :: ustr
  po_source_id :: ustr
  po_identity_field :: ustr
  po_line :: nat
  po_attributes :: "(ustr, ustr) dict"

record catalog_facts =
  fa_projects :: "project_fact list"
  fa_dependencies :: "dependency_fact list"
  fa_scripts :: "script_fact list"
  fa_tasks :: "task_fact list"
  fa_configs :: "config_fact list"
  fa_engines :: "engine_fact list"
  fa_routes :: "route_fact list"
  fa_rules :: "rule_fact list"
  fa_policies :: "policy_fact list"
  fa_symbols :: "symbol_fact list"
  fa_imports :: "import_fact list"
  fa_diagnostics :: "diagnostic_fact list"
  fa_changes :: "change_fact list"
  fa_chunks :: "chunk_fact list"
  fa_warnings :: "ustr list"


record catalog_env =
  ce_digest :: "bytes \<Rightarrow> ustr"
  ce_casefold :: "ustr \<Rightarrow> ustr"
  ce_libcst_version :: ustr
  ce_distributions :: "(ustr, ustr list) dict"

datatype fact_error = Cutting chunk_error | EncodeFailed | FactConstraint

definition record_valid :: "'a catalog_record_scheme \<Rightarrow> bool" where
  "record_valid r \<longleftrightarrow> cr_workspace r \<noteq> [] \<and> cr_source_path r \<noteq> [] \<and> length (cr_source_digest r) = 64
     \<and> cr_producer r \<noteq> [] \<and> cr_producer_version r \<noteq> []"

text \<open>\<open>content_digest(identity.encode())\<close> of an f-string whose parts are joined by NUL.\<close>

definition identity_digest :: "catalog_env \<Rightarrow> ustr list \<Rightarrow> (fact_error, ustr) result" where
  "identity_digest env parts =
     (case utf8_encode (join_with [0] parts) of None \<Rightarrow> Inl EncodeFailed | Some bs \<Rightarrow> Inr (ce_digest env bs))"

definition show_position :: "nat \<Rightarrow> ustr" where
  "show_position n = u (show_nat n)"

subsection \<open>Chunks of a snapshot\<close>

definition CATALOG_GENERATION_PRODUCER :: ustr where
  "CATALOG_GENERATION_PRODUCER = u ''soleaux-catalog-generation''"

definition CATALOG_GENERATION_VERSION :: ustr where "CATALOG_GENERATION_VERSION = u ''1''"

definition chunk_fact_valid :: "chunk_fact \<Rightarrow> bool" where
  "chunk_fact_valid c \<longleftrightarrow> record_valid c \<and> length (ch_id c) = 64 \<and> ch_path c \<noteq> [] \<and> ch_kind c \<noteq> []
     \<and> ch_start_line c \<ge> 1 \<and> ch_end_line c \<ge> 1"

definition make_chunk :: "catalog_env \<Rightarrow> ustr \<Rightarrow> captured_file \<Rightarrow> ustr \<Rightarrow> segment \<Rightarrow> (fact_error, chunk_fact) result" where
  "make_chunk env workspace captured path g =
     bind_err (identity_digest env [workspace, path, cf_hash captured, show_position (sm_byte_start g),
                                    show_position (sm_byte_end g)]) (\<lambda>i.
       let c = \<lparr>cr_workspace = workspace, cr_source_path = path, cr_source_digest = cf_hash captured,
                cr_producer = CATALOG_GENERATION_PRODUCER, cr_producer_version = CATALOG_GENERATION_VERSION,
                ch_id = i, ch_path = path, ch_language_id = cf_language_id captured, ch_kind = chunk_kind path,
                ch_start_line = sm_start_line g, ch_end_line = sm_end_line g, ch_byte_start = sm_byte_start g,
                ch_byte_end = sm_byte_end g, ch_text = sm_text g\<rparr>
       in if chunk_fact_valid c then Inr c else Inl FactConstraint)"

text \<open>\<open>{item.path: item for item in files}\<close>: the last row of a path.\<close>

definition captured_by_path :: "captured_file list \<Rightarrow> ustr \<Rightarrow> captured_file option" where
  "captured_by_path files = map_of (rev (map (\<lambda>row. (cf_path row, row)) files))"

definition lift_cut :: "(chunk_error, 'a) result \<Rightarrow> (fact_error, 'a) result" where
  "lift_cut r = (case r of Inl e \<Rightarrow> Inl (Cutting e) | Inr x \<Rightarrow> Inr x)"

definition file_chunks ::
  "catalog_env \<Rightarrow> ustr \<Rightarrow> captured_file list \<Rightarrow> ustr \<times> bytes \<Rightarrow> (fact_error, chunk_fact list) result" where
  "file_chunks env workspace files entry =
     (case entry of (path, content) \<Rightarrow>
        if \<not> eligible_for_chunks path content then Inr []
        else case captured_by_path files path of
          None \<Rightarrow> Inl (Cutting (NotCaptured path))
        | Some captured \<Rightarrow>
            bind_err (lift_cut (chunk_segments content)) (map_err (make_chunk env workspace captured path)))"

definition chunks :: "catalog_env \<Rightarrow> snapshot_bundle \<Rightarrow> (fact_error, chunk_fact list) result" where
  "chunks env bundle =
     bind_err (map_err (file_chunks env (sb_workspace bundle) (sb_files bundle)) (sorted_contents bundle))
       (\<lambda>css. Inr (concat css))"

subsection \<open>Structural fragments\<close>

record fragment =
  fg_projection :: ustr
  fg_kind :: ustr
  fg_name :: "ustr option"
  fg_start :: nat
  fg_end :: nat
  fg_attributes :: "(ustr, json) dict"

record extracted_file =
  xf_digest :: ustr
  xf_language :: ustr
  xf_fragments :: "fragment list"

definition STRUCTURAL_PRODUCER :: ustr where "STRUCTURAL_PRODUCER = u ''soleaux-structural-catalog''"

definition POSTGRESQL_CATALOG_PRODUCER :: ustr where "POSTGRESQL_CATALOG_PRODUCER = u ''soleaux-postgresql-catalog''"

definition AST_GREP_ANALYZER_ID :: ustr where "AST_GREP_ANALYZER_ID = u ''structural:ast-grep''"

definition LIBCST_ANALYZER_ID :: ustr where "LIBCST_ANALYZER_ID = u ''structural:libcst''"

definition structural_analyzer_ids :: "ustr set" where
  "structural_analyzer_ids = {AST_GREP_ANALYZER_ID, LIBCST_ANALYZER_ID}"

definition http_methods :: "ustr set" where
  "http_methods = {u ''GET'', u ''HEAD'', u ''POST'', u ''PUT'', u ''PATCH'', u ''DELETE'', u ''OPTIONS''}"

definition is_python :: "ustr \<Rightarrow> bool" where
  "is_python language \<longleftrightarrow> casefold language = u ''python''"

definition analyzer_id_for :: "ustr \<Rightarrow> ustr" where
  "analyzer_id_for language = (if is_python language then LIBCST_ANALYZER_ID else AST_GREP_ANALYZER_ID)"

definition analyzer_version_for :: "catalog_env \<Rightarrow> ustr \<Rightarrow> ustr" where
  "analyzer_version_for env language = (if is_python language then ce_libcst_version env else u ''0.45.0'')"

text \<open>The loop of \<open>project_id_for_path\<close> over the projects, with the best identity and its length.\<close>

definition owner_step :: "project_kind option \<Rightarrow> ustr \<Rightarrow> project_fact \<Rightarrow> ustr \<times> int \<Rightarrow> ustr \<times> int" where
  "owner_step kind path project best =
     (if kind \<noteq> None \<and> Some (pf_kind project) \<noteq> kind then best
      else let root = pf_root project in
        if root = [] \<and> snd best < 0 then (pf_id project, 0)
        else if root \<noteq> [] \<and> (path = root \<or> startswith path (root @ u ''/'')) \<and> int (length root) > snd best
        then (pf_id project, int (length root))
        else best)"

definition project_id_for_path :: "project_kind option \<Rightarrow> project_fact list \<Rightarrow> ustr \<Rightarrow> ustr" where
  "project_id_for_path kind projects path = fst (fold (owner_step kind path) projects ([], -1))"

definition exported_names :: "fragment list \<Rightarrow> ustr list" where
  "exported_names exports =
     concat (map (\<lambda>f. (case fg_name f of None \<Rightarrow> [] | Some n \<Rightarrow> [n])
       @ (case map_of (fg_attributes f) (u ''exported_names'') of
            Some (JArr vs) \<Rightarrow> List.map_filter (\<lambda>v. case v of JStr s \<Rightarrow> Some s | _ \<Rightarrow> None) vs | _ \<Rightarrow> [])) exports)"

definition encloses :: "fragment \<Rightarrow> fragment \<Rightarrow> bool" where
  "encloses export declaration \<longleftrightarrow> fg_start export \<le> fg_start declaration \<and> fg_end declaration \<le> fg_end export"

definition strip_quotes :: "ustr \<Rightarrow> ustr" where
  "strip_quotes s = (let q = (\<lambda>c. c = 34 \<or> c = 39) in rev (dropWhile q (rev (dropWhile q s))))"

definition runtime_export :: "fragment list \<Rightarrow> ustr option" where
  "runtime_export exports =
     first_some (\<lambda>f. if fg_name f \<noteq> Some (u ''runtime'') then None
                     else case map_of (fg_attributes f) (u ''initializer_text'') of
                       Some (JStr s) \<Rightarrow> if s = [] then None else Some (strip_quotes s) | _ \<Rightarrow> None) exports"

definition normalized_distribution :: "catalog_env \<Rightarrow> ustr \<Rightarrow> ustr" where
  "normalized_distribution env v = filter (\<lambda>c. c \<notin> {45, 95, 46}) (ce_casefold env v)"

text \<open>\<open>declared_by_project[project_id]\<close>: a later declaration of the same distribution replaces the value.\<close>

definition declared_by_project :: "catalog_env \<Rightarrow> dependency_fact list \<Rightarrow> ustr \<Rightarrow> (ustr, dependency_fact) dict" where
  "declared_by_project env deps project =
     foldl (\<lambda>d dep. AList.update (normalized_distribution env (dp_package dep)) dep d) []
       (filter (\<lambda>dep. dp_usage dep = Declared \<and> dp_project dep = project) deps)"

definition declared_distribution :: "catalog_env \<Rightarrow> (ustr, dependency_fact) dict \<Rightarrow> ustr \<Rightarrow> dependency_fact option" where
  "declared_distribution env declared module =
     first_some (\<lambda>candidate. map_of declared (normalized_distribution env candidate))
       (case map_of (ce_distributions env) module of None \<Rightarrow> [module] | Some names \<Rightarrow> names)"

definition direct_import :: "ustr \<Rightarrow> ustr \<Rightarrow> ustr \<Rightarrow> ustr \<Rightarrow> ustr \<Rightarrow> dependency_fact \<Rightarrow> dependency_fact" where
  "direct_import workspace path digest version project dep =
     \<lparr>cr_workspace = workspace, cr_source_path = path, cr_source_digest = digest, cr_producer = STRUCTURAL_PRODUCER,
      cr_producer_version = version, dp_project = project, dp_package = dp_package dep,
      dp_declared = dp_declared dep, dp_resolved = dp_resolved dep, dp_scope = dp_scope dep,
      dp_usage = DirectImport, dp_direct = True\<rparr>"

definition dependency_valid :: "dependency_fact \<Rightarrow> bool" where
  "dependency_valid d \<longleftrightarrow> record_valid d \<and> dp_project d \<noteq> [] \<and> dp_package d \<noteq> [] \<and> dp_declared d \<noteq> []"

definition symbol_valid :: "symbol_fact \<Rightarrow> bool" where
  "symbol_valid s \<longleftrightarrow> record_valid s \<and> length (sy_id s) = 64 \<and> length (sy_revision s) = 64 \<and> sy_path s \<noteq> []
     \<and> sy_name s \<noteq> [] \<and> sy_kind s \<noteq> [] \<and> sy_engine s \<noteq> [] \<and> sy_coverage s \<noteq> []"

definition import_valid :: "import_fact \<Rightarrow> bool" where
  "import_valid i \<longleftrightarrow> record_valid i \<and> length (im_id i) = 64 \<and> im_path i \<noteq> [] \<and> im_specifier i \<noteq> [] \<and> im_engine i \<noteq> []"

definition check_fact :: "('a \<Rightarrow> bool) \<Rightarrow> 'a \<Rightarrow> (fact_error, 'a) result" where
  "check_fact valid x = (if valid x then Inr x else Inl FactConstraint)"


subsection \<open>Merging structural fragments\<close>

definition projection :: "ustr \<Rightarrow> extracted_file \<Rightarrow> fragment list" where
  "projection name x = filter (\<lambda>f. fg_projection f = name) (xf_fragments x)"

text \<open>A semantic symbol of the same name that overlaps the declaration.\<close>

definition shadowed :: "(ustr \<times> nat \<times> nat) list \<Rightarrow> ustr \<Rightarrow> fragment \<Rightarrow> bool" where
  "shadowed occupied name d \<longleftrightarrow>
     (\<exists>(n, i, j) \<in> set occupied. n = name \<and> i < fg_end d \<and> fg_start d < j)"

definition declaration_symbol ::
  "catalog_env \<Rightarrow> ustr \<Rightarrow> ustr \<Rightarrow> ustr \<Rightarrow> extracted_file \<Rightarrow> fragment \<Rightarrow> ustr \<Rightarrow> (fact_error, symbol_fact) result" where
  "declaration_symbol env workspace project path x d name =
     (let exports = projection (u ''syntax.exports'') x; analyzer = analyzer_id_for (xf_language x) in
      bind_err (identity_digest env [workspace, project, path, name, show_position (fg_start d), show_position (fg_end d)]) (\<lambda>i.
      bind_err (identity_digest env [i, xf_digest x, analyzer, fg_kind d, []]) (\<lambda>revision.
      check_fact symbol_valid
        \<lparr>cr_workspace = workspace, cr_source_path = path, cr_source_digest = xf_digest x,
         cr_producer = STRUCTURAL_PRODUCER, cr_producer_version = analyzer_version_for env (xf_language x),
         sy_id = i, sy_revision = revision, sy_project = project, sy_path = path, sy_name = name,
         sy_kind = fg_kind d, sy_start = fg_start d, sy_end = fg_end d,
         sy_exported = (name \<in> set (exported_names exports) \<or> (\<exists>e \<in> set exports. encloses e d)),
         sy_type = None, sy_documentation = None, sy_signatures = [], sy_declarations = [], sy_definitions = [],
         sy_implementations = [], sy_references = [], sy_calls = [], sy_assignable = None,
         sy_engine = analyzer, sy_coverage = u ''syntactic''\<rparr>)))"

definition import_row ::
  "catalog_env \<Rightarrow> ustr \<Rightarrow> ustr \<Rightarrow> ustr \<Rightarrow> extracted_file \<Rightarrow> fragment \<Rightarrow> ustr \<Rightarrow> (fact_error, import_fact) result" where
  "import_row env workspace project path x f specifier =
     bind_err (identity_digest env [workspace, project, path, specifier, show_position (fg_start f)]) (\<lambda>i.
     check_fact import_valid
       \<lparr>cr_workspace = workspace, cr_source_path = path, cr_source_digest = xf_digest x,
        cr_producer = STRUCTURAL_PRODUCER, cr_producer_version = analyzer_version_for env (xf_language x),
        im_id = i, im_project = project, im_path = path, im_specifier = specifier, im_resolved = None,
        im_usage = Unresolved, im_type_only = False, im_engine = analyzer_id_for (xf_language x)\<rparr>)"

text \<open>The direct dependencies of one Python file: the modules in order, one row for each package.\<close>

definition emit_direct ::
  "catalog_env \<Rightarrow> ustr \<Rightarrow> ustr \<Rightarrow> ustr \<Rightarrow> extracted_file \<Rightarrow> (ustr, dependency_fact) dict \<Rightarrow> ustr \<Rightarrow>
   dependency_fact list \<Rightarrow> (fact_error, dependency_fact list) result" where
  "emit_direct env workspace project path x declared module emitted =
     (case declared_distribution env declared module of
        None \<Rightarrow> Inr emitted
      | Some dep \<Rightarrow>
          if dp_package dep \<in> dp_package ` set emitted then Inr emitted
          else bind_err (check_fact dependency_valid
                 (direct_import workspace path (xf_digest x) (analyzer_version_for env (xf_language x)) project dep))
                 (\<lambda>row. Inr (emitted @ [row])))"

definition imported_modules :: "fragment list \<Rightarrow> ustr list" where
  "imported_modules imports =
     sorted_set (List.map_filter (\<lambda>f. case fg_name f of
        None \<Rightarrow> None
      | Some n \<Rightarrow> if startswith n (u ''.'') then None else Some (takeWhile (\<lambda>c. c \<noteq> 46) n)) imports)"

record file_facts =
  ff_symbols :: "symbol_fact list"
  ff_imports :: "import_fact list"
  ff_direct :: "dependency_fact list"

definition named_fragments :: "fragment list \<Rightarrow> (fragment \<times> ustr) list" where
  "named_fragments fs = List.map_filter (\<lambda>f. map_option (\<lambda>n. (f, n)) (fg_name f)) fs"

definition extract_file ::
  "catalog_env \<Rightarrow> ustr \<Rightarrow> project_fact list \<Rightarrow> dependency_fact list \<Rightarrow> (ustr \<times> nat \<times> nat) list \<Rightarrow> ustr \<Rightarrow>
   extracted_file \<Rightarrow> (fact_error, file_facts) result" where
  "extract_file env workspace projects deps occupied path x =
     (let declarations = projection (u ''syntax.declarations'') x; import_fragments = projection (u ''syntax.imports'') x;
          project = project_id_for_path (if is_python (xf_language x) then Some PythonProject else None) projects path
      in bind_err (map_err (\<lambda>(d, name). declaration_symbol env workspace project path x d name)
                     (filter (\<lambda>(d, name). \<not> shadowed occupied name d) (named_fragments declarations))) (\<lambda>symbols.
         bind_err (map_err (\<lambda>(f, specifier). import_row env workspace project path x f specifier)
                     (named_fragments import_fragments)) (\<lambda>imports.
         bind_err (if is_python (xf_language x)
                   then fold_err (emit_direct env workspace project path x (declared_by_project env deps project))
                          (imported_modules import_fragments) []
                   else Inr []) (\<lambda>direct.
         Inr \<lparr>ff_symbols = symbols, ff_imports = imports, ff_direct = direct\<rparr>))))"

definition route_with_export_evidence :: "route_fact \<Rightarrow> fragment list \<Rightarrow> route_fact" where
  "route_with_export_evidence route exports =
     (let methods = sorted_set (filter (\<lambda>n. n \<in> http_methods) (exported_names exports)) in
      route\<lparr>ro_methods := methods,
            ro_runtime := (case runtime_export exports of
               Some r \<Rightarrow> if r = [] then ro_runtime route else Some r | None \<Rightarrow> ro_runtime route),
            ro_complete := ro_complete route \<and> (methods \<noteq> [] \<or> ro_route route \<noteq> None)\<rparr>)"

definition symbol_key :: "symbol_fact \<Rightarrow> ustr \<times> nat \<times> ustr" where
  "symbol_key s = (sy_path s, sy_start s, sy_id s)"

definition import_key :: "import_fact \<Rightarrow> ustr \<times> ustr" where
  "import_key i = (im_path i, im_id i)"

definition dependency_key :: "dependency_fact \<Rightarrow> ustr \<times> ustr \<times> ustr \<times> ustr \<times> ustr" where
  "dependency_key d = (dp_project d, scope_value (dp_scope d), dp_package d, usage_value (dp_usage d), cr_source_path d)"

definition retained_symbol :: "ustr set \<Rightarrow> symbol_fact \<Rightarrow> bool" where
  "retained_symbol paths s \<longleftrightarrow> \<not> (sy_engine s \<in> structural_analyzer_ids \<and> sy_path s \<in> paths)"

definition retained_import :: "ustr set \<Rightarrow> import_fact \<Rightarrow> bool" where
  "retained_import paths i \<longleftrightarrow> \<not> (im_engine i \<in> structural_analyzer_ids \<and> im_path i \<in> paths)"

definition retained_dependency :: "ustr set \<Rightarrow> dependency_fact \<Rightarrow> bool" where
  "retained_dependency python_paths d \<longleftrightarrow>
     \<not> (cr_source_path d \<in> python_paths \<and> dp_usage d = DirectImport
        \<and> cr_producer d \<in> {STRUCTURAL_PRODUCER, u ''stdlib:ast''})"

definition semantic_spans :: "symbol_fact list \<Rightarrow> ustr \<Rightarrow> (ustr \<times> nat \<times> nat) list" where
  "semantic_spans symbols path =
     map (\<lambda>s. (sy_name s, sy_start s, sy_end s)) (filter (\<lambda>s. sy_path s = path) symbols)"

definition extract_all ::
  "catalog_env \<Rightarrow> ustr \<Rightarrow> project_fact list \<Rightarrow> dependency_fact list \<Rightarrow> symbol_fact list \<Rightarrow>
   (ustr, extracted_file) dict \<Rightarrow> (fact_error, file_facts list) result" where
  "extract_all env workspace projects deps symbols extracted =
     map_err (\<lambda>(path, x). extract_file env workspace projects deps (semantic_spans symbols path) path x) extracted"

definition merge_routes :: "(ustr, extracted_file) dict \<Rightarrow> route_fact list \<Rightarrow> route_fact list" where
  "merge_routes extracted routes =
     map (\<lambda>route. case map_of extracted (cr_source_path route) of
            None \<Rightarrow> route
          | Some x \<Rightarrow> route_with_export_evidence route (projection (u ''syntax.exports'') x)) routes"

definition python_paths :: "(ustr, extracted_file) dict \<Rightarrow> ustr set" where
  "python_paths extracted = fst ` set (filter (\<lambda>(path, x). is_python (xf_language x)) extracted)"

definition merge_structural_facts ::
  "catalog_env \<Rightarrow> ustr \<Rightarrow> (ustr, extracted_file) dict \<Rightarrow> catalog_facts \<Rightarrow> (fact_error, catalog_facts) result" where
  "merge_structural_facts env workspace extracted facts =
     (if extracted = [] then Inr facts
      else
        let paths = set (dict_keys extracted);
            symbols = filter (retained_symbol paths) (fa_symbols facts);
            imports = filter (retained_import paths) (fa_imports facts);
            deps = filter (retained_dependency (python_paths extracted)) (fa_dependencies facts)
        in bind_err (extract_all env workspace (fa_projects facts) deps symbols extracted) (\<lambda>found.
           Inr (facts\<lparr>fa_symbols := sort_key symbol_key (symbols @ concat (map ff_symbols found)),
                      fa_imports := sort_key import_key (imports @ concat (map ff_imports found)),
                      fa_dependencies := sort_key dependency_key (deps @ concat (map ff_direct found)),
                      fa_routes := merge_routes extracted (fa_routes facts)\<rparr>)))"

end
