(* ===== verification/CatalogMerge.thy ===== *)
theory CatalogMerge
  imports CatalogFacts "HOL-Library.Multiset"
begin

text \<open>
  What the merge of structural fragments keeps and adds: semantic rows are never touched or
  shadowed, rows of other paths stay, and merging the same extraction again changes nothing.
\<close>

subsection \<open>Rows found in one file\<close>

lemma check_fact_Inr [simp]: "check_fact valid x = Inr y \<longleftrightarrow> valid x \<and> y = x"
  by (auto simp: check_fact_def)

lemma declaration_symbol_fields:
  assumes "declaration_symbol env workspace project path x d name = Inr s"
  shows "sy_path s = path \<and> sy_name s = name \<and> sy_start s = fg_start d \<and> sy_end s = fg_end d
    \<and> sy_engine s = analyzer_id_for (xf_language x) \<and> cr_source_path s = path \<and> sy_project s = project"
  using assms by (auto simp: declaration_symbol_def Let_def)

lemma import_row_fields:
  assumes "import_row env workspace project path x f specifier = Inr i"
  shows "im_path i = path \<and> im_engine i = analyzer_id_for (xf_language x) \<and> cr_source_path i = path \<and> im_project i = project"
  using assms by (auto simp: import_row_def)

lemma analyzer_structural [simp]: "analyzer_id_for language \<in> structural_analyzer_ids"
  by (simp add: analyzer_id_for_def structural_analyzer_ids_def)

definition direct_row :: "ustr \<Rightarrow> dependency_fact \<Rightarrow> bool" where
  "direct_row path d \<longleftrightarrow> cr_source_path d = path \<and> dp_usage d = DirectImport \<and> cr_producer d = STRUCTURAL_PRODUCER"

lemma emit_direct_rows:
  assumes "fold_err (emit_direct env workspace project path x declared) modules emitted = Inr rows"
    and "\<forall>d \<in> set emitted. direct_row path d"
  shows "\<forall>d \<in> set rows. direct_row path d"
  using assms
proof (rule fold_err_invariant)
  fix module emitted rows
  assume "\<forall>d \<in> set emitted. direct_row path d" "emit_direct env workspace project path x declared module emitted = Inr rows"
  then show "\<forall>d \<in> set rows. direct_row path d"
    by (auto simp: emit_direct_def direct_row_def direct_import_def split: option.split_asm if_split_asm)
qed

lemma extract_file_rows:
  assumes "extract_file env workspace projects deps occupied path x = Inr f"
  shows "\<forall>s \<in> set (ff_symbols f). sy_path s = path \<and> sy_engine s \<in> structural_analyzer_ids
      \<and> (\<forall>(n, i, j) \<in> set occupied. \<not> (n = sy_name s \<and> i < sy_end s \<and> sy_start s < j))"
    and "\<forall>i \<in> set (ff_imports f). im_path i = path \<and> im_engine i \<in> structural_analyzer_ids"
    and "\<forall>d \<in> set (ff_direct f). direct_row path d \<and> is_python (xf_language x)"
proof -
  let ?project = "project_id_for_path (if is_python (xf_language x) then Some PythonProject else None) projects path"
  obtain symbols imps direct where r:
    "map_err (\<lambda>(d, name). declaration_symbol env workspace ?project path x d name)
       (filter (\<lambda>(d, name). \<not> shadowed occupied name d) (named_fragments (projection (u ''syntax.declarations'') x))) = Inr symbols"
    "map_err (\<lambda>(f, specifier). import_row env workspace ?project path x f specifier)
       (named_fragments (projection (u ''syntax.imports'') x)) = Inr imps"
    "(if is_python (xf_language x)
      then fold_err (emit_direct env workspace ?project path x (declared_by_project env deps ?project))
             (imported_modules (projection (u ''syntax.imports'') x)) []
      else Inr []) = Inr direct"
    "f = \<lparr>ff_symbols = symbols, ff_imports = imps, ff_direct = direct\<rparr>"
    using assms unfolding extract_file_def Let_def by (auto simp only: bind_err_eq_Inr sum.inject)
  show "\<forall>s \<in> set (ff_symbols f). sy_path s = path \<and> sy_engine s \<in> structural_analyzer_ids
      \<and> (\<forall>(n, i, j) \<in> set occupied. \<not> (n = sy_name s \<and> i < sy_end s \<and> sy_start s < j))"
  proof
    fix s assume "s \<in> set (ff_symbols f)"
    with map_err_mem [OF r(1), of s] r(4) obtain d name where
      "\<not> shadowed occupied name d" "declaration_symbol env workspace ?project path x d name = Inr s" by auto
    then show "sy_path s = path \<and> sy_engine s \<in> structural_analyzer_ids
        \<and> (\<forall>(n, i, j) \<in> set occupied. \<not> (n = sy_name s \<and> i < sy_end s \<and> sy_start s < j))"
      using declaration_symbol_fields [of env workspace ?project path x d name s] by (auto simp: shadowed_def)
  qed
  show "\<forall>i \<in> set (ff_imports f). im_path i = path \<and> im_engine i \<in> structural_analyzer_ids"
    using map_err_mem [OF r(2)] r(4) import_row_fields by fastforce
  show "\<forall>d \<in> set (ff_direct f). direct_row path d \<and> is_python (xf_language x)"
    using emit_direct_rows [of env workspace ?project path x _ _ "[]" direct] r(3,4) by (auto split: if_split_asm)
qed

text \<open>What an extraction reads of the semantic symbols is which spans are occupied, in any order.\<close>

lemma extract_file_cong:
  assumes "set occupied = set occupied'"
  shows "extract_file env workspace projects deps occupied path x = extract_file env workspace projects deps occupied' path x"
proof -
  have "shadowed occupied = shadowed occupied'" using assms by (simp add: shadowed_def fun_eq_iff)
  then show ?thesis by (simp only: extract_file_def)
qed


subsection \<open>The merge\<close>

abbreviation "kept_symbols extracted facts \<equiv> filter (retained_symbol (set (dict_keys extracted))) (fa_symbols facts)"
abbreviation "kept_imports extracted facts \<equiv> filter (retained_import (set (dict_keys extracted))) (fa_imports facts)"
abbreviation "kept_dependencies extracted facts \<equiv> filter (retained_dependency (python_paths extracted)) (fa_dependencies facts)"

lemma merge_Inr:
  assumes "extracted \<noteq> []"
  shows "merge_structural_facts env workspace extracted facts = Inr merged \<longleftrightarrow>
    (\<exists>found. extract_all env workspace (fa_projects facts) (kept_dependencies extracted facts) (kept_symbols extracted facts) extracted = Inr found
      \<and> merged = facts\<lparr>fa_symbols := sort_key symbol_key (kept_symbols extracted facts @ concat (map ff_symbols found)),
          fa_imports := sort_key import_key (kept_imports extracted facts @ concat (map ff_imports found)),
          fa_dependencies := sort_key dependency_key (kept_dependencies extracted facts @ concat (map ff_direct found)),
          fa_routes := merge_routes extracted (fa_routes facts)\<rparr>)"
  using assms unfolding merge_structural_facts_def Let_def by auto

definition overlaps :: "symbol_fact \<Rightarrow> symbol_fact \<Rightarrow> bool" where
  "overlaps t s \<longleftrightarrow> sy_path t = sy_path s \<and> sy_name t = sy_name s \<and> sy_start t < sy_end s \<and> sy_start s < sy_end t"

lemma found_file:
  assumes "extract_all env workspace projects deps symbols extracted = Inr found" and "f \<in> set found"
  obtains path x where "(path, x) \<in> set extracted"
    "extract_file env workspace projects deps (semantic_spans symbols path) path x = Inr f"
  using map_err_mem [OF assms(1) [unfolded extract_all_def] assms(2)] that by auto

lemma found_symbol:
  assumes "extract_all env workspace projects deps symbols extracted = Inr found" and "s \<in> set (concat (map ff_symbols found))"
  shows "\<not> retained_symbol (set (dict_keys extracted)) s" and "\<forall>t \<in> set symbols. \<not> overlaps t s"
proof -
  from assms(2) obtain f where f: "f \<in> set found" "s \<in> set (ff_symbols f)" by auto
  from found_file [OF assms(1) f(1)] obtain path x where x: "(path, x) \<in> set extracted"
    "extract_file env workspace projects deps (semantic_spans symbols path) path x = Inr f" .
  note row = bspec [OF extract_file_rows(1) [OF x(2)] f(2)]
  have "path \<in> set (dict_keys extracted)" using x(1) by force
  then show "\<not> retained_symbol (set (dict_keys extracted)) s" using row by (simp add: retained_symbol_def)
  show "\<forall>t \<in> set symbols. \<not> overlaps t s" using row by (auto simp: overlaps_def semantic_spans_def)
qed

lemma found_import:
  assumes "extract_all env workspace projects deps symbols extracted = Inr found" and "i \<in> set (concat (map ff_imports found))"
  shows "\<not> retained_import (set (dict_keys extracted)) i"
proof -
  from assms(2) obtain f where f: "f \<in> set found" "i \<in> set (ff_imports f)" by auto
  from found_file [OF assms(1) f(1)] obtain path x where x: "(path, x) \<in> set extracted"
    "extract_file env workspace projects deps (semantic_spans symbols path) path x = Inr f" .
  have "path \<in> set (dict_keys extracted)" using x(1) by force
  then show ?thesis using bspec [OF extract_file_rows(2) [OF x(2)] f(2)] by (simp add: retained_import_def)
qed

lemma found_dependency:
  assumes "extract_all env workspace projects deps symbols extracted = Inr found" and "d \<in> set (concat (map ff_direct found))"
  shows "\<not> retained_dependency (python_paths extracted) d"
proof -
  from assms(2) obtain f where f: "f \<in> set found" "d \<in> set (ff_direct f)" by auto
  from found_file [OF assms(1) f(1)] obtain path x where x: "(path, x) \<in> set extracted"
    "extract_file env workspace projects deps (semantic_spans symbols path) path x = Inr f" .
  note row = bspec [OF extract_file_rows(3) [OF x(2)] f(2)]
  then have "path \<in> python_paths extracted" using x(1) by (force simp: python_paths_def)
  then show ?thesis using row by (simp add: retained_dependency_def direct_row_def)
qed

lemma filter_kept:
  "\<forall>y \<in> set ys. \<not> P y \<Longrightarrow> filter P (sort_key k (filter P xs @ ys)) = sort_key k (filter P xs)"
  by (simp add: filter_sort filter_empty_conv)

lemma merge_routes_rows:
  "list_all2 (\<lambda>r r'. r' = r\<lparr>ro_methods := ro_methods r', ro_runtime := ro_runtime r', ro_complete := ro_complete r'\<rparr>
      \<and> (cr_source_path r \<notin> set (dict_keys extracted) \<longrightarrow> r' = r)) routes (merge_routes extracted routes)"
  unfolding merge_routes_def list_all2_map2
proof (rule list.rel_refl)
  fix r :: route_fact
  let ?r' = "case map_of extracted (cr_source_path r) of None \<Rightarrow> r
    | Some x \<Rightarrow> route_with_export_evidence r (projection (u ''syntax.exports'') x)"
  have "map_of extracted (cr_source_path r) = None" if "cr_source_path r \<notin> set (dict_keys extracted)"
    using that by (simp add: map_of_eq_None_iff)
  moreover have "?r' = r\<lparr>ro_methods := ro_methods ?r', ro_runtime := ro_runtime ?r', ro_complete := ro_complete ?r'\<rparr>"
    by (simp add: route_with_export_evidence_def Let_def split: option.split)
  ultimately show "?r' = r\<lparr>ro_methods := ro_methods ?r', ro_runtime := ro_runtime ?r', ro_complete := ro_complete ?r'\<rparr>
      \<and> (cr_source_path r \<notin> set (dict_keys extracted) \<longrightarrow> ?r' = r)" by simp
qed

text \<open>What a merge leaves, in terms of the kept rows.\<close>

lemma merge_rows:
  assumes "merge_structural_facts env workspace extracted facts = Inr merged"
  shows "\<exists>found. extract_all env workspace (fa_projects facts) (kept_dependencies extracted facts) (kept_symbols extracted facts) extracted = Inr found
    \<and> mset (fa_symbols merged) = mset (kept_symbols extracted facts) + mset (concat (map ff_symbols found))
    \<and> mset (fa_imports merged) = mset (kept_imports extracted facts) + mset (concat (map ff_imports found))
    \<and> mset (fa_dependencies merged) = mset (kept_dependencies extracted facts) + mset (concat (map ff_direct found))
    \<and> (\<forall>s \<in> set (concat (map ff_symbols found)). \<not> retained_symbol (set (dict_keys extracted)) s
         \<and> (\<forall>t \<in> set (kept_symbols extracted facts). \<not> overlaps t s))
    \<and> (\<forall>i \<in> set (concat (map ff_imports found)). \<not> retained_import (set (dict_keys extracted)) i)
    \<and> (\<forall>d \<in> set (concat (map ff_direct found)). \<not> retained_dependency (python_paths extracted) d)
    \<and> list_all2 (\<lambda>r r'. r' = r\<lparr>ro_methods := ro_methods r', ro_runtime := ro_runtime r', ro_complete := ro_complete r'\<rparr>
         \<and> (cr_source_path r \<notin> set (dict_keys extracted) \<longrightarrow> r' = r)) (fa_routes facts) (fa_routes merged)
    \<and> merged = facts\<lparr>fa_symbols := fa_symbols merged, fa_imports := fa_imports merged,
         fa_dependencies := fa_dependencies merged, fa_routes := fa_routes merged\<rparr>"
proof (cases "extracted = []")
  case True
  then have "merged = facts" using assms by (simp add: merge_structural_facts_def)
  then show ?thesis using True
    by (simp add: extract_all_def retained_symbol_def retained_import_def retained_dependency_def python_paths_def list.rel_refl)
next
  case False
  obtain found where found:
    "extract_all env workspace (fa_projects facts) (kept_dependencies extracted facts) (kept_symbols extracted facts) extracted = Inr found"
    and merged: "merged = facts\<lparr>fa_symbols := sort_key symbol_key (kept_symbols extracted facts @ concat (map ff_symbols found)),
          fa_imports := sort_key import_key (kept_imports extracted facts @ concat (map ff_imports found)),
          fa_dependencies := sort_key dependency_key (kept_dependencies extracted facts @ concat (map ff_direct found)),
          fa_routes := merge_routes extracted (fa_routes facts)\<rparr>"
    using assms unfolding merge_Inr [OF False] by blast
  have rows: "mset (fa_symbols merged) = mset (kept_symbols extracted facts) + mset (concat (map ff_symbols found))"
    "mset (fa_imports merged) = mset (kept_imports extracted facts) + mset (concat (map ff_imports found))"
    "mset (fa_dependencies merged) = mset (kept_dependencies extracted facts) + mset (concat (map ff_direct found))"
    "fa_routes merged = merge_routes extracted (fa_routes facts)"
    unfolding merged by simp_all
  have rest: "merged = facts\<lparr>fa_symbols := fa_symbols merged, fa_imports := fa_imports merged,
         fa_dependencies := fa_dependencies merged, fa_routes := fa_routes merged\<rparr>"
    unfolding merged by simp
  show ?thesis
  proof (intro exI [of _ found] conjI ballI)
    show "list_all2 (\<lambda>r r'. r' = r\<lparr>ro_methods := ro_methods r', ro_runtime := ro_runtime r', ro_complete := ro_complete r'\<rparr>
         \<and> (cr_source_path r \<notin> set (dict_keys extracted) \<longrightarrow> r' = r)) (fa_routes facts) (fa_routes merged)"
      unfolding rows by (rule merge_routes_rows)
  qed (use found rows rest found_symbol [OF found] found_import [OF found] found_dependency [OF found] in blast)+
qed


text \<open>
  The stale rows of an extraction: symbols and imports of the structural engines at extracted paths, and direct
  imports that the structural producer, or the one before it, read from extracted Python files.
\<close>

definition stale_symbol :: "(ustr, extracted_file) dict \<Rightarrow> symbol_fact \<Rightarrow> bool" where
  "stale_symbol extracted s \<longleftrightarrow> sy_path s \<in> fst ` set extracted \<and> sy_engine s \<in> {AST_GREP_ANALYZER_ID, LIBCST_ANALYZER_ID}"

definition stale_import :: "(ustr, extracted_file) dict \<Rightarrow> import_fact \<Rightarrow> bool" where
  "stale_import extracted i \<longleftrightarrow> im_path i \<in> fst ` set extracted \<and> im_engine i \<in> {AST_GREP_ANALYZER_ID, LIBCST_ANALYZER_ID}"

definition stale_dependency :: "(ustr, extracted_file) dict \<Rightarrow> dependency_fact \<Rightarrow> bool" where
  "stale_dependency extracted d \<longleftrightarrow> (\<exists>x. (cr_source_path d, x) \<in> set extracted \<and> is_python (xf_language x))
     \<and> dp_usage d = DirectImport \<and> (cr_producer d = STRUCTURAL_PRODUCER \<or> cr_producer d = u ''stdlib:ast'')"

lemma retained_stale:
  "retained_symbol (set (dict_keys extracted)) = (\<lambda>s. \<not> stale_symbol extracted s)"
  "retained_import (set (dict_keys extracted)) = (\<lambda>i. \<not> stale_import extracted i)"
  "retained_dependency (python_paths extracted) = (\<lambda>d. \<not> stale_dependency extracted d)"
  by (auto simp: fun_eq_iff retained_symbol_def retained_import_def retained_dependency_def stale_symbol_def
      stale_import_def stale_dependency_def structural_analyzer_ids_def python_paths_def image_iff)

text \<open>C28: Merging extracted fragments replaces the stale rows of the extraction and nothing else. The symbols,
  imports and dependencies of the result are those of the facts that are not stale, each as often as before,
  and the rows the extraction finds, which are rows of the same kind at extracted paths, so no old one stays
  beside them. A symbol that is found overlaps no kept symbol of its path and name. A route keeps its place
  and changes only in methods, runtime and completeness, and only when its file was extracted; everything else
  in the facts is as before.
\<close>

theorem merge_keeps_authority:
  assumes "merge_structural_facts env workspace extracted facts = Inr merged"
  shows "\<exists>found. extract_all env workspace (fa_projects facts) (filter (\<lambda>d. \<not> stale_dependency extracted d) (fa_dependencies facts))
           (filter (\<lambda>s. \<not> stale_symbol extracted s) (fa_symbols facts)) extracted = Inr found
    \<and> mset (fa_symbols merged) = mset (filter (\<lambda>s. \<not> stale_symbol extracted s) (fa_symbols facts)) + mset (concat (map ff_symbols found))
    \<and> mset (fa_imports merged) = mset (filter (\<lambda>i. \<not> stale_import extracted i) (fa_imports facts)) + mset (concat (map ff_imports found))
    \<and> mset (fa_dependencies merged) = mset (filter (\<lambda>d. \<not> stale_dependency extracted d) (fa_dependencies facts)) + mset (concat (map ff_direct found))
    \<and> (\<forall>s \<in> set (concat (map ff_symbols found)). stale_symbol extracted s
         \<and> (\<forall>t \<in> set (filter (\<lambda>s. \<not> stale_symbol extracted s) (fa_symbols facts)). \<not> overlaps t s))
    \<and> (\<forall>i \<in> set (concat (map ff_imports found)). stale_import extracted i)
    \<and> (\<forall>d \<in> set (concat (map ff_direct found)). stale_dependency extracted d)
    \<and> list_all2 (\<lambda>r r'. r' = r\<lparr>ro_methods := ro_methods r', ro_runtime := ro_runtime r', ro_complete := ro_complete r'\<rparr>
         \<and> (cr_source_path r \<notin> set (dict_keys extracted) \<longrightarrow> r' = r)) (fa_routes facts) (fa_routes merged)
    \<and> merged = facts\<lparr>fa_symbols := fa_symbols merged, fa_imports := fa_imports merged,
         fa_dependencies := fa_dependencies merged, fa_routes := fa_routes merged\<rparr>"
  using merge_rows [OF assms] unfolding retained_stale not_not .

subsection \<open>Merging again\<close>

lemma sort_key_resort:
  fixes k :: "'a \<Rightarrow> 'b::linorder"
  shows "sort_key k (sort_key k xs @ ys) = sort_key k (xs @ ys)"
proof (rule properties_for_sort_key)
  have stable: "filter (\<lambda>x. k a = k x) (sort_key k zs) = filter (\<lambda>x. k a = k x) zs" for a zs
    unfolding eq_commute [of "k a"] by (rule sort_key_stable)
  show "filter (\<lambda>x. k a = k x) (sort_key k (xs @ ys)) = filter (\<lambda>x. k a = k x) (sort_key k xs @ ys)" for a
    unfolding filter_append stable ..
qed simp_all

lemma sort_key_sorted: "sorted (map k xs) \<Longrightarrow> sort_key k xs = xs"
  by (rule properties_for_sort_key) simp_all

lemma extract_all_cong:
  assumes "set symbols = set symbols'"
  shows "extract_all env workspace projects deps symbols extracted = extract_all env workspace projects deps symbols' extracted"
proof -
  have "extract_file env workspace projects deps (semantic_spans symbols path) path x
      = extract_file env workspace projects deps (semantic_spans symbols' path) path x" for path x
    by (rule extract_file_cong) (simp add: semantic_spans_def assms)
  then show ?thesis by (simp only: extract_all_def)
qed

lemma route_evidence_idem:
  "route_with_export_evidence (route_with_export_evidence route exports) exports = route_with_export_evidence route exports"
  by (cases route) (auto simp: route_with_export_evidence_def Let_def split: option.split)

lemma merge_routes_idem: "merge_routes extracted (merge_routes extracted routes) = merge_routes extracted routes"
proof -
  have source: "cr_source_path (route_with_export_evidence route exports) = cr_source_path route" for route exports
    by (simp add: route_with_export_evidence_def Let_def)
  show ?thesis by (auto simp: merge_routes_def source route_evidence_idem split: option.split)
qed

text \<open>C27: Merging the same extraction again changes nothing, for facts whose dependencies are in the
  order every generation keeps them in: rows found before are replaced by themselves, and
  evidence on routes does not accumulate.
\<close>

theorem merge_idempotent:
  assumes "merge_structural_facts env workspace extracted facts = Inr merged"
    and "sorted (map dependency_key (fa_dependencies facts))"
  shows "merge_structural_facts env workspace extracted merged = Inr merged"
proof (cases "extracted = []")
  case True
  then show ?thesis by (simp add: merge_structural_facts_def)
next
  case False
  obtain found where found:
    "extract_all env workspace (fa_projects facts) (kept_dependencies extracted facts) (kept_symbols extracted facts) extracted = Inr found"
    and merged: "merged = facts\<lparr>fa_symbols := sort_key symbol_key (kept_symbols extracted facts @ concat (map ff_symbols found)),
          fa_imports := sort_key import_key (kept_imports extracted facts @ concat (map ff_imports found)),
          fa_dependencies := sort_key dependency_key (kept_dependencies extracted facts @ concat (map ff_direct found)),
          fa_routes := merge_routes extracted (fa_routes facts)\<rparr>"
    using assms(1) unfolding merge_Inr [OF False] by blast
  have symbols: "kept_symbols extracted merged = sort_key symbol_key (kept_symbols extracted facts)"
    unfolding merged using found_symbol(1) [OF found] by (simp add: filter_kept)
  have imps: "kept_imports extracted merged = sort_key import_key (kept_imports extracted facts)"
    unfolding merged using found_import [OF found] by (simp add: filter_kept)
  have "sort_key dependency_key (kept_dependencies extracted facts) = kept_dependencies extracted facts"
    by (intro sort_key_sorted sorted_filter assms(2))
  then have deps: "kept_dependencies extracted merged = kept_dependencies extracted facts"
    unfolding merged using found_dependency [OF found] by (simp add: filter_kept)
  have projects: "fa_projects merged = fa_projects facts" by (simp add: merged)
  have again: "extract_all env workspace (fa_projects merged) (kept_dependencies extracted merged) (kept_symbols extracted merged) extracted = Inr found"
    unfolding symbols deps projects using found extract_all_cong [of "sort_key symbol_key (kept_symbols extracted facts)" "kept_symbols extracted facts"]
    by (simp only: set_sort)
  have "merged = merged\<lparr>fa_symbols := sort_key symbol_key (kept_symbols extracted merged @ concat (map ff_symbols found)),
          fa_imports := sort_key import_key (kept_imports extracted merged @ concat (map ff_imports found)),
          fa_dependencies := sort_key dependency_key (kept_dependencies extracted merged @ concat (map ff_direct found)),
          fa_routes := merge_routes extracted (fa_routes merged)\<rparr>"
    unfolding symbols imps deps sort_key_resort unfolding merged by (simp add: merge_routes_idem)
  with again show ?thesis unfolding merge_Inr [OF False] by blast
qed

subsection \<open>A concrete merge\<close>

definition demo_env :: catalog_env where
  "demo_env = \<lparr>ce_digest = (\<lambda>_. replicate 64 97), ce_casefold = (\<lambda>s. s), ce_libcst_version = u ''1'',
     ce_distributions = []\<rparr>"

definition demo_fragment :: fragment where
  "demo_fragment = \<lparr>fg_projection = u ''syntax.declarations'', fg_kind = u ''function'', fg_name = Some (u ''f''),
     fg_start = 0, fg_end = 9, fg_attributes = []\<rparr>"

definition demo_extracted :: extracted_file where
  "demo_extracted = \<lparr>xf_digest = replicate 64 49, xf_language = u ''rust'', xf_fragments = [demo_fragment]\<rparr>"

definition demo_extraction :: "(ustr, extracted_file) dict" where
  "demo_extraction = [(u ''m.rs'', demo_extracted)]"

definition demo_facts :: catalog_facts where
  "demo_facts = \<lparr>fa_projects = [], fa_dependencies = [], fa_scripts = [], fa_tasks = [], fa_configs = [], fa_engines = [],
     fa_routes = [], fa_rules = [], fa_policies = [], fa_symbols = [], fa_imports = [], fa_diagnostics = [],
     fa_changes = [], fa_chunks = [], fa_warnings = []\<rparr>"

lemma demo_digest:
  assumes "\<forall>p \<in> set parts. list_all is_scalar p"
  shows "identity_digest demo_env parts = Inr (replicate 64 97)"
proof -
  have "list_all is_scalar (join_with [0] parts)"
    using assms by (cases parts) (auto simp: join_with_def list_all_iff is_scalar_def)
  then show ?thesis by (simp only: identity_digest_def utf8_encode_def if_True option.case demo_env_def catalog_env.simps)
qed

lemma demo_declaration: "\<not> isl (declaration_symbol demo_env (u ''w'') [] (u ''m.rs'') demo_extracted demo_fragment (u ''f''))"
proof -
  have "list_all is_scalar (u ''w'')" "list_all is_scalar (u ''m.rs'')" "list_all is_scalar (u ''f'')"
    "list_all is_scalar (u ''function'')" "list_all is_scalar AST_GREP_ANALYZER_ID" "list_all is_scalar LIBCST_ANALYZER_ID"
    by (simp_all add: u_def is_scalar_def AST_GREP_ANALYZER_ID_def LIBCST_ANALYZER_ID_def)
  moreover have "list_all is_scalar (show_position 0)" "list_all is_scalar (show_position 9)"
    by (simp_all add: show_position_def show_nat.simps u_def is_scalar_def)
  moreover have "list_all is_scalar (replicate 64 97)" "list_all is_scalar (replicate 64 49)"
    by (simp_all add: list_all_iff set_replicate_conv_if is_scalar_def)
  ultimately have scalars: "\<forall>p \<in> {u ''w'', u ''m.rs'', u ''f'', u ''function'', analyzer_id_for (u ''rust''), show_position 0,
      show_position 9, replicate 64 97, replicate 64 49, []}. list_all is_scalar p"
    by (simp add: analyzer_id_for_def)
  have first: "identity_digest demo_env [u ''w'', [], u ''m.rs'', u ''f'', show_position 0, show_position 9] = Inr (replicate 64 97)"
    by (rule demo_digest) (use scalars in \<open>simp only: list.set ball_simps insert_iff\<close>)
  have second: "identity_digest demo_env [replicate 64 97, replicate 64 49, analyzer_id_for (u ''rust''), u ''function'', []] = Inr (replicate 64 97)"
    by (rule demo_digest) (use scalars in \<open>simp only: list.set ball_simps insert_iff\<close>)
  have named: "u ''w'' \<noteq> []" "u ''m.rs'' \<noteq> []" "STRUCTURAL_PRODUCER \<noteq> []" "u ''f'' \<noteq> []" "u ''function'' \<noteq> []"
    "analyzer_id_for (u ''rust'') \<noteq> []" "analyzer_version_for demo_env (u ''rust'') \<noteq> []" "u ''syntactic'' \<noteq> []"
    by code_simp+
  have "length (replicate 64 (97::nat)) = 64" "length (replicate 64 (49::nat)) = 64" by (simp_all only: length_replicate)
  then show ?thesis
    unfolding declaration_symbol_def Let_def demo_fragment_def fragment.simps demo_extracted_def extracted_file.simps first second bind_err_simps
      check_fact_def symbol_valid_def record_valid_def symbol_fact.simps catalog_record.simps
    using named by (simp only: simp_thms if_True sum.disc)
qed

lemma demo_merge: "\<exists>merged. merge_structural_facts demo_env (u ''w'') demo_extraction demo_facts = Inr merged \<and> fa_symbols merged \<noteq> []"
proof -
  obtain s where s: "declaration_symbol demo_env (u ''w'') [] (u ''m.rs'') demo_extracted demo_fragment (u ''f'') = Inr s"
    using demo_declaration by (cases "declaration_symbol demo_env (u ''w'') [] (u ''m.rs'') demo_extracted demo_fragment (u ''f'')") auto
  have names: "named_fragments (projection (u ''syntax.declarations'') demo_extracted) = [(demo_fragment, u ''f'')]"
    "named_fragments (projection (u ''syntax.imports'') demo_extracted) = []" "is_python (xf_language demo_extracted) = False"
    by code_simp+
  have "extract_file demo_env (u ''w'') [] [] [] (u ''m.rs'') demo_extracted = Inr \<lparr>ff_symbols = [s], ff_imports = [], ff_direct = []\<rparr>"
    using s by (simp add: extract_file_def names shadowed_def project_id_for_path_def)
  then have "extract_all demo_env (u ''w'') [] [] [] demo_extraction = Inr [\<lparr>ff_symbols = [s], ff_imports = [], ff_direct = []\<rparr>]"
    by (simp add: extract_all_def demo_extraction_def semantic_spans_def)
  moreover have "demo_extraction \<noteq> []" by (simp add: demo_extraction_def)
  ultimately show ?thesis by (simp add: merge_structural_facts_def demo_facts_def)
qed

theorem merge_keeps_authority_witness:
  "\<exists>merged. merge_structural_facts demo_env (u ''w'') demo_extraction demo_facts = Inr merged \<and> fa_symbols merged \<noteq> []
     \<and> set (filter (\<lambda>s. \<not> stale_symbol demo_extraction s) (fa_symbols demo_facts)) \<subseteq> set (fa_symbols merged) \<and> fa_chunks merged = fa_chunks demo_facts"
proof -
  obtain merged where merged: "merge_structural_facts demo_env (u ''w'') demo_extraction demo_facts = Inr merged" "fa_symbols merged \<noteq> []"
    using demo_merge by blast
  note kept = merge_keeps_authority [OF merged(1)]
  have "\<exists>found :: file_facts list. mset (fa_symbols merged) = mset (filter (\<lambda>s. \<not> stale_symbol demo_extraction s) (fa_symbols demo_facts)) + mset (concat (map ff_symbols found))"
    using kept by (elim exE conjE) (rule exI)
  then have "set (filter (\<lambda>s. \<not> stale_symbol demo_extraction s) (fa_symbols demo_facts)) \<subseteq> set (fa_symbols merged)"
    by (metis mset_subset_eq_add_left set_mset_mono set_mset_mset)
  moreover have "merged = demo_facts\<lparr>fa_symbols := fa_symbols merged, fa_imports := fa_imports merged,
       fa_dependencies := fa_dependencies merged, fa_routes := fa_routes merged\<rparr>"
    using kept by (elim exE conjE)
  then have "fa_chunks merged = fa_chunks (demo_facts\<lparr>fa_symbols := fa_symbols merged, fa_imports := fa_imports merged,
       fa_dependencies := fa_dependencies merged, fa_routes := fa_routes merged\<rparr>)" by (rule arg_cong)
  then have "fa_chunks merged = fa_chunks demo_facts" by simp
  ultimately show ?thesis using merged by blast
qed

theorem merge_idempotent_witness:
  "\<exists>merged. merge_structural_facts demo_env (u ''w'') demo_extraction demo_facts = Inr merged \<and> fa_symbols merged \<noteq> []
     \<and> merge_structural_facts demo_env (u ''w'') demo_extraction merged = Inr merged"
proof -
  have "sorted (map dependency_key (fa_dependencies demo_facts))" by (simp add: demo_facts_def)
  then show ?thesis using demo_merge merge_idempotent [of demo_env "u ''w''" demo_extraction demo_facts] by blast
qed

end
