(* ===== verification/CatalogUpdate.thy ===== *)
theory CatalogUpdate
  imports CatalogMerge
begin

text \<open>
  Incremental catalog generations (the second part of \<open>catalog/generation.py\<close>): the paths that
  changed between two snapshots, the facts carried over and bound again to their projects, and
  the update of a generation. The facts read from the manifests of the new snapshot are an
  argument. The lemmas show that an update has exactly the chunks of a full build and the structural
  chunks retained for unchanged paths.
\<close>

subsection \<open>Changes\<close>

definition content_hashes :: "captured_file list \<Rightarrow> ustr \<Rightarrow> ustr option" where
  "content_hashes files = map_of (rev (map (\<lambda>row. (cf_path row, cf_hash row)) files))"

definition changed_snapshot_paths :: "captured_file list \<Rightarrow> captured_file list \<Rightarrow> ustr set" where
  "changed_snapshot_paths current updated =
     set (filter (\<lambda>path. content_hashes current path \<noteq> content_hashes updated path)
            (map cf_path current @ map cf_path updated))"

definition change_fact_valid :: "change_fact \<Rightarrow> bool" where
  "change_fact_valid c \<longleftrightarrow> record_valid c \<and> length (ca_id c) = 64 \<and> ca_generation c \<ge> 1 \<and> ca_path c \<noteq> []
     \<and> (case ca_previous c of None \<Rightarrow> True | Some d \<Rightarrow> length d = 64)
     \<and> (case ca_current c of None \<Rightarrow> True | Some d \<Rightarrow> length d = 64)"

fun operation_value :: "change_operation \<Rightarrow> ustr" where
  "operation_value Added = u ''added''"
| "operation_value Changed = u ''changed''"
| "operation_value Deleted = u ''deleted''"

definition change_fact_of ::
  "catalog_env \<Rightarrow> ustr \<Rightarrow> nat \<Rightarrow> captured_file list \<Rightarrow> captured_file list \<Rightarrow> ustr \<Rightarrow> (fact_error, change_fact) result" where
  "change_fact_of env workspace generation current updated path =
     (let previous_digest = content_hashes current path; current_digest = content_hashes updated path;
          operation = (if previous_digest = None then Added else if current_digest = None then Deleted else Changed);
          shown = (\<lambda>d. case d of None \<Rightarrow> [] | Some h \<Rightarrow> h)
      in bind_err (identity_digest env [workspace, show_position generation, path, operation_value operation,
                                        shown previous_digest, shown current_digest]) (\<lambda>i.
         check_fact change_fact_valid
           \<lparr>cr_workspace = workspace, cr_source_path = path,
            cr_source_digest = (if shown current_digest \<noteq> [] then shown current_digest
              else if shown previous_digest \<noteq> [] then shown previous_digest else ce_digest env []),
            cr_producer = CATALOG_GENERATION_PRODUCER, cr_producer_version = CATALOG_GENERATION_VERSION,
            ca_id = i, ca_generation = generation, ca_path = path, ca_operation = operation,
            ca_previous = previous_digest, ca_current = current_digest\<rparr>))"

definition change_facts ::
  "catalog_env \<Rightarrow> ustr \<Rightarrow> nat \<Rightarrow> captured_file list \<Rightarrow> captured_file list \<Rightarrow> ustr set \<Rightarrow> (fact_error, change_fact list) result" where
  "change_facts env workspace generation current updated changed =
     map_err (change_fact_of env workspace generation current updated) (sorted_list_of_set changed)"

subsection \<open>Facts bound again to the current projects\<close>

definition path_language :: "captured_file list \<Rightarrow> ustr \<Rightarrow> ustr option" where
  "path_language files path = Option.bind (captured_by_path files path) cf_language"

definition canonical_project_id :: "project_fact list \<Rightarrow> captured_file list \<Rightarrow> ustr \<Rightarrow> ustr \<Rightarrow> ustr \<Rightarrow> ustr" where
  "canonical_project_id projects files path producer workspace =
     (let kind = (case path_language files path of
            None \<Rightarrow> None | Some l \<Rightarrow> if is_python l then Some PythonProject else None);
          project = project_id_for_path kind projects path
      in if project = [] \<and> producer = POSTGRESQL_CATALOG_PRODUCER then workspace @ u '':postgresql:.'' else project)"

definition rebind_dependency :: "project_fact list \<Rightarrow> captured_file list \<Rightarrow> dependency_fact \<Rightarrow> dependency_fact" where
  "rebind_dependency projects files d =
     d\<lparr>dp_project := canonical_project_id projects files (cr_source_path d) (cr_producer d) (cr_workspace d)\<rparr>"

definition rebind_engine :: "project_fact list \<Rightarrow> captured_file list \<Rightarrow> engine_fact \<Rightarrow> engine_fact" where
  "rebind_engine projects files e =
     e\<lparr>en_project := canonical_project_id projects files (cr_source_path e) (cr_producer e) (cr_workspace e)\<rparr>"

definition rebind_import :: "project_fact list \<Rightarrow> captured_file list \<Rightarrow> import_fact \<Rightarrow> import_fact" where
  "rebind_import projects files i =
     i\<lparr>im_project := canonical_project_id projects files (im_path i) (cr_producer i) (cr_workspace i)\<rparr>"

definition rebind_diagnostic :: "project_fact list \<Rightarrow> captured_file list \<Rightarrow> diagnostic_fact \<Rightarrow> diagnostic_fact" where
  "rebind_diagnostic projects files d =
     d\<lparr>di_project := canonical_project_id projects files (di_path d) (cr_producer d) (cr_workspace d)\<rparr>"

text \<open>A structural symbol carries its project in its identity, which is computed again.\<close>

definition rebind_symbol ::
  "catalog_env \<Rightarrow> project_fact list \<Rightarrow> captured_file list \<Rightarrow> symbol_fact \<Rightarrow> (fact_error, symbol_fact) result" where
  "rebind_symbol env projects files s =
     (let project = canonical_project_id projects files (sy_path s) (cr_producer s) (cr_workspace s) in
      if project = sy_project s then Inr s
      else if cr_producer s \<noteq> STRUCTURAL_PRODUCER then Inr (s\<lparr>sy_project := project\<rparr>)
      else bind_err (identity_digest env [cr_workspace s, project, sy_path s, sy_name s, show_position (sy_start s),
                                          show_position (sy_end s)]) (\<lambda>i.
           bind_err (identity_digest env [i, cr_source_digest s, sy_engine s, sy_kind s, []]) (\<lambda>revision.
           Inr (s\<lparr>sy_project := project, sy_id := i, sy_revision := revision\<rparr>))))"

definition structural_fact_producers :: "ustr set" where
  "structural_fact_producers = {POSTGRESQL_CATALOG_PRODUCER, STRUCTURAL_PRODUCER}"

definition retained_structural_rows :: "ustr set \<Rightarrow> 'a catalog_record_scheme list \<Rightarrow> 'a catalog_record_scheme list" where
  "retained_structural_rows paths rows =
     filter (\<lambda>row. cr_producer row \<in> structural_fact_producers \<and> cr_source_path row \<in> paths) rows"

text \<open>The loop of \<open>_rebuild_direct_import_dependencies\<close>, over the emitted keys and the rows.\<close>

definition rebuild_direct ::
  "catalog_env \<Rightarrow> captured_file list \<Rightarrow> dependency_fact list \<Rightarrow> import_fact \<Rightarrow>
   (ustr \<times> ustr) list \<times> dependency_fact list \<Rightarrow> (fact_error, (ustr \<times> ustr) list \<times> dependency_fact list) result" where
  "rebuild_direct env files deps i st =
     (if cr_producer i \<noteq> STRUCTURAL_PRODUCER \<or> \<not> (case path_language files (im_path i) of None \<Rightarrow> False | Some l \<Rightarrow> is_python l)
        \<or> startswith (im_specifier i) (u ''.'')
      then Inr st
      else case declared_distribution env (declared_by_project env deps (im_project i)) (takeWhile (\<lambda>c. c \<noteq> 46) (im_specifier i)) of
        None \<Rightarrow> Inr st
      | Some dep \<Rightarrow>
          let key = (im_path i, dp_package dep) in
          if key \<in> set (fst st) then Inr st
          else bind_err (check_fact dependency_valid
                 (direct_import (cr_workspace i) (cr_source_path i) (cr_source_digest i) (cr_producer_version i) (im_project i) dep))
                 (\<lambda>row. Inr (key # fst st, snd st @ [row])))"

definition rebuild_direct_import_dependencies ::
  "catalog_env \<Rightarrow> captured_file list \<Rightarrow> dependency_fact list \<Rightarrow> import_fact list \<Rightarrow>
   (fact_error, dependency_fact list) result" where
  "rebuild_direct_import_dependencies env files deps imports =
     bind_err (fold_err (rebuild_direct env files deps) imports ([], [])) (\<lambda>st. Inr (deps @ snd st))"

definition route_key :: "route_fact \<Rightarrow> ustr \<times> ustr \<times> ustr option \<times> ustr \<times> ustr option" where
  "route_key r = (cr_source_path r, ro_framework r, ro_route r, ro_registration r, ro_router r)"

definition preserve_route_enrichment :: "ustr set \<Rightarrow> route_fact list \<Rightarrow> route_fact list \<Rightarrow> route_fact list" where
  "preserve_route_enrichment paths previous current =
     (let enriched = filter (\<lambda>r. cr_source_path r \<in> paths \<and> (ro_methods r \<noteq> [] \<or> ro_runtime r \<noteq> None)) previous;
          by_key = map_of (rev (map (\<lambda>r. (route_key r, r)) enriched))
      in map (\<lambda>route. case by_key (route_key route) of
            None \<Rightarrow> route
          | Some e \<Rightarrow> if cr_source_digest e \<noteq> cr_source_digest route then route
              else route\<lparr>ro_methods := ro_methods e, ro_runtime := ro_runtime e,
                         ro_complete := ro_complete route \<and> ro_complete e\<rparr>) current)"


definition engine_key :: "engine_fact \<Rightarrow> ustr \<times> ustr" where
  "engine_key e = (en_project e, en_id e)"

definition diagnostic_key :: "diagnostic_fact \<Rightarrow> ustr \<times> nat \<times> ustr" where
  "diagnostic_key d = (di_path d, di_start d, di_id d)"

definition chunk_key :: "chunk_fact \<Rightarrow> ustr \<times> nat \<times> ustr" where
  "chunk_key c = (ch_path c, ch_byte_start c, ch_id c)"

definition retain_unchanged_structural_facts ::
  "catalog_env \<Rightarrow> captured_file list \<Rightarrow> ustr set \<Rightarrow> catalog_facts \<Rightarrow> catalog_facts \<Rightarrow> (fact_error, catalog_facts) result" where
  "retain_unchanged_structural_facts env files paths previous current =
     (if paths = {} then Inr current
      else
        let projects = fa_projects current;
            retained = map (rebind_dependency projects files)
              (filter (\<lambda>d. dp_usage d \<noteq> DirectImport) (retained_structural_rows paths (fa_dependencies previous)));
            engines = map (rebind_engine projects files) (retained_structural_rows paths (fa_engines previous));
            imports = map (rebind_import projects files) (retained_structural_rows paths (fa_imports previous));
            diagnostics = map (rebind_diagnostic projects files) (retained_structural_rows paths (fa_diagnostics previous));
            chunks = retained_structural_rows paths (fa_chunks previous);
            warnings = filter (\<lambda>w. \<exists>path \<in> paths. startswith w (path @ u '':'')) (fa_warnings previous)
        in bind_err (map_err (rebind_symbol env projects files) (retained_structural_rows paths (fa_symbols previous))) (\<lambda>symbols.
           bind_err (rebuild_direct_import_dependencies env files (fa_dependencies current @ retained) imports) (\<lambda>deps.
           Inr (current\<lparr>fa_dependencies := sort_key dependency_key deps,
                        fa_engines := sort_key engine_key (fa_engines current @ engines),
                        fa_symbols := sort_key symbol_key (fa_symbols current @ symbols),
                        fa_imports := sort_key import_key (fa_imports current @ imports),
                        fa_diagnostics := sort_key diagnostic_key (fa_diagnostics current @ diagnostics),
                        fa_chunks := sort_key chunk_key (fa_chunks current @ chunks),
                        fa_routes := preserve_route_enrichment paths (fa_routes previous) (fa_routes current),
                        fa_warnings := first_unique (fa_warnings current @ warnings)\<rparr>))))"

subsection \<open>Building and updating a generation\<close>

text \<open>\<open>build\<close> and \<open>build_base\<close>, for the facts of the manifests and for none.\<close>

definition build_facts :: "catalog_env \<Rightarrow> catalog_facts \<Rightarrow> snapshot_bundle \<Rightarrow> (fact_error, catalog_facts) result" where
  "build_facts env manifest_facts bundle = bind_err (chunks env bundle) (\<lambda>cs. Inr (manifest_facts\<lparr>fa_chunks := cs\<rparr>))"

definition restrict_bundle :: "ustr set \<Rightarrow> snapshot_bundle \<Rightarrow> snapshot_bundle" where
  "restrict_bundle paths bundle = bundle\<lparr>sb_contents := filter (\<lambda>(path, _). path \<in> paths) (sb_contents bundle)\<rparr>"

definition kept_chunk :: "ustr set \<Rightarrow> chunk_fact \<Rightarrow> bool" where
  "kept_chunk changed c \<longleftrightarrow> ch_path c \<notin> changed \<and> cr_producer c \<notin> structural_fact_producers"

definition update_facts ::
  "catalog_env \<Rightarrow> catalog_facts \<Rightarrow> catalog_facts \<Rightarrow> captured_file list \<Rightarrow> snapshot_bundle \<Rightarrow> nat \<Rightarrow> ustr set \<Rightarrow>
   (fact_error, catalog_facts) result" where
  "update_facts env manifest_facts current_facts current_files bundle generation changed =
     bind_err (chunks env (restrict_bundle changed bundle)) (\<lambda>changed_chunks.
     bind_err (change_facts env (sb_workspace bundle) generation current_files (sb_files bundle) changed) (\<lambda>changes.
     retain_unchanged_structural_facts env (sb_files bundle) (set (map cf_path (sb_files bundle)) - changed) current_facts
       (manifest_facts\<lparr>fa_chunks := sort_key chunk_key (filter (kept_chunk changed) (fa_chunks current_facts) @ changed_chunks),
                       fa_changes := changes\<rparr>)))"


subsection \<open>The chunks of a build\<close>

lemma tiles_increasing:
  "tiles i gs j \<Longrightarrow> \<forall>g \<in> set gs. sm_byte_start g < sm_byte_end g \<Longrightarrow>
   sorted_wrt (<) (map sm_byte_start gs) \<and> (\<forall>g \<in> set gs. i \<le> sm_byte_start g)"
proof (induction gs arbitrary: i)
  case (Cons g gs)
  then have "sorted_wrt (<) (map sm_byte_start gs)" "\<forall>h \<in> set gs. sm_byte_end g \<le> sm_byte_start h" by auto
  moreover have "i < sm_byte_end g" using Cons.prems by simp
  ultimately show ?case using Cons.prems by force
qed simp

lemma chunk_segments_empty: "chunk_segments [] =
    Inr [\<lparr>sm_byte_start = 0, sm_byte_end = 0, sm_start_line = 1, sm_end_line = 1, sm_text = []\<rparr>]"
  by (simp add: chunk_segments_def chunk_lines_def decode_chunk_def chunk_line_def utf8_encode_def flush_def
      DEFAULT_CHUNK_BYTES_def)

lemma chunk_segments_increasing:
  assumes "chunk_segments content = Inr segs"
  shows "sorted_wrt (<) (map sm_byte_start segs)"
proof (cases "content = []")
  case True
  then show ?thesis using assms by (auto simp: chunk_segments_empty)
next
  case False
  from assms chunk_segments_cut [of content] obtain lines where
    segs: "tiles 0 segs (length content)" "list_all (segment_ok content lines) segs"
    by (cases "utf8_decode content") auto
  have "sm_byte_start g < sm_byte_end g" if "g \<in> set segs" for g
  proof -
    have ok: "utf8 (sm_text g) = slice content (sm_byte_start g) (sm_byte_end g)" "sm_text g \<noteq> []"
      using segs(2) that False by (auto simp: list_all_iff segment_ok_def)
    have "utf8 (sm_text g) \<noteq> []" using ok(2) by (cases "sm_text g") simp_all
    then show ?thesis using ok(1) by (simp add: slice_def)
  qed
  then show ?thesis using tiles_increasing [OF segs(1)] by blast
qed

lemma make_chunk_fields:
  assumes "make_chunk env workspace captured path g = Inr c"
  shows "ch_path c = path \<and> ch_byte_start c = sm_byte_start g \<and> cr_producer c = CATALOG_GENERATION_PRODUCER"
  using assms by (auto simp: make_chunk_def Let_def split: if_split_asm)

lemma file_chunks_fields:
  assumes "file_chunks env workspace files (path, content) = Inr cs"
  shows "(\<forall>c \<in> set cs. ch_path c = path \<and> cr_producer c = CATALOG_GENERATION_PRODUCER)
    \<and> sorted_wrt (<) (map ch_byte_start cs)"
proof (cases "eligible_for_chunks path content")
  case False
  then show ?thesis using assms by (simp add: file_chunks_def)
next
  case True
  then obtain captured segs where segs: "chunk_segments content = Inr segs"
    "map_err (make_chunk env workspace captured path) segs = Inr cs"
    using assms by (auto simp: file_chunks_def lift_cut_def split: option.split_asm sum.split_asm)
  have all: "list_all2 (\<lambda>g c. make_chunk env workspace captured path g = Inr c) segs cs" using segs(2) by (simp add: map_err_list_all2)
  then have "list_all2 (\<lambda>g c. ch_path c = path \<and> ch_byte_start c = sm_byte_start g \<and> cr_producer c = CATALOG_GENERATION_PRODUCER) segs cs"
    by (rule list_all2_mono) (rule make_chunk_fields)
  then have "map ch_byte_start cs = map sm_byte_start segs" "\<forall>c \<in> set cs. ch_path c = path \<and> cr_producer c = CATALOG_GENERATION_PRODUCER"
    by (induction rule: list_all2_induct) auto
  then show ?thesis using chunk_segments_increasing [OF segs(1)] by simp
qed

text \<open>The chunks of one path of a bundle.\<close>

definition chunks_of :: "catalog_env \<Rightarrow> snapshot_bundle \<Rightarrow> ustr \<Rightarrow> chunk_fact list" where
  "chunks_of env bundle path =
     (case map_of (sb_contents bundle) path of
        None \<Rightarrow> []
      | Some content \<Rightarrow> projr (file_chunks env (sb_workspace bundle) (sb_files bundle) (path, content)))"

abbreviation captured_paths :: "snapshot_bundle \<Rightarrow> ustr set" where
  "captured_paths bundle \<equiv> fst ` set (sb_contents bundle)"

lemma map_err_each: "map_err f xs = Inr ys \<Longrightarrow> x \<in> set xs \<Longrightarrow> \<exists>y. f x = Inr y"
  by (induction xs arbitrary: ys) auto

lemma map_err_total: "(\<And>x. x \<in> set xs \<Longrightarrow> f x = Inr (g x)) \<Longrightarrow> map_err f xs = Inr (map g xs)"
  by (induction xs) simp_all

lemma map_sort_key: "map k (sort_key k xs) = sort (map k xs)"
  by (rule properties_for_sort [symmetric]) simp_all

lemma chunks_concat:
  assumes "chunks env bundle = Inr cs" and "dict_ok (sb_contents bundle)"
  shows "cs = concat (map (chunks_of env bundle) (sort (dict_keys (sb_contents bundle))))
    \<and> (\<forall>path \<in> captured_paths bundle.
         (\<forall>c \<in> set (chunks_of env bundle path). ch_path c = path \<and> cr_producer c = CATALOG_GENERATION_PRODUCER)
         \<and> sorted_wrt (<) (map ch_byte_start (chunks_of env bundle path)))"
proof -
  let ?file = "file_chunks env (sb_workspace bundle) (sb_files bundle)"
  obtain css where css: "map_err ?file (sorted_contents bundle) = Inr css" "cs = concat css"
    using assms(1) by (auto simp: chunks_def)
  have each: "?file e = Inr (chunks_of env bundle (fst e))" if e: "e \<in> set (sorted_contents bundle)" for e
  proof -
    have "map_of (sb_contents bundle) (fst e) = Some (snd e)"
      using e assms(2) by (simp add: sorted_contents_def map_of_dict_ok)
    moreover obtain c where "?file e = Inr c" using map_err_each [OF css(1) e] by blast
    ultimately show ?thesis by (simp add: chunks_of_def)
  qed
  have "css = map (\<lambda>e. chunks_of env bundle (fst e)) (sorted_contents bundle)"
    using map_err_total [of "sorted_contents bundle" ?file, OF each] css(1) by simp
  moreover have "map fst (sorted_contents bundle) = sort (dict_keys (sb_contents bundle))"
    by (simp add: sorted_contents_def map_sort_key)
  ultimately have "cs = concat (map (chunks_of env bundle) (sort (dict_keys (sb_contents bundle))))"
    using css(2) by (simp only: list.map_comp [symmetric] comp_def [of "chunks_of env bundle" fst, symmetric])
  moreover have "(\<forall>c \<in> set (chunks_of env bundle path). ch_path c = path \<and> cr_producer c = CATALOG_GENERATION_PRODUCER)
         \<and> sorted_wrt (<) (map ch_byte_start (chunks_of env bundle path))" if path: "path \<in> captured_paths bundle" for path
  proof -
    obtain content where e: "(path, content) \<in> set (sorted_contents bundle)" using path by (auto simp: sorted_contents_def)
    show ?thesis using file_chunks_fields [OF each [OF e, unfolded fst_conv]] .
  qed
  ultimately show ?thesis by blast
qed


lemma chunks_sorted:
  assumes "cs = concat (map f ps)" and "sorted_wrt (<) ps"
    and "\<forall>path \<in> set ps. (\<forall>c \<in> set (f path). ch_path c = path) \<and> sorted_wrt (<) (map ch_byte_start (f path))"
  shows "sorted_wrt (\<lambda>c d. chunk_key c < chunk_key d) cs"
  using assms
proof (induction ps arbitrary: cs)
  case (Cons path ps)
  have "sorted_wrt (\<lambda>c d. chunk_key c < chunk_key d) (f path)"
    using Cons.prems(3) unfolding sorted_wrt_map [symmetric]
    by (auto simp: chunk_key_def sorted_wrt_map intro: sorted_wrt_mono_rel [rotated])
  moreover have "chunk_key c < chunk_key d" if "c \<in> set (f path)" "q \<in> set ps" "d \<in> set (f q)" for c d q
  proof -
    have "path < q" using Cons.prems(2) that(2) by simp
    moreover have "ch_path c = path" "ch_path d = q" using Cons.prems(3) that by auto
    ultimately show ?thesis by (simp add: chunk_key_def)
  qed
  ultimately show ?case using Cons by (auto simp: sorted_wrt_append)
qed simp

lemma sorted_wrt_key_inj:
  fixes k :: "'a \<Rightarrow> 'b::linorder"
  assumes "sorted_wrt (\<lambda>x y. k x < k y) xs"
  shows "inj_on k (set xs) \<and> sorted (map k xs) \<and> distinct xs"
  using assms by (induction xs) (auto simp: less_imp_le)

lemma mset_concat_sum: "distinct ps \<Longrightarrow> mset (concat (map f ps)) = (\<Sum>p \<in> set ps. mset (f p))"
  by (induction ps) simp_all

lemma filter_concat_paths:
  "\<forall>path \<in> set ps. \<forall>c \<in> set (f path). ch_path c = path \<Longrightarrow>
   filter (\<lambda>c. P (ch_path c)) (concat (map f ps)) = concat (map f (filter P ps))"
proof (induction ps)
  case (Cons p ps)
  have "filter (\<lambda>c. P (ch_path c)) (f p) = (if P p then f p else [])"
    using Cons.prems by (auto simp: filter_id_conv filter_empty_conv)
  then show ?case using Cons by simp
qed simp

text \<open>
  Two snapshots of one workspace whose rows carry the digests of their bytes, on which the digest
  is injective, and that give the same language to a path they agree on.
\<close>

definition captured_exactly :: "catalog_env \<Rightarrow> snapshot_bundle \<Rightarrow> bool" where
  "captured_exactly env bundle \<longleftrightarrow> dict_ok (sb_contents bundle) \<and>
     (\<forall>path. content_hashes (sb_files bundle) path = map_option (ce_digest env) (map_of (sb_contents bundle) path))"

definition language_ids :: "snapshot_bundle \<Rightarrow> ustr \<Rightarrow> ustr option option" where
  "language_ids bundle path = map_option cf_language_id (captured_by_path (sb_files bundle) path)"

definition comparable :: "catalog_env \<Rightarrow> snapshot_bundle \<Rightarrow> snapshot_bundle \<Rightarrow> bool" where
  "comparable env old new \<longleftrightarrow>
     captured_exactly env old \<and> captured_exactly env new \<and> sb_workspace old = sb_workspace new
     \<and> inj_on (ce_digest env) (snd ` set (sb_contents old) \<union> snd ` set (sb_contents new))
     \<and> (\<forall>path. content_hashes (sb_files old) path = content_hashes (sb_files new) path \<longrightarrow> language_ids old path = language_ids new path)"

lemma content_hashes_row: "content_hashes files path = map_option cf_hash (captured_by_path files path)"
proof -
  have "map_of (map (\<lambda>row. (cf_path row, cf_hash row)) rows) path = map_option cf_hash (map_of (map (\<lambda>row. (cf_path row, row)) rows) path)" for rows
    by (induction rows) auto
  from this [of "rev files"] show ?thesis by (simp add: content_hashes_def captured_by_path_def rev_map)
qed

lemma unchanged_hash: "path \<notin> changed_snapshot_paths old new \<longleftrightarrow> content_hashes old path = content_hashes new path"
proof -
  have "content_hashes rows path = None" if "path \<notin> cf_path ` set rows" for rows
    using that by (auto simp: content_hashes_def map_of_eq_None_iff image_image)
  then show ?thesis by (cases "path \<in> cf_path ` set old \<union> cf_path ` set new") (auto simp: changed_snapshot_paths_def)
qed

lemma unchanged_content:
  assumes "comparable env old new" and "path \<notin> changed_snapshot_paths (sb_files old) (sb_files new)"
  shows "map_of (sb_contents old) path = map_of (sb_contents new) path"
proof -
  have same: "map_option (ce_digest env) (map_of (sb_contents old) path) = map_option (ce_digest env) (map_of (sb_contents new) path)"
    using assms unfolding unchanged_hash comparable_def captured_exactly_def by metis
  show ?thesis
  proof (cases "map_of (sb_contents old) path")
    case None
    then show ?thesis using same by simp
  next
    case (Some c)
    then obtain d where d: "map_of (sb_contents new) path = Some d" "ce_digest env c = ce_digest env d"
      using same by (cases "map_of (sb_contents new) path") auto
    have "c \<in> snd ` set (sb_contents old)" "d \<in> snd ` set (sb_contents new)"
      using map_of_SomeD [OF Some] map_of_SomeD [OF d(1)] by force+
    moreover have "inj_on (ce_digest env) (snd ` set (sb_contents old) \<union> snd ` set (sb_contents new))"
      using assms(1) by (simp add: comparable_def)
    ultimately have "c = d" using d(2) by (meson UnCI inj_onD)
    then show ?thesis using Some d by simp
  qed
qed

lemma unchanged_chunks:
  assumes "comparable env old new" and "path \<notin> changed_snapshot_paths (sb_files old) (sb_files new)"
  shows "chunks_of env old path = chunks_of env new path"
proof -
  note content = unchanged_content [OF assms]
  have hash: "map_option cf_hash (captured_by_path (sb_files old) path) = map_option cf_hash (captured_by_path (sb_files new) path)"
    using assms(2) unfolding unchanged_hash content_hashes_row .
  have language: "language_ids old path = language_ids new path"
    using assms unfolding unchanged_hash comparable_def by blast
  have row: "make_chunk env w r path g = make_chunk env w r' path g" if "cf_hash r = cf_hash r'" "cf_language_id r = cf_language_id r'" for w r r' g
    using that by (simp add: make_chunk_def)
  have "file_chunks env (sb_workspace old) (sb_files old) (path, c) = file_chunks env (sb_workspace new) (sb_files new) (path, c)" for c
  proof (cases "captured_by_path (sb_files old) path")
    case None
    then show ?thesis using hash by (simp add: file_chunks_def)
  next
    case (Some r)
    then obtain r' where r': "captured_by_path (sb_files new) path = Some r'" "cf_hash r = cf_hash r'"
      using hash by (cases "captured_by_path (sb_files new) path") auto
    then have "cf_language_id r = cf_language_id r'" using language Some by (simp add: language_ids_def)
    then have "make_chunk env (sb_workspace old) r path = make_chunk env (sb_workspace new) r' path"
      using row [OF r'(2)] assms(1) by (simp add: fun_eq_iff comparable_def)
    then show ?thesis using Some r'(1) by (simp add: file_chunks_def)
  qed
  then show ?thesis using content by (simp add: chunks_of_def split: option.split)
qed


subsection \<open>An update has the chunks of a build\<close>

lemma restricted_chunks_of:
  assumes "path \<in> paths"
  shows "chunks_of env (restrict_bundle paths bundle) path = chunks_of env bundle path"
proof -
  have "map_of (filter (\<lambda>e. fst e \<in> paths) d) path = map_of d path" for d :: "(ustr, bytes) dict"
    using assms by (induction d) auto
  then show ?thesis by (simp add: chunks_of_def restrict_bundle_def case_prod_beta' split: option.split)
qed

lemma unchanged_paths:
  assumes "comparable env old new" and "path \<notin> changed_snapshot_paths (sb_files old) (sb_files new)"
  shows "path \<in> captured_paths old \<longleftrightarrow> path \<in> captured_paths new"
  using unchanged_content [OF assms] by (metis map_of_eq_None_iff)

lemma update_chunks_mset:
  assumes "comparable env old new"
    and "chunks env old = Inr old_chunks" and "chunks env new = Inr new_chunks"
    and "chunks env (restrict_bundle changed new) = Inr changed_chunks"
    and "changed = changed_snapshot_paths (sb_files old) (sb_files new)"
  shows "mset (filter (\<lambda>c. ch_path c \<notin> changed) old_chunks @ changed_chunks) = mset new_chunks"
proof -
  have ok: "dict_ok (sb_contents old)" "dict_ok (sb_contents new)" "dict_ok (sb_contents (restrict_bundle changed new))"
    using assms(1) by (simp_all add: comparable_def captured_exactly_def restrict_bundle_def)
  note o = chunks_concat [OF assms(2) ok(1)] and n = chunks_concat [OF assms(3) ok(2)] and r = chunks_concat [OF assms(4) ok(3)]
  let ?sum = "\<lambda>bundle paths. \<Sum>path \<in> paths. mset (chunks_of env bundle path)"
  have dist: "distinct (sort (dict_keys d))" if "dict_ok d" for d :: "(ustr, bytes) dict" using that by (simp add: dict_ok_def)
  have keys: "set (sort (dict_keys d)) = fst ` set d" for d :: "(ustr, bytes) dict" by simp
  have "filter (\<lambda>c. ch_path c \<notin> changed) old_chunks
      = concat (map (chunks_of env old) (filter (\<lambda>p. p \<notin> changed) (sort (dict_keys (sb_contents old)))))"
    using o filter_concat_paths [of "sort (dict_keys (sb_contents old))" "chunks_of env old" "\<lambda>p. p \<notin> changed"] by simp
  then have "mset (filter (\<lambda>c. ch_path c \<notin> changed) old_chunks) = ?sum old (captured_paths old - changed)"
    using mset_concat_sum [OF distinct_filter [OF dist [OF ok(1)]], of "chunks_of env old" "\<lambda>p. p \<notin> changed"]
    by (simp add: set_diff_eq)
  also have "\<dots> = ?sum new (captured_paths old - changed)"
    using unchanged_chunks [OF assms(1)] assms(5) by (intro sum.cong) auto
  also have "captured_paths old - changed = captured_paths new - changed"
    using unchanged_paths [OF assms(1)] unfolding assms(5) by blast
  finally have kept: "mset (filter (\<lambda>c. ch_path c \<notin> changed) old_chunks) = ?sum new (captured_paths new - changed)" .
  have restricted: "captured_paths (restrict_bundle changed new) = captured_paths new \<inter> changed"
    by (force simp: restrict_bundle_def)
  have "mset changed_chunks = ?sum (restrict_bundle changed new) (captured_paths (restrict_bundle changed new))"
    using r mset_concat_sum [OF dist [OF ok(3)]] by simp
  also have "\<dots> = ?sum new (captured_paths new \<inter> changed)"
    unfolding restricted by (intro sum.cong) (simp_all add: restricted_chunks_of)
  finally have redone: "mset changed_chunks = ?sum new (captured_paths new \<inter> changed)" .
  have "mset new_chunks = ?sum new (captured_paths new)"
    using n mset_concat_sum [OF dist [OF ok(2)]] by simp
  also have "\<dots> = ?sum new (captured_paths new \<inter> changed) + ?sum new (captured_paths new - changed)"
    by (rule sum.Int_Diff) simp
  finally show ?thesis using kept redone by (simp add: add.commute)
qed

lemma generation_producer_plain: "CATALOG_GENERATION_PRODUCER \<notin> structural_fact_producers"
  by (simp add: structural_fact_producers_def CATALOG_GENERATION_PRODUCER_def POSTGRESQL_CATALOG_PRODUCER_def
      STRUCTURAL_PRODUCER_def u_def)

lemma retain_chunks:
  assumes "retain_unchanged_structural_facts env files paths previous current = Inr facts"
    and "sorted (map chunk_key (fa_chunks current))"
  shows "fa_chunks facts = sort_key chunk_key (fa_chunks current @ retained_structural_rows paths (fa_chunks previous))"
proof (cases "paths = {}")
  case True
  then show ?thesis using assms
    by (simp add: retain_unchanged_structural_facts_def retained_structural_rows_def sort_key_sorted)
qed (use assms(1) in \<open>auto simp: retain_unchanged_structural_facts_def Let_def\<close>)

text \<open>C22: An incremental update, which recomputes the chunks of the changed paths only, has exactly the chunks of
  a full build from the new snapshot together with the structural chunks (of the PostgreSQL and syntax
  producers) that the current generation holds for unchanged paths, in the order of the chunks; the
  chunks that are not structural are those of the full build, in order, and all chunks are when the
  current generation has no structural ones. The two snapshots are of one workspace, their rows carry
  the digests of their bytes, on which the digest has no collision, and give paths with equal digests
  equal languages; the chunks of the current generation that are not structural are those of the old snapshot.
\<close>

theorem update_equals_rebuild:
  assumes "comparable env old new"
    and "build_facts env old_manifest_facts old = Inr old_built"
    and "filter (\<lambda>c. cr_producer c \<notin> structural_fact_producers) (fa_chunks current) = fa_chunks old_built"
    and "build_facts env manifest_facts new = Inr built"
    and "update_facts env manifest_facts current (sb_files old) new generation
           (changed_snapshot_paths (sb_files old) (sb_files new)) = Inr updated"
  shows "fa_chunks updated = sort_key chunk_key (fa_chunks built @
        filter (\<lambda>c. cr_producer c \<in> structural_fact_producers
          \<and> cr_source_path c \<in> cf_path ` set (sb_files new) - changed_snapshot_paths (sb_files old) (sb_files new)) (fa_chunks current))
    \<and> filter (\<lambda>c. cr_producer c \<notin> structural_fact_producers) (fa_chunks updated) = fa_chunks built
    \<and> ((\<forall>c \<in> set (fa_chunks current). cr_producer c \<notin> structural_fact_producers) \<longrightarrow> fa_chunks updated = fa_chunks built)"
proof -
  define changed where "changed = changed_snapshot_paths (sb_files old) (sb_files new)"
  let ?unchanged = "set (map cf_path (sb_files new)) - changed"
  from assms(2,3) have old: "chunks env old = Inr (filter (\<lambda>c. cr_producer c \<notin> structural_fact_producers) (fa_chunks current))" by (auto simp: build_facts_def)
  from assms(4) have new: "chunks env new = Inr (fa_chunks built)" by (auto simp: build_facts_def)
  obtain changed_chunks changes where up: "chunks env (restrict_bundle changed new) = Inr changed_chunks"
    "retain_unchanged_structural_facts env (sb_files new) ?unchanged current
       (manifest_facts\<lparr>fa_chunks := sort_key chunk_key (filter (kept_chunk changed) (fa_chunks current) @ changed_chunks),
                       fa_changes := changes\<rparr>) = Inr updated"
    using assms(5) unfolding update_facts_def changed_def [symmetric] by auto
  have ok: "dict_ok (sb_contents new)" using assms(1) by (simp add: comparable_def captured_exactly_def)
  note n = chunks_concat [OF new ok]
  have kept: "filter (kept_chunk changed) (fa_chunks current) = filter (\<lambda>c. ch_path c \<notin> changed) (filter (\<lambda>c. cr_producer c \<notin> structural_fact_producers) (fa_chunks current))"
    by (simp add: kept_chunk_def [abs_def] conj_commute)
  have "sorted_wrt (<) (sort (dict_keys (sb_contents new)))" using ok by (simp add: dict_ok_def strict_sorted_iff)
  then have "sorted_wrt (\<lambda>c d. chunk_key c < chunk_key d) (fa_chunks built)"
    using n by (intro chunks_sorted [of _ "chunks_of env new" "sort (dict_keys (sb_contents new))"]) auto
  from sorted_wrt_key_inj [OF this] have order: "inj_on chunk_key (set (fa_chunks built))" "sorted (map chunk_key (fa_chunks built))"
    by simp_all
  have same: "mset (filter (kept_chunk changed) (fa_chunks current) @ changed_chunks) = mset (fa_chunks built)"
    unfolding kept by (rule update_chunks_mset [OF assms(1) old new up(1) changed_def])
  have "inj_on chunk_key (set (filter (kept_chunk changed) (fa_chunks current) @ changed_chunks))"
    using order(1) mset_eq_setD [OF same] by simp
  then have "sort_key chunk_key (filter (kept_chunk changed) (fa_chunks current) @ changed_chunks) = fa_chunks built"
    by (rule sort_key_inj_key_eq [OF same _ order(2)])
  then have all: "fa_chunks updated = sort_key chunk_key (fa_chunks built @ retained_structural_rows ?unchanged (fa_chunks current))"
    using retain_chunks [OF up(2)] order(2) by simp
  have plain: "filter (\<lambda>c. cr_producer c \<notin> structural_fact_producers) (fa_chunks built) = fa_chunks built"
    using n generation_producer_plain by (auto simp: filter_id_conv)
  have "filter (\<lambda>c. cr_producer c \<notin> structural_fact_producers) (fa_chunks updated) = sort_key chunk_key (fa_chunks built)"
    unfolding all filter_sort filter_append plain by (simp add: retained_structural_rows_def filter_empty_conv)
  moreover have "retained_structural_rows ?unchanged (fa_chunks current) = []"
    if "\<forall>c \<in> set (fa_chunks current). cr_producer c \<notin> structural_fact_producers"
    using that by (auto simp: retained_structural_rows_def filter_empty_conv)
  ultimately show ?thesis
    using all order(2) unfolding changed_def by (simp add: sort_key_sorted retained_structural_rows_def)
qed

subsection \<open>A concrete update\<close>

text \<open>A snapshot with one empty file, and the next one with a second.\<close>

definition demo_row :: "ustr \<Rightarrow> captured_file" where
  "demo_row path = \<lparr>cf_path = path, cf_language = None, cf_language_id = None, cf_hash = replicate 64 97\<rparr>"

definition demo_bundle :: "ustr list \<Rightarrow> snapshot_bundle" where
  "demo_bundle paths = \<lparr>sb_workspace = u ''w'', sb_files = map demo_row paths, sb_changed = False,
     sb_contents = map (\<lambda>path. (path, [])) paths\<rparr>"

definition demo_chunk :: "ustr \<Rightarrow> chunk_fact" where
  "demo_chunk path = \<lparr>cr_workspace = u ''w'', cr_source_path = path, cr_source_digest = replicate 64 97,
     cr_producer = CATALOG_GENERATION_PRODUCER, cr_producer_version = CATALOG_GENERATION_VERSION,
     ch_id = replicate 64 97, ch_path = path, ch_language_id = None, ch_kind = u ''source'',
     ch_start_line = 1, ch_end_line = 1, ch_byte_start = 0, ch_byte_end = 0, ch_text = []\<rparr>"

lemma demo_scalars: "list_all is_scalar (u ''w'')" "list_all is_scalar (u ''a'')" "list_all is_scalar (u ''b'')"
  "list_all is_scalar (replicate 64 97)" "list_all is_scalar (show_position 0)" "list_all is_scalar (show_position 1)"
  "list_all is_scalar (u ''added'')"
  by (simp_all add: u_def is_scalar_def show_position_def show_nat.simps list_all_iff set_replicate_conv_if)

lemma demo_file_chunks:
  assumes "path = u ''a'' \<or> path = u ''b''" and "captured_by_path files path = Some (demo_row path)"
  shows "file_chunks demo_env (u ''w'') files (path, []) = Inr [demo_chunk path]"
proof -
  have excluded: "path_name (pure_path path) \<notin> excluded_names" "\<not> (\<exists>part \<in> set (pp_parts (pure_path path)). part \<in> excluded_parts)"
    "\<not> (\<exists>e \<in> {u ''.min.js'', u ''.min.css'', u ''.map''}. endswith (path_name (pure_path path)) e)"
    and kind: "chunk_kind path = u ''source''" and named: "path \<noteq> []"
    using assms(1) by (elim disjE; simp only:; code_simp)+
  have "length ([] :: bytes) \<le> 4 * 1024 * 1024" by simp
  then have eligible: "eligible_for_chunks path []"
    using excluded by (simp only: eligible_for_chunks_def Let_def if_False)
  have digest: "identity_digest demo_env [u ''w'', path, replicate 64 97, show_position 0, show_position 0] = Inr (replicate 64 97)"
    by (rule demo_digest) (use assms(1) demo_scalars in \<open>auto simp only: list.set ball_simps\<close>)
  have names: "u ''w'' \<noteq> []" "u ''source'' \<noteq> []" "CATALOG_GENERATION_PRODUCER \<noteq> []" "CATALOG_GENERATION_VERSION \<noteq> []"
    by code_simp+
  have "length (replicate 64 (97::nat)) = 64" by (simp only: length_replicate)
  with names named have valid: "chunk_fact_valid (demo_chunk path)"
    by (simp only: chunk_fact_valid_def record_valid_def demo_chunk_def chunk_fact.simps catalog_record.simps simp_thms le_refl)
  have "make_chunk demo_env (u ''w'') (demo_row path) path
      \<lparr>sm_byte_start = 0, sm_byte_end = 0, sm_start_line = 1, sm_end_line = 1, sm_text = []\<rparr> = Inr (demo_chunk path)"
    using valid unfolding make_chunk_def segment.simps demo_row_def captured_file.simps digest bind_err_simps Let_def kind demo_chunk_def
    by (simp only: if_True)
  then show ?thesis using eligible assms(2) by (simp add: file_chunks_def chunk_segments_empty lift_cut_def)
qed

lemma demo_sorted: "sorted_contents (demo_bundle [u ''a'']) = [(u ''a'', [])]"
  "sorted_contents (demo_bundle [u ''a'', u ''b'']) = [(u ''a'', []), (u ''b'', [])]"
  by (simp_all add: sorted_contents_def demo_bundle_def u_def)

lemma demo_rows: "captured_by_path (map demo_row [u ''a'']) (u ''a'') = Some (demo_row (u ''a''))"
  "captured_by_path (map demo_row [u ''a'', u ''b'']) (u ''a'') = Some (demo_row (u ''a''))"
  "captured_by_path (map demo_row [u ''a'', u ''b'']) (u ''b'') = Some (demo_row (u ''b''))"
  by (simp_all add: captured_by_path_def demo_row_def u_def)

lemma demo_build:
  "build_facts demo_env demo_facts (demo_bundle [u ''a'']) = Inr (demo_facts\<lparr>fa_chunks := [demo_chunk (u ''a'')]\<rparr>)"
  "build_facts demo_env demo_facts (demo_bundle [u ''a'', u ''b''])
     = Inr (demo_facts\<lparr>fa_chunks := [demo_chunk (u ''a''), demo_chunk (u ''b'')]\<rparr>)"
proof -
  have "file_chunks demo_env (u ''w'') (map demo_row [u ''a'']) (u ''a'', []) = Inr [demo_chunk (u ''a'')]"
    by (rule demo_file_chunks) (simp_all only: demo_rows simp_thms)
  then have "chunks demo_env (demo_bundle [u ''a'']) = Inr [demo_chunk (u ''a'')]"
    unfolding chunks_def demo_sorted by (simp add: demo_bundle_def)
  then show "build_facts demo_env demo_facts (demo_bundle [u ''a'']) = Inr (demo_facts\<lparr>fa_chunks := [demo_chunk (u ''a'')]\<rparr>)"
    by (simp add: build_facts_def)
  have "file_chunks demo_env (u ''w'') (map demo_row [u ''a'', u ''b'']) (u ''a'', []) = Inr [demo_chunk (u ''a'')]"
    "file_chunks demo_env (u ''w'') (map demo_row [u ''a'', u ''b'']) (u ''b'', []) = Inr [demo_chunk (u ''b'')]"
    by (rule demo_file_chunks; simp only: demo_rows simp_thms)+
  then have "chunks demo_env (demo_bundle [u ''a'', u ''b'']) = Inr [demo_chunk (u ''a''), demo_chunk (u ''b'')]"
    unfolding chunks_def demo_sorted by (simp add: demo_bundle_def)
  then show "build_facts demo_env demo_facts (demo_bundle [u ''a'', u ''b''])
     = Inr (demo_facts\<lparr>fa_chunks := [demo_chunk (u ''a''), demo_chunk (u ''b'')]\<rparr>)"
    by (simp add: build_facts_def)
qed

lemma demo_changed: "changed_snapshot_paths (map demo_row [u ''a'']) (map demo_row [u ''a'', u ''b'']) = {u ''b''}"
  by (auto simp: changed_snapshot_paths_def content_hashes_def demo_row_def u_def)

lemma demo_change: "\<exists>changes. change_facts demo_env (u ''w'') 1 (map demo_row [u ''a'']) (map demo_row [u ''a'', u ''b'']) {u ''b''} = Inr changes"
proof -
  have hashes: "content_hashes (map demo_row [u ''a'']) (u ''b'') = None"
    "content_hashes (map demo_row [u ''a'', u ''b'']) (u ''b'') = Some (replicate 64 97)"
    by (simp_all add: content_hashes_def demo_row_def u_def)
  have digest: "identity_digest demo_env [u ''w'', show_position 1, u ''b'', u ''added'', [], replicate 64 97] = Inr (replicate 64 97)"
    by (rule demo_digest) (use demo_scalars in \<open>auto simp only: list.set ball_simps list.pred_inject\<close>)
  have names: "u ''w'' \<noteq> []" "u ''b'' \<noteq> []" "CATALOG_GENERATION_PRODUCER \<noteq> []" "CATALOG_GENERATION_VERSION \<noteq> []"
    by code_simp+
  have sized: "length (replicate 64 (97::nat)) = 64" by (simp only: length_replicate)
  then have shown: "replicate 64 (97::nat) \<noteq> []" by (metis list.size(3) zero_neq_numeral)
  have "\<exists>c. change_fact_of demo_env (u ''w'') 1 (map demo_row [u ''a'']) (map demo_row [u ''a'', u ''b'']) (u ''b'') = Inr c"
    unfolding change_fact_of_def hashes Let_def option.case if_P [OF refl] operation_value.simps digest bind_err_simps
      check_fact_def change_fact_valid_def record_valid_def change_fact.simps catalog_record.simps
    using names sized shown by (simp only: simp_thms if_True le_refl ex_simps option.case not_False_eq_True) blast
  then show ?thesis by (auto simp: change_facts_def)
qed

lemma retain_plain_defined:
  assumes "fa_symbols previous = []" and "fa_imports previous = []"
  shows "\<exists>facts. retain_unchanged_structural_facts env files paths previous current = Inr facts"
  by (cases "paths = {}") (simp_all add: retain_unchanged_structural_facts_def Let_def assms retained_structural_rows_def
      rebuild_direct_import_dependencies_def)

theorem update_equals_rebuild_witness:
  "\<exists>updated. update_facts demo_env demo_facts (demo_facts\<lparr>fa_chunks := [demo_chunk (u ''a'')]\<rparr>) (map demo_row [u ''a''])
       (demo_bundle [u ''a'', u ''b'']) 1 {u ''b''} = Inr updated
     \<and> filter (\<lambda>c. cr_producer c \<notin> structural_fact_producers) (fa_chunks updated) = [demo_chunk (u ''a''), demo_chunk (u ''b'')]"
proof -
  let ?old = "demo_bundle [u ''a'']" and ?new = "demo_bundle [u ''a'', u ''b'']"
  have files: "sb_files ?old = map demo_row [u ''a'']" "sb_files ?new = map demo_row [u ''a'', u ''b'']"
    by (simp_all add: demo_bundle_def)
  have "captured_exactly demo_env ?old" "captured_exactly demo_env ?new"
    by (simp_all add: captured_exactly_def dict_ok_def demo_bundle_def content_hashes_def demo_row_def demo_env_def u_def)
  moreover have "language_ids ?old path = language_ids ?new path"
    if "content_hashes (sb_files ?old) path = content_hashes (sb_files ?new) path" for path
    using that by (auto simp: language_ids_def content_hashes_def captured_by_path_def demo_bundle_def demo_row_def u_def split: if_split_asm)
  ultimately have comparable: "comparable demo_env ?old ?new"
    by (auto simp: comparable_def demo_bundle_def)
  have plain: "cr_producer (demo_chunk path) \<notin> structural_fact_producers" for path
    using generation_producer_plain by (simp add: demo_chunk_def)
  obtain changes where changes: "change_facts demo_env (u ''w'') 1 (map demo_row [u ''a'']) (map demo_row [u ''a'', u ''b'']) {u ''b''} = Inr changes"
    using demo_change by blast
  have "sorted_contents (restrict_bundle {u ''b''} ?new) = [(u ''b'', [])]"
    by (simp add: sorted_contents_def restrict_bundle_def demo_bundle_def u_def)
  moreover have "file_chunks demo_env (u ''w'') (map demo_row [u ''a'', u ''b'']) (u ''b'', []) = Inr [demo_chunk (u ''b'')]"
    by (rule demo_file_chunks) (simp_all only: demo_rows simp_thms)
  ultimately have "chunks demo_env (restrict_bundle {u ''b''} ?new) = Inr [demo_chunk (u ''b'')]"
    by (simp add: chunks_def restrict_bundle_def demo_bundle_def)
  then obtain updated where updated: "update_facts demo_env demo_facts (demo_facts\<lparr>fa_chunks := [demo_chunk (u ''a'')]\<rparr>)
      (map demo_row [u ''a'']) ?new 1 {u ''b''} = Inr updated"
    using changes retain_plain_defined [of "demo_facts\<lparr>fa_chunks := [demo_chunk (u ''a'')]\<rparr>"]
    unfolding update_facts_def files by (fastforce simp: demo_bundle_def demo_facts_def)
  have current: "filter (\<lambda>c. cr_producer c \<notin> structural_fact_producers) (fa_chunks (demo_facts\<lparr>fa_chunks := [demo_chunk (u ''a'')]\<rparr>))
      = fa_chunks (demo_facts\<lparr>fa_chunks := [demo_chunk (u ''a'')]\<rparr>)" using plain by simp
  have run: "update_facts demo_env demo_facts (demo_facts\<lparr>fa_chunks := [demo_chunk (u ''a'')]\<rparr>) (sb_files ?old) ?new 1
      (changed_snapshot_paths (sb_files ?old) (sb_files ?new)) = Inr updated"
    using updated by (simp only: files demo_changed)
  have "filter (\<lambda>c. cr_producer c \<notin> structural_fact_producers) (fa_chunks updated)
      = fa_chunks (demo_facts\<lparr>fa_chunks := [demo_chunk (u ''a''), demo_chunk (u ''b'')]\<rparr>)"
    using update_equals_rebuild [OF comparable demo_build(1) current demo_build(2) run] by (elim conjE)
  then show ?thesis using updated by simp
qed

end
