(* ===== verification/CatalogIndexes.thy ===== *)
theory CatalogIndexes
  imports CatalogUpdate
begin

text \<open>
  The published catalog generation and its reverse indexes (\<open>catalog_generation_from_facts\<close> of
  \<open>catalog/generation.py\<close>). A generation leaves out what the indexes do not read: the identifiers
  and times it copies, and the file signatures. The lemmas show that an index returns exactly
  the facts of a key, in their order.
\<close>

subsection \<open>Indexes\<close>

text \<open>A loop of \<open>index[key(row)].append(row)\<close> over a \<open>defaultdict(list)\<close>.\<close>

definition append_row :: "('a \<Rightarrow> 'k) \<Rightarrow> 'a \<Rightarrow> ('k, 'a list) dict \<Rightarrow> ('k, 'a list) dict" where
  "append_row key row index =
     AList.update (key row) ((case map_of index (key row) of None \<Rightarrow> [] | Some rows \<Rightarrow> rows) @ [row]) index"

definition group_rows :: "('a \<Rightarrow> 'k) \<Rightarrow> 'a list \<Rightarrow> ('k, 'a list) dict" where
  "group_rows key rows = fold (append_row key) rows []"

text \<open>\<open>{key(row): row for row in rows}\<close>\<close>

definition index_rows :: "('a \<Rightarrow> 'k) \<Rightarrow> 'a list \<Rightarrow> ('k, 'a) dict" where
  "index_rows key rows = fold (\<lambda>row. AList.update (key row) row) rows []"

record catalog_generation =
  cg_number :: nat
  cg_workspace :: ustr
  cg_files :: "captured_file list"
  cg_inventory :: "ustr list"
  cg_facts :: catalog_facts
  cg_projects_by_id :: "(ustr, project_fact) dict"
  cg_tasks_by_key :: "(ustr \<times> ustr \<times> ustr, task_fact) dict"
  cg_dependencies_by_package :: "(ustr, dependency_fact list) dict"
  cg_dependencies_by_project :: "(ustr, dependency_fact list) dict"
  cg_routes_by_project :: "(ustr, route_fact list) dict"
  cg_rules_by_id :: "(ustr, rule_fact) dict"
  cg_policies_by_id :: "(ustr, policy_fact) dict"
  cg_symbols_by_id :: "(ustr, symbol_fact list) dict"
  cg_symbols_by_name :: "(ustr, symbol_fact list) dict"
  cg_imports_by_path :: "(ustr, import_fact list) dict"
  cg_diagnostics_by_path :: "(ustr, diagnostic_fact list) dict"
  cg_changes_by_path :: "(ustr, change_fact list) dict"
  cg_chunks_by_id :: "(ustr, chunk_fact) dict"
  cg_chunks_by_path :: "(ustr, chunk_fact list) dict"

text \<open>\<open>value or ''''\<close>\<close>

definition or_empty :: "ustr option \<Rightarrow> ustr" where
  "or_empty value = (case value of None \<Rightarrow> [] | Some s \<Rightarrow> s)"

definition catalog_generation_from_facts ::
  "catalog_env \<Rightarrow> nat \<Rightarrow> ustr \<Rightarrow> captured_file list \<Rightarrow> ustr list \<Rightarrow> catalog_facts \<Rightarrow> catalog_generation" where
  "catalog_generation_from_facts env generation workspace snapshot_files inventory facts =
     \<lparr>cg_number = generation, cg_workspace = workspace, cg_files = snapshot_files, cg_inventory = inventory, cg_facts = facts,
      cg_projects_by_id = index_rows pf_id (fa_projects facts),
      cg_tasks_by_key = index_rows (\<lambda>t. (tk_project t, tk_runner t, tk_id t)) (fa_tasks facts),
      cg_dependencies_by_package = group_rows (\<lambda>d. ce_casefold env (dp_package d)) (fa_dependencies facts),
      cg_dependencies_by_project = group_rows dp_project (fa_dependencies facts),
      cg_routes_by_project = group_rows (\<lambda>r. or_empty (ro_project r)) (fa_routes facts),
      cg_rules_by_id = index_rows ru_id (fa_rules facts),
      cg_policies_by_id = index_rows po_id (fa_policies facts),
      cg_symbols_by_id = group_rows sy_id (fa_symbols facts),
      cg_symbols_by_name = group_rows (\<lambda>s. ce_casefold env (sy_name s)) (fa_symbols facts),
      cg_imports_by_path = group_rows im_path (fa_imports facts),
      cg_diagnostics_by_path = group_rows di_path (fa_diagnostics facts),
      cg_changes_by_path = group_rows ca_path (fa_changes facts),
      cg_chunks_by_id = index_rows ch_id (fa_chunks facts),
      cg_chunks_by_path = group_rows ch_path (fa_chunks facts)\<rparr>"

text \<open>\<open>build\<close> and \<open>update\<close>, whose results are generations.\<close>

definition build_generation ::
  "catalog_env \<Rightarrow> catalog_facts \<Rightarrow> snapshot_bundle \<Rightarrow> nat \<Rightarrow> ustr list \<Rightarrow> (fact_error, catalog_generation) result" where
  "build_generation env manifest_facts bundle generation inventory =
     bind_err (build_facts env manifest_facts bundle) (\<lambda>facts.
     Inr (catalog_generation_from_facts env generation (sb_workspace bundle) (sb_files bundle) inventory facts))"

definition update_generation ::
  "catalog_env \<Rightarrow> catalog_facts \<Rightarrow> catalog_generation \<Rightarrow> snapshot_bundle \<Rightarrow> nat \<Rightarrow> ustr set \<Rightarrow> ustr list \<Rightarrow>
   (fact_error, catalog_generation) result" where
  "update_generation env manifest_facts current bundle generation changed inventory =
     bind_err (update_facts env manifest_facts (cg_facts current) (cg_files current) bundle generation changed) (\<lambda>facts.
     Inr (catalog_generation_from_facts env generation (sb_workspace bundle) (sb_files bundle) inventory facts))"

subsection \<open>What an index returns\<close>

lemma fold_append_row:
  "map_of (fold (append_row key) rows index) k =
     (if filter (\<lambda>row. key row = k) rows = [] then map_of index k
      else Some ((case map_of index k of None \<Rightarrow> [] | Some before \<Rightarrow> before) @ filter (\<lambda>row. key row = k) rows))"
  by (induction rows arbitrary: index) (auto simp: append_row_def update_conv' split: option.split)

lemma group_rows_lookup:
  "map_of (group_rows key rows) k =
     (if filter (\<lambda>row. key row = k) rows = [] then None else Some (filter (\<lambda>row. key row = k) rows))"
  by (simp add: group_rows_def fold_append_row)

lemma dict_ok_group_rows: "dict_ok (group_rows key rows)"
proof -
  have "dict_ok index \<Longrightarrow> dict_ok (fold (append_row key) rows index)" for index
    by (induction rows arbitrary: index) (auto simp: append_row_def)
  then show ?thesis by (simp add: group_rows_def)
qed

lemma find_snoc: "find P (xs @ [x]) = (case find P xs of None \<Rightarrow> if P x then Some x else None | Some y \<Rightarrow> Some y)"
  by (induction xs) auto

lemma index_rows_lookup: "map_of (index_rows key rows) k = find (\<lambda>row. key row = k) (rev rows)"
proof -
  have "map_of (fold (\<lambda>row. AList.update (key row) row) rows index) k =
      (case find (\<lambda>row. key row = k) (rev rows) of None \<Rightarrow> map_of index k | Some row \<Rightarrow> Some row)" for index
    by (induction rows arbitrary: index) (auto simp: update_conv' find_snoc split: option.split)
  then show ?thesis by (simp add: index_rows_def split: option.split)
qed

lemma group_rows_keys: "fst ` set (group_rows key rows) = key ` set rows"
proof -
  have "k \<in> fst ` set (group_rows key rows) \<longleftrightarrow> k \<in> key ` set rows" for k
    using map_of_keys [of "group_rows key rows" k] by (auto simp: group_rows_lookup filter_empty_conv split: if_split_asm)
  then show ?thesis by blast
qed

text \<open>No row is lost, and none is in two groups.\<close>

lemma group_rows_mset: "mset (concat (map snd (group_rows key rows))) = mset rows"
proof -
  have ok: "distinct (map fst (group_rows key rows))" using dict_ok_group_rows by (simp add: dict_ok_def)
  have groups: "snd e = filter (\<lambda>row. key row = fst e) rows" if "e \<in> set (group_rows key rows)" for e
  proof -
    have "map_of (group_rows key rows) (fst e) = Some (snd e)" using that ok by simp
    then show ?thesis by (simp add: group_rows_lookup split: if_split_asm)
  qed
  then have regroup: "map snd (group_rows key rows) = map (\<lambda>k. filter (\<lambda>row. key row = k) rows) (map fst (group_rows key rows))"
    by simp
  have "mset (concat (map snd (group_rows key rows))) = (\<Sum>k \<in> key ` set rows. mset (filter (\<lambda>row. key row = k) rows))"
    unfolding regroup mset_concat_sum [OF ok] by (simp only: set_map group_rows_keys)
  also have "\<dots> = mset rows"
  proof (rule multiset_eqI)
    fix x
    have each: "count (mset (filter (\<lambda>row. key row = k) rows)) x = (if k = key x then count (mset rows) x else 0)" for k
      by simp
    show "count (\<Sum>k \<in> key ` set rows. mset (filter (\<lambda>row. key row = k) rows)) x = count (mset rows) x"
      unfolding count_sum each by (simp add: sum.delta' not_in_iff [symmetric]) (auto simp: count_eq_zero_iff)
  qed
  finally show ?thesis .
qed

end
