(* ===== verification/Searching.thy ===== *)
theory Searching
  imports CatalogIndexes "HOL-Library.Sublist"
begin

text \<open>
  Lexical search over a catalog generation (\<open>catalog/search.py\<close>): the searchable documents, the
  MATCH expression handed to the full-text index, and the deterministic fallback engine. The
  Unicode alphabet (\<open>str.isalnum\<close>) is an argument. Scores are doubles; every score is
  a multiple of \<open>2 ^ -52\<close> and is kept as that multiple, with the rounding of the product.
\<close>

subsection \<open>Text\<close>

record search_env = catalog_env +
  se_alnum :: "nat \<Rightarrow> bool"

text \<open>\<open>value or default\<close>\<close>

definition or_else :: "ustr option \<Rightarrow> ustr \<Rightarrow> ustr" where
  "or_else value fallback = (if or_empty value = [] then fallback else or_empty value)"

text \<open>An f-string whose parts are separated by one space.\<close>

abbreviation spaced :: "ustr list \<Rightarrow> ustr" where
  "spaced parts \<equiv> join_with [32] parts"

abbreviation coloned :: "ustr list \<Rightarrow> ustr" where
  "coloned parts \<equiv> join_with [58] parts"

text \<open>\<open>haystack.count(needle)\<close>: occurrences that do not overlap, from the left; the second argument
  counts the characters of the last occurrence still to skip.\<close>

fun count_from :: "ustr \<Rightarrow> nat \<Rightarrow> ustr \<Rightarrow> nat" where
  "count_from needle k [] = 0"
| "count_from needle (Suc k) (c # cs) = count_from needle k cs"
| "count_from needle 0 (c # cs) =
     (if startswith (c # cs) needle then Suc (count_from needle (length needle - 1) cs) else count_from needle 0 cs)"

definition count_text :: "ustr \<Rightarrow> ustr \<Rightarrow> nat" where
  "count_text haystack needle = (if needle = [] then Suc (length haystack) else count_from needle 0 haystack)"

subsection \<open>Documents\<close>

definition search_kinds :: "ustr list" where
  "search_kinds = map u [''chunk'', ''file'', ''project'', ''dependency'', ''script'', ''config'', ''task'', ''route'', ''rule'',
     ''symbol'', ''import'', ''diagnostic'', ''change'', ''policy'']"

record search_document =
  sd_key :: ustr
  sd_kind :: ustr
  sd_path :: ustr
  sd_title :: ustr
  sd_body :: ustr

definition named :: "ustr \<Rightarrow> ustr" where
  "named path = path_name (pure_path path)"

definition file_document :: "captured_file \<Rightarrow> search_document" where
  "file_document f = \<lparr>sd_key = u ''path:'' @ cf_path f, sd_kind = u ''file'', sd_path = cf_path f, sd_title = named (cf_path f), sd_body = []\<rparr>"

definition project_document :: "project_fact \<Rightarrow> search_document" where
  "project_document p =
     \<lparr>sd_key = u ''project:'' @ pf_id p, sd_kind = u ''project'', sd_path = pf_manifest p, sd_title = or_else (pf_name p) (pf_id p),
      sd_body = spaced [project_kind_value (pf_kind p), pf_root p]\<rparr>"

definition dependency_document :: "dependency_fact \<Rightarrow> search_document" where
  "dependency_document d =
     \<lparr>sd_key = coloned [u ''dependency'', dp_project d, dp_package d], sd_kind = u ''dependency'', sd_path = cr_source_path d,
      sd_title = dp_package d, sd_body = spaced [dp_declared d, or_empty (dp_resolved d), scope_value (dp_scope d)]\<rparr>"

definition script_document :: "script_fact \<Rightarrow> search_document" where
  "script_document s =
     \<lparr>sd_key = coloned [u ''script'', sr_project s, sr_name s], sd_kind = u ''script'', sd_path = cr_source_path s,
      sd_title = sr_name s, sd_body = spaced [sr_command s, spaced (sr_tasks s)]\<rparr>"

definition task_document :: "task_fact \<Rightarrow> search_document" where
  "task_document t =
     \<lparr>sd_key = coloned [u ''task'', tk_project t, tk_id t], sd_kind = u ''task'', sd_path = cr_source_path t,
      sd_title = tk_id t, sd_body = spaced [tk_runner t, spaced (tk_depends_on t), spaced (tk_outputs t)]\<rparr>"

definition config_document :: "config_fact \<Rightarrow> search_document" where
  "config_document c =
     \<lparr>sd_key = coloned [u ''config'', co_project c, co_path c], sd_kind = u ''config'', sd_path = co_path c,
      sd_title = named (co_path c), sd_body = spaced [co_kind c, co_parser c]\<rparr>"

definition route_document :: "route_fact \<Rightarrow> search_document" where
  "route_document r =
     \<lparr>sd_key = coloned [u ''route'', or_else (ro_project r) (u ''-''), ro_id r], sd_kind = u ''route'', sd_path = cr_source_path r,
      sd_title = strip (spaced [or_empty (ro_route r), spaced (ro_methods r)]),
      sd_body = spaced [ro_framework r, ro_registration r, or_empty (ro_router r), or_empty (ro_runtime r)]\<rparr>"

definition rule_document :: "rule_fact \<Rightarrow> search_document" where
  "rule_document r =
     \<lparr>sd_key = u ''rule:'' @ ru_id r, sd_kind = u ''rule'', sd_path = cr_source_path r, sd_title = ru_id r,
      sd_body = spaced [ru_language r, ru_severity r, ru_message r]\<rparr>"

definition policy_document :: "policy_fact \<Rightarrow> search_document" where
  "policy_document p =
     \<lparr>sd_key = u ''policy:'' @ po_id p, sd_kind = u ''policy'', sd_path = cr_source_path p, sd_title = po_title p,
      sd_body = spaced (filter (\<lambda>v. v \<noteq> []) (map snd (po_attributes p)))\<rparr>"

definition symbol_document :: "symbol_fact \<Rightarrow> search_document" where
  "symbol_document s =
     \<lparr>sd_key = coloned [u ''symbol'', sy_project s, sy_id s], sd_kind = u ''symbol'', sd_path = sy_path s, sd_title = sy_name s,
      sd_body = spaced [sy_kind s, or_empty (sy_type s)]\<rparr>"

definition import_document :: "import_fact \<Rightarrow> search_document" where
  "import_document i =
     \<lparr>sd_key = coloned [u ''import'', im_project i, im_id i], sd_kind = u ''import'', sd_path = im_path i, sd_title = im_specifier i,
      sd_body = or_empty (im_resolved i)\<rparr>"

definition diagnostic_document :: "diagnostic_fact \<Rightarrow> search_document" where
  "diagnostic_document d =
     \<lparr>sd_key = coloned [u ''diagnostic'', di_project d, di_id d], sd_kind = u ''diagnostic'', sd_path = di_path d,
      sd_title = or_else (di_code d) (di_category d), sd_body = di_message d\<rparr>"

definition change_document :: "change_fact \<Rightarrow> search_document" where
  "change_document c =
     \<lparr>sd_key = u ''change:'' @ ca_id c, sd_kind = u ''change'', sd_path = ca_path c, sd_title = operation_value (ca_operation c), sd_body = []\<rparr>"

definition chunk_document :: "chunk_fact \<Rightarrow> search_document" where
  "chunk_document c = \<lparr>sd_key = u ''chunk:'' @ ch_id c, sd_kind = u ''chunk'', sd_path = ch_path c, sd_title = [], sd_body = ch_text c\<rparr>"

definition search_documents :: "catalog_generation \<Rightarrow> search_document list" where
  "search_documents generation =
     (let facts = cg_facts generation in
      map file_document (cg_files generation) @ map project_document (fa_projects facts)
      @ map dependency_document (fa_dependencies facts) @ map script_document (fa_scripts facts)
      @ map task_document (fa_tasks facts) @ map config_document (fa_configs facts) @ map route_document (fa_routes facts)
      @ map rule_document (fa_rules facts) @ map policy_document (fa_policies facts) @ map symbol_document (fa_symbols facts)
      @ map import_document (fa_imports facts) @ map diagnostic_document (fa_diagnostics facts)
      @ map change_document (fa_changes facts) @ map chunk_document (fa_chunks facts))"

subsection \<open>Keys of stored rows\<close>

record stored_row =
  st_path :: ustr
  st_evidence_id :: ustr
  st_data :: "(ustr, json) dict"

definition fact_key_fields :: "(ustr, ustr list) dict" where
  "fact_key_fields = map (\<lambda>(kind, names). (u kind, map u names))
     [(''chunk'', [''chunk_id'']), (''project'', [''project_id'']), (''dependency'', [''project_id'', ''package_name'']),
      (''script'', [''project_id'', ''name'']), (''task'', [''project_id'', ''task_id'']),
      (''config'', [''project_id'', ''config_path'']), (''rule'', [''rule_id'']), (''policy'', [''policy_id'']),
      (''symbol'', [''project_id'', ''symbol_id'']), (''import'', [''project_id'', ''import_id'']),
      (''diagnostic'', [''project_id'', ''diagnostic_id'']), (''change'', [''change_id''])]"

definition row_text :: "(ustr, json) dict \<Rightarrow> ustr \<Rightarrow> ustr option" where
  "row_text data field = (case map_of data field of Some (JStr s) \<Rightarrow> if s = [] then None else Some s | _ \<Rightarrow> None)"

fun fact_key_values :: "(ustr, json) dict \<Rightarrow> ustr list \<Rightarrow> ustr list option" where
  "fact_key_values data [] = Some []"
| "fact_key_values data (field # rest) =
     (case row_text data field of None \<Rightarrow> None | Some v \<Rightarrow> map_option ((#) v) (fact_key_values data rest))"

definition canonical_fact_key_for_row :: "stored_row \<Rightarrow> ustr \<Rightarrow> ustr" where
  "canonical_fact_key_for_row row kind =
     (if kind = u ''file'' then u ''path:'' @ st_path row
      else if kind = u ''route'' then
        (case row_text (st_data row) (u ''route_id'') of
           None \<Rightarrow> st_evidence_id row
         | Some route_id \<Rightarrow> coloned [u ''route'', (case row_text (st_data row) (u ''project_id'') of None \<Rightarrow> u ''-'' | Some p \<Rightarrow> p), route_id])
      else case map_of fact_key_fields kind of
        None \<Rightarrow> st_evidence_id row
      | Some names \<Rightarrow> (case fact_key_values (st_data row) names of
            None \<Rightarrow> st_evidence_id row
          | Some values \<Rightarrow> coloned (kind # values)))"

subsection \<open>Queries\<close>

datatype search_match_mode = MatchAll | MatchAny

definition is_token_character :: "'a search_env_scheme \<Rightarrow> nat \<Rightarrow> bool" where
  "is_token_character env c \<longleftrightarrow> se_alnum env c \<or> c \<in> set (u ''_$@'')"

fun query_tokens :: "'a search_env_scheme \<Rightarrow> ustr \<Rightarrow> ustr \<Rightarrow> ustr list" where
  "query_tokens env current [] = (if current = [] then [] else [current])"
| "query_tokens env current (c # cs) =
     (if is_token_character env c then query_tokens env (current @ [c]) cs
      else if current = [] then query_tokens env [] cs else current # query_tokens env [] cs)"

definition quote :: "ustr \<Rightarrow> ustr" where
  "quote token = [34] @ token @ [34]"

definition fts_match_expression :: "'a search_env_scheme \<Rightarrow> ustr \<Rightarrow> search_match_mode \<Rightarrow> ustr" where
  "fts_match_expression env query mode =
     (let tokens = query_tokens env [] query in
      if tokens = [] then []
      else let quoted = map quote tokens;
               starred = (if is_token_character env (last query) then butlast quoted @ [last quoted @ u '' *''] else quoted)
           in join_with (if mode = MatchAny then u '' OR '' else u '' '') starred)"

subsection \<open>The fallback engine\<close>

text \<open>The product of a small integer and a boost, rounded to a double.\<close>

definition round_even :: "nat \<Rightarrow> nat \<Rightarrow> nat" where
  "round_even d n = d * (let q = n div d; r = n mod d in if 2 * r < d \<or> (2 * r = d \<and> even q) then q else q + 1)"

definition round_double :: "nat \<Rightarrow> nat" where
  "round_double n = (if n < 2 ^ 53 then n else if n < 2 ^ 54 then round_even 2 n else if n < 2 ^ 55 then round_even 4 n else round_even 8 n)"

definition kind_rank_boosts :: "(ustr, nat) dict" where
  "kind_rank_boosts = map (\<lambda>(kind, boost). (u kind, boost))
     [(''chunk'', 4503599627370496), (''file'', 7205759403792794), (''project'', 5854679515581645),
      (''dependency'', 5854679515581645), (''script'', 5854679515581645), (''config'', 5854679515581645),
      (''task'', 6755399441055744), (''route'', 6755399441055744), (''rule'', 6755399441055744),
      (''symbol'', 6755399441055744), (''import'', 5854679515581645), (''diagnostic'', 5854679515581645),
      (''change'', 5404319552844595), (''policy'', 6755399441055744)]"

definition boost_of :: "ustr \<Rightarrow> nat" where
  "boost_of kind = (case map_of kind_rank_boosts kind of None \<Rightarrow> 4503599627370496 | Some b \<Rightarrow> b)"

definition occurrences_in :: "'a search_env_scheme \<Rightarrow> search_document \<Rightarrow> ustr \<Rightarrow> nat" where
  "occurrences_in env doc needle =
     sum_list (map (\<lambda>h. count_text (ce_casefold env h) needle) [sd_title doc, sd_path doc, sd_body doc])"

definition linear_score :: "'a search_env_scheme \<Rightarrow> search_document \<Rightarrow> ustr list \<Rightarrow> search_match_mode \<Rightarrow> nat" where
  "linear_score env doc needles mode =
     (let counts = map (occurrences_in env doc) needles;
          occurrences = sum_list counts
      in if mode = MatchAll \<and> 0 \<in> set counts then 0
         else if occurrences = 0 then 0
         else round_double (min occurrences 8 * boost_of (sd_kind doc)))"

record ranked_hit =
  rh_key :: ustr
  rh_kind :: ustr
  rh_path :: ustr
  rh_score :: nat

definition selected_document :: "ustr list \<Rightarrow> ustr list \<Rightarrow> search_document \<Rightarrow> bool" where
  "selected_document kinds path_prefixes doc \<longleftrightarrow>
     (kinds = [] \<or> sd_kind doc \<in> set kinds)
     \<and> (path_prefixes = [] \<or> (\<exists>p \<in> set path_prefixes. sd_path doc = p \<or> startswith (sd_path doc) (p @ [47])))"

definition needles_of :: "'a search_env_scheme \<Rightarrow> ustr \<Rightarrow> ustr list" where
  "needles_of env query =
     (let needles = map (ce_casefold env) (query_tokens env [] query) in if needles = [] then [ce_casefold env query] else needles)"

definition hit_of :: "'a search_env_scheme \<Rightarrow> ustr list \<Rightarrow> search_match_mode \<Rightarrow> search_document \<Rightarrow> ranked_hit" where
  "hit_of env needles mode doc =
     \<lparr>rh_key = sd_key doc, rh_kind = sd_kind doc, rh_path = sd_path doc, rh_score = linear_score env doc needles mode\<rparr>"

definition rank_key :: "ranked_hit \<Rightarrow> int \<times> ustr" where
  "rank_key hit = (- int (rh_score hit), rh_key hit)"

definition ranked_hits ::
  "'a search_env_scheme \<Rightarrow> catalog_generation \<Rightarrow> ustr \<Rightarrow> ustr list \<Rightarrow> ustr list \<Rightarrow> search_match_mode \<Rightarrow> ranked_hit list" where
  "ranked_hits env generation query kinds path_prefixes mode =
     sort_key rank_key (filter (\<lambda>hit. rh_score hit > 0)
       (map (hit_of env (needles_of env query) mode) (filter (selected_document kinds path_prefixes) (search_documents generation))))"

definition linear_search ::
  "'a search_env_scheme \<Rightarrow> catalog_generation \<Rightarrow> ustr \<Rightarrow> ustr list \<Rightarrow> ustr list \<Rightarrow> int \<Rightarrow> int \<Rightarrow> search_match_mode \<Rightarrow>
   ranked_hit list \<times> bool" where
  "linear_search env generation query kinds path_prefixes limit offset mode =
     (if query = [] then ([], False)
      else let window = py_slice (ranked_hits env generation query kinds path_prefixes mode) offset (offset + limit + 1)
           in (py_slice window 0 limit, int (length window) > limit))"


subsection \<open>What the fallback engine finds\<close>

definition mentions :: "'a search_env_scheme \<Rightarrow> search_document \<Rightarrow> ustr \<Rightarrow> bool" where
  "mentions env doc needle \<longleftrightarrow> (\<exists>h \<in> {sd_title doc, sd_path doc, sd_body doc}. sublist needle (ce_casefold env h))"

definition document_matches :: "'a search_env_scheme \<Rightarrow> ustr list \<Rightarrow> search_match_mode \<Rightarrow> search_document \<Rightarrow> bool" where
  "document_matches env needles mode doc \<longleftrightarrow>
     (case mode of MatchAll \<Rightarrow> \<forall>needle \<in> set needles. mentions env doc needle
      | MatchAny \<Rightarrow> \<exists>needle \<in> set needles. mentions env doc needle)"

lemma startswith_prefix: "startswith s p \<longleftrightarrow> prefix p s"
  by (metis append_eq_conv_conj prefix_def startswith_def)

lemma count_from_pos: "needle \<noteq> [] \<Longrightarrow> count_from needle 0 hay > 0 \<longleftrightarrow> sublist needle hay"
  by (induction hay) (auto simp: startswith_prefix sublist_Cons_right)

lemma count_text_pos: "count_text hay needle > 0 \<longleftrightarrow> sublist needle hay"
  by (simp add: count_text_def count_from_pos)

lemma count_text_zero: "count_text hay needle = 0 \<longleftrightarrow> \<not> sublist needle hay"
  by (metis count_text_pos neq0_conv)

lemma round_even_pos: "d > 0 \<Longrightarrow> d \<le> n \<Longrightarrow> round_even d n > 0"
  by (simp add: round_even_def Let_def div_greater_zero_iff)

lemma round_double_pos: "n > 0 \<Longrightarrow> round_double n > 0"
  by (auto simp: round_double_def intro!: round_even_pos)

lemma boost_pos: "boost_of kind > 0"
proof -
  have "\<forall>b \<in> snd ` set kind_rank_boosts. b > 0" by (simp add: kind_rank_boosts_def)
  then show ?thesis by (auto simp: boost_of_def split: option.split dest!: map_of_SomeD)
qed

lemma linear_score_pos:
  assumes "needles \<noteq> []"
  shows "linear_score env doc needles mode > 0 \<longleftrightarrow> document_matches env needles mode doc"
proof -
  have none: "occurrences_in env doc needle = 0 \<longleftrightarrow> \<not> mentions env doc needle" for needle
    by (auto simp: mentions_def occurrences_in_def count_text_zero)
  have total: "sum_list (map (occurrences_in env doc) needles) = 0 \<longleftrightarrow> (\<forall>needle \<in> set needles. \<not> mentions env doc needle)"
    by (simp add: none)
  have zero: "0 \<in> set (map (occurrences_in env doc) needles) \<longleftrightarrow> \<not> (\<forall>needle \<in> set needles. mentions env doc needle)"
    using none by (metis (no_types, lifting) image_iff list.set_map)
  have rounded: "n \<noteq> 0 \<Longrightarrow> round_double (min n 8 * boost_of (sd_kind doc)) > 0" for n
    using boost_pos by (intro round_double_pos) simp
  obtain needle where "needle \<in> set needles" using assms by (cases needles) auto
  moreover define n where "n = sum_list (map (occurrences_in env doc) needles)"
  ultimately show ?thesis
    using rounded [of n] total unfolding linear_score_def Let_def zero document_matches_def n_def [symmetric]
    by (cases mode; cases "n = 0") auto
qed

lemma needles_nonempty: "needles_of env query \<noteq> []"
  by (simp add: needles_of_def Let_def)

lemma slice_window:
  assumes "0 \<le> limit" and "0 \<le> offset"
  shows "py_slice (py_slice xs offset (offset + limit + 1)) 0 limit = take (nat limit) (drop (nat offset) xs)"
    and "int (length (py_slice xs offset (offset + limit + 1))) > limit \<longleftrightarrow> nat offset + nat limit < length xs"
proof -
  obtain l i where li: "limit = int l" "offset = int i" using assms nonneg_int_cases by metis
  then have stop: "offset + limit + 1 = int (i + l + 1)" by simp
  have length: "nat (1 + (int i + int l)) - i = Suc l" by linarith
  have window: "py_slice xs offset (offset + limit + 1) = take (Suc l) (drop i xs)"
    unfolding stop unfolding li using length
    by (cases "i \<le> length xs") (auto simp: py_slice_def clamp_def slice_def min_def drop_take)
  show "py_slice (py_slice xs offset (offset + limit + 1)) 0 limit = take (nat limit) (drop (nat offset) xs)"
    unfolding window by (simp add: py_slice_def clamp_def slice_def li min_def)
  show "int (length (py_slice xs offset (offset + limit + 1))) > limit \<longleftrightarrow> nat offset + nat limit < length xs"
    unfolding window by (auto simp: li)
qed

text \<open>C24: The fallback engine returns one window of a ranked list that does not depend on the window: it has one
  hit for every selected document in which all (or any) of the needles occur, in order of falling
  score and then of key, and says whether hits follow the window.
\<close>

theorem linear_search_pages:
  assumes "query \<noteq> []" and "0 \<le> limit" and "0 \<le> offset"
  shows "\<exists>hits. hits = ranked_hits env generation query kinds path_prefixes mode
    \<and> linear_search env generation query kinds path_prefixes limit offset mode
        = (take (nat limit) (drop (nat offset) hits), nat offset + nat limit < length hits)
    \<and> sorted (map rank_key hits)
    \<and> mset hits = image_mset (hit_of env (needles_of env query) mode)
        {#doc \<in># mset (search_documents generation). selected_document kinds path_prefixes doc
           \<and> document_matches env (needles_of env query) mode doc#}"
proof -
  let ?hits = "ranked_hits env generation query kinds path_prefixes mode"
  have "linear_search env generation query kinds path_prefixes limit offset mode
        = (take (nat limit) (drop (nat offset) ?hits), nat offset + nat limit < length ?hits)"
    using assms(1) by (simp only: slice_window [OF assms(2,3)] linear_search_def Let_def if_False prod.inject simp_thms)
  moreover have "sorted (map rank_key ?hits)" by (simp add: ranked_hits_def)
  moreover have "rh_score (hit_of env (needles_of env query) mode doc) > 0 \<longleftrightarrow> document_matches env (needles_of env query) mode doc" for doc
    by (simp add: hit_of_def linear_score_pos needles_nonempty)
  then have "mset ?hits = image_mset (hit_of env (needles_of env query) mode)
      {#doc \<in># mset (search_documents generation). selected_document kinds path_prefixes doc
         \<and> document_matches env (needles_of env query) mode doc#}"
    by (simp add: ranked_hits_def filter_map comp_def conj_commute filter_filter_mset)
  ultimately show ?thesis by blast
qed

subsection \<open>What the full-text index reads\<close>

text \<open>
  The lexer of FTS5 queries belongs to SQLite and is an argument: it turns the text of a query into
  lexemes. What is relied on is its documented grammar: blanks separate lexemes, a text between
  double quotes is a string of the characters between them (a quote inside it would be doubled),
  \<open>OR\<close> is an operator and \<open>*\<close> after a string asks for a prefix.
\<close>

record 'l fts_reader =
  fr_lex :: "ustr \<Rightarrow> 'l list"
  fr_string :: "ustr \<Rightarrow> 'l"
  fr_or :: 'l
  fr_prefix :: 'l

definition documented_fts :: "'l fts_reader \<Rightarrow> bool" where
  "documented_fts r \<longleftrightarrow> fr_lex r [] = [] \<and> (\<forall>rest. fr_lex r (32 # rest) = fr_lex r rest)
     \<and> (\<forall>t rest. 34 \<notin> set t \<and> (rest = [] \<or> hd rest \<noteq> 34) \<longrightarrow> fr_lex r ([34] @ t @ [34] @ rest) = fr_string r t # fr_lex r rest)
     \<and> (\<forall>rest. rest = [] \<or> hd rest = 32 \<longrightarrow> fr_lex r (u ''OR'' @ rest) = fr_or r # fr_lex r rest)
     \<and> (\<forall>rest. fr_lex r (42 # rest) = fr_prefix r # fr_lex r rest)"

definition fts_separator :: "'l fts_reader \<Rightarrow> search_match_mode \<Rightarrow> 'l list" where
  "fts_separator r mode = (if mode = MatchAny then [fr_or r] else [])"

lemma concat_query_tokens: "concat (query_tokens env current q) = current @ filter (is_token_character env) q"
  by (induction env current q rule: query_tokens.induct) simp_all

lemma query_token:
  "t \<in> set (query_tokens env current q) \<Longrightarrow> list_all (is_token_character env) current \<Longrightarrow>
   t \<noteq> [] \<and> list_all (is_token_character env) t"
  by (induction env current q rule: query_tokens.induct) (simp_all split: if_split_asm, fastforce+)

lemma documented_lexemes:
  assumes "documented_fts r"
  shows "fr_lex r [] = []" "fr_lex r (u '' '' @ rest) = fr_lex r rest" "fr_lex r (u '' OR '' @ rest) = fr_or r # fr_lex r rest"
    "fr_lex r (u '' *'') = [fr_prefix r]"
    "34 \<notin> set t \<Longrightarrow> rest = [] \<or> hd rest \<noteq> 34 \<Longrightarrow> fr_lex r (quote t @ rest) = fr_string r t # fr_lex r rest"
proof -
  note laws = assms [unfolded documented_fts_def]
  have blank: "fr_lex r (32 # x) = fr_lex r x" for x using laws by blast
  have "fr_lex r (u ''OR'' @ 32 # rest) = fr_or r # fr_lex r (32 # rest)" using laws by (metis list.sel(1))
  then show "fr_lex r (u '' OR '' @ rest) = fr_or r # fr_lex r rest" by (simp add: u_def blank)
  show "fr_lex r [] = []" "fr_lex r (u '' '' @ rest) = fr_lex r rest" using laws by (simp_all add: u_def)
  show "fr_lex r (u '' *'') = [fr_prefix r]" using laws by (simp add: u_def)
  show "34 \<notin> set t \<Longrightarrow> rest = [] \<or> hd rest \<noteq> 34 \<Longrightarrow> fr_lex r (quote t @ rest) = fr_string r t # fr_lex r rest"
    using laws by (simp add: quote_def)
qed

lemma fts_lex_joined:
  assumes "documented_fts r" and "tokens \<noteq> []" and "\<forall>t \<in> set tokens. 34 \<notin> set t" and "tail = [] \<or> hd tail \<noteq> 34"
  shows "fr_lex r (join_with (if mode = MatchAny then u '' OR '' else u '' '') (map quote tokens) @ tail)
    = join_with (fts_separator r mode) (map (\<lambda>t. [fr_string r t]) tokens) @ fr_lex r tail"
  using assms(2,3)
proof (induction tokens rule: list_nonempty_induct)
  case (single t)
  then show ?case using assms(4) by (simp add: documented_lexemes [OF assms(1)])
next
  case (cons t ts)
  let ?sep = "if mode = MatchAny then u '' OR '' else u '' ''"
  let ?rest = "join_with ?sep (map quote ts) @ tail"
  have "hd (?sep @ ?rest) \<noteq> 34" by (simp add: u_def)
  then have "fr_lex r (quote t @ ?sep @ ?rest) = fr_string r t # fr_lex r (?sep @ ?rest)"
    using cons.prems by (intro documented_lexemes(5) [OF assms(1)]) simp_all
  also have "fr_lex r (?sep @ ?rest) = fts_separator r mode @ fr_lex r ?rest"
    by (cases "mode = MatchAny")
      (simp_all only: fts_separator_def if_True if_False refl documented_lexemes(2,3) [OF assms(1)] append_Nil append_Cons)
  finally show ?case using cons by (simp add: join_with_Cons)
qed

lemma join_butlast:
  "quoted \<noteq> [] \<Longrightarrow> join_with sep (butlast quoted @ [last quoted @ tail]) = join_with sep quoted @ tail"
  by (induction quoted rule: list_nonempty_induct) (auto simp: join_with_Cons)

text \<open>C25: Whatever the query holds, an FTS5 lexer that follows the documented grammar reads the MATCH expression as
  the tokens of the query as strings, in order, with nothing between them when all have to match
  and the operator \<open>OR\<close> when any has, followed by the prefix star exactly when the query ends inside a token: no
  other lexeme, so nothing in a query acts as an operator. The tokens are not empty and hold every
  token character of the query in order. The quote is no letter or digit.
\<close>

theorem fts_expression_safe:
  assumes "documented_fts r" and "\<not> se_alnum env 34"
  shows "fr_lex r (fts_match_expression env query mode)
      = join_with (fts_separator r mode) (map (\<lambda>t. [fr_string r t]) (query_tokens env [] query))
        @ (if query \<noteq> [] \<and> is_token_character env (last query) then [fr_prefix r] else [])
    \<and> concat (query_tokens env [] query) = filter (is_token_character env) query
    \<and> (\<forall>t \<in> set (query_tokens env [] query). t \<noteq> [])"
proof -
  let ?tokens = "query_tokens env [] query"
  note read = documented_lexemes [OF assms(1)]
  have spec: "concat ?tokens = filter (is_token_character env) query"
    "\<forall>t \<in> set ?tokens. t \<noteq> [] \<and> list_all (is_token_character env) t"
    using query_token [of _ env "[]" query] by (simp_all add: concat_query_tokens)
  have quote: "\<not> is_token_character env 34" using assms(2) by (simp add: is_token_character_def u_def)
  then have plain: "\<forall>t \<in> set ?tokens. 34 \<notin> set t" using spec by (auto simp: list_all_iff)
  have "fr_lex r (fts_match_expression env query mode)
      = join_with (fts_separator r mode) (map (\<lambda>t. [fr_string r t]) ?tokens)
        @ (if query \<noteq> [] \<and> is_token_character env (last query) then [fr_prefix r] else [])"
  proof (cases "?tokens = []")
    case True
    then have "filter (is_token_character env) query = []" using spec by simp
    then have "query \<noteq> [] \<Longrightarrow> \<not> is_token_character env (last query)" by (simp add: filter_empty_conv)
    then show ?thesis using True by (auto simp: fts_match_expression_def read(1))
  next
    case False
    then have "query \<noteq> []" by auto
    let ?starred = "is_token_character env (last query)"
    have "fts_match_expression env query mode
        = join_with (if mode = MatchAny then u '' OR '' else u '' '') (map quote ?tokens) @ (if ?starred then u '' *'' else [])"
      using False by (simp add: fts_match_expression_def Let_def join_butlast)
    moreover have "fr_lex r (if ?starred then u '' *'' else []) = (if ?starred then [fr_prefix r] else [])"
      by (simp add: read(1,4))
    moreover have "(if ?starred then u '' *'' else []) = [] \<or> hd (if ?starred then u '' *'' else []) \<noteq> 34"
      by (simp add: u_def)
    ultimately show ?thesis using fts_lex_joined [OF assms(1) False plain] \<open>query \<noteq> []\<close> by simp
  qed
  with spec show ?thesis by blast
qed

text \<open>A lexer with the documented grammar: strings, the prefix star, and barewords, among them the operators.\<close>

datatype fts_lexeme = Phrase ustr | Star | Bareword ustr | Unterminated

datatype lex_mode = Outside | InPhrase ustr | InWord ustr

fun fts_lex :: "lex_mode \<Rightarrow> ustr \<Rightarrow> fts_lexeme list" where
  "fts_lex Outside [] = []"
| "fts_lex (InWord acc) [] = [Bareword acc]"
| "fts_lex (InPhrase acc) [] = [Unterminated]"
| "fts_lex Outside (c # cs) =
     (if c = 34 then fts_lex (InPhrase []) cs else if c = 42 then Star # fts_lex Outside cs
      else if c = 32 then fts_lex Outside cs else fts_lex (InWord [c]) cs)"
| "fts_lex (InWord acc) (c # cs) =
     (if c = 34 then Bareword acc # fts_lex (InPhrase []) cs else if c = 42 then Bareword acc # Star # fts_lex Outside cs
      else if c = 32 then Bareword acc # fts_lex Outside cs else fts_lex (InWord (acc @ [c])) cs)"
| "fts_lex (InPhrase acc) (c # cs) =
     (if c \<noteq> 34 then fts_lex (InPhrase (acc @ [c])) cs
      else if cs \<noteq> [] \<and> hd cs = 34 then fts_lex (InPhrase (acc @ [34])) (tl cs)
      else Phrase acc # fts_lex Outside cs)"

lemma fts_lex_phrase:
  "34 \<notin> set t \<Longrightarrow> rest = [] \<or> hd rest \<noteq> 34 \<Longrightarrow>
   fts_lex (InPhrase acc) (t @ 34 # rest) = Phrase (acc @ t) # fts_lex Outside rest"
  by (induction t arbitrary: acc) auto

definition sample_reader :: "fts_lexeme fts_reader" where
  "sample_reader = \<lparr>fr_lex = fts_lex Outside, fr_string = Phrase, fr_or = Bareword (u ''OR''), fr_prefix = Star\<rparr>"

lemma sample_reader_documented: "documented_fts sample_reader"
proof -
  have "fts_lex Outside ([34] @ t @ [34] @ rest) = Phrase t # fts_lex Outside rest"
    if "34 \<notin> set t" "rest = [] \<or> hd rest \<noteq> 34" for t rest
    using fts_lex_phrase [OF that, of "[]"] by simp
  moreover have "fts_lex Outside (u ''OR'' @ rest) = Bareword (u ''OR'') # fts_lex Outside rest" if "rest = [] \<or> hd rest = 32" for rest
    using that by (cases rest) (simp_all add: u_def)
  ultimately show ?thesis by (simp add: documented_fts_def sample_reader_def)
qed

text \<open>ASCII letters and digits, and the name of an environment with them.\<close>

definition ascii_alnum :: "nat \<Rightarrow> bool" where
  "ascii_alnum c \<longleftrightarrow> 48 \<le> c \<and> c \<le> 57 \<or> 65 \<le> c \<and> c \<le> 90 \<or> 97 \<le> c \<and> c \<le> 122"

definition ascii_env :: search_env where
  "ascii_env = \<lparr>ce_digest = (\<lambda>_. []), ce_casefold = (\<lambda>s. s), ce_libcst_version = [], ce_distributions = [], se_alnum = ascii_alnum\<rparr>"

theorem fts_expression_safe_witness:
  "fts_lex Outside (fts_match_expression ascii_env (u ''a\" OR b'') MatchAny)
     = [Phrase (u ''a''), Bareword (u ''OR''), Phrase (u ''OR''), Bareword (u ''OR''), Phrase (u ''b''), Star]"
proof -
  have "\<not> se_alnum ascii_env 34" by (simp add: ascii_env_def ascii_alnum_def)
  from fts_expression_safe [OF sample_reader_documented this, of "u ''a\" OR b''" MatchAny] show ?thesis
    by (simp add: sample_reader_def fts_separator_def u_def is_token_character_def ascii_env_def ascii_alnum_def join_with_def)
qed

definition empty_generation :: "captured_file list \<Rightarrow> catalog_generation" where
  "empty_generation rows = catalog_generation_from_facts demo_env 1 (u ''w'') rows [] demo_facts"

theorem linear_search_pages_witness:
  "\<exists>hit. linear_search ascii_env (empty_generation [demo_row (u ''a'')]) (u ''a'') [] [] 5 0 MatchAll = ([hit], False)"
proof -
  let ?g = "empty_generation [demo_row (u ''a'')]"
  have docs: "search_documents ?g = [file_document (demo_row (u ''a''))]"
    by (simp add: search_documents_def empty_generation_def catalog_generation_from_facts_def demo_facts_def)
  have needles: "needles_of ascii_env (u ''a'') = [u ''a'']"
    by (simp add: needles_of_def ascii_env_def is_token_character_def ascii_alnum_def u_def)
  have "document_matches ascii_env [u ''a''] MatchAll (file_document (demo_row (u ''a'')))"
    by (simp add: document_matches_def mentions_def file_document_def demo_row_def ascii_env_def)
  moreover have "u ''a'' \<noteq> []" by (simp add: u_def)
  moreover obtain hits where hits: "linear_search ascii_env ?g (u ''a'') [] [] 5 0 MatchAll = (take (nat 5) (drop (nat 0) hits), nat 0 + nat 5 < length hits)"
    "mset hits = image_mset (hit_of ascii_env (needles_of ascii_env (u ''a'')) MatchAll)
        {#doc \<in># mset (search_documents ?g). selected_document [] [] doc \<and> document_matches ascii_env (needles_of ascii_env (u ''a'')) MatchAll doc#}"
    using linear_search_pages [of "u ''a''" 5 0 ascii_env ?g "[]" "[]" MatchAll] \<open>u ''a'' \<noteq> []\<close> by auto
  ultimately have "mset hits = {#hit_of ascii_env [u ''a''] MatchAll (file_document (demo_row (u ''a'')))#}"
    by (simp add: docs needles selected_document_def)
  then show ?thesis using hits(1) by auto
qed

end
