(* ===== verification/Evidence.thy ===== *)
theory Evidence
  imports Generations
begin

text \<open>
  Evidence records (\<open>contracts/evidence.py\<close>, \<open>contracts/validation.py\<close>) and their construction from a
  snapshot (\<open>tables/evidence.py\<close>). SHA-256 and the canonical JSON encoder are arguments;
  confidences are thousandths. The lemmas show that evidence is tied to the captured bytes it
  names, and that derived evidence never gains confidence.
\<close>

subsection \<open>Records\<close>

datatype evidence_kind = StructuralEvidence | SemanticEvidence | MetadataEvidence | HeuristicEvidence

datatype resolution_status = ResolvedStatus | PartialStatus | UnresolvedStatus | UnavailableStatus | CandidateStatus

datatype authority = SourceAuthority | ManifestAuthority | GovernanceAuthority | GeneratedAuthority | InferredAuthority
  | UnresolvedAuthority

fun status_value :: "resolution_status \<Rightarrow> ustr" where
  "status_value ResolvedStatus = u ''resolved''"
| "status_value PartialStatus = u ''partial''"
| "status_value UnresolvedStatus = u ''unresolved''"
| "status_value UnavailableStatus = u ''unavailable''"
| "status_value CandidateStatus = u ''candidate''"

record position_range =
  ps_start_line :: int
  ps_start_column :: int
  ps_end_line :: int
  ps_end_column :: int
  ps_byte_start :: "int option"
  ps_byte_end :: "int option"

record evidence =
  ev_id :: ustr
  ev_kind :: evidence_kind
  ev_status :: resolution_status
  ev_provider :: ustr
  ev_provider_version :: ustr
  ev_authority :: authority
  ev_snapshot :: ustr
  ev_path :: ustr
  ev_range :: position_range
  ev_source_hash :: ustr
  ev_fingerprint :: ustr
  ev_confidence :: nat
  ev_note :: ustr

text \<open>A row of a table.\<close>

record table_row =
  tr_table :: ustr
  tr_data :: "(ustr, json) dict"
  tr_evidence :: evidence

subsection \<open>Validation\<close>

definition is_lowercase_sha256 :: "ustr \<Rightarrow> bool" where
  "is_lowercase_sha256 value \<longleftrightarrow> length value = 64 \<and> list_all (\<lambda>c. c \<in> set (u ''0123456789abcdef'')) value"

definition starts_with_absolute_path :: "ustr \<Rightarrow> bool" where
  "starts_with_absolute_path value \<longleftrightarrow>
     startswith value [47] \<or> startswith value [92, 92]
     \<or> (length value \<ge> 3 \<and> is_ascii_alpha (value ! 0) \<and> value ! 1 = 58 \<and> (value ! 2 = 47 \<or> value ! 2 = 92))"

definition MAX_NOTE_LENGTH :: nat where "MAX_NOTE_LENGTH = 280"

definition range_valid :: "position_range \<Rightarrow> bool" where
  "range_valid r \<longleftrightarrow> ps_start_line r \<ge> 1 \<and> ps_start_column r \<ge> 1 \<and> ps_end_line r \<ge> 1 \<and> ps_end_column r \<ge> 1
     \<and> (case ps_byte_start r of None \<Rightarrow> True | Some b \<Rightarrow> b \<ge> 0) \<and> (case ps_byte_end r of None \<Rightarrow> True | Some b \<Rightarrow> b \<ge> 0)"

definition evidence_path_ok :: "ustr \<Rightarrow> bool" where
  "evidence_path_ok path \<longleftrightarrow> \<not> starts_with_absolute_path path \<and> u ''..'' \<notin> set (split_on 47 path)"

definition evidence_note_ok :: "ustr \<Rightarrow> bool" where
  "evidence_note_ok note_text \<longleftrightarrow> length note_text \<le> MAX_NOTE_LENGTH \<and> \<not> starts_with_absolute_path note_text"

definition evidence_valid :: "evidence \<Rightarrow> bool" where
  "evidence_valid e \<longleftrightarrow> ev_id e \<noteq> [] \<and> ev_provider e \<noteq> [] \<and> ev_provider_version e \<noteq> [] \<and> ev_snapshot e \<noteq> [] \<and> ev_path e \<noteq> []
     \<and> ev_fingerprint e \<noteq> [] \<and> ev_confidence e \<le> 1000 \<and> evidence_path_ok (ev_path e) \<and> is_lowercase_sha256 (ev_source_hash e)
     \<and> evidence_note_ok (ev_note e)"

subsection \<open>Construction\<close>

record evidence_bundle = snapshot_bundle +
  eb_snapshot :: ustr
  eb_fingerprint :: ustr
  eb_extent :: "ustr \<Rightarrow> int \<times> int"

record evidence_env =
  ee_digest :: "bytes \<Rightarrow> ustr"
  ee_dumps :: "json \<Rightarrow> bytes"

datatype evidence_error = AbsentPath ustr | InvalidRange | InvalidEvidence

text \<open>The arguments of one kind of row: its kind, status, authority, provider, confidence and note.\<close>

record evidence_request =
  eq_kind :: evidence_kind
  eq_status :: resolution_status
  eq_authority :: authority
  eq_provider :: ustr
  eq_provider_version :: ustr
  eq_confidence :: nat
  eq_note :: ustr

definition jint_opt :: "int option \<Rightarrow> json" where
  "jint_opt n = (case n of None \<Rightarrow> JNull | Some i \<Rightarrow> JInt i)"

definition range_json :: "position_range \<Rightarrow> json" where
  "range_json r = JObj (map (\<lambda>(k, v). (u k, v))
     [(''start_line'', JInt (ps_start_line r)), (''start_column'', JInt (ps_start_column r)), (''end_line'', JInt (ps_end_line r)),
      (''end_column'', JInt (ps_end_column r)), (''byte_start'', jint_opt (ps_byte_start r)), (''byte_end'', jint_opt (ps_byte_end r))])"

definition provided_or :: "int option \<Rightarrow> int \<Rightarrow> int" where
  "provided_or value fallback = (case value of None \<Rightarrow> fallback | Some i \<Rightarrow> i)"

definition files_by_path :: "captured_file list \<Rightarrow> ustr \<Rightarrow> captured_file option" where
  "files_by_path files = map_of (rev (map (\<lambda>f. (cf_path f, f)) files))"

definition source_hash_of :: "evidence_env \<Rightarrow> evidence_bundle \<Rightarrow> captured_file \<Rightarrow> ustr" where
  "source_hash_of env bundle captured =
     (case map_of (sb_contents bundle) (cf_path captured) of None \<Rightarrow> cf_hash captured | Some content \<Rightarrow> ee_digest env content)"

definition evidence_for_path ::
  "evidence_env \<Rightarrow> evidence_bundle \<Rightarrow> ustr \<Rightarrow> ustr \<Rightarrow> (ustr, json) dict \<Rightarrow> evidence_request \<Rightarrow> int \<Rightarrow> int \<Rightarrow> int option \<Rightarrow> int option \<Rightarrow>
   int option \<Rightarrow> int option \<Rightarrow> (evidence_error, evidence) result" where
  "evidence_for_path env bundle path table data request start_line start_column end_line end_column byte_start byte_end =
     (case files_by_path (sb_files bundle) path of
        None \<Rightarrow> Inl (AbsentPath path)
      | Some captured \<Rightarrow>
          let source_hash = source_hash_of env bundle captured;
              position = \<lparr>ps_start_line = start_line, ps_start_column = start_column,
                ps_end_line = provided_or end_line (max (fst (eb_extent bundle path) + 1) start_line),
                ps_end_column = provided_or end_column (max (snd (eb_extent bundle path) + 1) 1),
                ps_byte_start = byte_start, ps_byte_end = byte_end\<rparr>;
              identity = JObj (map (\<lambda>(k, v). (u k, v))
                [(''table'', JStr table), (''data'', JObj data), (''path'', JStr path), (''range'', range_json position),
                 (''source_hash'', JStr source_hash), (''source_fingerprint'', JStr (eb_fingerprint bundle)),
                 (''provider'', JStr (eq_provider request)), (''provider_version'', JStr (eq_provider_version request))]);
              e = \<lparr>ev_id = ee_digest env (ee_dumps env identity), ev_kind = eq_kind request, ev_status = eq_status request,
                ev_provider = eq_provider request, ev_provider_version = eq_provider_version request, ev_authority = eq_authority request,
                ev_snapshot = eb_snapshot bundle, ev_path = path, ev_range = position, ev_source_hash = source_hash,
                ev_fingerprint = eb_fingerprint bundle, ev_confidence = eq_confidence request, ev_note = eq_note request\<rparr>
          in if \<not> range_valid position then Inl InvalidRange
             else if \<not> evidence_valid e then Inl InvalidEvidence else Inr e)"

definition derived_evidence ::
  "evidence_env \<Rightarrow> evidence \<Rightarrow> ustr \<Rightarrow> (ustr, json) dict \<Rightarrow> resolution_status \<Rightarrow> nat option \<Rightarrow> ustr \<Rightarrow> (evidence_error, evidence) result" where
  "derived_evidence env source table data status confidence note_text =
     (let identity = JObj (map (\<lambda>(k, v). (u k, v))
            [(''source_evidence_id'', JStr (ev_id source)), (''table'', JStr table), (''data'', JObj data),
             (''resolution_status'', JStr (status_value status))]);
          e = \<lparr>ev_id = ee_digest env (ee_dumps env identity), ev_kind = HeuristicEvidence, ev_status = status,
            ev_provider = u ''soleaux-relations'', ev_provider_version = u ''1'', ev_authority = InferredAuthority,
            ev_snapshot = ev_snapshot source, ev_path = ev_path source, ev_range = ev_range source,
            ev_source_hash = ev_source_hash source, ev_fingerprint = ev_fingerprint source,
            ev_confidence = (case confidence of None \<Rightarrow> ev_confidence source | Some c \<Rightarrow> min c (ev_confidence source)), ev_note = note_text\<rparr>
      in if \<not> evidence_valid e then Inl InvalidEvidence else Inr e)"

subsection \<open>What evidence says\<close>

lemma files_by_path_mem: "files_by_path files path = Some f \<Longrightarrow> f \<in> set files \<and> cf_path f = path"
  by (auto simp: files_by_path_def dest!: map_of_SomeD)

text \<open>Evidence is tied to the captured bytes: it names a captured file by a relative path, carries the digest
  of its bytes when the snapshot holds them and the captured digest otherwise, and a valid range.\<close>

theorem evidence_for_path_bound:
  assumes "evidence_for_path env bundle path table data request start_line start_column end_line end_column byte_start byte_end = Inr e"
  shows "\<exists>captured \<in> set (sb_files bundle). cf_path captured = path \<and> ev_path e = path
    \<and> ev_source_hash e = (case map_of (sb_contents bundle) path of None \<Rightarrow> cf_hash captured | Some content \<Rightarrow> ee_digest env content)
    \<and> \<not> starts_with_absolute_path path \<and> u ''..'' \<notin> set (split_on 47 path) \<and> length (ev_source_hash e) = 64
    \<and> 1 \<le> ps_start_line (ev_range e) \<and> 1 \<le> ps_end_line (ev_range e) \<and> ev_confidence e = eq_confidence request \<and> ev_confidence e \<le> 1000"
proof (cases "files_by_path (sb_files bundle) path")
  case None
  then show ?thesis using assms by (simp add: evidence_for_path_def)
next
  case (Some captured)
  then have e: "range_valid (ev_range e)" "evidence_valid e" "ev_path e = path" "ev_source_hash e = source_hash_of env bundle captured"
    "ev_confidence e = eq_confidence request"
    using assms by (auto simp: evidence_for_path_def Let_def split: if_split_asm)
  then show ?thesis
    using files_by_path_mem [OF Some]
    by (auto simp: source_hash_of_def evidence_valid_def evidence_path_ok_def is_lowercase_sha256_def range_valid_def)
qed

text \<open>Derived evidence keeps the path, range, snapshot and digest of its source, and never has more confidence.\<close>

theorem derived_evidence_bounded:
  assumes "derived_evidence env source table data status confidence note_text = Inr e"
  shows "ev_confidence e \<le> ev_confidence source \<and> ev_path e = ev_path source \<and> ev_range e = ev_range source
    \<and> ev_snapshot e = ev_snapshot source \<and> ev_source_hash e = ev_source_hash source \<and> ev_authority e = InferredAuthority"
  using assms by (auto simp: derived_evidence_def Let_def split: if_split_asm option.split)

end
