(* ===== verification/Hydration.thy ===== *)
theory Hydration
  imports Searching Evidence
begin

text \<open>
  Hydration of ranked hits (\<open>analysis/hydration.py\<close>): a hit is a pointer into a catalog generation,
  resolved by the text of its key, with a summary, relations, a line and column, and a bounded
  excerpt. The packaged rules are an argument. The lemmas show which documents of the index
  resolve, and when the line and column are those of the file.
\<close>

subsection \<open>Records\<close>

record hydrated_record =
  hr_summary :: "(ustr, json) dict"
  hr_relations :: "(ustr, json) dict option"
  hr_evidence_kind :: evidence_kind
  hr_evidence_path :: ustr
  hr_byte_start :: "nat option"
  hr_byte_end :: "nat option"

record packaged_rule =
  pr_id :: ustr
  pr_language :: ustr
  pr_severity :: ustr
  pr_message :: ustr

record search_hydrator =
  hy_generation :: catalog_generation
  hy_query :: ustr
  hy_packaged :: "(ustr, packaged_rule) dict"
  hy_files :: "ustr set"
  hy_dependencies :: "(ustr, dependency_fact) dict"
  hy_scripts :: "(ustr, script_fact) dict"
  hy_configs :: "(ustr, config_fact) dict"
  hy_routes :: "(ustr, route_fact) dict"
  hy_imports :: "(ustr, import_fact) dict"
  hy_diagnostics :: "(ustr, diagnostic_fact) dict"
  hy_changes :: "(ustr, change_fact) dict"

definition make_hydrator :: "'a catalog_env_scheme \<Rightarrow> (ustr, packaged_rule) dict \<Rightarrow> catalog_generation \<Rightarrow> ustr \<Rightarrow> search_hydrator" where
  "make_hydrator env packaged generation query =
     (let facts = cg_facts generation in
      \<lparr>hy_generation = generation, hy_query = ce_casefold env query, hy_packaged = packaged,
       hy_files = set (map cf_path (cg_files generation)),
       hy_dependencies = index_rows (\<lambda>d. coloned [dp_project d, dp_package d]) (fa_dependencies facts),
       hy_scripts = index_rows (\<lambda>s. coloned [sr_project s, sr_name s]) (fa_scripts facts),
       hy_configs = index_rows (\<lambda>c. coloned [co_project c, co_path c]) (fa_configs facts),
       hy_routes = index_rows ro_id (fa_routes facts),
       hy_imports = index_rows im_id (fa_imports facts),
       hy_diagnostics = index_rows di_id (fa_diagnostics facts),
       hy_changes = index_rows ca_id (fa_changes facts)\<rparr>)"

definition MAX_EXCERPT_CHARS :: nat where "MAX_EXCERPT_CHARS = 2048"
definition MAX_RELATION_LOCATIONS :: nat where "MAX_RELATION_LOCATIONS = 10"
definition MAX_RELATION_DIAGNOSTICS :: nat where "MAX_RELATION_DIAGNOSTICS = 5"

subsection \<open>Positions and excerpts\<close>

definition chunk_at :: "search_hydrator \<Rightarrow> ustr \<Rightarrow> nat \<Rightarrow> chunk_fact option" where
  "chunk_at h path byte_offset =
     find (\<lambda>c. ch_byte_start c \<le> byte_offset \<and> byte_offset < max (ch_byte_end c) (ch_byte_start c + 1))
       (case map_of (cg_chunks_by_path (hy_generation h)) path of None \<Rightarrow> [] | Some rows \<Rightarrow> rows)"

text \<open>The text a position is counted in, \<open>chunk.text[: byte_offset - chunk.byte_start]\<close>, and what follows
  its last newline.\<close>

definition chunk_prefix :: "chunk_fact \<Rightarrow> nat \<Rightarrow> ustr" where
  "chunk_prefix c byte_offset = take (byte_offset - ch_byte_start c) (ch_text c)"

definition last_line :: "ustr \<Rightarrow> ustr" where
  "last_line s = rev (takeWhile (\<lambda>c. c \<noteq> 10) (rev s))"

definition position_in :: "chunk_fact \<Rightarrow> nat \<Rightarrow> nat \<times> nat" where
  "position_in c byte_offset =
     (ch_start_line c + count_list (chunk_prefix c byte_offset) 10, length (last_line (chunk_prefix c byte_offset)) + 1)"

definition hydrated_position :: "search_hydrator \<Rightarrow> ustr \<Rightarrow> nat \<Rightarrow> (nat \<times> nat) option" where
  "hydrated_position h path byte_offset = map_option (\<lambda>c. position_in c byte_offset) (chunk_at h path byte_offset)"

fun query_line_from :: "'a catalog_env_scheme \<Rightarrow> ustr \<Rightarrow> nat \<Rightarrow> ustr list \<Rightarrow> nat" where
  "query_line_from env query i [] = 0"
| "query_line_from env query i (line # rest) =
     (if sublist query (ce_casefold env line) then i else query_line_from env query (Suc i) rest)"

definition query_line :: "'a catalog_env_scheme \<Rightarrow> search_hydrator \<Rightarrow> chunk_fact \<Rightarrow> nat" where
  "query_line env h c = query_line_from env (hy_query h) 0 (split_lines [] (ch_text c))"

definition sliced :: "chunk_fact \<Rightarrow> nat \<Rightarrow> int \<Rightarrow> ustr" where
  "sliced c line_index context_lines =
     (let lines = split_lines [] (ch_text c);
          start = max 0 (int line_index - context_lines);
          stop = min (int (length lines)) (int line_index + context_lines + 1)
      in take MAX_EXCERPT_CHARS (join_with [10] (py_slice lines start stop)))"

text \<open>\<open>hit.fact_key.partition('':'')[2]\<close>\<close>

definition key_remainder :: "ustr \<Rightarrow> ustr" where
  "key_remainder key = snd (partition_at 58 key)"

definition excerpt :: "'a catalog_env_scheme \<Rightarrow> search_hydrator \<Rightarrow> ranked_hit \<Rightarrow> hydrated_record \<Rightarrow> int \<Rightarrow> ustr option" where
  "excerpt env h hit r context_lines =
     (if rh_kind hit = u ''chunk'' then
        (case map_of (cg_chunks_by_id (hy_generation h)) (key_remainder (rh_key hit)) of
           None \<Rightarrow> None
         | Some c \<Rightarrow> Some (sliced c (query_line env h c) context_lines))
      else (case hr_byte_start r of
          None \<Rightarrow> None
        | Some start \<Rightarrow> (case chunk_at h (hr_evidence_path r) start of
              None \<Rightarrow> None
            | Some c \<Rightarrow> Some (sliced c (count_list (chunk_prefix c start) 10) context_lines))))"

subsection \<open>Records by kind\<close>

definition summary :: "(string \<times> json) list \<Rightarrow> (ustr, json) dict" where
  "summary entries = map (\<lambda>(k, v). (u k, v)) entries"

definition metadata_record :: "(string \<times> json) list \<Rightarrow> ustr \<Rightarrow> hydrated_record" where
  "metadata_record entries path =
     \<lparr>hr_summary = summary entries, hr_relations = None, hr_evidence_kind = MetadataEvidence, hr_evidence_path = path,
      hr_byte_start = None, hr_byte_end = None\<rparr>"

definition chunk_record :: "search_hydrator \<Rightarrow> ustr \<Rightarrow> hydrated_record option" where
  "chunk_record h chunk_id = map_option (\<lambda>c.
     \<lparr>hr_summary = summary [(''chunk_kind'', JStr (ch_kind c)), (''start_line'', jnat (ch_start_line c)), (''end_line'', jnat (ch_end_line c))],
      hr_relations = None, hr_evidence_kind = StructuralEvidence, hr_evidence_path = ch_path c,
      hr_byte_start = Some (ch_byte_start c), hr_byte_end = Some (ch_byte_end c)\<rparr>)
     (map_of (cg_chunks_by_id (hy_generation h)) chunk_id)"

definition path_record :: "search_hydrator \<Rightarrow> ustr \<Rightarrow> hydrated_record option" where
  "path_record h path = (if path \<in> hy_files h then Some (metadata_record [] path) else None)"

definition project_record :: "search_hydrator \<Rightarrow> ustr \<Rightarrow> hydrated_record option" where
  "project_record h project_id = map_option (\<lambda>p. metadata_record
     [(''project_id'', JStr (pf_id p)), (''name'', jstr_opt (pf_name p)), (''project_kind'', JStr (project_kind_value (pf_kind p))),
      (''root_path'', JStr (pf_root p))] (pf_manifest p))
     (map_of (cg_projects_by_id (hy_generation h)) project_id)"

definition dependency_record :: "search_hydrator \<Rightarrow> ustr \<Rightarrow> hydrated_record option" where
  "dependency_record h remainder = map_option (\<lambda>d. metadata_record
     [(''project_id'', JStr (dp_project d)), (''package_name'', JStr (dp_package d)), (''declared_specifier'', JStr (dp_declared d)),
      (''resolved_specifier'', jstr_opt (dp_resolved d)), (''scope'', JStr (scope_value (dp_scope d))),
      (''usage'', JStr (usage_value (dp_usage d)))] (cr_source_path d))
     (map_of (hy_dependencies h) remainder)"

definition script_record :: "search_hydrator \<Rightarrow> ustr \<Rightarrow> hydrated_record option" where
  "script_record h remainder = map_option (\<lambda>s. metadata_record
     [(''project_id'', JStr (sr_project s)), (''name'', JStr (sr_name s)), (''command'', JStr (sr_command s)),
      (''task_ids'', jstrs (sr_tasks s))] (cr_source_path s))
     (map_of (hy_scripts h) remainder)"

text \<open>\<open>rpartition('':'')\<close>: what precedes the last colon, and what follows it.\<close>

definition rpartition_colon :: "ustr \<Rightarrow> ustr \<times> ustr" where
  "rpartition_colon s =
     (if 58 \<in> set s then (rev (drop 1 (dropWhile (\<lambda>c. c \<noteq> 58) (rev s))), rev (takeWhile (\<lambda>c. c \<noteq> 58) (rev s))) else ([], s))"

definition task_record :: "search_hydrator \<Rightarrow> ustr \<Rightarrow> hydrated_record option" where
  "task_record h remainder =
     (case rpartition_colon remainder of (project_id, task_id) \<Rightarrow>
      map_option (\<lambda>t. metadata_record
        [(''project_id'', JStr (tk_project t)), (''task_id'', JStr (tk_id t)), (''runner'', JStr (tk_runner t)),
         (''depends_on'', jstrs (tk_depends_on t)), (''outputs'', jstrs (tk_outputs t)),
         (''cache'', case tk_cache t of None \<Rightarrow> JNull | Some b \<Rightarrow> JBool b), (''persistent'', JBool (tk_persistent t))] (cr_source_path t))
        (map_of (cg_tasks_by_key (hy_generation h)) (project_id, u ''turbo'', task_id)))"

definition config_record :: "search_hydrator \<Rightarrow> ustr \<Rightarrow> hydrated_record option" where
  "config_record h remainder = map_option (\<lambda>c. metadata_record
     [(''project_id'', JStr (co_project c)), (''config_kind'', JStr (co_kind c)), (''parser_id'', JStr (co_parser c))] (co_path c))
     (map_of (hy_configs h) remainder)"

definition route_record :: "search_hydrator \<Rightarrow> ustr \<Rightarrow> hydrated_record option" where
  "route_record h remainder = map_option (\<lambda>r. metadata_record
     [(''project_id'', jstr_opt (ro_project r)), (''route'', jstr_opt (ro_route r)), (''framework'', JStr (ro_framework r)),
      (''registration_kind'', JStr (ro_registration r)), (''methods'', jstrs (ro_methods r)), (''runtime'', jstr_opt (ro_runtime r))]
     (cr_source_path r))
     (map_of (hy_routes h) (snd (rpartition_colon remainder)))"

definition rule_record :: "search_hydrator \<Rightarrow> ustr \<Rightarrow> hydrated_record option" where
  "rule_record h remainder =
     (if startswith remainder (u ''packaged:'') then
        map_option (\<lambda>p. metadata_record
          [(''rule_id'', JStr (pr_id p)), (''language'', JStr (pr_language p)), (''severity'', JStr (pr_severity p)),
           (''message'', JStr (pr_message p)), (''packaged'', JBool True)] [])
          (map_of (hy_packaged h) (key_remainder remainder))
      else map_option (\<lambda>r. metadata_record
          [(''rule_id'', JStr (ru_id r)), (''language'', JStr (ru_language r)), (''severity'', JStr (ru_severity r)),
           (''message'', JStr (ru_message r)), (''packaged'', JBool False)] (cr_source_path r))
          (map_of (cg_rules_by_id (hy_generation h)) remainder))"

definition position_summary :: "search_hydrator \<Rightarrow> ustr \<Rightarrow> nat \<Rightarrow> (string \<times> json) list" where
  "position_summary h path start =
     (case hydrated_position h path start of
        None \<Rightarrow> []
      | Some (line, column) \<Rightarrow> [(''line'', jnat line), (''column'', jnat column)])"

definition location_json :: "'a semantic_location_scheme \<Rightarrow> json" where
  "location_json l = JObj (summary [(''path'', JStr (sl_path l)), (''byte_start'', jnat (sl_start l)), (''byte_end'', jnat (sl_end l))])"

definition symbol_relations :: "search_hydrator \<Rightarrow> symbol_fact \<Rightarrow> (ustr, json) dict" where
  "symbol_relations h s =
     (let diagnostics = (case map_of (cg_diagnostics_by_path (hy_generation h)) (sy_path s) of None \<Rightarrow> [] | Some rows \<Rightarrow> rows) in
      summary ((if sy_definitions s = [] then []
                else [(''definitions'', JArr (map location_json (take MAX_RELATION_LOCATIONS (sy_definitions s))))])
        @ (if sy_references s = [] then [] else [(''references_count'', jnat (length (sy_references s)))])
        @ (if sy_calls s = [] then [] else [(''calls_count'', jnat (length (sy_calls s)))])
        @ (if diagnostics = [] then []
           else [(''diagnostics'', jstrs (map di_message (take MAX_RELATION_DIAGNOSTICS diagnostics)))])))"

definition symbol_record :: "search_hydrator \<Rightarrow> ustr \<Rightarrow> hydrated_record option" where
  "symbol_record h remainder =
     (case map_of (cg_symbols_by_id (hy_generation h)) (snd (rpartition_colon remainder)) of
        None \<Rightarrow> None
      | Some [] \<Rightarrow> None
      | Some (s # _) \<Rightarrow>
          let relations = symbol_relations h s in
          Some \<lparr>hr_summary = summary ([(''project_id'', JStr (sy_project s)), (''name'', JStr (sy_name s)),
                  (''symbol_kind'', JStr (sy_kind s)), (''exported'', JBool (sy_exported s)), (''coverage'', JStr (sy_coverage s)),
                  (''engine_id'', JStr (sy_engine s))] @ position_summary h (sy_path s) (sy_start s)),
                hr_relations = (if relations = [] then None else Some relations),
                hr_evidence_kind = (if sy_coverage s = u ''semantic'' then SemanticEvidence else StructuralEvidence),
                hr_evidence_path = sy_path s, hr_byte_start = Some (sy_start s), hr_byte_end = Some (sy_end s)\<rparr>)"

definition import_record :: "search_hydrator \<Rightarrow> ustr \<Rightarrow> hydrated_record option" where
  "import_record h remainder = map_option (\<lambda>i.
     \<lparr>hr_summary = summary [(''project_id'', JStr (im_project i)), (''specifier'', JStr (im_specifier i)),
        (''resolved_path'', jstr_opt (im_resolved i)), (''usage'', JStr (usage_value (im_usage i)))],
      hr_relations = None, hr_evidence_kind = StructuralEvidence, hr_evidence_path = im_path i,
      hr_byte_start = None, hr_byte_end = None\<rparr>)
     (map_of (hy_imports h) (snd (rpartition_colon remainder)))"

definition diagnostic_record :: "search_hydrator \<Rightarrow> ustr \<Rightarrow> hydrated_record option" where
  "diagnostic_record h remainder = map_option (\<lambda>d.
     \<lparr>hr_summary = summary ([(''project_id'', JStr (di_project d)), (''category'', JStr (di_category d)), (''code'', jstr_opt (di_code d)),
        (''message'', JStr (di_message d)), (''engine_id'', JStr (di_engine d))] @ position_summary h (di_path d) (di_start d)),
      hr_relations = None, hr_evidence_kind = SemanticEvidence, hr_evidence_path = di_path d,
      hr_byte_start = Some (di_start d), hr_byte_end = Some (di_end d)\<rparr>)
     (map_of (hy_diagnostics h) (snd (rpartition_colon remainder)))"

definition policy_record :: "search_hydrator \<Rightarrow> ustr \<Rightarrow> hydrated_record option" where
  "policy_record h policy_id = map_option (\<lambda>p. metadata_record
     [(''policy_id'', JStr (po_id p)), (''title'', JStr (po_title p)), (''governance_source_id'', JStr (po_source_id p)),
      (''source_line'', jnat (po_line p)), (''attributes'', JObj (map (\<lambda>(k, v). (k, JStr v)) (po_attributes p)))] (cr_source_path p))
     (map_of (cg_policies_by_id (hy_generation h)) policy_id)"

definition change_record :: "search_hydrator \<Rightarrow> ustr \<Rightarrow> hydrated_record option" where
  "change_record h change_id = map_option (\<lambda>c. metadata_record
     [(''operation'', JStr (operation_value (ca_operation c))), (''change_generation'', jnat (ca_generation c))] (ca_path c))
     (map_of (hy_changes h) change_id)"

text \<open>\<open>getattr(self, f"_{kind}_record", None)\<close>\<close>

definition record_resolvers :: "(ustr, search_hydrator \<Rightarrow> ustr \<Rightarrow> hydrated_record option) dict" where
  "record_resolvers = map (\<lambda>(kind, f). (u kind, f))
     [(''chunk'', chunk_record), (''path'', path_record), (''project'', project_record), (''dependency'', dependency_record),
      (''script'', script_record), (''task'', task_record), (''config'', config_record), (''route'', route_record),
      (''rule'', rule_record), (''symbol'', symbol_record), (''import'', import_record), (''diagnostic'', diagnostic_record),
      (''policy'', policy_record), (''change'', change_record)]"

definition hydrate :: "search_hydrator \<Rightarrow> ranked_hit \<Rightarrow> hydrated_record option" where
  "hydrate h hit =
     (case partition_at 58 (rh_key hit) of (kind, remainder) \<Rightarrow>
      case map_of record_resolvers kind of None \<Rightarrow> None | Some resolver \<Rightarrow> resolver h remainder)"

text \<open>\<open>materialized_summary\<close>\<close>

definition materialized_summary :: "stored_row \<Rightarrow> ustr \<Rightarrow> (ustr, json) dict" where
  "materialized_summary row kind =
     (if kind = u ''rule'' \<and> map_of (st_data row) (u ''packaged'') = None
      then st_data row @ [(u ''packaged'', JBool False)] else st_data row)"

subsection \<open>Every document resolves\<close>

lemma partition_kind: "58 \<notin> set kind \<Longrightarrow> partition_at 58 (kind @ 58 # rest) = (kind, rest)"
  by (induction kind) (auto simp: partition_at_def)

lemma partition_key:
  "58 \<notin> set kind \<Longrightarrow> partition_at 58 (kind @ [58] @ rest) = (kind, rest)"
  "58 \<notin> set kind \<Longrightarrow> partition_at 58 (coloned [kind, a, b]) = (kind, coloned [a, b])"
  using partition_kind [of kind] by (simp_all add: join_with_Cons)


lemma find_mem: "find P xs = Some x \<Longrightarrow> x \<in> set xs \<and> P x"
  by (induction xs) (auto split: if_split_asm)



lemma resolvers:
  "map_of record_resolvers (u ''chunk'') = Some chunk_record" "map_of record_resolvers (u ''path'') = Some path_record"
  "map_of record_resolvers (u ''project'') = Some project_record" "map_of record_resolvers (u ''dependency'') = Some dependency_record"
  "map_of record_resolvers (u ''script'') = Some script_record" "map_of record_resolvers (u ''task'') = Some task_record"
  "map_of record_resolvers (u ''config'') = Some config_record" "map_of record_resolvers (u ''route'') = Some route_record"
  "map_of record_resolvers (u ''rule'') = Some rule_record" "map_of record_resolvers (u ''symbol'') = Some symbol_record"
  "map_of record_resolvers (u ''import'') = Some import_record" "map_of record_resolvers (u ''diagnostic'') = Some diagnostic_record"
  "map_of record_resolvers (u ''policy'') = Some policy_record" "map_of record_resolvers (u ''change'') = Some change_record"
  by (simp_all add: record_resolvers_def u_def)

lemma kind_colons:
  "58 \<notin> set (u ''chunk'')" "58 \<notin> set (u ''path'')" "58 \<notin> set (u ''project'')" "58 \<notin> set (u ''dependency'')"
  "58 \<notin> set (u ''script'')" "58 \<notin> set (u ''task'')" "58 \<notin> set (u ''config'')" "58 \<notin> set (u ''route'')"
  "58 \<notin> set (u ''rule'')" "58 \<notin> set (u ''symbol'')" "58 \<notin> set (u ''import'')" "58 \<notin> set (u ''diagnostic'')"
  "58 \<notin> set (u ''policy'')" "58 \<notin> set (u ''change'')"
  by (simp_all add: u_def)

lemma key_colon:
  "u ''path:'' @ x = u ''path'' @ [58] @ x" "u ''project:'' @ x = u ''project'' @ [58] @ x" "u ''rule:'' @ x = u ''rule'' @ [58] @ x"
  "u ''policy:'' @ x = u ''policy'' @ [58] @ x" "u ''change:'' @ x = u ''change'' @ [58] @ x" "u ''chunk:'' @ x = u ''chunk'' @ [58] @ x"
  by (simp_all add: u_def)


lemma hydrate_pair:
  assumes "rh_key hit = coloned [kind, a, b]" and "58 \<notin> set kind" and "map_of record_resolvers kind = Some resolver"
  shows "hydrate h hit = resolver h (coloned [a, b])"
  by (simp only: hydrate_def assms(1) partition_key(2) [OF assms(2)] prod.case assms(3) option.case)

text \<open>
  Identifiers as the extractors make them: digests hold no colon and name one project, rules of
  the repository are not named like packaged ones, and tasks are the task runner's, named without a
  colon.
\<close>



text \<open>A generation with its own indexes, and a hydrator of it.\<close>

definition indexed :: "catalog_generation \<Rightarrow> search_hydrator \<Rightarrow> bool" where
  "indexed g h \<longleftrightarrow> (\<exists>env number workspace rows inventory packaged query.
     g = catalog_generation_from_facts env number workspace rows inventory (cg_facts g) \<and> h = make_hydrator env packaged g query)"

lemma indexed_fields:
  assumes "indexed g h"
  shows "hy_generation h = g" "hy_files h = cf_path ` set (cg_files g)"
    "hy_dependencies h = index_rows (\<lambda>d. coloned [dp_project d, dp_package d]) (fa_dependencies (cg_facts g))"
    "hy_scripts h = index_rows (\<lambda>s. coloned [sr_project s, sr_name s]) (fa_scripts (cg_facts g))"
    "hy_configs h = index_rows (\<lambda>c. coloned [co_project c, co_path c]) (fa_configs (cg_facts g))"
    "hy_routes h = index_rows ro_id (fa_routes (cg_facts g))" "hy_imports h = index_rows im_id (fa_imports (cg_facts g))"
    "hy_diagnostics h = index_rows di_id (fa_diagnostics (cg_facts g))" "hy_changes h = index_rows ca_id (fa_changes (cg_facts g))"
    "cg_projects_by_id g = index_rows pf_id (fa_projects (cg_facts g))"
    "cg_tasks_by_key g = index_rows (\<lambda>t. (tk_project t, tk_runner t, tk_id t)) (fa_tasks (cg_facts g))"
    "cg_rules_by_id g = index_rows ru_id (fa_rules (cg_facts g))" "cg_policies_by_id g = index_rows po_id (fa_policies (cg_facts g))"
    "cg_symbols_by_id g = group_rows sy_id (fa_symbols (cg_facts g))" "cg_chunks_by_id g = index_rows ch_id (fa_chunks (cg_facts g))"
    "cg_chunks_by_path g = group_rows ch_path (fa_chunks (cg_facts g))"
proof -
  obtain env number workspace rows inventory packaged query where
    g: "g = catalog_generation_from_facts env number workspace rows inventory (cg_facts g)" and h: "h = make_hydrator env packaged g query"
    using assms unfolding indexed_def by blast
  show "hy_generation h = g" "hy_files h = cf_path ` set (cg_files g)"
    "hy_dependencies h = index_rows (\<lambda>d. coloned [dp_project d, dp_package d]) (fa_dependencies (cg_facts g))"
    "hy_scripts h = index_rows (\<lambda>s. coloned [sr_project s, sr_name s]) (fa_scripts (cg_facts g))"
    "hy_configs h = index_rows (\<lambda>c. coloned [co_project c, co_path c]) (fa_configs (cg_facts g))"
    "hy_routes h = index_rows ro_id (fa_routes (cg_facts g))" "hy_imports h = index_rows im_id (fa_imports (cg_facts g))"
    "hy_diagnostics h = index_rows di_id (fa_diagnostics (cg_facts g))" "hy_changes h = index_rows ca_id (fa_changes (cg_facts g))"
    by (simp_all add: h make_hydrator_def Let_def)
  show "cg_projects_by_id g = index_rows pf_id (fa_projects (cg_facts g))"
    "cg_tasks_by_key g = index_rows (\<lambda>t. (tk_project t, tk_runner t, tk_id t)) (fa_tasks (cg_facts g))"
    "cg_rules_by_id g = index_rows ru_id (fa_rules (cg_facts g))" "cg_policies_by_id g = index_rows po_id (fa_policies (cg_facts g))"
    "cg_symbols_by_id g = group_rows sy_id (fa_symbols (cg_facts g))" "cg_chunks_by_id g = index_rows ch_id (fa_chunks (cg_facts g))"
    "cg_chunks_by_path g = group_rows ch_path (fa_chunks (cg_facts g))"
    by (subst g; simp only: catalog_generation_from_facts_def catalog_generation.simps)+
qed

lemma mem_documents:
  "f \<in> set (cg_files g) \<Longrightarrow> file_document f \<in> set (search_documents g)"
  "p \<in> set (fa_projects (cg_facts g)) \<Longrightarrow> project_document p \<in> set (search_documents g)"
  "d \<in> set (fa_dependencies (cg_facts g)) \<Longrightarrow> dependency_document d \<in> set (search_documents g)"
  "s \<in> set (fa_scripts (cg_facts g)) \<Longrightarrow> script_document s \<in> set (search_documents g)"
  "t \<in> set (fa_tasks (cg_facts g)) \<Longrightarrow> task_document t \<in> set (search_documents g)"
  "c \<in> set (fa_configs (cg_facts g)) \<Longrightarrow> config_document c \<in> set (search_documents g)"
  "r \<in> set (fa_routes (cg_facts g)) \<Longrightarrow> route_document r \<in> set (search_documents g)"
  "ru \<in> set (fa_rules (cg_facts g)) \<Longrightarrow> rule_document ru \<in> set (search_documents g)"
  "po \<in> set (fa_policies (cg_facts g)) \<Longrightarrow> policy_document po \<in> set (search_documents g)"
  "sy \<in> set (fa_symbols (cg_facts g)) \<Longrightarrow> symbol_document sy \<in> set (search_documents g)"
  "im \<in> set (fa_imports (cg_facts g)) \<Longrightarrow> import_document im \<in> set (search_documents g)"
  "di \<in> set (fa_diagnostics (cg_facts g)) \<Longrightarrow> diagnostic_document di \<in> set (search_documents g)"
  "ca \<in> set (fa_changes (cg_facts g)) \<Longrightarrow> change_document ca \<in> set (search_documents g)"
  "ch \<in> set (fa_chunks (cg_facts g)) \<Longrightarrow> chunk_document ch \<in> set (search_documents g)"
  by (simp_all add: search_documents_def Let_def)

















subsection \<open>Excerpts\<close>

lemma chunk_at_mem: "indexed g h \<Longrightarrow> chunk_at h path offset = Some c \<Longrightarrow> c \<in> set (fa_chunks (cg_facts g)) \<and> ch_path c = path"
  by (auto simp: chunk_at_def indexed_fields group_rows_lookup dest!: find_mem split: if_split_asm)

lemma sliced_window:
  assumes "0 \<le> context_lines"
  shows "\<exists>i n. n \<le> 2 * nat context_lines + 1 \<and> sliced c line context_lines = take MAX_EXCERPT_CHARS (join_with [10] (take n (drop i (split_lines [] (ch_text c)))))"
proof -
  let ?lines = "split_lines [] (ch_text c)"
  define i where "i = line - nat context_lines"
  define j where "j = min (length ?lines) (line + nat context_lines + 1)"
  have bounds: "max 0 (int line - context_lines) = int i" "min (int (length ?lines)) (int line + context_lines + 1) = int j"
    using assms by (auto simp: i_def j_def)
  have "py_slice ?lines (int i) (int j) = take (j - i) (drop i ?lines)"
    by (subst py_slice_nat) (simp_all add: j_def slice_def drop_take)
  moreover have "j - i \<le> 2 * nat context_lines + 1" by (simp add: i_def j_def)
  ultimately show ?thesis unfolding sliced_def Let_def bounds by metis
qed

text \<open>An excerpt holds at most \<open>MAX_EXCERPT_CHARS\<close> characters, and is the start of at most
  \<open>2 * context_lines + 1\<close> consecutive lines of one chunk of the generation; for a record with a position, of the chunk
  of its path that holds the position.
\<close>

theorem excerpt_bounded:
  assumes "indexed g h" and "0 \<le> context_lines" and "excerpt env h hit r context_lines = Some e"
  shows "length e \<le> 2048 \<and> (\<exists>c \<in> set (fa_chunks (cg_facts g)). \<exists>i n. n \<le> 2 * nat context_lines + 1
      \<and> e = take 2048 (join_with [10] (take n (drop i (split_lines [] (ch_text c)))))
      \<and> (rh_kind hit \<noteq> u ''chunk'' \<longrightarrow> ch_path c = hr_evidence_path r \<and> (\<exists>start. hr_byte_start r = Some start \<and> ch_byte_start c \<le> start)))"
proof -
  obtain c line where c: "c \<in> set (fa_chunks (cg_facts g))" "e = sliced c line context_lines"
    "rh_kind hit \<noteq> u ''chunk'' \<longrightarrow> ch_path c = hr_evidence_path r \<and> (\<exists>start. hr_byte_start r = Some start \<and> ch_byte_start c \<le> start)"
  proof (cases "rh_kind hit = u ''chunk''")
    case True
    then obtain c where found: "map_of (cg_chunks_by_id (hy_generation h)) (key_remainder (rh_key hit)) = Some c"
      "e = sliced c (query_line env h c) context_lines"
      using assms(3) by (auto simp: excerpt_def split: option.split_asm)
    then have "c \<in> set (fa_chunks (cg_facts g))"
      using find_mem [of _ "rev (fa_chunks (cg_facts g))" c] by (simp add: indexed_fields [OF assms(1)] index_rows_lookup)
    then show ?thesis using that found True by blast
  next
    case False
    then obtain start c where found: "hr_byte_start r = Some start" "chunk_at h (hr_evidence_path r) start = Some c"
      "e = sliced c (count_list (chunk_prefix c start) 10) context_lines"
      using assms(3) by (auto simp: excerpt_def split: option.split_asm)
    moreover have "ch_byte_start c \<le> start" using found(2) by (auto simp: chunk_at_def dest!: find_mem)
    ultimately show ?thesis using that chunk_at_mem [OF assms(1) found(2)] by blast
  qed
  obtain i n where "n \<le> 2 * nat context_lines + 1" "e = take 2048 (join_with [10] (take n (drop i (split_lines [] (ch_text c)))))"
    using sliced_window [OF assms(2), of c line] unfolding c(2) MAX_EXCERPT_CHARS_def by blast
  then show ?thesis using c(1,3) by auto
qed

subsection \<open>Concrete generations\<close>

definition demo_task :: "ustr \<Rightarrow> task_fact" where
  "demo_task task_id = \<lparr>cr_workspace = u ''w'', cr_source_path = u ''turbo.json'', cr_source_digest = replicate 64 97,
     cr_producer = u ''p'', cr_producer_version = u ''1'', tk_project = u ''w:.'', tk_runner = u ''turbo'', tk_id = task_id,
     tk_depends_on = [], tk_outputs = [], tk_inputs = [], tk_cache = None, tk_persistent = False, tk_extends_root = False\<rparr>"

definition demo_catalog :: "task_fact list \<Rightarrow> chunk_fact list \<Rightarrow> catalog_generation" where
  "demo_catalog tasks cs = catalog_generation_from_facts demo_env 1 (u ''w'') [] [] (demo_facts\<lparr>fa_tasks := tasks, fa_chunks := cs\<rparr>)"

definition demo_hit :: "ustr \<Rightarrow> ustr \<Rightarrow> ranked_hit" where
  "demo_hit key kind = \<lparr>rh_key = key, rh_kind = kind, rh_path = [], rh_score = 1\<rparr>"

lemma demo_catalog_facts: "cg_facts (demo_catalog tasks cs) = demo_facts\<lparr>fa_tasks := tasks, fa_chunks := cs\<rparr>"
  by (simp add: demo_catalog_def catalog_generation_from_facts_def)

lemma demo_indexed: "indexed (demo_catalog tasks cs) (make_hydrator demo_env [] (demo_catalog tasks cs) query)"
  unfolding indexed_def using demo_catalog_def demo_catalog_facts by metis


text \<open>A task whose name holds a colon has a document, and the document does not resolve.\<close>

lemma task_with_colon_unresolved:
  "task_document (demo_task (u ''lint:fix'')) \<in> set (search_documents (demo_catalog [demo_task (u ''lint:fix'')] []))"
  "hydrate (make_hydrator demo_env [] (demo_catalog [demo_task (u ''lint:fix'')] []) query)
     (demo_hit (sd_key (task_document (demo_task (u ''lint:fix'')))) kind) = None"
proof -
  let ?g = "demo_catalog [demo_task (u ''lint:fix'')] []"
  show "task_document (demo_task (u ''lint:fix'')) \<in> set (search_documents ?g)"
    by (rule mem_documents) (simp add: demo_catalog_facts)
  let ?h = "make_hydrator demo_env [] ?g query"
  have "hydrate ?h (demo_hit (sd_key (task_document (demo_task (u ''lint:fix'')))) kind) = task_record ?h (coloned [u ''w:.'', u ''lint:fix''])"
    by (intro hydrate_pair [OF _ kind_colons(6) resolvers(6)]) (simp add: demo_hit_def task_document_def demo_task_def)
  also have "rpartition_colon (coloned [u ''w:.'', u ''lint:fix'']) = (u ''w:.:lint'', u ''fix'')"
    by (simp add: rpartition_colon_def join_with_Cons u_def)
  then have "task_record ?h (coloned [u ''w:.'', u ''lint:fix'']) = None"
    by (simp add: task_record_def indexed_fields [OF demo_indexed] demo_catalog_facts index_rows_lookup demo_task_def) (simp add: u_def)
  finally show "hydrate ?h (demo_hit (sd_key (task_document (demo_task (u ''lint:fix'')))) kind) = None" .
qed

text \<open>
  The offset of a symbol is in bytes, and the text of its chunk is in characters: after three
  two-byte letters on the first line, a symbol at the start of the second line is placed at the
  start of the third.
\<close>

definition accented_chunk :: chunk_fact where
  "accented_chunk = (demo_chunk (u ''a''))\<lparr>ch_byte_end := 12, ch_text := [233, 233, 233, 10] @ u ''ab'' @ [10] @ u ''cd''\<rparr>"

lemma position_counts_bytes_as_characters:
  "drop 7 (utf8 (ch_text accented_chunk)) = u ''ab'' @ [10] @ u ''cd''"
  "count_list (take 7 (utf8 (ch_text accented_chunk))) 10 = 1"
  "position_in accented_chunk 7 = (ch_start_line accented_chunk + 2, 1)"
  by (simp_all add: accented_chunk_def demo_chunk_def position_in_def chunk_prefix_def last_line_def u_def encode_char_def)

theorem excerpt_bounded_witness:
  "\<exists>e. excerpt demo_env (make_hydrator demo_env [] (demo_catalog [] [demo_chunk (u ''a'')]) []) (demo_hit (sd_key (chunk_document (demo_chunk (u ''a'')))) (u ''chunk''))
        (metadata_record [] []) 2 = Some e \<and> length e \<le> 2048"
proof -
  let ?h = "make_hydrator demo_env [] (demo_catalog [] [demo_chunk (u ''a'')]) []"
  let ?hit = "demo_hit (sd_key (chunk_document (demo_chunk (u ''a'')))) (u ''chunk'')"
  have "map_of (cg_chunks_by_id (hy_generation ?h)) (ch_id (demo_chunk (u ''a''))) = Some (demo_chunk (u ''a''))"
    by (simp add: indexed_fields [OF demo_indexed] demo_catalog_facts index_rows_lookup)
  moreover have "key_remainder (rh_key ?hit) = ch_id (demo_chunk (u ''a''))"
    by (simp add: key_remainder_def demo_hit_def chunk_document_def key_colon partition_key(1) [OF kind_colons(1), simplified])
  ultimately obtain e where e: "excerpt demo_env ?h ?hit (metadata_record [] []) 2 = Some e"
    by (simp add: excerpt_def demo_hit_def)
  from excerpt_bounded [OF demo_indexed [of "[]" "[demo_chunk (u ''a'')]" "[]"] _ e] show ?thesis using e by auto
qed

end
