(* ===== verification/AuthorityClaims.thy ===== *)
theory AuthorityClaims
  imports Evidence PathPatterns Texts
begin

text \<open>
  Ownership and entrypoint claims (\<open>authority/contracts.py\<close>, and the parsers of
  \<open>authority/resolver.py\<close>): the declarations of package, project and YAML manifests, and CODEOWNERS
  files. Parsed JSON, TOML and YAML values are JSON values, and the three parsers are arguments; the
  validation of the parsed values is that of the code's models.
\<close>

subsection \<open>Claims\<close>

datatype owner_kind = CanonicalOwner | GeneratorOwner | PolicyOwner | RegistrationOwner | HistoricalOwner

datatype owner_source_kind = ExplicitGovernance | ManifestPolicyGenerator | CanonicalRelationship | GitHistory

datatype entrypoint_kind = ApplicationEntry | PackageEntry | ScriptEntry | TestEntry | RouteEntry | JobEntry | ServiceEntry
  | HandlerEntry | PluginEntry | ExecutableEntry

definition owner_kinds :: "(ustr \<times> owner_kind) list" where
  "owner_kinds = map (\<lambda>(s, k). (u s, k))
     [(''canonical'', CanonicalOwner), (''generator'', GeneratorOwner), (''policy'', PolicyOwner),
      (''runtime_registration'', RegistrationOwner), (''historical'', HistoricalOwner)]"

fun owner_kind_value :: "owner_kind \<Rightarrow> ustr" where
  "owner_kind_value CanonicalOwner = u ''canonical''"
| "owner_kind_value GeneratorOwner = u ''generator''"
| "owner_kind_value PolicyOwner = u ''policy''"
| "owner_kind_value RegistrationOwner = u ''runtime_registration''"
| "owner_kind_value HistoricalOwner = u ''historical''"

fun source_kind_value :: "owner_source_kind \<Rightarrow> ustr" where
  "source_kind_value ExplicitGovernance = u ''explicit_governance''"
| "source_kind_value ManifestPolicyGenerator = u ''manifest_policy_generator''"
| "source_kind_value CanonicalRelationship = u ''canonical_relationship''"
| "source_kind_value GitHistory = u ''git_history''"

fun source_precedence :: "owner_source_kind \<Rightarrow> nat" where
  "source_precedence ExplicitGovernance = 1"
| "source_precedence ManifestPolicyGenerator = 2"
| "source_precedence CanonicalRelationship = 3"
| "source_precedence GitHistory = 4"

definition entrypoint_kinds :: "(ustr \<times> entrypoint_kind) list" where
  "entrypoint_kinds = map (\<lambda>(s, k). (u s, k))
     [(''application'', ApplicationEntry), (''package'', PackageEntry), (''script'', ScriptEntry), (''test'', TestEntry),
      (''route'', RouteEntry), (''job'', JobEntry), (''service'', ServiceEntry), (''handler'', HandlerEntry),
      (''plugin'', PluginEntry), (''executable'', ExecutableEntry)]"

fun entrypoint_kind_value :: "entrypoint_kind \<Rightarrow> ustr" where
  "entrypoint_kind_value ApplicationEntry = u ''application''"
| "entrypoint_kind_value PackageEntry = u ''package''"
| "entrypoint_kind_value ScriptEntry = u ''script''"
| "entrypoint_kind_value TestEntry = u ''test''"
| "entrypoint_kind_value RouteEntry = u ''route''"
| "entrypoint_kind_value JobEntry = u ''job''"
| "entrypoint_kind_value ServiceEntry = u ''service''"
| "entrypoint_kind_value HandlerEntry = u ''handler''"
| "entrypoint_kind_value PluginEntry = u ''plugin''"
| "entrypoint_kind_value ExecutableEntry = u ''executable''"

record authority_claim =
  ac_target :: ustr
  ac_owners :: "ustr list"
  ac_owner_kind :: owner_kind
  ac_source_kind :: owner_source_kind
  ac_source_path :: ustr
  ac_source_line :: nat

record entrypoint_claim =
  ec_kind :: entrypoint_kind
  ec_name :: ustr
  ec_target :: ustr
  ec_source_path :: ustr
  ec_source_line :: nat

datatype authority_error = InvalidClaim | HistoricalDeclaration | JsonNotUnicode | NonHistorical | ClaimEvidence evidence_error

definition replace_char :: "nat \<Rightarrow> nat \<Rightarrow> ustr \<Rightarrow> ustr" where
  "replace_char a b s = map (\<lambda>c. if c = a then b else c) s"

text \<open>\<open>_relative_target\<close>\<close>

definition relative_target :: "ustr \<Rightarrow> bool" where
  "relative_target value \<longleftrightarrow> \<not> startswith value [47] \<and> \<not> startswith value [92] \<and> u ''..'' \<notin> set (split_on 47 (replace_char 92 47 value))"

definition normalize_owners :: "ustr list \<Rightarrow> ustr list" where
  "normalize_owners owners = sort (remdups (filter (\<lambda>o'. o' \<noteq> []) (map strip owners)))"

definition make_claim ::
  "ustr \<Rightarrow> ustr list \<Rightarrow> owner_kind \<Rightarrow> owner_source_kind \<Rightarrow> ustr \<Rightarrow> nat \<Rightarrow> (authority_error, authority_claim) result" where
  "make_claim target owners kind source path line =
     (if target \<noteq> [] \<and> path \<noteq> [] \<and> line \<ge> 1 \<and> relative_target target \<and> relative_target path \<and> normalize_owners owners \<noteq> []
      then Inr \<lparr>ac_target = target, ac_owners = normalize_owners owners, ac_owner_kind = kind, ac_source_kind = source,
                ac_source_path = path, ac_source_line = line\<rparr>
      else Inl InvalidClaim)"

definition make_entrypoint :: "ustr \<Rightarrow> entrypoint_kind \<times> ustr \<times> ustr \<Rightarrow> (authority_error, entrypoint_claim) result" where
  "make_entrypoint path entry =
     (case entry of (kind, name, target) \<Rightarrow>
      if name \<noteq> [] \<and> target \<noteq> [] \<and> path \<noteq> [] \<and> relative_target path
      then Inr \<lparr>ec_kind = kind, ec_name = name, ec_target = target, ec_source_path = path, ec_source_line = 1\<rparr>
      else Inl InvalidClaim)"

subsection \<open>Manifests\<close>

record owner_declaration =
  od_target :: ustr
  od_owners :: "ustr list"
  od_kind :: owner_kind

record entrypoint_declaration =
  ed_kind :: entrypoint_kind
  ed_name :: ustr
  ed_target :: ustr

record registration_declaration = entrypoint_declaration +
  rd_owners :: "ustr list"

record declarations =
  dc_owners :: "owner_declaration list"
  dc_entrypoints :: "entrypoint_declaration list"
  dc_registrations :: "registration_declaration list"

datatype package_bin = NoBin | BinPath ustr | BinMap "(ustr, ustr) dict"

record package_manifest =
  pm_name :: "ustr option"
  pm_scripts :: "(ustr, ustr) dict"
  pm_bin :: package_bin
  pm_exports :: json
  pm_declarations :: declarations

record pyproject_manifest =
  py_name :: "ustr option"
  py_scripts :: "(ustr, ustr) dict"
  py_gui_scripts :: "(ustr, ustr) dict"
  py_entry_points :: "(ustr, (ustr, ustr) dict) dict"
  py_testpaths :: "ustr list"
  py_declarations :: declarations

definition no_declarations :: declarations where
  "no_declarations = \<lparr>dc_owners = [], dc_entrypoints = [], dc_registrations = []\<rparr>"

text \<open>Validation of parsed values; \<open>None\<close> is a \<open>ValidationError\<close>.\<close>

fun want_str :: "json \<Rightarrow> ustr option" where
  "want_str (JStr s) = Some s"
| "want_str _ = None"

definition want_text :: "json \<Rightarrow> ustr option" where
  "want_text v = Option.bind (want_str v) (\<lambda>s. if s = [] then None else Some s)"

fun want_list :: "(json \<Rightarrow> 'a option) \<Rightarrow> json \<Rightarrow> 'a list option" where
  "want_list f (JArr xs) = map_opt f xs"
| "want_list f _ = None"

fun want_dict :: "(json \<Rightarrow> 'a option) \<Rightarrow> json \<Rightarrow> (ustr, 'a) dict option" where
  "want_dict f (JObj d) = map_opt (\<lambda>(k, v). map_option (Pair k) (f v)) d"
| "want_dict f _ = None"

fun want_object :: "json \<Rightarrow> (ustr, json) dict option" where
  "want_object (JObj d) = Some d"
| "want_object _ = None"

text \<open>A field: required, or with a default.\<close>

definition need :: "(ustr, json) dict \<Rightarrow> string \<Rightarrow> (json \<Rightarrow> 'a option) \<Rightarrow> 'a option" where
  "need d name f = Option.bind (map_of d (u name)) f"

definition opt_field :: "(ustr, json) dict \<Rightarrow> string \<Rightarrow> 'a \<Rightarrow> (json \<Rightarrow> 'a option) \<Rightarrow> 'a option" where
  "opt_field d name value f = (case map_of d (u name) of None \<Rightarrow> Some value | Some v \<Rightarrow> f v)"

definition only_keys :: "(ustr, json) dict \<Rightarrow> string list \<Rightarrow> bool" where
  "only_keys d names \<longleftrightarrow> set (dict_keys d) \<subseteq> set (map u names)"

definition nullable_text :: "json \<Rightarrow> ustr option option" where
  "nullable_text v = (case v of JNull \<Rightarrow> Some None | JStr s \<Rightarrow> Some (Some s) | _ \<Rightarrow> None)"

definition want_kind :: "(ustr \<times> 'k) list \<Rightarrow> json \<Rightarrow> 'k option" where
  "want_kind kinds v = Option.bind (want_str v) (map_of kinds)"

definition want_owner_declaration :: "json \<Rightarrow> owner_declaration option" where
  "want_owner_declaration v = Option.bind (want_object v) (\<lambda>d.
     Option.bind (need d ''target'' want_text) (\<lambda>target.
     Option.bind (need d ''owners'' (want_list want_str)) (\<lambda>owners.
     Option.bind (need d ''kind'' (want_kind owner_kinds)) (\<lambda>kind.
     if owners \<noteq> [] \<and> only_keys d [''target'', ''owners'', ''kind'']
     then Some \<lparr>od_target = target, od_owners = owners, od_kind = kind\<rparr> else None))))"

definition want_entrypoint_declaration :: "json \<Rightarrow> entrypoint_declaration option" where
  "want_entrypoint_declaration v = Option.bind (want_object v) (\<lambda>d.
     Option.bind (need d ''kind'' (want_kind entrypoint_kinds)) (\<lambda>kind.
     Option.bind (need d ''name'' want_text) (\<lambda>name.
     Option.bind (need d ''target'' want_text) (\<lambda>target.
     if only_keys d [''kind'', ''name'', ''target''] then Some \<lparr>ed_kind = kind, ed_name = name, ed_target = target\<rparr> else None))))"

definition want_registration_declaration :: "json \<Rightarrow> registration_declaration option" where
  "want_registration_declaration v = Option.bind (want_object v) (\<lambda>d.
     Option.bind (need d ''kind'' (want_kind entrypoint_kinds)) (\<lambda>kind.
     Option.bind (need d ''name'' want_text) (\<lambda>name.
     Option.bind (need d ''target'' want_text) (\<lambda>target.
     Option.bind (opt_field d ''owners'' [] (want_list want_str)) (\<lambda>owners.
     if only_keys d [''kind'', ''name'', ''target'', ''owners'']
     then Some \<lparr>ed_kind = kind, ed_name = name, ed_target = target, rd_owners = owners\<rparr> else None)))))"

definition want_declarations :: "json \<Rightarrow> declarations option" where
  "want_declarations v = Option.bind (want_object v) (\<lambda>d.
     Option.bind (opt_field d ''owners'' [] (want_list want_owner_declaration)) (\<lambda>owners.
     Option.bind (opt_field d ''entrypoints'' [] (want_list want_entrypoint_declaration)) (\<lambda>entrypoints.
     Option.bind (opt_field d ''registrations'' [] (want_list want_registration_declaration)) (\<lambda>registrations.
     if only_keys d [''owners'', ''entrypoints'', ''registrations'']
     then Some \<lparr>dc_owners = owners, dc_entrypoints = entrypoints, dc_registrations = registrations\<rparr> else None))))"

definition want_bin :: "json \<Rightarrow> package_bin option" where
  "want_bin v = (case v of JNull \<Rightarrow> Some NoBin | JStr s \<Rightarrow> Some (BinPath s) | _ \<Rightarrow> map_option BinMap (want_dict want_str v))"

definition want_package :: "json \<Rightarrow> package_manifest option" where
  "want_package v = Option.bind (want_object v) (\<lambda>d.
     Option.bind (opt_field d ''name'' None nullable_text) (\<lambda>name.
     Option.bind (opt_field d ''scripts'' [] (want_dict want_str)) (\<lambda>scripts.
     Option.bind (opt_field d ''bin'' NoBin want_bin) (\<lambda>bin.
     Option.bind (opt_field d ''exports'' JNull Some) (\<lambda>exports.
     Option.bind (opt_field d ''soleaux'' no_declarations want_declarations) (\<lambda>decls.
     Some \<lparr>pm_name = name, pm_scripts = scripts, pm_bin = bin, pm_exports = exports, pm_declarations = decls\<rparr>))))))"

text \<open>An alias is read before the name of the field.\<close>

definition alias_field :: "(ustr, json) dict \<Rightarrow> string \<Rightarrow> string \<Rightarrow> 'a \<Rightarrow> (json \<Rightarrow> 'a option) \<Rightarrow> 'a option" where
  "alias_field d alias name value f = (case map_of d (u alias) of Some v \<Rightarrow> f v | None \<Rightarrow> opt_field d name value f)"

definition want_pyproject :: "json \<Rightarrow> pyproject_manifest option" where
  "want_pyproject v = Option.bind (want_object v) (\<lambda>d.
     Option.bind (opt_field d ''project'' [] want_object) (\<lambda>project.
     Option.bind (opt_field d ''tool'' [] want_object) (\<lambda>tool.
     Option.bind (opt_field project ''name'' None nullable_text) (\<lambda>name.
     Option.bind (opt_field project ''scripts'' [] (want_dict want_str)) (\<lambda>scripts.
     Option.bind (alias_field project ''gui-scripts'' ''gui_scripts'' [] (want_dict want_str)) (\<lambda>gui_scripts.
     Option.bind (alias_field project ''entry-points'' ''entry_points'' [] (want_dict (want_dict want_str))) (\<lambda>entry_points.
     Option.bind (opt_field tool ''soleaux'' no_declarations want_declarations) (\<lambda>decls.
     Option.bind (opt_field tool ''pytest'' [] want_object) (\<lambda>pytest.
     Option.bind (opt_field pytest ''ini_options'' [] want_object) (\<lambda>ini.
     Option.bind (opt_field ini ''testpaths'' [] (want_list want_str)) (\<lambda>testpaths.
     Some \<lparr>py_name = name, py_scripts = scripts, py_gui_scripts = gui_scripts, py_entry_points = entry_points,
           py_testpaths = testpaths, py_declarations = decls\<rparr>)))))))))))"

subsection \<open>Claims of manifests\<close>

text \<open>\<open>PurePosixPath(source).parent / target\<close>; an absolute target replaces the parent.\<close>

definition join_pure :: "ppath \<Rightarrow> ustr \<Rightarrow> ppath" where
  "join_pure p s = (let q = pure_path s in if is_absolute q then q else join_parts p (pp_parts q))"

definition manifest_target :: "ustr \<Rightarrow> ustr \<Rightarrow> ustr" where
  "manifest_target source_path target =
     (let normalized = replace_char 92 47 target; relative = startswith normalized (u ''./'') in
      if 58 \<in> set normalized \<and> \<not> relative then normalized
      else if relative then as_posix (join_pure (path_parent (pure_path source_path)) (removeprefix normalized (u ''./'')))
      else normalized)"

definition sorted_items :: "(ustr, 'a) dict \<Rightarrow> (ustr \<times> 'a) list" where
  "sorted_items d = sort_key fst d"

definition source_kind_for_owner :: "owner_kind \<Rightarrow> (authority_error, owner_source_kind) result" where
  "source_kind_for_owner kind =
     (if kind = CanonicalOwner then Inr CanonicalRelationship
      else if kind = HistoricalOwner then Inl HistoricalDeclaration else Inr ManifestPolicyGenerator)"

definition declared_owner :: "ustr \<Rightarrow> owner_declaration \<Rightarrow> (authority_error, authority_claim) result" where
  "declared_owner path d =
     bind_err (source_kind_for_owner (od_kind d)) (\<lambda>source.
     make_claim (manifest_target path (od_target d)) (od_owners d) (od_kind d) source path 1)"

definition registration_claims ::
  "ustr \<Rightarrow> registration_declaration \<Rightarrow> entrypoint_claim list \<times> authority_claim list \<Rightarrow>
   (authority_error, entrypoint_claim list \<times> authority_claim list) result" where
  "registration_claims path r st =
     (let target = manifest_target path (ed_target r) in
      bind_err (make_entrypoint path (ed_kind r, ed_name r, target)) (\<lambda>e.
      if rd_owners r = [] then Inr (fst st @ [e], snd st)
      else bind_err (make_claim target (rd_owners r) RegistrationOwner ManifestPolicyGenerator path 1) (\<lambda>c.
           Inr (fst st @ [e], snd st @ [c]))))"

definition declaration_claims ::
  "ustr \<Rightarrow> declarations \<Rightarrow> (authority_error, entrypoint_claim list \<times> authority_claim list) result" where
  "declaration_claims path decls =
     bind_err (map_err (\<lambda>e. make_entrypoint path (ed_kind e, ed_name e, manifest_target path (ed_target e))) (dc_entrypoints decls)) (\<lambda>entries.
     bind_err (map_err (declared_owner path) (dc_owners decls)) (\<lambda>claims.
     fold_err (registration_claims path) (dc_registrations decls) (entries, claims)))"

definition package_exports :: "ustr \<Rightarrow> ustr option \<Rightarrow> json \<Rightarrow> (entrypoint_kind \<times> ustr \<times> ustr) list" where
  "package_exports path package_name exports =
     (let base = (case package_name of Some n \<Rightarrow> if n = [] then u ''.'' else n | None \<Rightarrow> u ''.'') in
      case exports of
        JStr target \<Rightarrow> [(PackageEntry, base, manifest_target path target)]
      | JObj d \<Rightarrow> List.map_filter (\<lambda>(name, v). case v of
            JStr target \<Rightarrow> Some (PackageEntry, if name = u ''.'' then base else base @ removeprefix name (u ''.''), manifest_target path target)
          | _ \<Rightarrow> None) (sorted_items d)
      | _ \<Rightarrow> [])"

definition script_kind :: "ustr \<Rightarrow> entrypoint_kind" where
  "script_kind name = (if name = u ''test'' \<or> startswith name (u ''test:'') then TestEntry else ScriptEntry)"

definition name_entry :: "ustr option \<Rightarrow> ustr \<Rightarrow> (entrypoint_kind \<times> ustr \<times> ustr) list" where
  "name_entry name path = (case name of Some n \<Rightarrow> if n = [] then [] else [(PackageEntry, n, path)] | None \<Rightarrow> [])"

definition bin_entries :: "ustr \<Rightarrow> package_manifest \<Rightarrow> (entrypoint_kind \<times> ustr \<times> ustr) list" where
  "bin_entries path m =
     (case pm_bin m of
        NoBin \<Rightarrow> []
      | BinPath target \<Rightarrow> [(ExecutableEntry, (case pm_name m of Some n \<Rightarrow> if n = [] then u ''bin'' else n | None \<Rightarrow> u ''bin''), manifest_target path target)]
      | BinMap d \<Rightarrow> map (\<lambda>(name, target). (ExecutableEntry, name, manifest_target path target)) (sorted_items d))"

definition package_claims ::
  "ustr \<Rightarrow> package_manifest \<Rightarrow> (authority_error, entrypoint_claim list \<times> authority_claim list) result" where
  "package_claims path m =
     bind_err (map_err (make_entrypoint path)
        (name_entry (pm_name m) path @ map (\<lambda>(name, target). (script_kind name, name, target)) (sorted_items (pm_scripts m))
         @ bin_entries path m @ package_exports path (pm_name m) (pm_exports m))) (\<lambda>entries.
     bind_err (declaration_claims path (pm_declarations m)) (\<lambda>(declared, claims).
     Inr (entries @ declared, claims)))"

definition pyproject_claims ::
  "ustr \<Rightarrow> pyproject_manifest \<Rightarrow> (authority_error, entrypoint_claim list \<times> authority_claim list) result" where
  "pyproject_claims path m =
     bind_err (map_err (make_entrypoint path)
        (name_entry (py_name m) path
         @ map (\<lambda>(name, target). (ScriptEntry, name, target)) (sorted_items (py_scripts m))
         @ map (\<lambda>(name, target). (ScriptEntry, name, target)) (sorted_items (py_gui_scripts m))
         @ concat (map (\<lambda>(group, entries). map (\<lambda>(name, target). (PluginEntry, group @ 58 # name, target)) (sorted_items entries))
             (sorted_items (py_entry_points m)))
         @ map (\<lambda>p. (TestEntry, p, p)) (sort (py_testpaths m)))) (\<lambda>entries.
     bind_err (declaration_claims path (py_declarations m)) (\<lambda>(declared, claims).
     Inr (entries @ declared, claims)))"

subsection \<open>CODEOWNERS\<close>

record codeowners_rule =
  cr_line :: nat
  cr_pattern :: repository_pattern
  cr_owners :: "ustr list"

definition numbered :: "'a list \<Rightarrow> (nat \<times> 'a) list" where
  "numbered xs = zip [1..<Suc (length xs)] xs"

datatype codeowners_line = SkippedLine | UnsupportedRule | Rule repository_pattern "ustr list"

definition codeowners_line_of :: "ustr \<Rightarrow> codeowners_line" where
  "codeowners_line_of raw_line =
     (let parts = words_of [] (strip (takeWhile (\<lambda>c. c \<noteq> 35) raw_line)) in
      if parts = [] then SkippedLine
      else if length parts < 2 \<or> startswith (hd parts) [33] then UnsupportedRule
      else Rule (parse_pattern (hd parts)) (tl parts))"

definition codeowners_rules :: "ustr \<Rightarrow> codeowners_rule list" where
  "codeowners_rules text = List.map_filter (\<lambda>(n, line). case codeowners_line_of line of
       Rule p owners \<Rightarrow> Some \<lparr>cr_line = n, cr_pattern = p, cr_owners = owners\<rparr> | _ \<Rightarrow> None) (numbered (split_lines [] text))"

definition codeowners_warnings :: "ustr \<Rightarrow> ustr \<Rightarrow> ustr list" where
  "codeowners_warnings source_path text = List.map_filter (\<lambda>(n, line).
       if codeowners_line_of line = UnsupportedRule
       then Some (source_path @ u '':'' @ u (show_nat n) @ u '': unsupported CODEOWNERS rule'') else None) (numbered (split_lines [] text))"

definition matching_rules :: "codeowners_rule list \<Rightarrow> ustr \<Rightarrow> codeowners_rule list" where
  "matching_rules rules target = filter (\<lambda>r. pattern_matches (cr_pattern r) target) rules"

definition owned_claim :: "ustr \<Rightarrow> codeowners_rule list \<Rightarrow> ustr \<Rightarrow> (authority_error, authority_claim option) result" where
  "owned_claim source_path rules target =
     (let matching = matching_rules rules target in
      if matching = [] then Inr None
      else bind_err (make_claim target (cr_owners (last matching)) PolicyOwner ExplicitGovernance source_path (cr_line (last matching)))
             (\<lambda>c. Inr (Some c)))"

definition parse_codeowners ::
  "ustr \<Rightarrow> bytes \<Rightarrow> ustr list \<Rightarrow> (authority_error, authority_claim list \<times> ustr list) result" where
  "parse_codeowners source_path content all_paths =
     (case utf8_decode content of
        None \<Rightarrow> Inr ([], [source_path @ u '': invalid UTF-8 CODEOWNERS''])
      | Some text \<Rightarrow>
          bind_err (map_err (owned_claim source_path (codeowners_rules text)) all_paths) (\<lambda>claims.
          Inr (List.map_filter id claims, codeowners_warnings source_path text)))"

end
