(* ===== verification/AuthorityFiles.thy ===== *)
theory AuthorityFiles
  imports AuthorityClaims
begin

text \<open>
  The authority surfaces of a snapshot (the first half of \<open>AuthorityResolver.resolve\<close>): which captured
  files are read as which surface, and the claims and warnings they give. The parsers of JSON, TOML and
  YAML are arguments. The lemmas show that the last matching CODEOWNERS rule owns a path.
\<close>

subsection \<open>Surfaces\<close>

datatype json_failure = JsonDecodeError | JsonValueError

record authority_env = evidence_env +
  ae_json :: "bytes \<Rightarrow> (json_failure, json) result"
  ae_toml :: "ustr \<Rightarrow> json option"
  ae_yaml :: "ustr \<Rightarrow> json option"

definition codeowners_paths :: "ustr set" where
  "codeowners_paths = {u ''CODEOWNERS'', u ''.github/CODEOWNERS'', u ''docs/CODEOWNERS''}"

definition yaml_manifest_names :: "ustr set" where
  "yaml_manifest_names = {u ''soleaux.yaml'', u ''soleaux.yml'', u ''OWNERS''}"

definition parse_package_json ::
  "'a authority_env_scheme \<Rightarrow> ustr \<Rightarrow> bytes \<Rightarrow> (authority_error, package_manifest option \<times> ustr list) result" where
  "parse_package_json env path content =
     (case ae_json env content of
        Inl JsonDecodeError \<Rightarrow> Inr (None, [path @ u '': invalid JSON manifest''])
      | Inl JsonValueError \<Rightarrow> Inl JsonNotUnicode
      | Inr v \<Rightarrow> (case want_package v of
            None \<Rightarrow> Inr (None, [path @ u '': invalid package manifest''])
          | Some m \<Rightarrow> Inr (Some m, [])))"

definition parse_pyproject :: "'a authority_env_scheme \<Rightarrow> ustr \<Rightarrow> bytes \<Rightarrow> pyproject_manifest option \<times> ustr list" where
  "parse_pyproject env path content =
     (case Option.bind (Option.bind (utf8_decode content) (ae_toml env)) want_pyproject of
        None \<Rightarrow> (None, [path @ u '': invalid TOML manifest''])
      | Some m \<Rightarrow> (Some m, []))"

definition parse_yaml_declarations :: "'a authority_env_scheme \<Rightarrow> ustr \<Rightarrow> bytes \<Rightarrow> declarations option \<times> ustr list" where
  "parse_yaml_declarations env path content =
     (case Option.bind (Option.bind (utf8_decode content) (ae_yaml env)) want_declarations of
        None \<Rightarrow> (None, [path @ u '': invalid YAML authority manifest''])
      | Some m \<Rightarrow> (Some m, []))"

record authority_state =
  as_owners :: "authority_claim list"
  as_entrypoints :: "entrypoint_claim list"
  as_warnings :: "ustr list"

definition add_claims ::
  "ustr list \<Rightarrow> (authority_error, entrypoint_claim list \<times> authority_claim list) result \<Rightarrow> authority_state \<Rightarrow>
   (authority_error, authority_state) result" where
  "add_claims warnings claims st =
     bind_err claims (\<lambda>(entries, owners). Inr (st\<lparr>as_owners := as_owners st @ owners,
        as_entrypoints := as_entrypoints st @ entries, as_warnings := as_warnings st @ warnings\<rparr>))"

text \<open>One pass of the loop over the paths in order.\<close>

definition authority_file ::
  "'a authority_env_scheme \<Rightarrow> ustr list \<Rightarrow> ustr \<times> bytes \<Rightarrow> authority_state \<Rightarrow> (authority_error, authority_state) result" where
  "authority_file env all_paths entry st =
     (case entry of (path, content) \<Rightarrow>
      let name = path_name (pure_path path) in
      if path \<in> codeowners_paths then
        bind_err (parse_codeowners path content all_paths) (\<lambda>(claims, warnings). add_claims warnings (Inr ([], claims)) st)
      else if name = u ''package.json'' then
        bind_err (parse_package_json env path content) (\<lambda>(manifest, warnings).
          add_claims warnings (case manifest of None \<Rightarrow> Inr ([], []) | Some m \<Rightarrow> package_claims path m) st)
      else if name = u ''pyproject.toml'' then
        (case parse_pyproject env path content of (manifest, warnings) \<Rightarrow>
          add_claims warnings (case manifest of None \<Rightarrow> Inr ([], []) | Some m \<Rightarrow> pyproject_claims path m) st)
      else if name \<in> yaml_manifest_names then
        (case parse_yaml_declarations env path content of (manifest, warnings) \<Rightarrow>
          add_claims warnings (case manifest of None \<Rightarrow> Inr ([], []) | Some m \<Rightarrow> declaration_claims path m) st)
      else Inr st)"

definition collect_authority ::
  "'a authority_env_scheme \<Rightarrow> 'b snapshot_bundle_scheme \<Rightarrow> (authority_error, authority_state) result" where
  "collect_authority env bundle =
     (let files = sort_key fst (sb_contents bundle) in
      fold_err (authority_file env (map fst files)) files \<lparr>as_owners = [], as_entrypoints = [], as_warnings = []\<rparr>)"

subsection \<open>The last matching rule\<close>

lemma numbered_increasing: "sorted_wrt (<) (map fst (numbered xs))"
proof -
  have "map fst (numbered xs) = [1..<Suc (length xs)]" by (simp add: numbered_def del: upt_Suc)
  then show ?thesis by (simp only: sorted_wrt_upt)
qed

lemma sorted_map_filter:
  assumes "sorted_wrt (<) (map fst ns)" and "\<And>n x r. f (n, x) = Some r \<Longrightarrow> k r = n"
  shows "sorted_wrt (<) (map k (List.map_filter f ns))"
  using assms(1)
proof (induction ns)
  case (Cons e ns)
  have later: "\<exists>x. (k r, x) \<in> set ns" if r: "r \<in> set (List.map_filter f ns)" for r
  proof -
    obtain m x where "(m, x) \<in> set ns" "f (m, x) = Some r" using r unfolding mem_map_filter by (metis surj_pair)
    then show ?thesis using assms(2) by blast
  qed
  show ?case
  proof (cases "f e")
    case (Some r)
    then have "k r = fst e" using assms(2) [of "fst e" "snd e" r] by simp
    then have "\<forall>q \<in> set (List.map_filter f ns). k r < k q" using Cons.prems later by fastforce
    then show ?thesis using Cons Some by (simp add: List.map_filter_simps)
  qed (use Cons in \<open>simp add: List.map_filter_simps\<close>)
qed (simp add: List.map_filter_def)

lemma rules_increasing: "sorted_wrt (<) (map cr_line (codeowners_rules text))"
  unfolding codeowners_rules_def
  by (rule sorted_map_filter [OF numbered_increasing]) (auto split: codeowners_line.split_asm)

lemma last_of_increasing:
  assumes "sorted_wrt (<) (map k rs)" and "r \<in> set rs"
  shows "last rs = r \<longleftrightarrow> (\<forall>q \<in> set rs. k q \<le> (k r :: nat))"
  using assms
proof (induction rs)
  case (Cons x rs)
  show ?case
  proof (cases "rs = []")
    case False
    then have "last rs \<in> set rs" "k x < k (last rs)" using Cons.prems by auto
    then have "r = x \<Longrightarrow> last rs \<noteq> r \<and> \<not> (\<forall>q \<in> set rs. k q \<le> k r)" by (auto simp: not_le)
    then show ?thesis using Cons False by (cases "r = x") (auto intro: less_imp_le)
  qed (use Cons.prems in simp)
qed simp

lemma last_matching:
  assumes "matching_rules rules target \<noteq> []" and "sorted_wrt (<) (map cr_line rules)"
  shows "r = last (matching_rules rules target) \<longleftrightarrow> r \<in> set rules \<and> pattern_matches (cr_pattern r) target
      \<and> (\<forall>q \<in> set rules. pattern_matches (cr_pattern q) target \<longrightarrow> cr_line q \<le> cr_line r)"
proof -
  have sorted: "sorted_wrt (<) (map cr_line (matching_rules rules target))"
    using assms(2) by (simp add: matching_rules_def sorted_wrt_map sorted_wrt_filter)
  have mem: "q \<in> set (matching_rules rules target) \<longleftrightarrow> q \<in> set rules \<and> pattern_matches (cr_pattern q) target" for q
    by (auto simp: matching_rules_def)
  have "last (matching_rules rules target) \<in> set (matching_rules rules target)" using assms(1) by simp
  then show ?thesis using last_of_increasing [OF sorted] mem by metis
qed

text \<open>C36: A CODEOWNERS file gives a path to the owners of the last of its rules whose pattern means the path, and gives
  no other claims; the claim carries the line of that rule.
\<close>

theorem codeowners_last_rule:
  assumes "parse_codeowners source content paths = Inr (claims, warnings)" and "utf8_decode content = Some text"
  shows "c \<in> set claims \<longleftrightarrow> (\<exists>target \<in> set paths. \<exists>r \<in> set (codeowners_rules text).
      pattern_spec (cr_pattern r) (path_segments (removeprefix target (u ''./'')))
      \<and> (\<forall>q \<in> set (codeowners_rules text). pattern_spec (cr_pattern q) (path_segments (removeprefix target (u ''./''))) \<longrightarrow> cr_line q \<le> cr_line r)
      \<and> c = \<lparr>ac_target = target, ac_owners = normalize_owners (cr_owners r), ac_owner_kind = PolicyOwner,
             ac_source_kind = ExplicitGovernance, ac_source_path = source, ac_source_line = cr_line r\<rparr>)"
proof -
  let ?rules = "codeowners_rules text"
  let ?claim = "\<lambda>target r. \<lparr>ac_target = target, ac_owners = normalize_owners (cr_owners r), ac_owner_kind = PolicyOwner,
             ac_source_kind = ExplicitGovernance, ac_source_path = source, ac_source_line = cr_line r\<rparr>"
  obtain found where found: "map_err (owned_claim source ?rules) paths = Inr found" "claims = List.map_filter id found"
    using assms by (auto simp: parse_codeowners_def)
  have each: "list_all2 (\<lambda>t r. owned_claim source ?rules t = Inr r) paths found" using found(1) by (simp add: map_err_list_all2)
  have outcome: "r = (if matching_rules ?rules t = [] then None else Some (?claim t (last (matching_rules ?rules t))))"
    if "owned_claim source ?rules t = Inr r" for t r
    using that by (auto simp: owned_claim_def Let_def make_claim_def split: if_split_asm)
  have "c \<in> set claims \<longleftrightarrow> Some c \<in> set found" by (simp add: found(2) mem_map_filter)
  also have "\<dots> \<longleftrightarrow> (\<exists>t \<in> set paths. owned_claim source ?rules t = Inr (Some c))"
    using list_all2_left [OF each] list_all2_right [OF each] by (metis Inr_inject)
  also have "\<dots> \<longleftrightarrow> (\<exists>t \<in> set paths. matching_rules ?rules t \<noteq> [] \<and> c = ?claim t (last (matching_rules ?rules t)))"
  proof (rule bex_cong [OF refl])
    fix t assume "t \<in> set paths"
    then obtain r where r: "owned_claim source ?rules t = Inr r" using list_all2_left [OF each] by blast
    show "owned_claim source ?rules t = Inr (Some c) \<longleftrightarrow> matching_rules ?rules t \<noteq> [] \<and> c = ?claim t (last (matching_rules ?rules t))"
      unfolding r using outcome [OF r] by auto
  qed
  also have "\<dots> \<longleftrightarrow> (\<exists>t \<in> set paths. \<exists>r \<in> set ?rules. pattern_matches (cr_pattern r) t
      \<and> (\<forall>q \<in> set ?rules. pattern_matches (cr_pattern q) t \<longrightarrow> cr_line q \<le> cr_line r) \<and> c = ?claim t r)"
  proof (rule bex_cong [OF refl])
    fix t
    show "matching_rules ?rules t \<noteq> [] \<and> c = ?claim t (last (matching_rules ?rules t)) \<longleftrightarrow>
      (\<exists>r \<in> set ?rules. pattern_matches (cr_pattern r) t
        \<and> (\<forall>q \<in> set ?rules. pattern_matches (cr_pattern q) t \<longrightarrow> cr_line q \<le> cr_line r) \<and> c = ?claim t r)"
    proof (cases "matching_rules ?rules t = []")
      case True
      then show ?thesis by (auto simp: matching_rules_def filter_empty_conv)
    next
      case False
      then show ?thesis using last_matching [OF False rules_increasing] by metis
    qed
  qed
  finally show ?thesis unfolding pattern_matches_decides_spec .
qed

lemma demo_rule:
  "codeowners_rules [42, 32, 120] = [\<lparr>cr_line = 1, cr_pattern = parse_pattern [42], cr_owners = [[120]]\<rparr>]"
  "codeowners_warnings source [42, 32, 120] = []"
proof -
  have "split_lines [] [42, 32, 120] = [[42, 32, 120]]" by (simp add: line_boundary_def)
  moreover have "codeowners_line_of [42, 32, 120] = Rule (parse_pattern [42]) [[120]]"
    by (simp add: codeowners_line_of_def strip_def unicode_space_def startswith_def)
  ultimately show "codeowners_rules [42, 32, 120] = [\<lparr>cr_line = 1, cr_pattern = parse_pattern [42], cr_owners = [[120]]\<rparr>]"
    "codeowners_warnings source [42, 32, 120] = []"
    by (simp_all add: codeowners_rules_def codeowners_warnings_def numbered_def List.map_filter_simps)
qed

lemma demo_matches: "pattern_matches (parse_pattern [42]) [97]"
proof -
  have strip: "strip [42] = [42]" by (simp add: strip_def unicode_space_def)
  have "parse_pattern [42] = \<lparr>pat_anchored = False, pat_segments = [parse_segment [42]]\<rparr>"
    by (simp add: parse_pattern_def strip Let_def endswith_def startswith_def removeprefix_def lstrip_char_def path_segments_def u_def)
  moreover have "pattern_matches \<lparr>pat_anchored = False, pat_segments = [parse_segment [42]]\<rparr> [97]" by code_simp
  ultimately show ?thesis by simp
qed

theorem codeowners_last_rule_witness:
  "\<exists>c. parse_codeowners (u ''CODEOWNERS'') [42, 32, 120] [[97]] = Inr ([c], []) \<and> ac_target c = [97]
     \<and> (\<exists>r \<in> set (codeowners_rules [42, 32, 120]). ac_owners c = normalize_owners (cr_owners r))"
proof -
  have decode: "utf8_decode [42, 32, 120] = Some [42, 32, 120]" by code_simp
  have owners: "normalize_owners [[120]] = [[120]]" by (simp add: normalize_owners_def strip_def unicode_space_def)
  have paths: "relative_target [97]" "relative_target (u ''CODEOWNERS'')" by code_simp+
  obtain c where run: "parse_codeowners (u ''CODEOWNERS'') [42, 32, 120] [[97]] = Inr ([c], [])"
    using demo_matches paths
    by (simp add: parse_codeowners_def decode demo_rule owned_claim_def matching_rules_def make_claim_def owners List.map_filter_simps
        del: utf8_decode.simps) (simp add: u_def)
  have "c \<in> set [c]" by simp
  then show ?thesis using run codeowners_last_rule [OF run decode, of c] by auto
qed

end
