(* ===== verification/Ownership.thy ===== *)
theory Ownership
  imports AuthorityClaims CatalogIndexes
begin

text \<open>
  Precedence of ownership claims (\<open>_resolve_precedence\<close> and \<open>_owner_conflicts\<close> of
  \<open>authority/resolver.py\<close>) and the claims of a whole snapshot. Claims are told apart by their position, as the code
  tells its objects apart by identity. The lemmas show that each target has at most one owner, of the
  strongest source, and that no dissenting claim is lost.
\<close>

subsection \<open>Conflicts\<close>

datatype governance_state = EffectiveState | ShadowedState | ConflictingState | MissingTargetState | UnverifiedState

fun governance_state_value :: "governance_state \<Rightarrow> ustr" where
  "governance_state_value EffectiveState = u ''effective''"
| "governance_state_value ShadowedState = u ''shadowed''"
| "governance_state_value ConflictingState = u ''conflicting''"
| "governance_state_value MissingTargetState = u ''missing-target''"
| "governance_state_value UnverifiedState = u ''unverified''"

record policy_conflict =
  pc_id :: ustr
  pc_policy :: ustr
  pc_role :: "ustr option"
  pc_role_label :: "ustr option"
  pc_binding :: ustr
  pc_competing :: "ustr list"
  pc_state :: governance_state
  pc_reason :: ustr
  pc_source_path :: ustr
  pc_source_line :: nat

definition text_within :: "nat \<Rightarrow> ustr \<Rightarrow> bool" where
  "text_within n s \<longleftrightarrow> s \<noteq> [] \<and> length s \<le> n"

definition opt_within :: "nat \<Rightarrow> ustr option \<Rightarrow> bool" where
  "opt_within n s \<longleftrightarrow> (case s of None \<Rightarrow> True | Some t \<Rightarrow> text_within n t)"

definition conflict_valid :: "policy_conflict \<Rightarrow> bool" where
  "conflict_valid k \<longleftrightarrow> text_within 128 (pc_id k) \<and> text_within 256 (pc_policy k) \<and> opt_within 128 (pc_role k)
     \<and> opt_within 256 (pc_role_label k) \<and> text_within 128 (pc_binding k) \<and> pc_competing k \<noteq> [] \<and> text_within 512 (pc_reason k)
     \<and> pc_source_path k \<noteq> [] \<and> relative_target (pc_source_path k) \<and> pc_source_line k \<ge> 1"

definition claim_json :: "authority_claim \<Rightarrow> json" where
  "claim_json c = JObj (map (\<lambda>(k, v). (u k, v))
     [(''target'', JStr (ac_target c)), (''owners'', JArr (map JStr (ac_owners c))), (''owner_kind'', JStr (owner_kind_value (ac_owner_kind c))),
      (''source_kind'', JStr (source_kind_value (ac_source_kind c))), (''source_path'', JStr (ac_source_path c)),
      (''source_line'', JInt (int (ac_source_line c)))])"

definition short_digest :: "'a evidence_env_scheme \<Rightarrow> ustr \<Rightarrow> json \<Rightarrow> ustr" where
  "short_digest env label payload = label @ take 24 (ee_digest env (ee_dumps env payload))"

definition owner_claim_id :: "'a evidence_env_scheme \<Rightarrow> authority_claim \<Rightarrow> ustr" where
  "owner_claim_id env c = short_digest env (u ''binding:'') (claim_json c)"

text \<open>The claims of a conflict come with whether they are of the top tier.\<close>

definition owner_conflict_id :: "'a evidence_env_scheme \<Rightarrow> ustr \<Rightarrow> ustr \<Rightarrow> ustr list \<Rightarrow> ustr" where
  "owner_conflict_id env kind target binding_ids = short_digest env (u ''conflict:'') (JObj (map (\<lambda>(k, v). (u k, v))
     [(''kind'', JStr kind), (''target'', JStr target), (''binding_ids'', JArr (map JStr (sort binding_ids)))]))"

definition owner_conflict ::
  "'a evidence_env_scheme \<Rightarrow> ustr \<Rightarrow> bool \<Rightarrow> ustr \<Rightarrow> (authority_claim \<times> bool) list \<Rightarrow> nat \<Rightarrow>
   (authority_error, policy_conflict \<times> authority_claim) result" where
  "owner_conflict env target same_tier reason claims i =
     (let binding_ids = map (\<lambda>(c, _). owner_claim_id env c) claims; (claim, upper) = claims ! i;
          k = \<lparr>pc_id = owner_conflict_id env (if same_tier then u ''same-tier'' else u ''shadowed'') target binding_ids,
               pc_policy = u ''ownership:'' @ target, pc_role = None, pc_role_label = None, pc_binding = binding_ids ! i,
               pc_competing = sort (take i binding_ids @ drop (Suc i) binding_ids),
               pc_state = (if upper \<and> same_tier then ConflictingState else if upper then EffectiveState else ShadowedState),
               pc_reason = reason, pc_source_path = ac_source_path claim, pc_source_line = ac_source_line claim\<rparr>
      in if conflict_valid k then Inr (k, claim) else Inl InvalidClaim)"

definition owner_conflicts ::
  "'a evidence_env_scheme \<Rightarrow> ustr \<Rightarrow> bool \<Rightarrow> ustr \<Rightarrow> (authority_claim \<times> bool) list \<Rightarrow>
   (authority_error, (policy_conflict \<times> authority_claim) list) result" where
  "owner_conflicts env target same_tier reason claims = map_err (owner_conflict env target same_tier reason claims) [0..<length claims]"

subsection \<open>Precedence\<close>

definition claim_precedence :: "authority_claim \<Rightarrow> nat" where
  "claim_precedence c = source_precedence (ac_source_kind c)"

definition highest_tier :: "authority_claim list \<Rightarrow> nat" where
  "highest_tier claims = Min (set (map claim_precedence claims))"

definition top_tier :: "authority_claim list \<Rightarrow> authority_claim list" where
  "top_tier claims = filter (\<lambda>c. claim_precedence c = highest_tier claims) claims"

definition winner_key :: "authority_claim \<Rightarrow> ustr \<times> nat \<times> ustr" where
  "winner_key c = (ac_source_path c, ac_source_line c, owner_kind_value (ac_owner_kind c))"

definition tier_winner :: "authority_claim list \<Rightarrow> authority_claim" where
  "tier_winner claims = hd (sort_key winner_key (top_tier claims))"

definition contradictory :: "authority_claim list \<Rightarrow> authority_claim list" where
  "contradictory claims =
     filter (\<lambda>c. claim_precedence c > highest_tier claims \<and> ac_owners c \<noteq> ac_owners (tier_winner claims)) claims"

definition resolve_target ::
  "'a evidence_env_scheme \<Rightarrow> ustr \<times> authority_claim list \<Rightarrow>
   (authority_error, authority_claim option \<times> (policy_conflict \<times> authority_claim) list) result" where
  "resolve_target env entry =
     (case entry of (target, claims) \<Rightarrow>
      if card (set (map ac_owners (top_tier claims))) > 1 then
        bind_err (owner_conflicts env target True (u ''same-tier owner claims disagree; no effective winner'')
          (map (\<lambda>c. (c, claim_precedence c = highest_tier claims)) claims)) (\<lambda>conflicts. Inr (None, conflicts))
      else if contradictory claims = [] then Inr (Some (tier_winner claims), [])
      else bind_err (owner_conflicts env target False (u ''lower-tier owner claim contradicts the effective owner'')
          ((tier_winner claims, True) # map (\<lambda>c. (c, False)) (contradictory claims))) (\<lambda>conflicts.
          Inr (Some (tier_winner claims), conflicts)))"

definition resolve_precedence ::
  "'a evidence_env_scheme \<Rightarrow> authority_claim list \<Rightarrow>
   (authority_error, authority_claim list \<times> (policy_conflict \<times> authority_claim) list) result" where
  "resolve_precedence env claims =
     bind_err (map_err (resolve_target env) (sort_key fst (group_rows ac_target claims))) (\<lambda>rows.
     Inr (List.map_filter fst rows, concat (map snd rows)))"

subsection \<open>What a target resolves to\<close>

lemma highest_tier_le: "c \<in> set claims \<Longrightarrow> highest_tier claims \<le> claim_precedence c"
  by (simp add: highest_tier_def)

lemma top_tier_nonempty: "claims \<noteq> [] \<Longrightarrow> top_tier claims \<noteq> []"
proof -
  assume "claims \<noteq> []"
  then have "highest_tier claims \<in> set (map claim_precedence claims)" unfolding highest_tier_def by (intro Min_in) auto
  then show ?thesis by (auto simp: top_tier_def filter_empty_conv)
qed

lemma tier_winner_mem:
  assumes "claims \<noteq> []"
  shows "tier_winner claims \<in> set (top_tier claims)"
proof -
  have "sort_key winner_key (top_tier claims) \<noteq> []" using top_tier_nonempty [OF assms] by (metis set_empty set_sort)
  then show ?thesis unfolding tier_winner_def by (metis hd_in_set set_sort)
qed

lemma owner_conflict_fields:
  assumes "owner_conflict env target same_tier reason claims i = Inr k" and "i < length claims"
  shows "pc_binding (fst k) = owner_claim_id env (fst (claims ! i)) \<and> pc_policy (fst k) = u ''ownership:'' @ target \<and> snd k = fst (claims ! i)
    \<and> pc_state (fst k) = (if snd (claims ! i) then if same_tier then ConflictingState else EffectiveState else ShadowedState)"
  using assms by (auto simp: owner_conflict_def Let_def case_prod_beta split: if_split_asm)

lemma owner_conflicts_each:
  assumes "owner_conflicts env target same_tier reason claims = Inr ks" and "(c, upper) \<in> set claims"
  shows "\<exists>k \<in> set ks. pc_binding (fst k) = owner_claim_id env c \<and> pc_policy (fst k) = u ''ownership:'' @ target \<and> snd k = c
    \<and> pc_state (fst k) = (if upper then if same_tier then ConflictingState else EffectiveState else ShadowedState)"
proof -
  obtain i where i: "i < length claims" "claims ! i = (c, upper)" using assms(2) by (auto simp: in_set_conv_nth)
  have "list_all2 (\<lambda>i k. owner_conflict env target same_tier reason claims i = Inr k) [0..<length claims] ks"
    using assms(1) by (simp add: owner_conflicts_def map_err_list_all2)
  then have "owner_conflict env target same_tier reason claims i = Inr (ks ! i)" "ks ! i \<in> set ks"
    using i(1) by (auto simp: list_all2_conv_all_nth)
  then show ?thesis using owner_conflict_fields [OF _ i(1)] i(2) by fastforce
qed

lemma one_owner_set:
  assumes "\<not> card (set (map ac_owners cs)) > 1" and "c \<in> set cs" and "d \<in> set cs"
  shows "ac_owners c = ac_owners d"
proof -
  have "card (set (map ac_owners cs)) \<le> Suc 0" using assms(1) by simp
  then have "\<forall>x \<in> set (map ac_owners cs). \<forall>y \<in> set (map ac_owners cs). x = y"
    by (rule iffD1 [OF card_le_Suc0_iff_eq [OF finite_set]])
  moreover have "ac_owners c \<in> set (map ac_owners cs)" "ac_owners d \<in> set (map ac_owners cs)" using assms(2,3) by simp_all
  ultimately show ?thesis by blast
qed

text \<open>A claim is answered by a winner with its owners, or by a conflict that carries it.\<close>

definition answered :: "authority_claim option \<Rightarrow> (policy_conflict \<times> authority_claim) list \<Rightarrow> authority_claim \<Rightarrow> bool" where
  "answered winner conflicts c \<longleftrightarrow>
     (\<exists>w. winner = Some w \<and> ac_owners w = ac_owners c)
     \<or> (\<exists>k. (k, c) \<in> set conflicts \<and> pc_policy k = u ''ownership:'' @ ac_target c \<and> pc_state k \<noteq> EffectiveState)"

lemma resolve_target_spec:
  assumes "resolve_target env (target, claims) = Inr (winner, conflicts)" and "claims \<noteq> []" and "\<forall>c \<in> set claims. ac_target c = target"
  shows "(\<forall>w. winner = Some w \<longrightarrow> w \<in> set claims \<and> (\<forall>c \<in> set claims. claim_precedence w \<le> claim_precedence c
            \<and> (claim_precedence c = claim_precedence w \<longrightarrow> ac_owners c = ac_owners w)))
    \<and> (winner = None \<longrightarrow> (\<exists>c \<in> set claims. \<exists>d \<in> set claims. claim_precedence c = claim_precedence d \<and> ac_owners c \<noteq> ac_owners d
            \<and> (\<forall>e \<in> set claims. claim_precedence c \<le> claim_precedence e)))
    \<and> (\<forall>c \<in> set claims. answered winner conflicts c)"
proof (cases "card (set (map ac_owners (top_tier claims))) > 1")
  case True
  obtain ks where ks: "owner_conflicts env target True (u ''same-tier owner claims disagree; no effective winner'')
      (map (\<lambda>c. (c, claim_precedence c = highest_tier claims)) claims) = Inr ks" "winner = None" "conflicts = ks"
    using assms(1) True by (auto simp: resolve_target_def)
  have "\<not> (\<forall>x \<in> set (map ac_owners (top_tier claims)). \<forall>y \<in> set (map ac_owners (top_tier claims)). x = y)"
    using True card_le_Suc0_iff_eq [of "set (map ac_owners (top_tier claims))"] by auto
  then obtain c d where "c \<in> set (top_tier claims)" "d \<in> set (top_tier claims)" "ac_owners c \<noteq> ac_owners d" by auto
  then have "c \<in> set claims" "d \<in> set claims" "claim_precedence c = claim_precedence d" "ac_owners c \<noteq> ac_owners d"
    "\<forall>e \<in> set claims. claim_precedence c \<le> claim_precedence e"
    using highest_tier_le by (simp_all add: top_tier_def)
  then have split: "\<exists>c \<in> set claims. \<exists>d \<in> set claims. claim_precedence c = claim_precedence d \<and> ac_owners c \<noteq> ac_owners d
      \<and> (\<forall>e \<in> set claims. claim_precedence c \<le> claim_precedence e)"
    by blast
  have "answered winner conflicts c" if c: "c \<in> set claims" for c
  proof -
    have "(c, claim_precedence c = highest_tier claims) \<in> set (map (\<lambda>c. (c, claim_precedence c = highest_tier claims)) claims)"
      using c by simp
    from owner_conflicts_each [OF ks(1) this] obtain k where
      "k \<in> set ks" "pc_policy (fst k) = u ''ownership:'' @ target" "snd k = c" "pc_state (fst k) \<noteq> EffectiveState" by auto
    moreover have "ac_target c = target" using assms(3) c by simp
    ultimately show ?thesis unfolding answered_def ks(3) by (metis prod.collapse)
  qed
  with split show ?thesis using ks(2) by simp
next
  case False
  have winner: "winner = Some (tier_winner claims)"
    using assms(1) False by (auto simp: resolve_target_def split: if_split_asm)
  have winner_top: "tier_winner claims \<in> set (top_tier claims)" by (rule tier_winner_mem [OF assms(2)])
  then have tier: "tier_winner claims \<in> set claims" "claim_precedence (tier_winner claims) = highest_tier claims"
    by (simp_all add: top_tier_def)
  have agree: "ac_owners c = ac_owners (tier_winner claims)" if "c \<in> set claims" "claim_precedence c = highest_tier claims" for c
    using one_owner_set [OF False _ winner_top, of c] that by (simp add: top_tier_def)
  have "answered winner conflicts c" if c: "c \<in> set claims" for c
  proof (cases "c \<in> set (contradictory claims)")
    case True
    then obtain ks where ks: "owner_conflicts env target False (u ''lower-tier owner claim contradicts the effective owner'')
          ((tier_winner claims, True) # map (\<lambda>c. (c, False)) (contradictory claims)) = Inr ks" "conflicts = ks"
      using assms(1) False by (auto simp: resolve_target_def split: if_split_asm)
    have "(c, False) \<in> set ((tier_winner claims, True) # map (\<lambda>c. (c, False)) (contradictory claims))" using True by simp
    from owner_conflicts_each [OF ks(1) this] obtain k where
      "k \<in> set ks" "pc_policy (fst k) = u ''ownership:'' @ target" "snd k = c" "pc_state (fst k) \<noteq> EffectiveState" by auto
    moreover have "ac_target c = target" using assms(3) c by simp
    ultimately show ?thesis unfolding answered_def ks(2) by (metis prod.collapse)
  next
    case False
    then have "ac_owners c = ac_owners (tier_winner claims)"
      using c agree [OF c] highest_tier_le [OF c] by (auto simp: contradictory_def)
    then show ?thesis using winner by (simp add: answered_def)
  qed
  moreover have "claim_precedence (tier_winner claims) \<le> claim_precedence c
      \<and> (claim_precedence c = claim_precedence (tier_winner claims) \<longrightarrow> ac_owners c = ac_owners (tier_winner claims))" if "c \<in> set claims" for c
    using agree [OF that] highest_tier_le [OF that] tier(2) by simp
  ultimately show ?thesis using winner tier(1) by simp
qed


lemma sorted_groups:
  "sorted_wrt (<) (map fst (sort_key fst (group_rows (key :: 'a \<Rightarrow> ustr) rows)))"
proof -
  have "map fst (sort_key fst (group_rows key rows)) = sort (map fst (group_rows key rows))" by (rule map_sort_key)
  then show ?thesis using dict_ok_group_rows [of key rows] by (simp add: dict_ok_def strict_sorted_iff)
qed

lemma group_entry:
  assumes "(target, members) \<in> set (sort_key fst (group_rows key rows))"
  shows "members = filter (\<lambda>r. key r = target) rows \<and> members \<noteq> []"
proof -
  have "map_of (group_rows key rows) target = Some members" using assms dict_ok_group_rows [of key rows] by (simp add: dict_ok_def)
  then show ?thesis by (simp add: group_rows_lookup split: if_split_asm)
qed

lemma winners_targets:
  assumes "list_all2 (\<lambda>e r. fst r = None \<or> (\<exists>w. fst r = Some w \<and> ac_target w = fst e)) entries results" and "sorted_wrt (<) (map fst entries)"
  shows "sorted_wrt (<) (map ac_target (List.map_filter fst results)) \<and> set (map ac_target (List.map_filter fst results)) \<subseteq> fst ` set entries"
  using assms
proof (induction rule: list_all2_induct)
  case Nil
  then show ?case by (simp add: List.map_filter_def)
next
  case (Cons e es r rs)
  then have "sorted_wrt (<) (map ac_target (List.map_filter fst rs))" "set (map ac_target (List.map_filter fst rs)) \<subseteq> fst ` set es"
    "\<forall>x \<in> fst ` set es. fst e < x" by auto
  moreover from this have "\<forall>x \<in> set (map ac_target (List.map_filter fst rs)). fst e < x" by blast
  ultimately show ?case using Cons.hyps(1) by (cases "fst r") (auto simp: List.map_filter_simps)
qed

text \<open>C11: Ownership has one answer for each target: the winners are in order of their targets, one for each; a winner is a claim
  of the strongest tier of its target, and all claims of that tier have its owners; a target without a
  winner has two disagreeing claims of the strongest tier; and every claim either has the owners of the
  winner of its target or is carried by a conflict, so that none is lost.
\<close>

theorem ownership_resolved:
  assumes "resolve_precedence env claims = Inr (winners, conflicts)"
  shows "sorted_wrt (<) (map ac_target winners)
    \<and> (\<forall>w \<in> set winners. w \<in> set claims \<and> (\<forall>c \<in> set claims. ac_target c = ac_target w \<longrightarrow>
          claim_precedence w \<le> claim_precedence c \<and> (claim_precedence c = claim_precedence w \<longrightarrow> ac_owners c = ac_owners w)))
    \<and> (\<forall>c \<in> set claims. (\<exists>w \<in> set winners. ac_target w = ac_target c) \<or>
          (\<exists>d \<in> set claims. \<exists>e \<in> set claims. ac_target d = ac_target c \<and> ac_target e = ac_target c
             \<and> claim_precedence d = claim_precedence e \<and> ac_owners d \<noteq> ac_owners e
             \<and> (\<forall>x \<in> set claims. ac_target x = ac_target c \<longrightarrow> claim_precedence d \<le> claim_precedence x)))
    \<and> (\<forall>c \<in> set claims. (\<exists>w \<in> set winners. ac_target w = ac_target c \<and> ac_owners w = ac_owners c)
          \<or> (\<exists>k. (k, c) \<in> set conflicts \<and> pc_policy k = u ''ownership:'' @ ac_target c \<and> pc_state k \<noteq> EffectiveState))"
proof -
  let ?entries = "sort_key fst (group_rows ac_target claims)"
  obtain rows where rows: "list_all2 (\<lambda>e r. resolve_target env e = Inr r) ?entries rows"
    and result: "winners = List.map_filter fst rows" "conflicts = concat (map snd rows)"
    using assms by (auto simp: resolve_precedence_def map_err_list_all2 [symmetric])
  have winner_row: "w \<in> set winners \<longleftrightarrow> (\<exists>r \<in> set rows. fst r = Some w)" for w
    unfolding result(1) by (force simp: List.map_filter_def)
  have entry: "snd e = filter (\<lambda>c. ac_target c = fst e) claims" "snd e \<noteq> []" if "e \<in> set ?entries" for e
    using group_entry [of "fst e" "snd e" ac_target claims, unfolded prod.collapse, OF that] by blast+
  have each: "(\<forall>w. fst r = Some w \<longrightarrow> w \<in> set (snd e) \<and> (\<forall>c \<in> set (snd e). claim_precedence w \<le> claim_precedence c
            \<and> (claim_precedence c = claim_precedence w \<longrightarrow> ac_owners c = ac_owners w)))
    \<and> (fst r = None \<longrightarrow> (\<exists>c \<in> set (snd e). \<exists>d \<in> set (snd e). claim_precedence c = claim_precedence d \<and> ac_owners c \<noteq> ac_owners d
            \<and> (\<forall>x \<in> set (snd e). claim_precedence c \<le> claim_precedence x)))
    \<and> (\<forall>c \<in> set (snd e). answered (fst r) (snd r) c)" if "e \<in> set ?entries" "resolve_target env e = Inr r" for e r
  proof -
    have "\<forall>c \<in> set (snd e). ac_target c = fst e" by (subst entry(1) [OF that(1)]) simp
    from resolve_target_spec [of env "fst e" "snd e" "fst r" "snd r", unfolded prod.collapse, OF that(2) entry(2) [OF that(1)] this]
    show ?thesis .
  qed
  have row_of: "\<exists>r \<in> set rows. resolve_target env e = Inr r" if "e \<in> set ?entries" for e
    by (rule list_all2_left [OF rows that])
  have entry_of: "\<exists>e \<in> set ?entries. resolve_target env e = Inr r" if "r \<in> set rows" for r
    by (rule list_all2_right [OF rows that])
  have claim_entry: "\<exists>e \<in> set ?entries. fst e = ac_target c" if "c \<in> set claims" for c
  proof -
    have "ac_target c \<in> fst ` set (group_rows ac_target claims)" using that by (simp add: group_rows_keys)
    then have "ac_target c \<in> fst ` set ?entries" by (simp only: set_sort)
    then show ?thesis by (metis imageE)
  qed
  have "list_all2 (\<lambda>e r. fst r = None \<or> (\<exists>w. fst r = Some w \<and> ac_target w = fst e)) ?entries rows"
    using rows
  proof (rule list.rel_mono_strong)
    fix e r
    assume "e \<in> set ?entries" "resolve_target env e = Inr r"
    with each [OF this] entry show "fst r = None \<or> (\<exists>w. fst r = Some w \<and> ac_target w = fst e)"
      by (cases "fst r") auto
  qed
  then have order: "sorted_wrt (<) (map ac_target winners)"
    unfolding result(1) using winners_targets sorted_groups by blast
  have strongest: "w \<in> set claims \<and> (\<forall>c \<in> set claims. ac_target c = ac_target w \<longrightarrow>
          claim_precedence w \<le> claim_precedence c \<and> (claim_precedence c = claim_precedence w \<longrightarrow> ac_owners c = ac_owners w))"
    if w: "w \<in> set winners" for w
  proof -
    obtain r where r: "r \<in> set rows" "fst r = Some w" using w winner_row by blast
    obtain e where e: "e \<in> set ?entries" "resolve_target env e = Inr r" using entry_of [OF r(1)] by blast
    have members: "set (snd e) = {d \<in> set claims. ac_target d = fst e}" using entry(1) [OF e(1)] by auto
    note facts = each [OF e, unfolded members]
    then have w_of: "ac_target w = fst e" "w \<in> set claims" using r(2) by blast+
    have "\<forall>c \<in> {d \<in> set claims. ac_target d = fst e}. claim_precedence w \<le> claim_precedence c
        \<and> (claim_precedence c = claim_precedence w \<longrightarrow> ac_owners c = ac_owners w)"
      using facts r(2) by blast
    then show ?thesis unfolding w_of(1) using w_of(2) by blast
  qed
  have settled: "(\<exists>w \<in> set winners. ac_target w = ac_target c) \<or>
          (\<exists>d \<in> set claims. \<exists>e \<in> set claims. ac_target d = ac_target c \<and> ac_target e = ac_target c
             \<and> claim_precedence d = claim_precedence e \<and> ac_owners d \<noteq> ac_owners e
             \<and> (\<forall>x \<in> set claims. ac_target x = ac_target c \<longrightarrow> claim_precedence d \<le> claim_precedence x))"
    and none_lost: "(\<exists>w \<in> set winners. ac_target w = ac_target c \<and> ac_owners w = ac_owners c)
          \<or> (\<exists>k. (k, c) \<in> set conflicts \<and> pc_policy k = u ''ownership:'' @ ac_target c \<and> pc_state k \<noteq> EffectiveState)"
    if c: "c \<in> set claims" for c
  proof -
    obtain e where e: "e \<in> set ?entries" "fst e = ac_target c" using claim_entry [OF c] by blast
    obtain r where r: "r \<in> set rows" "resolve_target env e = Inr r" using row_of [OF e(1)] by blast
    have members: "set (snd e) = {d \<in> set claims. ac_target d = ac_target c}" using entry(1) [OF e(1)] e(2) by auto
    note facts = each [OF e(1) r(2), unfolded members]
    show "(\<exists>w \<in> set winners. ac_target w = ac_target c) \<or>
          (\<exists>d \<in> set claims. \<exists>e \<in> set claims. ac_target d = ac_target c \<and> ac_target e = ac_target c
             \<and> claim_precedence d = claim_precedence e \<and> ac_owners d \<noteq> ac_owners e
             \<and> (\<forall>x \<in> set claims. ac_target x = ac_target c \<longrightarrow> claim_precedence d \<le> claim_precedence x))"
    proof (cases "fst r")
      case None
      then show ?thesis using facts by blast
    next
      case (Some w)
      then have "w \<in> set winners" "ac_target w = ac_target c" using winner_row r(1) facts by auto
      then show ?thesis by blast
    qed
    have "answered (fst r) (snd r) c" using facts c by blast
    moreover have "w \<in> set winners \<and> ac_target w = ac_target c" if "fst r = Some w" for w
      using winner_row r(1) facts that by auto
    moreover have "set (snd r) \<subseteq> set conflicts" unfolding result(2) using r(1) by auto
    ultimately show "(\<exists>w \<in> set winners. ac_target w = ac_target c \<and> ac_owners w = ac_owners c)
          \<or> (\<exists>k. (k, c) \<in> set conflicts \<and> pc_policy k = u ''ownership:'' @ ac_target c \<and> pc_state k \<noteq> EffectiveState)"
      unfolding answered_def by blast
  qed
  show ?thesis using order strongest settled none_lost by blast
qed

definition demo_claim :: "owner_source_kind \<Rightarrow> ustr \<Rightarrow> authority_claim" where
  "demo_claim kind owner = \<lparr>ac_target = u ''a'', ac_owners = [owner], ac_owner_kind = CanonicalOwner, ac_source_kind = kind,
     ac_source_path = u ''s'', ac_source_line = 1\<rparr>"

definition demo_evidence_env :: evidence_env where
  "demo_evidence_env = \<lparr>ee_digest = (\<lambda>_. u ''0a1b''), ee_dumps = (\<lambda>_. [])\<rparr>"

theorem ownership_resolved_witness:
  "\<exists>winners conflicts. resolve_precedence demo_evidence_env [demo_claim GitHistory (u ''x''), demo_claim ExplicitGovernance (u ''y'')] = Inr (winners, conflicts)
     \<and> winners \<noteq> [] \<and> conflicts \<noteq> [] \<and> sorted_wrt (<) (map ac_target winners)"
proof -
  have run: "(case resolve_precedence demo_evidence_env [demo_claim GitHistory (u ''x''), demo_claim ExplicitGovernance (u ''y'')] of
      Inr (winners, conflicts) \<Rightarrow> winners \<noteq> [] \<and> conflicts \<noteq> [] | _ \<Rightarrow> False)" by code_simp
  then obtain winners conflicts where r: "winners \<noteq> []" "conflicts \<noteq> []"
    "resolve_precedence demo_evidence_env [demo_claim GitHistory (u ''x''), demo_claim ExplicitGovernance (u ''y'')] = Inr (winners, conflicts)"
    by (auto split: sum.split_asm)
  from ownership_resolved [OF r(3)] show ?thesis using r by blast
qed

end
