(* ===== verification/GovernanceIds.thy ===== *)
theory GovernanceIds
  imports AuthorityFiles Ownership
begin

text \<open>
  Governance identifiers (\<open>contracts/governance.py\<close>) and the identifiers \<open>authority/governance.py\<close> derives from
  authored labels. \<open>str.casefold\<close> is an argument; \<open>str.lower\<close> is exact where its result is ASCII, which
  is all that decides an identifier. The lemmas show that every label has a valid role
  identifier.
\<close>

datatype governance_binding_kind = DeclaredBinding | EvidenceBinding

datatype governance_target_kind = AutoTarget | PathTarget | GlobTarget | ReferenceTarget

fun binding_kind_value :: "governance_binding_kind \<Rightarrow> ustr" where
  "binding_kind_value DeclaredBinding = u ''declared''"
| "binding_kind_value EvidenceBinding = u ''evidence''"

fun target_kind_value :: "governance_target_kind \<Rightarrow> ustr" where
  "target_kind_value AutoTarget = u ''auto''"
| "target_kind_value PathTarget = u ''path''"
| "target_kind_value GlobTarget = u ''glob''"
| "target_kind_value ReferenceTarget = u ''reference''"

definition is_lower_letter :: "nat \<Rightarrow> bool" where
  "is_lower_letter c \<longleftrightarrow> 97 \<le> c \<and> c \<le> 122"

definition lower_char :: "nat \<Rightarrow> nat" where
  "lower_char c = (if c < 128 then ascii_lower c else if c = 8490 then 107 else c)"

definition is_separator :: "nat \<Rightarrow> bool" where
  "is_separator c \<longleftrightarrow> c \<in> {45, 95, 46, 58}"

text \<open>The loop of \<open>_is_governance_identifier\<close>; the flag is \<open>previous_was_separator\<close>.\<close>

fun identifier_tail :: "bool \<Rightarrow> ustr \<Rightarrow> bool" where
  "identifier_tail after_separator [] \<longleftrightarrow> \<not> after_separator"
| "identifier_tail after_separator (c # cs) \<longleftrightarrow>
     (if is_lower_letter c \<or> is_ascii_digit c then identifier_tail False cs
      else is_separator c \<and> \<not> after_separator \<and> identifier_tail True cs)"

definition is_governance_identifier :: "ustr \<Rightarrow> bool" where
  "is_governance_identifier value \<longleftrightarrow> value \<noteq> [] \<and> is_lower_letter (hd value) \<and> identifier_tail False (tl value)"

definition governance_identifier :: "ustr \<Rightarrow> (authority_error, ustr) result" where
  "governance_identifier value =
     (let normalized = map lower_char (strip value) in if is_governance_identifier normalized then Inr normalized else Inl InvalidClaim)"

definition normalize_governance_identity :: "(ustr \<Rightarrow> ustr) \<Rightarrow> ustr \<Rightarrow> ustr" where
  "normalize_governance_identity casefolding value =
     join_with [32] (words_of [] (replace_char 45 32 (replace_char 95 32 (casefolding value))))"

subsection \<open>Labels\<close>

definition label_character :: "nat \<Rightarrow> bool" where
  "label_character c \<longleftrightarrow> is_lower_letter c \<or> is_ascii_digit c"

fun label_parts :: "ustr \<Rightarrow> ustr \<Rightarrow> ustr list" where
  "label_parts current [] = (if current = [] then [] else [current])"
| "label_parts current (c # cs) =
     (if label_character c then label_parts (current @ [c]) cs
      else if current = [] then label_parts [] cs else current # label_parts [] cs)"

definition normalized_label :: "(ustr \<Rightarrow> ustr) \<Rightarrow> ustr \<Rightarrow> ustr" where
  "normalized_label casefolding label = join_with [45] (label_parts [] (casefolding (strip label)))"

definition rstrip_char :: "nat \<Rightarrow> ustr \<Rightarrow> ustr" where
  "rstrip_char c s = rev (dropWhile (\<lambda>x. x = c) (rev s))"

text \<open>The text a role identifier is checked on; the digest is of the label's UTF-8.\<close>

definition role_text :: "(bytes \<Rightarrow> ustr) \<Rightarrow> (ustr \<Rightarrow> ustr) \<Rightarrow> ustr \<Rightarrow> ustr" where
  "role_text digest casefolding label =
     (let normalized = normalized_label casefolding label in
      if normalized = [] then u ''field-'' @ take 16 (digest (utf8 label))
      else if is_lower_letter (hd normalized) then normalized else u ''field-'' @ normalized)"

definition role_identifier :: "(bytes \<Rightarrow> ustr) \<Rightarrow> (ustr \<Rightarrow> ustr) \<Rightarrow> ustr \<Rightarrow> (authority_error, ustr) result" where
  "role_identifier digest casefolding label = governance_identifier (rstrip_char 45 (take 128 (role_text digest casefolding label)))"

definition is_ascii_alphanumeric :: "nat \<Rightarrow> bool" where
  "is_ascii_alphanumeric c \<longleftrightarrow> is_ascii_alpha c \<or> is_ascii_digit c"

definition is_authored_identifier :: "ustr \<Rightarrow> bool" where
  "is_authored_identifier value \<longleftrightarrow> 1 \<le> length value \<and> length value \<le> 256 \<and> is_ascii_alphanumeric (hd value)
     \<and> list_all (\<lambda>c. is_ascii_alphanumeric c \<or> c \<in> {95, 46, 58, 45}) (tl value)"

definition policy_id_of :: "(ustr \<Rightarrow> ustr) \<Rightarrow> ustr \<Rightarrow> ustr \<Rightarrow> ustr" where
  "policy_id_of casefolding source_id identity_value =
     (let authored = strip identity_value in
      if is_authored_identifier authored then authored else source_id @ 58 # normalize_governance_identity casefolding authored)"

subsection \<open>Every label has a role\<close>

definition hex_character :: "nat \<Rightarrow> bool" where
  "hex_character c \<longleftrightarrow> is_ascii_digit c \<or> 97 \<le> c \<and> c \<le> 102"

text \<open>Lower-case words joined by single dashes.\<close>

fun dashed :: "bool \<Rightarrow> ustr \<Rightarrow> bool" where
  "dashed after_dash [] \<longleftrightarrow> True"
| "dashed after_dash (c # cs) \<longleftrightarrow> (if c = 45 then \<not> after_dash \<and> dashed True cs else label_character c \<and> dashed False cs)"

lemma dashed_take: "dashed b s \<Longrightarrow> dashed b (take n s)"
proof (induction s arbitrary: b n)
  case (Cons c s)
  then show ?case by (cases n) (auto split: if_split_asm)
qed simp

lemma dashed_chars: "list_all label_character s \<Longrightarrow> dashed b s"
proof (induction s arbitrary: b)
  case (Cons c s)
  then have "c \<noteq> 45" by (auto simp: label_character_def is_lower_letter_def is_ascii_digit_def)
  with Cons show ?case by simp
qed simp

lemma dashed_append: "list_all label_character s \<Longrightarrow> s \<noteq> [] \<Longrightarrow> dashed False t \<Longrightarrow> dashed b (s @ t)"
proof (induction s arbitrary: b)
  case (Cons c s)
  then have "c \<noteq> 45" by (auto simp: label_character_def is_lower_letter_def is_ascii_digit_def)
  with Cons show ?case by (cases "s = []") auto
qed simp

lemma label_parts_ok:
  "list_all label_character current \<Longrightarrow> p \<in> set (label_parts current s) \<Longrightarrow> p \<noteq> [] \<and> list_all label_character p"
  by (induction current s rule: label_parts.induct) (auto split: if_split_asm)

lemma dashed_join:
  "\<forall>p \<in> set ps. p \<noteq> [] \<and> list_all label_character p \<Longrightarrow> dashed b (join_with [45] ps)"
proof (induction ps arbitrary: b)
  case (Cons p ps)
  show ?case
  proof (cases "ps = []")
    case True
    then show ?thesis using Cons.prems by (simp add: dashed_chars)
  next
    case False
    have "dashed True (join_with [45] ps)" by (rule Cons.IH) (use Cons.prems in simp)
    then have "dashed False (45 # join_with [45] ps)" by simp
    then have "dashed b (p @ 45 # join_with [45] ps)" using Cons.prems by (intro dashed_append) simp_all
    then show ?thesis using False by (simp add: join_with_Cons)
  qed
qed simp

lemma identifier_of_dashed: "dashed b s \<Longrightarrow> (s = [] \<Longrightarrow> \<not> b) \<Longrightarrow> (s \<noteq> [] \<Longrightarrow> last s \<noteq> 45) \<Longrightarrow> identifier_tail b s"
proof (induction s arbitrary: b)
  case (Cons c s)
  show ?case
  proof (cases "c = 45")
    case True
    then have "s \<noteq> []" using Cons.prems(3) by auto
    then have "identifier_tail True s" using Cons True by (intro Cons.IH) auto
    then show ?thesis using Cons.prems True by (auto simp: is_separator_def is_lower_letter_def is_ascii_digit_def)
  next
    case False
    then have "identifier_tail False s" using Cons by (intro Cons.IH) auto
    then show ?thesis using Cons.prems False by (auto simp: label_character_def)
  qed
qed simp

lemma last_rstrip: "rstrip_char c s \<noteq> [] \<Longrightarrow> last (rstrip_char c s) \<noteq> c"
proof -
  assume ne: "rstrip_char c s \<noteq> []"
  then have ne': "dropWhile (\<lambda>x. x = c) (rev s) \<noteq> []" by (simp add: rstrip_char_def)
  then have "hd (dropWhile (\<lambda>x. x = c) (rev s)) \<noteq> c" by (rule hd_dropWhile)
  then show ?thesis using ne' by (simp add: rstrip_char_def last_rev)
qed

lemma rstrip_is_take: "\<exists>n. rstrip_char c s = take n s"
proof -
  have "rev s = takeWhile (\<lambda>x. x = c) (rev s) @ dropWhile (\<lambda>x. x = c) (rev s)" by simp
  then have "s = rstrip_char c s @ rev (takeWhile (\<lambda>x. x = c) (rev s))"
    unfolding rstrip_char_def by (metis rev_append rev_rev_ident)
  then have "rstrip_char c s = take (length (rstrip_char c s)) s" by (metis append_eq_conv_conj)
  then show ?thesis by blast
qed

lemma hd_rstrip: "s \<noteq> [] \<Longrightarrow> hd s \<noteq> c \<Longrightarrow> rstrip_char c s \<noteq> [] \<and> hd (rstrip_char c s) = hd s"
proof (cases s)
  case (Cons x xs)
  assume "hd s \<noteq> c"
  then have x: "x \<noteq> c" using Cons by simp
  have "dropWhile (\<lambda>y. y = c) (rev xs @ [x]) = dropWhile (\<lambda>y. y = c) (rev xs) @ [x]"
    using x by (cases "\<forall>y \<in> set (rev xs). y = c") (auto simp: dropWhile_append1 dropWhile_append2 dropWhile_append)
  then show ?thesis using Cons by (simp add: rstrip_char_def)
qed simp

lemma letter_facts: "is_lower_letter c \<Longrightarrow> c \<noteq> 45" "is_lower_letter c \<Longrightarrow> label_character c"
  "label_character c \<Longrightarrow> c \<noteq> 45" "hex_character c \<Longrightarrow> label_character c"
  by (auto simp: label_character_def is_lower_letter_def is_ascii_digit_def hex_character_def)

lemma dashed_normalized: "dashed False (normalized_label casefolding label)"
proof -
  have "\<forall>p \<in> set (label_parts [] t). p \<noteq> [] \<and> list_all label_character p" for t
    using label_parts_ok [of "[]"] by auto
  then show ?thesis unfolding normalized_label_def by (rule dashed_join)
qed

lemma dashed_field: "dashed True s \<Longrightarrow> dashed False (u ''field-'' @ s)"
  by (simp add: u_def label_character_def is_lower_letter_def)

definition role_shape :: "ustr \<Rightarrow> bool" where
  "role_shape s \<longleftrightarrow> s \<noteq> [] \<and> is_lower_letter (hd s) \<and> dashed False s"

lemma role_shape_take: "role_shape s \<Longrightarrow> 0 < n \<Longrightarrow> role_shape (take n s)"
  by (auto simp: role_shape_def intro: dashed_take)

lemma role_shape_rstrip: "role_shape s \<Longrightarrow> role_shape (rstrip_char 45 s)"
  using rstrip_is_take [of 45 s] hd_rstrip [of s 45]
  by (auto simp: role_shape_def letter_facts intro: dashed_take)

lemma role_shape_text:
  assumes "list_all hex_character (digest (utf8 label))"
  shows "role_shape (role_text digest casefolding label)"
proof -
  let ?n = "normalized_label casefolding label"
  have n: "dashed b ?n" for b
  proof -
    have "\<forall>p \<in> set (label_parts [] t). p \<noteq> [] \<and> list_all label_character p" for t
      using label_parts_ok [of "[]"] by auto
    then show ?thesis unfolding normalized_label_def by (rule dashed_join)
  qed
  have hex: "list_all label_character (take 16 (digest (utf8 label)))"
    using assms by (auto simp: list_all_iff letter_facts dest: in_set_takeD)
  have field: "is_lower_letter (hd (u ''field-'' @ t))" "u ''field-'' @ t \<noteq> []" for t
    by (simp_all add: u_def is_lower_letter_def)
  show ?thesis
    using n hex field by (auto simp: role_text_def role_shape_def Let_def intro: dashed_field dashed_chars)
qed

lemma dashed_plain: "dashed b s \<Longrightarrow> list_all (\<lambda>c. label_character c \<or> c = 45) s"
  by (induction b s rule: dashed.induct) (auto split: if_split_asm)

lemma strip_plain: "list_all (\<lambda>c. \<not> unicode_space c) s \<Longrightarrow> strip s = s"
proof -
  have keep: "dropWhile unicode_space t = t" if "list_all (\<lambda>c. \<not> unicode_space c) t" for t
    using that by (cases t) auto
  assume "list_all (\<lambda>c. \<not> unicode_space c) s"
  then show ?thesis by (simp add: strip_def keep list_all_rev)
qed

lemma role_shape_identifier:
  assumes "role_shape s" "last s \<noteq> 45"
  shows "governance_identifier s = Inr s" "is_governance_identifier s"
proof -
  obtain c t where s: "s = c # t" using assms by (cases s) (auto simp: role_shape_def)
  have "dashed False t" using assms s by (simp add: role_shape_def letter_facts)
  then have "identifier_tail False t" using assms(2) s by (intro identifier_of_dashed) auto
  then show id: "is_governance_identifier s" using assms s by (simp add: is_governance_identifier_def role_shape_def)
  have chars: "list_all (\<lambda>c. label_character c \<or> c = 45) s" using assms by (auto simp: role_shape_def intro: dashed_plain)
  have "strip s = s"
    by (rule strip_plain) (use chars in \<open>auto simp: list_all_iff label_character_def is_lower_letter_def is_ascii_digit_def unicode_space_def\<close>)
  moreover have "map lower_char s = s"
    by (rule map_idI) (use chars in \<open>auto simp: list_all_iff label_character_def is_lower_letter_def is_ascii_digit_def lower_char_def ascii_lower_def\<close>)
  ultimately show "governance_identifier s = Inr s" using id by (simp add: governance_identifier_def)
qed

text \<open>C37: every authored table header has a role identifier: for a digest of hexadecimal digits and any
  case folding, \<open>role_identifier\<close> never reports an invalid identifier, and the identifier it returns
  satisfies the code's own grammar and has at most 128 characters, whatever the label (empty, symbols
  only, starting with a digit, longer than the limit or cut at a dash).\<close>

theorem role_identifier_defined:
  assumes "list_all hex_character (digest (utf8 label))"
  shows "\<exists>role. role_identifier digest casefolding label = Inr role \<and> is_governance_identifier role \<and> length role \<le> 128"
proof -
  let ?t = "take 128 (role_text digest casefolding label)" and ?r = "rstrip_char 45 (take 128 (role_text digest casefolding label))"
  have r: "role_shape ?r" using assms by (intro role_shape_rstrip role_shape_take role_shape_text) simp_all
  then have "last ?r \<noteq> 45" by (intro last_rstrip) (simp add: role_shape_def)
  moreover have "length ?r \<le> 128" using rstrip_is_take [of 45 ?t] by auto
  ultimately show ?thesis using role_shape_identifier [OF r] by (auto simp: role_identifier_def)
qed

theorem role_identifier_defined_witness:
  "\<exists>role. role_identifier (\<lambda>_. u ''0a1b'') (\<lambda>s. s) (u ''9 lives'') = Inr role \<and> is_governance_identifier role \<and> length role \<le> 128"
proof (rule role_identifier_defined)
  show "list_all hex_character (u ''0a1b'')" by (simp add: u_def hex_character_def is_ascii_digit_def)
qed

end
