(* ===== verification/GovernanceRecords.thy ===== *)
theory GovernanceRecords
  imports GovernanceIds
begin

text \<open>
  Configured governance sources (\<open>contracts/config.py\<close>) and the records read from them (the first half of
  \<open>authority/governance.py\<close>). The tokens of the Markdown parser, the structured parsers and \<open>repr\<close> are
  arguments; parsed objects have string keys, and dates and times carry their ISO text. The
  lemmas show that a record set carries the configured fields and that its hints are repository paths or look like
  paths.
\<close>

subsection \<open>Configuration\<close>

datatype record_selector = MarkdownTable ustr nat | StructuredRecords "ustr list"

record governance_relationship =
  gr_field :: ustr
  gr_target_kind :: governance_target_kind
  gr_role :: "ustr option"
  gr_required :: bool

record governance_source =
  gs_id :: ustr
  gs_path :: ustr
  gs_format :: ustr
  gs_selector :: record_selector
  gs_identity_field :: ustr
  gs_relationships :: "governance_relationship list"

fun selector_valid :: "record_selector \<Rightarrow> bool" where
  "selector_valid (MarkdownTable heading occurrence) \<longleftrightarrow> heading \<noteq> [] \<and> occurrence \<ge> 1"
| "selector_valid (StructuredRecords keys) \<longleftrightarrow> keys \<noteq> [] \<and> [] \<notin> set keys"

fun is_markdown_selector :: "record_selector \<Rightarrow> bool" where
  "is_markdown_selector (MarkdownTable _ _) \<longleftrightarrow> True"
| "is_markdown_selector (StructuredRecords _) \<longleftrightarrow> False"

definition relationship_valid :: "governance_relationship \<Rightarrow> bool" where
  "relationship_valid r \<longleftrightarrow> gr_field r \<noteq> [] \<and> gr_role r \<noteq> Some []"

definition source_valid :: "governance_source \<Rightarrow> bool" where
  "source_valid s \<longleftrightarrow> gs_id s \<noteq> [] \<and> gs_path s \<noteq> [] \<and> gs_format s \<in> {u ''markdown'', u ''json'', u ''yaml'', u ''toml''}
     \<and> selector_valid (gs_selector s) \<and> gs_identity_field s \<noteq> [] \<and> list_all relationship_valid (gs_relationships s)
     \<and> \<not> is_absolute (pure_path (gs_path s)) \<and> u ''..'' \<notin> set (pp_parts (pure_path (gs_path s))) \<and> 0 \<notin> set (gs_path s)
     \<and> is_markdown_selector (gs_selector s) = (gs_format s = u ''markdown'')
     \<and> distinct (map gr_field (gs_relationships s)) \<and> gs_identity_field s \<notin> set (map gr_field (gs_relationships s))"

definition governance_valid :: "governance_source list \<Rightarrow> bool" where
  "governance_valid sources \<longleftrightarrow> list_all source_valid sources \<and> distinct (map gs_id sources)"

subsection \<open>Markdown tables\<close>

record md_child =
  mc_type :: ustr
  mc_content :: ustr
  mc_href :: "ustr option"

record md_token =
  mt_type :: ustr
  mt_tag :: ustr
  mt_map :: "(nat \<times> nat) option"
  mt_content :: ustr
  mt_children :: "md_child list"

record markdown_cell =
  ce_text :: ustr
  ce_code :: "ustr list"
  ce_links :: "ustr list"
  ce_line :: nat

record md_heading =
  he_text :: ustr
  he_level :: nat
  he_line :: nat

record markdown_table =
  ta_heading :: "md_heading option"
  ta_headers :: "markdown_cell list"
  ta_rows :: "markdown_cell list list"

record md_state =
  ms_tables :: "markdown_table list"
  ms_heading :: "md_heading option"
  ms_pending :: "(nat \<times> nat \<times> nat) option"
  ms_headers :: "markdown_cell list"
  ms_rows :: "markdown_cell list list"
  ms_current :: "markdown_cell list option"
  ms_row_line :: nat
  ms_in_header :: bool
  ms_active :: bool

definition inline_text :: "md_token \<Rightarrow> ustr" where
  "inline_text t =
     (let visible = strip (concat (map (\<lambda>c.
            if mc_type c = u ''code_inline'' \<or> mc_type c = u ''text'' then mc_content c
            else if mc_type c = u ''softbreak'' \<or> mc_type c = u ''hardbreak'' then [32] else []) (mt_children t)))
      in if visible = [] then strip (mt_content t) else visible)"

definition first_line :: "nat \<Rightarrow> md_token \<Rightarrow> nat" where
  "first_line fallback t = (case mt_map t of None \<Rightarrow> fallback | Some (first, _) \<Rightarrow> first + 1)"

text \<open>\<open>int(token.tag[1:])\<close>; a heading's tag is \<open>h\<close> and a digit.\<close>

definition heading_level :: "ustr \<Rightarrow> nat" where
  "heading_level tag = (if startswith tag [104] then foldl (\<lambda>n c. 10 * n + (c - 48)) 0 (tl tag) else 1)"

definition token_cell :: "nat \<Rightarrow> md_token \<Rightarrow> markdown_cell" where
  "token_cell row_line t =
     \<lparr>ce_text = strip (mt_content t),
      ce_code = filter (\<lambda>s. s \<noteq> []) (map (\<lambda>c. strip (mc_content c)) (filter (\<lambda>c. mc_type c = u ''code_inline'') (mt_children t))),
      ce_links = filter (\<lambda>s. strip s \<noteq> []) (List.map_filter mc_href (filter (\<lambda>c. mc_type c = u ''link_open'') (mt_children t))),
      ce_line = first_line row_line t\<rparr>"

text \<open>The branches of the loop of \<open>_markdown_tables\<close>, in their order.\<close>

definition table_token :: "md_state \<Rightarrow> md_token \<Rightarrow> md_state" where
  "table_token st t =
     (if mt_type t = u ''heading_open'' then
        st\<lparr>ms_pending := Some (heading_level (mt_tag t), first_line 1 t,
             case mt_map t of None \<Rightarrow> first_line 1 t | Some (_, last_line) \<Rightarrow> last_line)\<rparr>
      else if mt_type t = u ''inline'' \<and> ms_pending st \<noteq> None then
        (case the (ms_pending st) of (level, start_line, _) \<Rightarrow>
          st\<lparr>ms_heading := Some \<lparr>he_text = inline_text t, he_level = level, he_line = start_line\<rparr>, ms_pending := None\<rparr>)
      else if mt_type t = u ''table_open'' then st\<lparr>ms_active := True, ms_headers := [], ms_rows := []\<rparr>
      else if mt_type t = u ''thead_open'' then st\<lparr>ms_in_header := True\<rparr>
      else if mt_type t = u ''thead_close'' then st\<lparr>ms_in_header := False\<rparr>
      else if mt_type t = u ''tr_open'' \<and> ms_active st then st\<lparr>ms_current := Some [], ms_row_line := first_line 1 t\<rparr>
      else if mt_type t = u ''inline'' \<and> ms_current st \<noteq> None then
        st\<lparr>ms_current := map_option (\<lambda>row. row @ [token_cell (ms_row_line st) t]) (ms_current st)\<rparr>
      else if mt_type t = u ''tr_close'' \<and> ms_current st \<noteq> None then
        (let row = the (ms_current st) in
         if ms_in_header st then st\<lparr>ms_headers := row, ms_current := None\<rparr>
         else st\<lparr>ms_rows := ms_rows st @ [row], ms_current := None\<rparr>)
      else if mt_type t = u ''table_close'' \<and> ms_active st then
        st\<lparr>ms_tables := ms_tables st @ [\<lparr>ta_heading = ms_heading st, ta_headers = ms_headers st, ta_rows = ms_rows st\<rparr>],
           ms_active := False\<rparr>
      else st)"

definition markdown_tables :: "md_token list \<Rightarrow> markdown_table list" where
  "markdown_tables tokens = ms_tables (foldl table_token
     \<lparr>ms_tables = [], ms_heading = None, ms_pending = None, ms_headers = [], ms_rows = [], ms_current = None, ms_row_line = 1,
      ms_in_header = False, ms_active = False\<rparr> tokens)"

subsection \<open>Targets\<close>

text \<open>\<open>PurePosixPath(candidate).extension\<close> is empty when the candidate is not a path with a extension.\<close>

definition looks_like_path :: "ustr \<Rightarrow> bool" where
  "looks_like_path target \<longleftrightarrow>
     (let candidate = takeWhile (\<lambda>c. c \<noteq> 35) target in
      \<not> sublist (u ''://'') target \<and> 10 \<notin> set target \<and> \<not> list_ex unicode_space candidate
      \<and> (startswith candidate [46] \<or> startswith candidate [47] \<or> 47 \<in> set candidate \<or> 92 \<in> set candidate
         \<or> contains_wildcard candidate \<or> path_suffix (pure_path candidate) \<noteq> []))"

definition path_token :: "ustr \<Rightarrow> ustr" where
  "path_token value = takeWhile (\<lambda>c. c \<noteq> 35) (removeprefix value (u ''./''))"

definition exact_path_targets :: "bool \<Rightarrow> bool \<Rightarrow> ustr \<Rightarrow> ustr list \<Rightarrow> ustr list" where
  "exact_path_targets include_unresolved assignment_value value all_paths =
     (let stripped = strip value;
          token = path_token (if assignment_value \<and> 61 \<in> set stripped then last (split_on 61 stripped) else stripped)
      in if resolve_paths token all_paths \<noteq> [] \<or> include_unresolved \<and> looks_like_path token then [token] else [])"

definition empty_cell_values :: "ustr set" where
  "empty_cell_values = {[], [45], [8212]}"

definition markdown_cell_targets :: "markdown_cell \<Rightarrow> ustr list \<Rightarrow> ustr list" where
  "markdown_cell_targets cell all_paths =
     first_unique
       (filter (\<lambda>t. t \<notin> empty_cell_values) (map (\<lambda>s. removeprefix (strip s) (u ''./'')) (ce_links cell @ ce_code cell))
        @ (if ce_links cell = [] \<and> ce_code cell = [] then exact_path_targets True False (ce_text cell) all_paths else []))"

lemma size_list_sum: "size_list f xs = sum_list (map (\<lambda>x. Suc (f x)) xs)"
  by (induction xs) simp_all

lemma values_weight: "(\<Sum>x\<leftarrow>d. Suc (size (snd x))) \<le> size_list (size_prod (\<lambda>_. 0) size) d"
  by (induction d) auto

text \<open>The loop of \<open>_string_values\<close>, with the top of its stack first: the children of a value are popped from the
  last to the first.\<close>

function string_values :: "json list \<Rightarrow> ustr list" where
  "string_values [] = []"
| "string_values (JStr s # stack) = s # string_values stack"
| "string_values (JObj d # stack) = string_values (rev (map snd d) @ stack)"
| "string_values (JArr xs # stack) = string_values (rev xs @ stack)"
| "string_values (JNull # stack) = string_values stack"
| "string_values (JBool b # stack) = string_values stack"
| "string_values (JInt i # stack) = string_values stack"
| "string_values (JFloat f # stack) = string_values stack"
| "string_values (JOther t # stack) = string_values stack"
  by pat_completeness auto

termination
proof (relation "measure (\<lambda>stack. \<Sum>v\<leftarrow>stack. Suc (size v))", goal_cases)
  case (3 d stack)
  show ?case using values_weight [of d] by (simp add: rev_map [symmetric] sum_list_rev o_def)
next
  case (4 xs stack)
  show ?case by (simp add: rev_map [symmetric] size_list_sum)
qed simp_all

definition structured_value_targets :: "json \<Rightarrow> ustr list \<Rightarrow> ustr list" where
  "structured_value_targets value all_paths =
     first_unique (concat (map (\<lambda>text. exact_path_targets True False text all_paths) (string_values [value])))"

subsection \<open>Values\<close>

definition strip_chars :: "nat set \<Rightarrow> ustr \<Rightarrow> ustr" where
  "strip_chars cs s = rev (dropWhile (\<lambda>c. c \<in> cs) (rev (dropWhile (\<lambda>c. c \<in> cs) s)))"

definition cell_value :: "markdown_cell \<Rightarrow> json" where
  "cell_value cell =
     (if ce_links cell \<noteq> [] then
        JObj [(u ''text'', JStr (ce_text cell)), (u ''links'', JArr (map JStr (ce_links cell))), (u ''code'', JArr (map JStr (ce_code cell)))]
      else if length (ce_code cell) = 1 \<and> strip_chars {96, 32} (ce_text cell) = ce_code cell ! 0 then JStr (ce_code cell ! 0)
      else if ce_code cell \<noteq> [] then JObj [(u ''text'', JStr (ce_text cell)), (u ''code'', JArr (map JStr (ce_code cell)))]
      else JStr (ce_text cell))"

fun display_value :: "json \<Rightarrow> ustr" where
  "display_value (JStr s) = strip_chars {96} (strip s)"
| "display_value (JBool b) = (if b then u ''True'' else u ''False'')"
| "display_value (JInt i) = show_int i"
| "display_value (JFloat t) = t"
| "display_value (JOther t) = t"
| "display_value (JObj d) = (case map_of d (u ''text'') of Some (JStr s) \<Rightarrow> strip s | _ \<Rightarrow> [])"
| "display_value JNull = []"
| "display_value (JArr xs) = []"

fun json_value :: "json \<Rightarrow> json" where
  "json_value (JOther t) = JStr t"
| "json_value (JObj d) = JObj (map (\<lambda>(k, v). (k, json_value v)) d)"
| "json_value (JArr xs) = JArr (map json_value xs)"
| "json_value v = v"

definition record_get :: "(ustr, json) dict \<Rightarrow> ustr \<Rightarrow> json" where
  "record_get r field = (case map_of r field of None \<Rightarrow> JNull | Some v \<Rightarrow> v)"

definition line_for_value :: "ustr \<Rightarrow> ustr \<Rightarrow> nat" where
  "line_for_value text value =
     (if value = [] then 1
      else case find (\<lambda>i. startswith (drop i text) value) [0..<Suc (length text)] of
        None \<Rightarrow> 1 | Some offset \<Rightarrow> length (filter (\<lambda>c. c = 10) (take offset text)) + 1)"

subsection \<open>Record sets\<close>

record record_set =
  rs_source :: governance_source
  rs_source_path :: ustr
  rs_source_line :: nat
  rs_source_heading :: "ustr option"
  rs_vocabulary :: "ustr list"
  rs_records :: "(ustr, json) dict list"
  rs_hints :: "(nat \<times> ustr, ustr list) dict"

record governance_env = authority_env +
  ge_repr :: "ustr \<Rightarrow> ustr"
  ge_casefold :: "ustr \<Rightarrow> ustr"
  ge_json :: "ustr \<Rightarrow> json option"
  ge_tokens :: "ustr \<Rightarrow> md_token list"

definition dict_from :: "('k \<times> 'v) list \<Rightarrow> ('k, 'v) dict" where
  "dict_from items = foldl (\<lambda>d (k, v). AList.update k v d) [] items"

definition missing_configured_fields :: "'a governance_env_scheme \<Rightarrow> governance_source \<Rightarrow> ustr list \<Rightarrow> ustr list" where
  "missing_configured_fields env source vocabulary =
     (if gs_identity_field source \<in> set vocabulary then []
      else [u ''governance_identity_field_missing: source '' @ ge_repr env (gs_id source) @ u '' names identity field ''
            @ ge_repr env (gs_identity_field source) @ u '', which the selected records do not carry''])
     @ map (\<lambda>r. u ''governance_relationship_field_missing: source '' @ ge_repr env (gs_id source) @ u '' names relationship field ''
            @ ge_repr env (gr_field r) @ u '', which the selected records do not carry'')
         (filter (\<lambda>r. gr_field r \<notin> set vocabulary) (gs_relationships source))"

text \<open>One pass over a row; the hints of a row are under its own index.\<close>

definition row_hints :: "ustr list \<Rightarrow> ustr list \<Rightarrow> nat \<times> markdown_cell list \<Rightarrow> ((nat \<times> ustr) \<times> ustr list) list" where
  "row_hints all_paths vocabulary entry =
     (case entry of (row_index, row) \<Rightarrow>
      List.map_filter (\<lambda>(field, cell). let targets = markdown_cell_targets cell all_paths in
          if targets = [] then None else Some ((row_index, field), targets)) (zip vocabulary row))"

definition enumerated :: "'a list \<Rightarrow> (nat \<times> 'a) list" where
  "enumerated xs = zip [0..<length xs] xs"

definition parser_failed :: "'a governance_env_scheme \<Rightarrow> governance_source \<Rightarrow> ustr \<Rightarrow> ustr" where
  "parser_failed env source reason =
     u ''governance_parser_failed: source '' @ ge_repr env (gs_id source) @ u '' at '' @ ge_repr env (gs_path source) @ reason"

definition table_records ::
  "'a governance_env_scheme \<Rightarrow> ustr list \<Rightarrow> governance_source \<Rightarrow> markdown_table \<Rightarrow> record_set option \<times> ustr list" where
  "table_records env all_paths source table =
     (let vocabulary = map (\<lambda>h. strip (ce_text h)) (ta_headers table);
          warnings = missing_configured_fields env source vocabulary;
          rows = filter (\<lambda>(_, row). length row = length vocabulary) (enumerated (ta_rows table))
      in if warnings \<noteq> [] then (None, warnings)
         else (Some \<lparr>rs_source = source, rs_source_path = gs_path source,
             rs_source_line = (if hd (ta_rows table) \<noteq> [] then ce_line (hd (hd (ta_rows table))) else ce_line (hd (ta_headers table))),
             rs_source_heading = map_option he_text (ta_heading table), rs_vocabulary = vocabulary,
             rs_records = map (\<lambda>(_, row). dict_from (zip vocabulary (map cell_value row))) rows,
             rs_hints = dict_from (concat (map (row_hints all_paths vocabulary) rows))\<rparr>, []))"

definition markdown_source_records ::
  "'a governance_env_scheme \<Rightarrow> ustr list \<Rightarrow> governance_source \<Rightarrow> ustr \<Rightarrow> nat \<Rightarrow> bytes \<Rightarrow> record_set option \<times> ustr list" where
  "markdown_source_records env all_paths source heading occurrence content =
     (case utf8_decode content of
        None \<Rightarrow> (None, [parser_failed env source (u '' is not UTF-8'')])
      | Some text \<Rightarrow>
          let wanted = strip heading;
              matching = filter (\<lambda>t. map_option (\<lambda>h. strip (he_text h)) (ta_heading t) = Some wanted) (markdown_tables (ge_tokens env text))
          in if length matching < occurrence then
               (None, [(if length matching > 1 \<and> occurrence = 1 then u ''governance_selector_ambiguous'' else u ''governance_selector_not_found'')
                  @ u '': source '' @ ge_repr env (gs_id source) @ u '' found '' @ u (show_nat (length matching))
                  @ u '' table(s) under heading '' @ ge_repr env wanted @ u '' in '' @ ge_repr env (gs_path source)
                  @ u '' but occurrence '' @ u (show_nat occurrence) @ u '' was requested''])
             else let table = matching ! (occurrence - 1) in
               if ta_headers table = [] \<or> ta_rows table = [] then
                 (None, [u ''governance_selector_not_found: source '' @ ge_repr env (gs_id source)
                    @ u '' selected an empty table under heading '' @ ge_repr env wanted @ u '' in '' @ ge_repr env (gs_path source)])
               else table_records env all_paths source table)"

definition parse_structured_content :: "'a governance_env_scheme \<Rightarrow> ustr \<Rightarrow> bytes \<Rightarrow> json option" where
  "parse_structured_content env extension content =
     Option.bind (utf8_decode content) (\<lambda>text.
       case (if extension = u ''.json'' then ge_json env text else if extension = u ''.toml'' then ae_toml env text else ae_yaml env text) of
         Some JNull \<Rightarrow> None | parsed \<Rightarrow> parsed)"

fun address :: "ustr list \<Rightarrow> json \<Rightarrow> json" where
  "address [] v = v"
| "address (key # keys) v = (case v of JObj d \<Rightarrow> address keys (record_get d key) | _ \<Rightarrow> JNull)"

text \<open>\<open>None\<close> is a value that is not a list of objects.\<close>

definition object_records :: "json \<Rightarrow> (ustr, json) dict list option" where
  "object_records v = want_list want_object v"

definition shared_vocabulary :: "(ustr, json) dict list \<Rightarrow> ustr list" where
  "shared_vocabulary records =
     (case records of [] \<Rightarrow> [] | r # rs \<Rightarrow> filter (\<lambda>field. list_all (\<lambda>q. field \<in> set (dict_keys q)) rs) (dict_keys r))"

definition first_identity :: "(ustr, json) dict list \<Rightarrow> ustr" where
  "first_identity records =
     (case List.map_filter (\<lambda>v. case v of JStr s \<Rightarrow> if strip s = [] then None else Some s | _ \<Rightarrow> None) (concat (map (map snd) records)) of
        [] \<Rightarrow> [] | s # _ \<Rightarrow> s)"

definition record_hints :: "ustr list \<Rightarrow> ustr list \<Rightarrow> nat \<times> (ustr, json) dict \<Rightarrow> ((nat \<times> ustr) \<times> ustr list) list" where
  "record_hints all_paths vocabulary entry =
     (case entry of (row_index, r) \<Rightarrow>
      List.map_filter (\<lambda>field. let targets = structured_value_targets (record_get r field) all_paths in
          if targets = [] then None else Some ((row_index, field), targets)) vocabulary)"

definition structured_source_records ::
  "'a governance_env_scheme \<Rightarrow> ustr list \<Rightarrow> governance_source \<Rightarrow> ustr list \<Rightarrow> bytes \<Rightarrow> record_set option \<times> ustr list" where
  "structured_source_records env all_paths source keys content =
     (case utf8_decode content of
        None \<Rightarrow> (None, [parser_failed env source (u '' is not UTF-8'')])
      | Some text \<Rightarrow> (case parse_structured_content env (46 # gs_format source) content of
          None \<Rightarrow> (None, [parser_failed env source (u '' did not parse as '' @ gs_format source)])
        | Some parsed \<Rightarrow> (case object_records (address keys parsed) of
            Some (r # rs) \<Rightarrow>
              let records = r # rs; vocabulary = shared_vocabulary records; warnings = missing_configured_fields env source vocabulary
              in if warnings \<noteq> [] then (None, warnings)
                 else (Some \<lparr>rs_source = source, rs_source_path = gs_path source,
                     rs_source_line = line_for_value text (first_identity records),
                     rs_source_heading = Some (join_with [46] keys), rs_vocabulary = vocabulary, rs_records = records,
                     rs_hints = dict_from (concat (map (record_hints all_paths vocabulary) (enumerated records)))\<rparr>, [])
          | _ \<Rightarrow> (None, [u ''governance_selector_not_found: source '' @ ge_repr env (gs_id source) @ u '' key path ''
                @ ge_repr env (join_with [46] keys) @ u '' in '' @ ge_repr env (gs_path source)
                @ u '' does not address a list of records'']))))"

definition source_records ::
  "'a governance_env_scheme \<Rightarrow> (ustr, bytes) dict \<Rightarrow> governance_source \<Rightarrow> record_set option \<times> ustr list" where
  "source_records env contents source =
     (case map_of contents (gs_path source) of
        None \<Rightarrow> (None, [u ''governance_source_missing: source '' @ ge_repr env (gs_id source) @ u '' names ''
           @ ge_repr env (gs_path source) @ u '', which is not in the workspace snapshot''])
      | Some content \<Rightarrow> (case gs_selector source of
          MarkdownTable heading occurrence \<Rightarrow> markdown_source_records env (dict_keys contents) source heading occurrence content
        | StructuredRecords keys \<Rightarrow> structured_source_records env (dict_keys contents) source keys content))"

definition discover_record_sets ::
  "'a governance_env_scheme \<Rightarrow> (ustr, bytes) dict \<Rightarrow> governance_source list \<Rightarrow> record_set list \<times> ustr list" where
  "discover_record_sets env contents sources =
     (List.map_filter (\<lambda>s. fst (source_records env contents s)) sources, concat (map (\<lambda>s. snd (source_records env contents s)) sources))"

subsection \<open>What a record set carries\<close>

definition carries_fields :: "record_set \<Rightarrow> bool" where
  "carries_fields rs \<longleftrightarrow> gs_identity_field (rs_source rs) \<in> set (rs_vocabulary rs)
     \<and> (\<forall>r \<in> set (gs_relationships (rs_source rs)). gr_field r \<in> set (rs_vocabulary rs))
     \<and> (\<forall>r \<in> set (rs_records rs). set (rs_vocabulary rs) \<subseteq> set (dict_keys r))"

lemma missing_none:
  "missing_configured_fields env source vocabulary = [] \<longleftrightarrow>
     gs_identity_field source \<in> set vocabulary \<and> (\<forall>r \<in> set (gs_relationships source). gr_field r \<in> set vocabulary)"
  by (auto simp: missing_configured_fields_def filter_empty_conv)

lemma keys_dict_from: "set (dict_keys (dict_from items)) = fst ` set items"
proof (induction items rule: rev_induct)
  case (snoc e items)
  then show ?case by (cases e) (simp add: dict_from_def keys_update_dict [simplified])
qed (simp add: dict_from_def)

lemma shared_vocabulary_keys: "r \<in> set records \<Longrightarrow> set (shared_vocabulary records) \<subseteq> set (dict_keys r)"
  by (cases records) (auto simp: shared_vocabulary_def list_all_iff intro: rev_image_eqI)

lemma table_records_carry:
  assumes "fst (table_records env all_paths source table) = Some rs"
  shows "rs_source rs = source \<and> carries_fields rs"
proof -
  let ?v = "map (\<lambda>h. strip (ce_text h)) (ta_headers table)"
  have none: "missing_configured_fields env source ?v = []"
    using assms by (auto simp: table_records_def Let_def split: if_split_asm)
  have rs: "rs_source rs = source" "rs_vocabulary rs = ?v"
    "\<And>r. r \<in> set (rs_records rs) \<Longrightarrow> \<exists>row. length row = length ?v \<and> r = dict_from (zip ?v (map cell_value row))"
    using assms none by (auto simp: table_records_def Let_def)
  have "set ?v \<subseteq> set (dict_keys r)" if r: "r \<in> set (rs_records rs)" for r
  proof -
    obtain row where "length row = length ?v" "r = dict_from (zip ?v (map cell_value row))" using rs(3) [OF r] by blast
    then show ?thesis by (simp only: keys_dict_from) (simp flip: set_map)
  qed
  then show ?thesis using none rs(1,2) by (auto simp: carries_fields_def missing_none)
qed

lemma markdown_records_carry:
  "fst (markdown_source_records env all_paths source heading occurrence content) = Some rs \<Longrightarrow> rs_source rs = source \<and> carries_fields rs"
  by (auto simp: markdown_source_records_def Let_def split: option.split_asm if_split_asm dest: table_records_carry)

lemma structured_records_carry:
  assumes "fst (structured_source_records env all_paths source keys content) = Some rs"
  shows "rs_source rs = source \<and> carries_fields rs"
proof -
  obtain records where records: "missing_configured_fields env source (shared_vocabulary records) = []"
    "rs_source rs = source" "rs_vocabulary rs = shared_vocabulary records" "rs_records rs = records"
    using assms by (auto simp: structured_source_records_def Let_def split: option.split_asm list.split_asm if_split_asm)
  then show ?thesis using shared_vocabulary_keys by (auto simp: carries_fields_def missing_none)
qed

text \<open>A source is read as a whole or not at all: every record set that is discovered comes from a configured source
  that is in the snapshot, names the identity field and every relationship field of that source in its vocabulary, and
  all of its records have a value for every field of the vocabulary; a source that lacks one of them gives no
  records but a warning.\<close>

theorem record_sets_carry_fields:
  assumes "rs \<in> set (fst (discover_record_sets env contents sources))"
  shows "rs_source rs \<in> set sources \<and> gs_path (rs_source rs) \<in> set (dict_keys contents) \<and> carries_fields rs"
proof -
  obtain s where s: "s \<in> set sources" "fst (source_records env contents s) = Some rs"
    using assms by (auto simp: discover_record_sets_def mem_map_filter)
  then obtain content where content: "map_of contents (gs_path s) = Some content"
    by (auto simp: source_records_def split: option.split_asm)
  then have path: "gs_path s \<in> set (dict_keys contents)" by (auto dest: map_of_SomeD intro: rev_image_eqI)
  have "rs_source rs = s \<and> carries_fields rs"
    using s content by (auto simp: source_records_def split: record_selector.split_asm
      dest: markdown_records_carry structured_records_carry)
  then show ?thesis using s path by simp
qed

definition demo_governance_env :: governance_env where
  "demo_governance_env =
     \<lparr>ee_digest = (\<lambda>_. u ''0a1b''), ee_dumps = (\<lambda>_. []), ae_json = (\<lambda>_. Inl JsonDecodeError), ae_toml = (\<lambda>_. None), ae_yaml = (\<lambda>_. None),
      ge_repr = (\<lambda>s. s), ge_casefold = (\<lambda>s. s),
      ge_json = (\<lambda>_. Some (JObj [(u ''rules'', JArr [JObj [(u ''id'', JStr (u ''R1'')), (u ''file'', JStr (u ''a.py''))]])])),
      ge_tokens = (\<lambda>_. [])\<rparr>"

definition demo_source :: governance_source where
  "demo_source =
     \<lparr>gs_id = u ''rules'', gs_path = u ''r.json'', gs_format = u ''json'', gs_selector = StructuredRecords [u ''rules''], gs_identity_field = u ''id'',
      gs_relationships = [\<lparr>gr_field = u ''file'', gr_target_kind = PathTarget, gr_role = None, gr_required = True\<rparr>]\<rparr>"

definition demo_contents :: "(ustr, bytes) dict" where
  "demo_contents = [(u ''r.json'', [123]), (u ''a.py'', [])]"

lemmas demo_governance_simps = demo_governance_env_def demo_source_def demo_contents_def u_def

lemma demo_strip: "strip (u ''R1'') = u ''R1''" "strip (u ''a.py'') = u ''a.py''"
  by (simp_all add: u_def strip_def unicode_space_def)

lemma demo_targets:
  "structured_value_targets (JStr (u ''R1'')) (dict_keys demo_contents) = []"
  "structured_value_targets (JStr (u ''a.py'')) (dict_keys demo_contents) = [u ''a.py'']"
proof -
  have token: "path_token (u ''R1'') = u ''R1''" "path_token (u ''a.py'') = u ''a.py''"
    by (simp_all add: path_token_def removeprefix_def startswith_def u_def)
  have resolved: "resolve_paths (u ''R1'') (dict_keys demo_contents) = []" "resolve_paths (u ''a.py'') (dict_keys demo_contents) = [u ''a.py'']"
    by (simp_all add: resolve_paths_def demo_contents_def contains_wildcard_def u_def)
  have plain: "\<not> looks_like_path (u ''R1'')"
    by (simp add: looks_like_path_def contains_wildcard_def startswith_def u_def path_suffix_def pure_path_def path_name_def)
  have targets: "exact_path_targets True False (u ''R1'') (dict_keys demo_contents) = []"
    "exact_path_targets True False (u ''a.py'') (dict_keys demo_contents) = [u ''a.py'']"
    by (simp_all add: exact_path_targets_def demo_strip token resolved plain Let_def)
  show "structured_value_targets (JStr (u ''R1'')) (dict_keys demo_contents) = []"
    "structured_value_targets (JStr (u ''a.py'')) (dict_keys demo_contents) = [u ''a.py'']"
    by (simp_all add: structured_value_targets_def targets first_unique_def)
qed

definition demo_records :: "(ustr, json) dict list" where
  "demo_records = [[(u ''id'', JStr (u ''R1'')), (u ''file'', JStr (u ''a.py''))]]"

definition demo_set :: record_set where
  "demo_set = \<lparr>rs_source = demo_source, rs_source_path = u ''r.json'', rs_source_line = 1, rs_source_heading = Some (u ''rules''),
     rs_vocabulary = [u ''id'', u ''file''], rs_records = demo_records, rs_hints = [((0, u ''file''), [u ''a.py''])]\<rparr>"

lemma demo_hints: "dict_from (concat (map (record_hints (dict_keys demo_contents) [u ''id'', u ''file'']) (enumerated demo_records))) = [((0, u ''file''), [u ''a.py''])]"
  using demo_targets by (simp add: dict_from_def record_hints_def enumerated_def demo_records_def record_get_def u_def List.map_filter_simps)

lemma demo_line: "line_for_value [123] (first_identity demo_records) = 1"
  by (simp add: line_for_value_def first_identity_def demo_records_def demo_strip List.map_filter_simps upt_rec startswith_def)

lemma demo_discover: "discover_record_sets demo_governance_env demo_contents [demo_source] = ([demo_set], [])"
proof -
  have decode: "utf8_decode [123] = Some [123]" by code_simp
  have parse: "parse_structured_content demo_governance_env (46 # u ''json'') [123] = Some (JObj [(u ''rules'', JArr (map JObj demo_records))])"
    by (simp add: parse_structured_content_def decode demo_governance_env_def demo_records_def u_def del: utf8_decode.simps)
  have objects: "object_records (address [u ''rules''] (JObj [(u ''rules'', JArr (map JObj demo_records))])) = Some demo_records"
    by (simp add: object_records_def record_get_def demo_records_def)
  have vocabulary: "shared_vocabulary demo_records = [u ''id'', u ''file'']" by (simp add: shared_vocabulary_def demo_records_def)
  have missing: "missing_configured_fields demo_governance_env demo_source [u ''id'', u ''file''] = []"
    by (simp add: missing_none demo_source_def)
  have "structured_source_records demo_governance_env (dict_keys demo_contents) demo_source [u ''rules''] [123] = (Some demo_set, [])"
    using demo_hints demo_line objects vocabulary missing parse
    by (simp del: utf8_decode.simps add: structured_source_records_def decode demo_set_def demo_source_def [THEN arg_cong [where f = gs_format]]
        demo_source_def [THEN arg_cong [where f = gs_path]] demo_records_def)
  then show ?thesis
    by (simp add: discover_record_sets_def source_records_def demo_contents_def demo_source_def [THEN arg_cong [where f = gs_path]]
        demo_source_def [THEN arg_cong [where f = gs_selector]] List.map_filter_simps)
qed

theorem record_sets_carry_fields_witness:
  "rs_source demo_set \<in> set [demo_source] \<and> gs_path (rs_source demo_set) \<in> set (dict_keys demo_contents) \<and> carries_fields demo_set"
  by (rule record_sets_carry_fields [of _ demo_governance_env]) (simp add: demo_discover)

end
