(* ===== verification/GovernanceClaims.thy ===== *)
theory GovernanceClaims
  imports GovernanceRecords
begin

text \<open>
  Policies and bindings of canonical records, and their resolution (\<open>PolicyClaim\<close> and \<open>PolicyBindingClaim\<close> of
  \<open>authority/contracts.py\<close>; \<open>_claims_for_record_set\<close>, \<open>_binding\<close>, \<open>_resolve_binding_claims\<close>,
  \<open>_consolidate_policies\<close> and \<open>policy_ids_for_selector\<close> of \<open>authority/governance.py\<close>). The lemmas show that resolution
  keeps every binding and changes the state of exactly those whose field is declared in several places, and that
  consolidation leaves one policy for each identifier.
\<close>

subsection \<open>Claims\<close>

datatype claim_basis = DeclaredBasis | ObservedBasis | ResolvedBasis | InferredBasis

record policy_claim =
  pl_id :: ustr
  pl_source_id :: ustr
  pl_title :: ustr
  pl_aliases :: "ustr list"
  pl_scope :: "ustr list"
  pl_required_roles :: "ustr list"
  pl_source_heading :: "ustr option"
  pl_identity_field :: ustr
  pl_identity_value :: ustr
  pl_vocabulary :: "ustr list"
  pl_attributes :: "(ustr, json) dict"
  pl_basis :: "ustr list"
  pl_score :: nat
  pl_source_kind :: owner_source_kind
  pl_source_path :: ustr
  pl_source_line :: nat
  pl_claim_basis :: claim_basis

record policy_binding =
  bd_id :: ustr
  bd_policy :: ustr
  bd_kind :: governance_binding_kind
  bd_role :: "ustr option"
  bd_role_label :: "ustr option"
  bd_target :: ustr
  bd_target_kind :: governance_target_kind
  bd_relationship :: ustr
  bd_attributes :: "(ustr, json) dict"
  bd_basis :: claim_basis
  bd_state :: governance_state
  bd_source_kind :: owner_source_kind
  bd_source_path :: ustr
  bd_source_line :: nat

text \<open>The validators \<open>_normalize_strings\<close> and \<open>_normalize_identifiers\<close>.\<close>

definition normalize_strings :: "ustr list \<Rightarrow> ustr list" where
  "normalize_strings items = first_unique (map strip (filter (\<lambda>s. strip s \<noteq> []) items))"

definition normalize_identifiers :: "ustr list \<Rightarrow> (authority_error, ustr list) result" where
  "normalize_identifiers items = bind_err (map_err governance_identifier items) (\<lambda>ids. Inr (sort (remdups ids)))"

definition policy_valid :: "policy_claim \<Rightarrow> bool" where
  "policy_valid p \<longleftrightarrow> text_within 256 (pl_id p) \<and> pl_source_id p \<noteq> [] \<and> text_within 512 (pl_title p) \<and> opt_within 512 (pl_source_heading p)
     \<and> text_within 256 (pl_identity_field p) \<and> text_within 1024 (pl_identity_value p) \<and> pl_vocabulary p \<noteq> [] \<and> pl_basis p \<noteq> []
     \<and> pl_score p \<ge> 1 \<and> pl_source_path p \<noteq> [] \<and> relative_target (pl_source_path p) \<and> pl_source_line p \<ge> 1"

definition make_policy :: "policy_claim \<Rightarrow> (authority_error, policy_claim) result" where
  "make_policy p =
     (if policy_valid p
      then bind_err (normalize_identifiers (pl_required_roles p)) (\<lambda>roles.
           Inr (p\<lparr>pl_aliases := normalize_strings (pl_aliases p), pl_scope := normalize_strings (pl_scope p), pl_required_roles := roles\<rparr>))
      else Inl InvalidClaim)"

definition binding_valid :: "policy_binding \<Rightarrow> bool" where
  "binding_valid b \<longleftrightarrow> text_within 128 (bd_id b) \<and> text_within 256 (bd_policy b) \<and> opt_within 128 (bd_role b) \<and> opt_within 256 (bd_role_label b)
     \<and> text_within 4096 (bd_target b) \<and> text_within 128 (bd_relationship b) \<and> bd_source_path b \<noteq> []
     \<and> relative_target (bd_source_path b) \<and> bd_source_line b \<ge> 1
     \<and> (if bd_kind b = DeclaredBinding then bd_role b \<noteq> None \<and> bd_role_label b \<noteq> None else bd_role b = None \<and> bd_role_label b = None)"

definition optional_identifier :: "ustr option \<Rightarrow> (authority_error, ustr option) result" where
  "optional_identifier value = (case value of None \<Rightarrow> Inr None | Some s \<Rightarrow> bind_err (governance_identifier s) (\<lambda>i. Inr (Some i)))"

definition make_policy_binding :: "policy_binding \<Rightarrow> (authority_error, policy_binding) result" where
  "make_policy_binding b =
     (if binding_valid b
      then bind_err (governance_identifier (bd_relationship b)) (\<lambda>relationship.
           bind_err (optional_identifier (bd_role b)) (\<lambda>role. Inr (b\<lparr>bd_relationship := relationship, bd_role := role\<rparr>)))
      else Inl InvalidClaim)"

subsection \<open>Bindings\<close>

definition target_state :: "ustr list \<Rightarrow> ustr \<Rightarrow> governance_target_kind \<Rightarrow> governance_state" where
  "target_state all_paths target kind =
     (if kind = ReferenceTarget then EffectiveState
      else if resolve_paths (takeWhile (\<lambda>c. c \<noteq> 35) target) all_paths \<noteq> [] then EffectiveState else MissingTargetState)"

definition target_kind_of :: "ustr \<Rightarrow> governance_target_kind" where
  "target_kind_of target = (if looks_like_path target then PathTarget else ReferenceTarget)"

definition binding_id ::
  "'a evidence_env_scheme \<Rightarrow> ustr \<Rightarrow> governance_binding_kind \<Rightarrow> ustr option \<Rightarrow> ustr \<Rightarrow> governance_target_kind \<Rightarrow> ustr \<Rightarrow> ustr \<Rightarrow> nat \<Rightarrow> ustr" where
  "binding_id env policy_id kind role target target_kind relationship source_path source_line =
     short_digest env (u ''binding:'') (JObj (map (\<lambda>(k, v). (u k, v))
       [(''policy_id'', JStr policy_id), (''binding_kind'', JStr (binding_kind_value kind)), (''role'', jstr_opt role), (''target'', JStr target),
        (''target_kind'', JStr (target_kind_value target_kind)), (''relationship'', JStr relationship), (''source_path'', JStr source_path),
        (''source_line'', JInt (int source_line))]))"

text \<open>\<open>_binding\<close>; its arguments come as a binding whose identifier and state are still to be given.\<close>

definition make_binding :: "'a evidence_env_scheme \<Rightarrow> ustr list \<Rightarrow> policy_binding \<Rightarrow> (authority_error, policy_binding) result" where
  "make_binding env all_paths b =
     (let target = strip (bd_target b) in
      bind_err (governance_identifier (bd_relationship b)) (\<lambda>relationship.
      make_policy_binding (b\<lparr>bd_id := binding_id env (bd_policy b) (bd_kind b) (bd_role b) target (bd_target_kind b) relationship
            (bd_source_path b) (bd_source_line b),
         bd_target := target, bd_relationship := relationship, bd_state := target_state all_paths target (bd_target_kind b)\<rparr>)))"

subsection \<open>Canonical records\<close>

definition relationship_role :: "'a governance_env_scheme \<Rightarrow> governance_relationship \<Rightarrow> (authority_error, ustr) result" where
  "relationship_role env r =
     (case gr_role r of
        Some role \<Rightarrow> if role = [] then role_identifier (ee_digest env) (ge_casefold env) (gr_field r) else Inr role
      | None \<Rightarrow> role_identifier (ee_digest env) (ge_casefold env) (gr_field r))"

definition configured_target_kind :: "governance_relationship \<Rightarrow> ustr \<Rightarrow> governance_target_kind" where
  "configured_target_kind r target = (if gr_target_kind r \<noteq> AutoTarget then gr_target_kind r else target_kind_of target)"

text \<open>Both returns of \<open>_record_line\<close> are the same.\<close>

definition record_line :: "record_set \<Rightarrow> nat \<Rightarrow> nat" where
  "record_line rs row_index = rs_source_line rs + row_index"

definition hints_of :: "record_set \<Rightarrow> nat \<Rightarrow> ustr \<Rightarrow> ustr list" where
  "hints_of rs row_index field = (case map_of (rs_hints rs) (row_index, field) of None \<Rightarrow> [] | Some targets \<Rightarrow> targets)"

definition record_attributes :: "record_set \<Rightarrow> (ustr, json) dict \<Rightarrow> (ustr, json) dict" where
  "record_attributes rs r = dict_from (map (\<lambda>field. (field, json_value (record_get r field))) (rs_vocabulary rs))"

text \<open>The bindings of one relationship of a record, or the warning that a required one has no target.\<close>

definition relationship_bindings ::
  "'a governance_env_scheme \<Rightarrow> ustr list \<Rightarrow> record_set \<Rightarrow> nat \<Rightarrow> (ustr, json) dict \<Rightarrow> policy_claim \<Rightarrow> governance_relationship \<Rightarrow>
   (authority_error, policy_binding list \<times> ustr list) result" where
  "relationship_bindings env all_paths rs row_index r policy relationship =
     (let targets = hints_of rs row_index (gr_field relationship) in
      if targets = [] then
        Inr ([], if gr_required relationship
                 then [u ''governance_relationship_field_missing: '' @ rs_source_path rs @ u '':'' @ u (show_nat (record_line rs row_index))
                    @ u '': record '' @ ge_repr env (pl_identity_value policy) @ u '' declares no resolvable target for required field ''
                    @ ge_repr env (gr_field relationship)] else [])
      else bind_err (map_err (\<lambda>target. bind_err (relationship_role env relationship) (\<lambda>role.
             make_binding env all_paths
               \<lparr>bd_id = [], bd_policy = pl_id policy, bd_kind = DeclaredBinding, bd_role = Some role, bd_role_label = Some (gr_field relationship),
                bd_target = target, bd_target_kind = configured_target_kind relationship target, bd_relationship = u ''declared'',
                bd_attributes = record_attributes rs r, bd_basis = DeclaredBasis, bd_state = EffectiveState,
                bd_source_kind = ExplicitGovernance, bd_source_path = rs_source_path rs,
                bd_source_line = record_line rs row_index\<rparr>)) targets) (\<lambda>bindings. Inr (bindings, [])))"

definition record_policy ::
  "'a governance_env_scheme \<Rightarrow> record_set \<Rightarrow> ustr list \<Rightarrow> nat \<Rightarrow> (ustr, json) dict \<Rightarrow> ustr \<Rightarrow> policy_claim" where
  "record_policy env rs required_roles row_index r identity_value =
     \<lparr>pl_id = policy_id_of (ge_casefold env) (gs_id (rs_source rs)) identity_value, pl_source_id = gs_id (rs_source rs),
      pl_title = identity_value, pl_aliases = [], pl_scope = [], pl_required_roles = required_roles,
      pl_source_heading = rs_source_heading rs, pl_identity_field = gs_identity_field (rs_source rs), pl_identity_value = identity_value,
      pl_vocabulary = rs_vocabulary rs, pl_attributes = record_attributes rs r, pl_basis = [u ''configured:'' @ gs_id (rs_source rs)],
      pl_score = 1, pl_source_kind = ExplicitGovernance, pl_source_path = rs_source_path rs,
      pl_source_line = record_line rs row_index, pl_claim_basis = DeclaredBasis\<rparr>"

record governance_claim_env = governance_env +
  gc_error :: "policy_claim \<Rightarrow> ustr"

text \<open>One pass of the loop over the records; \<open>gc_error\<close> is the text of the \<open>ValidationError\<close>.\<close>

definition claims_for_record ::
  "'a governance_claim_env_scheme \<Rightarrow> ustr list \<Rightarrow> record_set \<Rightarrow> ustr list \<Rightarrow> nat \<times> (ustr, json) dict \<Rightarrow>
   (authority_error, policy_claim list \<times> policy_binding list \<times> ustr list) result" where
  "claims_for_record env all_paths rs required_roles entry =
     (case entry of (row_index, r) \<Rightarrow>
      let source = rs_source rs; identity_value = display_value (record_get r (gs_identity_field source)) in
      if identity_value = [] then
        Inr ([], [], [u ''governance_record_identity_missing: '' @ rs_source_path rs @ u '':'' @ u (show_nat (rs_source_line rs))
          @ u '': record has no value for '' @ ge_repr env (gs_identity_field source)])
      else let candidate = record_policy env rs required_roles row_index r identity_value in
        case make_policy candidate of
          Inl _ \<Rightarrow> Inr ([], [], [rs_source_path rs @ u '':'' @ u (show_nat (record_line rs row_index)) @ u '': invalid canonical record: ''
            @ gc_error env candidate])
        | Inr policy \<Rightarrow> bind_err (map_err (relationship_bindings env all_paths rs row_index r policy) (gs_relationships source)) (\<lambda>rows.
            Inr ([policy], concat (map fst rows), concat (map snd rows))))"

definition claims_for_record_set ::
  "'a governance_claim_env_scheme \<Rightarrow> ustr list \<Rightarrow> record_set \<Rightarrow>
   (authority_error, policy_claim list \<times> policy_binding list \<times> ustr list) result" where
  "claims_for_record_set env all_paths rs =
     bind_err (map_err (relationship_role env) (filter gr_required (gs_relationships (rs_source rs)))) (\<lambda>required_roles.
     bind_err (map_err (claims_for_record env all_paths rs required_roles) (enumerated (rs_records rs))) (\<lambda>rows.
     Inr (concat (map fst rows), concat (map (fst \<circ> snd) rows), concat (map (snd \<circ> snd) rows))))"

subsection \<open>Consolidation\<close>

definition policy_winner_key :: "policy_claim \<Rightarrow> int \<times> ustr \<times> nat" where
  "policy_winner_key p = (- int (pl_score p), pl_source_path p, pl_source_line p)"

definition consolidate :: "ustr \<times> policy_claim list \<Rightarrow> policy_claim" where
  "consolidate entry =
     (case entry of (_, claims) \<Rightarrow>
      let winner = hd (sort_key policy_winner_key claims) in
      winner\<lparr>pl_aliases := first_unique (filter (\<lambda>v. v \<noteq> pl_title winner) (concat (map (\<lambda>c. [pl_title c, pl_identity_value c]) claims))),
             pl_scope := first_unique (map pl_source_path claims),
             pl_required_roles := sort (remdups (concat (map pl_required_roles claims))),
             pl_basis := first_unique (concat (map pl_basis claims)),
             pl_score := Max (set (map pl_score claims))\<rparr>)"

definition consolidate_policies :: "policy_claim list \<Rightarrow> policy_claim list" where
  "consolidate_policies claims = map consolidate (sort_key fst (group_rows pl_id claims))"

definition policy_ids_for_selector ::
  "(ustr \<Rightarrow> ustr) \<Rightarrow> policy_claim list \<Rightarrow> policy_binding list \<Rightarrow> ustr \<Rightarrow> ustr list" where
  "policy_ids_for_selector casefolding policies bindings selector =
     (let exact_ids = filter (\<lambda>i. i = selector) (map pl_id policies);
          path_ids = map pl_id (filter (\<lambda>p. pl_source_path p = selector \<or> selector \<in> set (pl_scope p)) policies)
            @ map bd_policy (filter (\<lambda>b. bd_source_path b = selector \<or> bd_target b = selector) bindings);
          normal = normalize_governance_identity casefolding
      in if exact_ids \<noteq> [] then exact_ids
         else if path_ids \<noteq> [] then sort (remdups path_ids)
         else sort (map pl_id (filter (\<lambda>p. normal selector \<in> set (map normal (pl_title p # pl_identity_value p # pl_aliases p))) policies)))"

subsection \<open>Resolution\<close>

definition unique_bindings :: "policy_binding list \<Rightarrow> (ustr, policy_binding) dict" where
  "unique_bindings bindings = index_rows bd_id bindings"

definition binding_domain :: "policy_binding \<Rightarrow> ustr \<times> ustr" where
  "binding_domain b = (bd_policy b, or_empty (bd_role_label b))"

definition declaration_site :: "policy_binding \<Rightarrow> ustr \<times> nat" where
  "declaration_site b = (bd_source_path b, bd_source_line b)"

definition binding_signature :: "policy_binding \<Rightarrow> ustr \<times> ustr \<times> ustr" where
  "binding_signature b = (bd_target b, target_kind_value (bd_target_kind b), bd_relationship b)"

definition binding_precedence :: "policy_binding \<Rightarrow> nat" where
  "binding_precedence b = source_precedence (bd_source_kind b)"

definition binding_conflict_id :: "'a evidence_env_scheme \<Rightarrow> ustr \<Rightarrow> ustr \<times> ustr \<Rightarrow> policy_binding list \<Rightarrow> ustr" where
  "binding_conflict_id env kind domain claims =
     short_digest env (u ''conflict:'') (JObj (map (\<lambda>(k, v). (u k, v))
       [(''kind'', JStr kind), (''domain'', JArr [JStr (fst domain), JStr (snd domain)]), (''binding_ids'', JArr (map JStr (sort (map bd_id claims))))]))"

definition conflict_claim ::
  "ustr \<Rightarrow> policy_binding \<Rightarrow> ustr list \<Rightarrow> governance_state \<Rightarrow> ustr \<Rightarrow> (authority_error, policy_conflict) result" where
  "conflict_claim conflict_id claim competing_ids state reason =
     (let k = \<lparr>pc_id = conflict_id, pc_policy = bd_policy claim, pc_role = bd_role claim, pc_role_label = bd_role_label claim,
            pc_binding = bd_id claim, pc_competing = filter (\<lambda>i. i \<noteq> bd_id claim) competing_ids, pc_state = state, pc_reason = reason,
            pc_source_path = bd_source_path claim, pc_source_line = bd_source_line claim\<rparr>
      in if conflict_valid k then Inr k else Inl InvalidClaim)"

type_synonym site_claims = "((ustr \<times> nat) \<times> policy_binding list) list"

definition agreeing :: "site_claims \<Rightarrow> bool" where
  "agreeing declarations \<longleftrightarrow> card (set (map (\<lambda>(_, members). set (map binding_signature members)) declarations)) = 1"

definition winning_site :: "site_claims \<Rightarrow> ustr \<times> nat" where
  "winning_site declarations = fst (hd (sort_key (\<lambda>(site, members). (Min (set (map binding_precedence members)), site)) declarations))"

definition decided_state :: "site_claims \<Rightarrow> policy_binding \<Rightarrow> governance_state" where
  "decided_state declarations claim =
     (if \<not> agreeing declarations then ConflictingState
      else if declaration_site claim = winning_site declarations then bd_state claim else ShadowedState)"

definition decided_reason :: "site_claims \<Rightarrow> policy_binding \<Rightarrow> ustr" where
  "decided_reason declarations claim =
     (if \<not> agreeing declarations then u ''canonical sources disagree for the same authored field role''
      else if declaration_site claim = winning_site declarations
           then u ''canonical sources redundantly declare the same field relationship''
           else u ''redundant canonical declaration; keep one source of truth'')"

text \<open>The decisions of one domain: each claim with its state, and its conflict.\<close>

definition domain_decisions ::
  "'a evidence_env_scheme \<Rightarrow> (ustr \<times> ustr) \<times> policy_binding list \<Rightarrow> (authority_error, (policy_binding \<times> policy_conflict) list) result" where
  "domain_decisions env entry =
     (case entry of (domain, claims) \<Rightarrow>
      let declarations = group_rows declaration_site claims in
      if length declarations < 2 then Inr []
      else map_err (\<lambda>claim. bind_err
             (conflict_claim (binding_conflict_id env (if agreeing declarations then u ''redundant'' else u ''conflicting'') domain claims) claim
               (sort (map bd_id claims)) (decided_state declarations claim) (decided_reason declarations claim))
             (\<lambda>k. Inr (claim\<lparr>bd_state := decided_state declarations claim\<rparr>, k)))
           (concat (map snd (sort_key fst declarations))))"

definition binding_order :: "policy_binding \<Rightarrow> ustr \<times> ustr \<times> ustr \<times> ustr \<times> ustr \<times> ustr \<times> nat" where
  "binding_order b = (bd_policy b, binding_kind_value (bd_kind b), or_empty (bd_role b), bd_relationship b, bd_target b,
     bd_source_path b, bd_source_line b)"

definition declared_bindings :: "policy_binding list \<Rightarrow> policy_binding list" where
  "declared_bindings bindings = filter (\<lambda>b. bd_kind b = DeclaredBinding) (map snd (unique_bindings bindings))"

definition resolve_binding_claims ::
  "'a evidence_env_scheme \<Rightarrow> policy_binding list \<Rightarrow> (authority_error, policy_binding list \<times> policy_conflict list) result" where
  "resolve_binding_claims env bindings =
     bind_err (map_err (domain_decisions env) (sort_key fst (group_rows binding_domain (declared_bindings bindings)))) (\<lambda>rows.
     let decisions = concat rows; resolved = foldl (\<lambda>d (b, _). AList.update (bd_id b) b d) (unique_bindings bindings) decisions in
     Inr (sort_key binding_order (map snd resolved), sort_key (\<lambda>k. (pc_id k, pc_binding k)) (map snd decisions)))"

subsection \<open>One policy for each identifier\<close>

lemma hd_sort_key:
  assumes "xs \<noteq> []"
  shows "hd (sort_key f xs) \<in> set xs" "x \<in> set xs \<Longrightarrow> f (hd (sort_key f xs)) \<le> f x"
proof -
  have ne: "sort_key f xs \<noteq> []" using assms by (metis length_0_conv length_sort)
  then show "hd (sort_key f xs) \<in> set xs" using hd_in_set [OF ne] by simp
  assume "x \<in> set xs"
  then have "f x \<in> set (map f (sort_key f xs))" by simp
  then show "f (hd (sort_key f xs)) \<le> f x"
    using sorted_sort_key [of f xs] ne by (cases "sort_key f xs") (auto simp: )
qed

lemma consolidate_id:
  assumes "(k, cs) \<in> set (sort_key fst (group_rows pl_id claims))"
  shows "pl_id (consolidate (k, cs)) = k"
proof -
  have "cs = filter (\<lambda>c. pl_id c = k) claims" "cs \<noteq> []" using group_entry [OF assms] by blast+
  then have "pl_id (hd (sort_key policy_winner_key cs)) = k" using hd_sort_key(1) [of cs policy_winner_key] by auto
  then show ?thesis by (simp add: consolidate_def Let_def)
qed

text \<open>Records with the same identifier become one policy: the consolidated policies are strictly ordered by
  identifier and have exactly the identifiers of the records; each shows the record that comes first by score, path
  and line, and has the roles and, in their order, the source paths of all records with its identifier.\<close>

theorem consolidate_one_per_id:
  assumes "p \<in> set (consolidate_policies claims)"
  shows "sorted_wrt (<) (map pl_id (consolidate_policies claims)) \<and> set (map pl_id (consolidate_policies claims)) = set (map pl_id claims)
    \<and> pl_scope p = first_unique (map pl_source_path (filter (\<lambda>c. pl_id c = pl_id p) claims))
    \<and> set (pl_required_roles p) = (\<Union>c \<in> {c \<in> set claims. pl_id c = pl_id p}. set (pl_required_roles c))
    \<and> (\<exists>c \<in> set claims. pl_id c = pl_id p \<and> pl_title p = pl_title c \<and> pl_attributes p = pl_attributes c
         \<and> pl_source_path p = pl_source_path c \<and> pl_source_line p = pl_source_line c
         \<and> (\<forall>d \<in> set claims. pl_id d = pl_id p \<longrightarrow> policy_winner_key c \<le> policy_winner_key d))"
proof (intro conjI)
  let ?groups = "sort_key fst (group_rows pl_id claims)"
  have ids: "map pl_id (consolidate_policies claims) = map fst ?groups"
    unfolding consolidate_policies_def map_map by (rule map_cong [OF refl]) (metis comp_apply consolidate_id prod.collapse)
  show "sorted_wrt (<) (map pl_id (consolidate_policies claims))" unfolding ids by (rule sorted_groups)
  show "set (map pl_id (consolidate_policies claims)) = set (map pl_id claims)"
    unfolding ids by (simp add: group_rows_keys)
  obtain k cs where kcs: "(k, cs) \<in> set ?groups" "p = consolidate (k, cs)"
    using assms unfolding consolidate_policies_def by (metis (no_types) imageE list.set_map surj_pair)
  then have cs: "cs = filter (\<lambda>c. pl_id c = k) claims" "cs \<noteq> []" and k: "pl_id p = k"
    using group_entry [OF kcs(1)] consolidate_id [OF kcs(1)] kcs(2) by blast+
  show "pl_scope p = first_unique (map pl_source_path (filter (\<lambda>c. pl_id c = pl_id p) claims))"
    unfolding k unfolding kcs(2) consolidate_def Let_def cs(1) by simp
  show "set (pl_required_roles p) = (\<Union>c \<in> {c \<in> set claims. pl_id c = pl_id p}. set (pl_required_roles c))"
    unfolding k unfolding kcs(2) consolidate_def Let_def cs(1) by auto
  show "\<exists>c \<in> set claims. pl_id c = pl_id p \<and> pl_title p = pl_title c \<and> pl_attributes p = pl_attributes c
         \<and> pl_source_path p = pl_source_path c \<and> pl_source_line p = pl_source_line c
         \<and> (\<forall>d \<in> set claims. pl_id d = pl_id p \<longrightarrow> policy_winner_key c \<le> policy_winner_key d)"
  proof (rule bexI [of _ "hd (sort_key policy_winner_key cs)"])
    have win: "hd (sort_key policy_winner_key cs) \<in> set cs" by (rule hd_sort_key) (rule cs(2))
    then show "hd (sort_key policy_winner_key cs) \<in> set claims" using cs(1) by simp
    have "policy_winner_key (hd (sort_key policy_winner_key cs)) \<le> policy_winner_key d" if "d \<in> set claims" "pl_id d = k" for d
      by (rule hd_sort_key) (use cs that in auto)
    then show "pl_id (hd (sort_key policy_winner_key cs)) = pl_id p \<and> pl_title p = pl_title (hd (sort_key policy_winner_key cs))
      \<and> pl_attributes p = pl_attributes (hd (sort_key policy_winner_key cs))
      \<and> pl_source_path p = pl_source_path (hd (sort_key policy_winner_key cs))
      \<and> pl_source_line p = pl_source_line (hd (sort_key policy_winner_key cs))
      \<and> (\<forall>d \<in> set claims. pl_id d = pl_id p \<longrightarrow> policy_winner_key (hd (sort_key policy_winner_key cs)) \<le> policy_winner_key d)"
      using win cs(1) k unfolding kcs(2) by (simp add: consolidate_def Let_def)
  qed
qed

subsection \<open>Resolution keeps the bindings\<close>

definition contested :: "policy_binding list \<Rightarrow> policy_binding \<Rightarrow> bool" where
  "contested bindings b \<longleftrightarrow> bd_kind b = DeclaredBinding
     \<and> list_ex (\<lambda>c. binding_domain c = binding_domain b \<and> declaration_site c \<noteq> declaration_site b) (declared_bindings bindings)"

lemma unique_ids: "fst ` set (unique_bindings bindings) = bd_id ` set bindings" "dict_ok (unique_bindings bindings)"
proof -
  have "fst ` set (fold (\<lambda>row. AList.update (bd_id row) row) bs d) = fst ` set d \<union> bd_id ` set bs
      \<and> (dict_ok d \<longrightarrow> dict_ok (fold (\<lambda>row. AList.update (bd_id row) row) bs d))" for d :: "(ustr, policy_binding) dict" and bs
    by (induction bs arbitrary: d) (auto simp: keys_update_dict)
  from this [of bindings "[]"] show "fst ` set (unique_bindings bindings) = bd_id ` set bindings" "dict_ok (unique_bindings bindings)"
    by (simp_all add: unique_bindings_def index_rows_def)
qed

lemma unique_lookup: "map_of (unique_bindings bindings) i = Some b \<Longrightarrow> b \<in> set bindings \<and> bd_id b = i"
proof -
  assume "map_of (unique_bindings bindings) i = Some b"
  then have "find (\<lambda>r. bd_id r = i) (rev bindings) = Some b" by (simp add: unique_bindings_def index_rows_lookup)
  then have "b \<in> set (rev bindings) \<and> bd_id b = i" unfolding find_Some_iff by (metis nth_mem)
  then show ?thesis by simp
qed

lemma unique_bindings_mem: "b \<in> set (map snd (unique_bindings bindings)) \<longleftrightarrow> map_of (unique_bindings bindings) (bd_id b) = Some b"
proof
  assume "b \<in> set (map snd (unique_bindings bindings))"
  then obtain i where "(i, b) \<in> set (unique_bindings bindings)" by auto
  then have i: "map_of (unique_bindings bindings) i = Some b" using map_of_dict_ok [OF unique_ids(2)] by blast
  then show "map_of (unique_bindings bindings) (bd_id b) = Some b" using unique_lookup [OF i] by simp
qed (auto dest!: map_of_SomeD intro: rev_image_eqI)

lemma group_count: "length (group_rows key rows) = card (key ` set rows)"
proof -
  have "distinct (map fst (group_rows key rows))" using dict_ok_group_rows by (simp add: dict_ok_def)
  from distinct_card [OF this] show ?thesis by (simp add: group_rows_keys)
qed

lemma group_members: "set (concat (map snd (sort_key fst (group_rows key rows)))) = set rows"
proof -
  have "set_mset (mset (concat (map snd (group_rows key rows)))) = set_mset (mset rows)" by (simp only: group_rows_mset)
  then show ?thesis by simp
qed

lemma several_groups: "x \<in> set rows \<Longrightarrow> length (group_rows key rows) < 2 \<longleftrightarrow> (\<forall>y \<in> set rows. key y = key x)"
proof -
  assume x: "x \<in> set rows"
  have "card (key ` set rows) < 2 \<longleftrightarrow> card (key ` set rows) \<le> Suc 0" by auto
  also have "\<dots> \<longleftrightarrow> (\<forall>a \<in> key ` set rows. \<forall>b \<in> key ` set rows. a = b)" by (rule card_le_Suc0_iff_eq) simp
  also have "\<dots> \<longleftrightarrow> (\<forall>y \<in> set rows. key y = key x)"
  proof (intro iffI ballI)
    fix y assume all: "\<forall>a \<in> key ` set rows. \<forall>b \<in> key ` set rows. a = b" and y: "y \<in> set rows"
    show "key y = key x" by (rule bspec [OF bspec [OF all]]) (rule imageI [OF y], rule imageI [OF x])
  next
    fix a b assume all: "\<forall>y \<in> set rows. key y = key x" and ab: "a \<in> key ` set rows" "b \<in> key ` set rows"
    obtain y z where yz: "y \<in> set rows" "a = key y" "z \<in> set rows" "b = key z" using ab by blast
    show "a = b" unfolding yz(2,4) bspec [OF all yz(1)] bspec [OF all yz(3)] by (rule refl)
  qed
  finally show ?thesis by (simp only: group_count)
qed

text \<open>
  What the claims of one field decide. All sites of a field agree when their claims have the same targets;
  then the site of the strongest source wins, the least of them.
\<close>

definition site_targets :: "policy_binding list \<Rightarrow> policy_binding \<Rightarrow> (ustr \<times> ustr \<times> ustr) set" where
  "site_targets claims a = binding_signature ` {c \<in> set claims. declaration_site c = declaration_site a}"

definition at_winning_site :: "policy_binding list \<Rightarrow> policy_binding \<Rightarrow> bool" where
  "at_winning_site claims a \<longleftrightarrow> (\<forall>c \<in> set claims. \<exists>x \<in> set claims. declaration_site x = declaration_site a
     \<and> (binding_precedence x, declaration_site a) \<le> (binding_precedence c, declaration_site c))"

definition field_state :: "policy_binding list \<Rightarrow> policy_binding \<Rightarrow> governance_state" where
  "field_state claims a =
     (if \<exists>c \<in> set claims. site_targets claims c \<noteq> site_targets claims a then ConflictingState
      else if at_winning_site claims a then bd_state a else ShadowedState)"

lemma group_row_mem: "(k, members) \<in> set (group_rows key rows) \<longleftrightarrow> k \<in> key ` set rows \<and> members = filter (\<lambda>r. key r = k) rows"
  unfolding map_of_dict_ok [OF dict_ok_group_rows, symmetric] group_rows_lookup by (auto simp: filter_empty_conv)

lemma group_rows_set: "set (group_rows key rows) = (\<lambda>r. (key r, filter (\<lambda>s. key s = key r) rows)) ` set rows"
proof -
  have "e \<in> set (group_rows key rows) \<longleftrightarrow> e \<in> (\<lambda>r. (key r, filter (\<lambda>s. key s = key r) rows)) ` set rows" for e
    by (cases e) (auto simp: group_row_mem)
  then show ?thesis by blast
qed

lemma agreeing_iff:
  assumes "a \<in> set claims"
  shows "agreeing (group_rows declaration_site claims) \<longleftrightarrow> (\<forall>c \<in> set claims. site_targets claims c = site_targets claims a)"
proof -
  have "set (map (\<lambda>(_, members). set (map binding_signature members)) (group_rows declaration_site claims)) = site_targets claims ` set claims"
    by (simp add: group_rows_set image_image site_targets_def)
  then have "agreeing (group_rows declaration_site claims) \<longleftrightarrow> is_singleton (site_targets claims ` set claims)"
    by (simp only: agreeing_def is_singleton_altdef)
  also have "\<dots> \<longleftrightarrow> (\<forall>c \<in> set claims. site_targets claims c = site_targets claims a)"
  proof
    assume "is_singleton (site_targets claims ` set claims)"
    then obtain x where x: "site_targets claims ` set claims = {x}" by (rule is_singletonE)
    have "site_targets claims c = x" if "c \<in> set claims" for c
      using imageI [OF that, of "site_targets claims"] unfolding x by (rule singletonD)
    then show "\<forall>c \<in> set claims. site_targets claims c = site_targets claims a" using assms by blast
  next
    assume same: "\<forall>c \<in> set claims. site_targets claims c = site_targets claims a"
    have "site_targets claims ` set claims = (\<lambda>_. site_targets claims a) ` set claims"
      by (rule image_cong [OF refl]) (rule bspec [OF same])
    also have "\<dots> = {site_targets claims a}" by (rule image_constant [OF assms])
    finally show "is_singleton (site_targets claims ` set claims)" by simp
  qed
  finally show ?thesis .
qed

lemma winning_iff:
  assumes "a \<in> set claims"
  shows "declaration_site a = winning_site (group_rows declaration_site claims) \<longleftrightarrow> at_winning_site claims a"
proof -
  let ?groups = "group_rows declaration_site claims"
  let ?key = "\<lambda>(site, members). (Min (set (map binding_precedence members)), site)"
  have "?groups \<noteq> []" using assms group_row_mem [of "declaration_site a" _ declaration_site claims] by force
  note least = hd_sort_key [OF this, where f = ?key]
  obtain w members where w: "hd (sort_key ?key ?groups) = (w, members)" by fastforce
  have win: "winning_site ?groups = w" unfolding winning_site_def w by (rule fst_conv)
  have in_groups: "(declaration_site c, filter (\<lambda>x. declaration_site x = declaration_site c) claims) \<in> set ?groups" if "c \<in> set claims" for c
    using that by (simp add: group_row_mem)
  have low: "?key (declaration_site c, filter (\<lambda>x. declaration_site x = declaration_site c) claims) \<le> (binding_precedence c, declaration_site c)"
    if "c \<in> set claims" for c
    using that by (simp add: less_eq_prod_def)
  have attained: "\<exists>x \<in> set claims. declaration_site x = declaration_site c
      \<and> ?key (declaration_site c, filter (\<lambda>x. declaration_site x = declaration_site c) claims) = (binding_precedence x, declaration_site c)"
    if "c \<in> set claims" for c
  proof -
    let ?xs = "filter (\<lambda>x. declaration_site x = declaration_site c) claims"
    have "set (map binding_precedence ?xs) \<noteq> {}" using that by auto
    then have "Min (set (map binding_precedence ?xs)) \<in> set (map binding_precedence ?xs)" by (intro Min_in) simp_all
    then obtain x where "x \<in> set ?xs" "Min (set (map binding_precedence ?xs)) = binding_precedence x" by auto
    then show ?thesis by auto
  qed
  have w_mem: "(w, members) \<in> set ?groups" using least(1) w by simp
  then obtain c where c: "c \<in> set claims" "w = declaration_site c" "members = filter (\<lambda>x. declaration_site x = declaration_site c) claims"
    by (auto simp: group_row_mem)
  show ?thesis
  proof
    assume "declaration_site a = winning_site ?groups"
    then have a: "declaration_site a = declaration_site c" using win c(2) by simp
    obtain x where x: "x \<in> set claims" "declaration_site x = declaration_site c" "?key (w, members) = (binding_precedence x, declaration_site c)"
      using attained [OF c(1)] c(2,3) by blast
    have "(binding_precedence x, declaration_site a) \<le> (binding_precedence d, declaration_site d)" if d: "d \<in> set claims" for d
      using least(2) [OF in_groups [OF d]] low [OF d] unfolding w x(3) a by (rule order_trans)
    then show "at_winning_site claims a" unfolding at_winning_site_def using x(1,2) a by auto
  next
    assume win_a: "at_winning_site claims a"
    obtain y where y: "y \<in> set claims" "declaration_site y = declaration_site c" "?key (w, members) = (binding_precedence y, declaration_site c)"
      using attained [OF c(1)] c(2,3) by blast
    obtain x where x: "x \<in> set claims" "declaration_site x = declaration_site a"
        "(binding_precedence x, declaration_site a) \<le> (binding_precedence y, declaration_site y)"
      using win_a y(1) unfolding at_winning_site_def by blast
    have "?key (declaration_site a, filter (\<lambda>z. declaration_site z = declaration_site a) claims) \<le> ?key (w, members)"
      using low [OF x(1)] x(2,3) unfolding y(3) y(2) [symmetric] by (simp only: x(2))
    moreover have "?key (w, members) \<le> ?key (declaration_site a, filter (\<lambda>z. declaration_site z = declaration_site a) claims)"
      using least(2) [OF in_groups [OF assms]] unfolding w .
    ultimately have "?key (w, members) = ?key (declaration_site a, filter (\<lambda>z. declaration_site z = declaration_site a) claims)"
      by (rule antisym [rotated])
    then show "declaration_site a = winning_site ?groups" unfolding win by simp
  qed
qed

lemma decided_state_iff: "a \<in> set claims \<Longrightarrow> decided_state (group_rows declaration_site claims) a = field_state claims a"
  unfolding decided_state_def field_state_def agreeing_iff winning_iff by auto

text \<open>What one domain decides.\<close>

lemma domain_decisions_mem:
  assumes "domain_decisions env (domain, claims) = Inr row"
  shows "(b, k) \<in> set row \<Longrightarrow> \<exists>a \<in> set claims. b = a\<lparr>bd_state := field_state claims a\<rparr> \<and> pc_binding k = bd_id b \<and> pc_state k = bd_state b
      \<and> (\<exists>c \<in> set claims. declaration_site c \<noteq> declaration_site a)"
    and "a \<in> set claims \<Longrightarrow> c \<in> set claims \<Longrightarrow> declaration_site c \<noteq> declaration_site a \<Longrightarrow> \<exists>b k. (b, k) \<in> set row \<and> bd_id b = bd_id a"
proof -
  let ?d = "group_rows declaration_site claims"
  let ?members = "concat (map snd (sort_key fst ?d))"
  let ?decide = "\<lambda>claim. bind_err
             (conflict_claim (binding_conflict_id env (if agreeing ?d then u ''redundant'' else u ''conflicting'') domain claims) claim
               (sort (map bd_id claims)) (decided_state ?d claim) (decided_reason ?d claim))
             (\<lambda>k. Inr (claim\<lparr>bd_state := decided_state ?d claim\<rparr>, k))"
  have row: "length ?d < 2 \<and> row = [] \<or> \<not> length ?d < 2 \<and> list_all2 (\<lambda>a r. ?decide a = Inr r) ?members row"
    using assms unfolding domain_decisions_def Let_def prod.case map_err_list_all2 [symmetric] by (auto split: if_split_asm)
  have decided: "\<exists>k. r = (a\<lparr>bd_state := decided_state ?d a\<rparr>, k) \<and> pc_binding k = bd_id a \<and> pc_state k = decided_state ?d a"
    if "?decide a = Inr r" for a r
    using that by (auto simp: conflict_claim_def Let_def split: if_split_asm)
  show "\<exists>a \<in> set claims. b = a\<lparr>bd_state := field_state claims a\<rparr> \<and> pc_binding k = bd_id b \<and> pc_state k = bd_state b
      \<and> (\<exists>c \<in> set claims. declaration_site c \<noteq> declaration_site a)" if bk: "(b, k) \<in> set row"
  proof -
    from row bk have many: "\<not> length ?d < 2" and all2: "list_all2 (\<lambda>a r. ?decide a = Inr r) ?members row" by auto
    obtain a where a: "a \<in> set ?members" "?decide a = Inr (b, k)" using list_all2_right [OF all2 bk] by blast
    then have mem: "a \<in> set claims" by (simp only: group_members)
    have "\<exists>c \<in> set claims. declaration_site c \<noteq> declaration_site a" using several_groups [OF mem, of declaration_site] many by blast
    then show ?thesis using decided [OF a(2)] mem by (intro bexI [of _ a]) (auto simp: decided_state_iff)
  qed
  show "\<exists>b k. (b, k) \<in> set row \<and> bd_id b = bd_id a"
    if ac: "a \<in> set claims" "c \<in> set claims" "declaration_site c \<noteq> declaration_site a"
  proof -
    have "\<not> length ?d < 2" using several_groups [OF ac(1), of declaration_site] ac by blast
    then have all2: "list_all2 (\<lambda>a r. ?decide a = Inr r) ?members row" using row by blast
    have "a \<in> set ?members" using ac(1) by (simp only: group_members)
    then obtain r where r: "r \<in> set row" "?decide a = Inr r" using list_all2_left [OF all2] by blast
    then show ?thesis using decided [OF r(2)] by (intro exI [of _ "fst r"] exI [of _ "snd r"]) auto
  qed
qed

lemma decided_lookup:
  "map_of (foldl (\<lambda>d (b, _). AList.update (bd_id b) b d) d decisions) i =
     (case find (\<lambda>(b, _). bd_id b = i) (rev decisions) of None \<Rightarrow> map_of d i | Some (b, _) \<Rightarrow> Some b)"
  by (induction decisions rule: rev_induct) (auto simp: update_conv' split: option.split)

lemma decided_keys:
  "dict_ok d \<Longrightarrow> dict_ok (foldl (\<lambda>d (b, _). AList.update (bd_id b) b d) d decisions)
     \<and> fst ` set (foldl (\<lambda>d (b, _). AList.update (bd_id b) b d) d decisions) = fst ` set d \<union> (bd_id \<circ> fst) ` set decisions"
proof (induction decisions rule: rev_induct)
  case (snoc e decisions)
  then show ?case by (cases e) (simp add: keys_update_dict)
qed simp

lemma same_id: "b = a\<lparr>bd_state := s\<rparr> \<Longrightarrow> bd_id b = bd_id a"
  by simp

lemma declared_bindings_mem: "b \<in> set (declared_bindings bindings) \<longleftrightarrow> bd_kind b = DeclaredBinding \<and> b \<in> set (map snd (unique_bindings bindings))"
  by (auto simp: declared_bindings_def)

text \<open>All decisions of a resolution; the rivals of a binding are the declarations of its field of its policy.\<close>

definition rivals :: "policy_binding list \<Rightarrow> policy_binding \<Rightarrow> policy_binding list" where
  "rivals bindings a = filter (\<lambda>c. binding_domain c = binding_domain a) (declared_bindings bindings)"

lemma decisions_spec:
  assumes "map_err (domain_decisions env) (sort_key fst (group_rows binding_domain (declared_bindings bindings))) = Inr rows"
  shows "(b, k) \<in> set (concat rows) \<Longrightarrow> \<exists>a \<in> set (declared_bindings bindings). contested bindings a
      \<and> b = a\<lparr>bd_state := field_state (rivals bindings a) a\<rparr> \<and> pc_binding k = bd_id b \<and> pc_state k = bd_state b"
    and "a \<in> set (declared_bindings bindings) \<Longrightarrow> contested bindings a \<Longrightarrow> \<exists>b k. (b, k) \<in> set (concat rows) \<and> bd_id b = bd_id a"
proof -
  let ?groups = "sort_key fst (group_rows binding_domain (declared_bindings bindings))"
  have all2: "list_all2 (\<lambda>e r. domain_decisions env e = Inr r) ?groups rows" using assms by (simp only: map_err_list_all2)
  have members: "cs = filter (\<lambda>c. binding_domain c = d) (declared_bindings bindings)" if "(d, cs) \<in> set ?groups" for d cs
    using that map_of_dict_ok [OF dict_ok_group_rows, of binding_domain "declared_bindings bindings" d cs]
    by (auto simp: group_rows_lookup split: if_split_asm)
  show "\<exists>a \<in> set (declared_bindings bindings). contested bindings a
      \<and> b = a\<lparr>bd_state := field_state (rivals bindings a) a\<rparr> \<and> pc_binding k = bd_id b \<and> pc_state k = bd_state b" if bk: "(b, k) \<in> set (concat rows)"
  proof -
    obtain row where row: "row \<in> set rows" "(b, k) \<in> set row" using bk by auto
    obtain d cs where g: "(d, cs) \<in> set ?groups" "domain_decisions env (d, cs) = Inr row"
      using list_all2_right [OF all2 row(1)] by auto
    from domain_decisions_mem(1) [OF g(2) row(2)] obtain a where a1: "a \<in> set cs" and a2: "b = a\<lparr>bd_state := field_state cs a\<rparr>
        \<and> pc_binding k = bd_id b \<and> pc_state k = bd_state b \<and> (\<exists>c \<in> set cs. declaration_site c \<noteq> declaration_site a)"
      by (rule bexE)
    from a2 obtain c where c: "c \<in> set cs" "declaration_site c \<noteq> declaration_site a" by (elim conjE bexE)
    have m: "a \<in> set (declared_bindings bindings)" "c \<in> set (declared_bindings bindings)" "binding_domain c = binding_domain a"
      using a1 c(1) unfolding members [OF g(1)] by auto
    have "bd_kind a = DeclaredBinding" using m(1) by (simp only: declared_bindings_mem)
    then have "contested bindings a" unfolding contested_def list_ex_iff using m(2,3) c(2) by blast
    moreover have "cs = rivals bindings a" using members [OF g(1)] a1 by (auto simp: rivals_def)
    ultimately show ?thesis using a2 by (intro bexI [OF _ m(1)]) blast
  qed
  show "\<exists>b k. (b, k) \<in> set (concat rows) \<and> bd_id b = bd_id a"
    if ac: "a \<in> set (declared_bindings bindings)" "contested bindings a"
  proof -
    obtain c where c: "c \<in> set (declared_bindings bindings)" "binding_domain c = binding_domain a" "declaration_site c \<noteq> declaration_site a"
      using ac(2) by (auto simp: contested_def list_ex_iff)
    let ?cs = "filter (\<lambda>x. binding_domain x = binding_domain a) (declared_bindings bindings)"
    have in_cs: "a \<in> set ?cs" "c \<in> set ?cs" using ac(1) c by auto
    then have "?cs \<noteq> []" by (metis list.set(1) empty_iff)
    then have "map_of (group_rows binding_domain (declared_bindings bindings)) (binding_domain a) = Some ?cs"
      by (simp only: group_rows_lookup if_False)
    then have "(binding_domain a, ?cs) \<in> set ?groups" using map_of_dict_ok [OF dict_ok_group_rows] by (metis set_sort)
    then obtain row where row: "row \<in> set rows" "domain_decisions env (binding_domain a, ?cs) = Inr row"
      using list_all2_left [OF all2] by blast
    show ?thesis using domain_decisions_mem(2) [OF row(2) in_cs c(3)] row(1) by auto
  qed
qed

text \<open>The resolved bindings by identifier.\<close>

definition decided_bindings :: "policy_binding list \<Rightarrow> (policy_binding \<times> policy_conflict) list list \<Rightarrow> (ustr, policy_binding) dict" where
  "decided_bindings bindings rows =
     foldl (\<lambda>d (b, _). AList.update (bd_id b) b d) (unique_bindings bindings) (concat rows)"

lemma declared_iff: "a \<in> set (declared_bindings bindings) \<longleftrightarrow> bd_kind a = DeclaredBinding \<and> map_of (unique_bindings bindings) (bd_id a) = Some a"
  by (simp only: declared_bindings_mem unique_bindings_mem)

lemma unique_find: "map_of (unique_bindings bindings) i = find (\<lambda>c. bd_id c = i) (rev bindings)"
  by (simp add: unique_bindings_def index_rows_lookup)

lemma decided_bindings_keys:
  assumes "map_err (domain_decisions env) (sort_key fst (group_rows binding_domain (declared_bindings bindings))) = Inr rows"
  shows "dict_ok (decided_bindings bindings rows)" "fst ` set (decided_bindings bindings rows) = bd_id ` set bindings"
    "(bd_id \<circ> fst) ` set (concat rows) \<subseteq> bd_id ` set bindings"
proof -
  note decided = decisions_spec [OF assms]
  show ids: "(bd_id \<circ> fst) ` set (concat rows) \<subseteq> bd_id ` set bindings"
  proof (rule image_subsetI)
    fix e assume "e \<in> set (concat rows)"
    then have "(fst e, snd e) \<in> set (concat rows)" by simp
    from decided(1) [OF this] obtain a where a: "a \<in> set (declared_bindings bindings)" "bd_id (fst e) = bd_id a"
      by (elim bexE conjE) (metis same_id)
    then have "a \<in> set bindings" using unique_lookup unfolding declared_iff by blast
    then show "(bd_id \<circ> fst) e \<in> bd_id ` set bindings" using a(2) by simp
  qed
  then show "dict_ok (decided_bindings bindings rows)" "fst ` set (decided_bindings bindings rows) = bd_id ` set bindings"
    using decided_keys [OF unique_ids(2), of bindings "concat rows"] by (auto simp: unique_ids(1) decided_bindings_def)
qed

text \<open>What they hold for an identifier.\<close>

definition resolved_from :: "policy_binding list \<Rightarrow> policy_binding \<Rightarrow> policy_binding" where
  "resolved_from bindings a = (if contested bindings a then a\<lparr>bd_state := field_state (rivals bindings a) a\<rparr> else a)"

lemma decided_bindings_entry:
  assumes "map_err (domain_decisions env) (sort_key fst (group_rows binding_domain (declared_bindings bindings))) = Inr rows"
    and b: "map_of (decided_bindings bindings rows) i = Some b"
  shows "bd_id b = i \<and> (\<exists>a. map_of (unique_bindings bindings) i = Some a \<and> b = resolved_from bindings a)"
proof -
  note decided = decisions_spec [OF assms(1)]
  let ?u = "unique_bindings bindings"
  have lookup: "map_of (decided_bindings bindings rows) i
      = (case find (\<lambda>(b, _). bd_id b = i) (rev (concat rows)) of None \<Rightarrow> map_of ?u i | Some (b, _) \<Rightarrow> Some b)"
    unfolding decided_bindings_def by (rule decided_lookup)
  show ?thesis
  proof (cases "find (\<lambda>(b, _). bd_id b = i) (rev (concat rows))")
    case None
    then have u: "map_of ?u i = Some b" using b unfolding lookup by simp
    then have id: "bd_id b = i" using unique_lookup by blast
    have "\<not> contested bindings b"
    proof
      assume contested: "contested bindings b"
      then have "b \<in> set (declared_bindings bindings)" using u id unfolding declared_iff contested_def by simp
      from decided(2) [OF this contested] obtain b' k where "(b', k) \<in> set (concat rows)" "bd_id b' = i" using id by (elim exE conjE) simp
      then show False using None unfolding find_None_iff by (auto simp: case_prod_beta)
    qed
    then show ?thesis using u id by (simp add: resolved_from_def)
  next
    case (Some e)
    then have e: "e \<in> set (concat rows)" unfolding find_Some_iff by (metis nth_mem set_rev)
    have id: "bd_id (fst e) = i" using Some unfolding find_Some_iff by (auto simp: case_prod_beta)
    have b_eq: "fst e = b" using b Some unfolding lookup by (simp add: case_prod_beta)
    have "(b, snd e) \<in> set (concat rows)" using e b_eq by (metis prod.collapse)
    from decided(1) [OF this] obtain a where a: "a \<in> set (declared_bindings bindings)" "contested bindings a"
        "b = a\<lparr>bd_state := field_state (rivals bindings a) a\<rparr>" by (elim bexE conjE)
    then have "map_of ?u i = Some a" using id b_eq same_id [OF a(3)] unfolding declared_iff by simp
    then have "bd_id b = i" "b = resolved_from bindings a" using a(2,3) id b_eq by (simp_all add: resolved_from_def)
    then show ?thesis using \<open>map_of ?u i = Some a\<close> by (intro conjI exI [of _ a])
  qed
qed

lemma resolved_from_contested: "contested bindings (resolved_from bindings a) \<longleftrightarrow> contested bindings a" "bd_id (resolved_from bindings a) = bd_id a"
  by (simp_all add: resolved_from_def contested_def binding_domain_def declaration_site_def)

text \<open>The decisions are on the contested ones, with the states they end in.\<close>

lemma decided_bindings_decision:
  assumes "map_err (domain_decisions env) (sort_key fst (group_rows binding_domain (declared_bindings bindings))) = Inr rows" and bk: "(b, k) \<in> set (concat rows)"
  shows "map_of (decided_bindings bindings rows) (bd_id b) = Some b \<and> contested bindings b \<and> pc_binding k = bd_id b \<and> pc_state k = bd_state b"
proof -
  let ?d = "decided_bindings bindings rows"
  from decisions_spec(1) [OF assms] obtain a where a: "a \<in> set (declared_bindings bindings)" "contested bindings a"
      "b = a\<lparr>bd_state := field_state (rivals bindings a) a\<rparr>" "pc_binding k = bd_id b" "pc_state k = bd_state b" by (elim bexE conjE)
  have b: "b = resolved_from bindings a" unfolding resolved_from_def using a(2,3) by (simp only: if_True)
  have "bd_id b \<in> bd_id ` set bindings" using subsetD [OF decided_bindings_keys(3) [OF assms(1)] imageI [OF bk]] by simp
  then have "map_of ?d (bd_id b) \<noteq> None" unfolding decided_bindings_keys(2) [OF assms(1), symmetric] by (simp only: map_of_eq_None_iff not_not)
  then obtain b' where b': "map_of ?d (bd_id b) = Some b'" by (elim not_None_eq [THEN iffD1, elim_format] exE)
  from decided_bindings_entry [OF assms(1) b'] obtain a' where a': "map_of (unique_bindings bindings) (bd_id b) = Some a'"
      "b' = resolved_from bindings a'" by blast
  have "a' = a" using a(1) a'(1) unfolding declared_iff b resolved_from_contested(2) by simp
  then show ?thesis using b' a'(2) a(2,4,5) unfolding b by (simp add: resolved_from_contested)
qed

text \<open>C10: Resolution loses no binding and invents none: the resolved bindings have exactly the identifiers of the
  given ones, once each, and each is the last given binding with its identifier up to its state. A binding that
  is declared in one place only, or not declared, keeps its state; one whose field of its policy is declared at
  several places becomes conflicting when the places disagree, and otherwise keeps its state at the place of the
  strongest source and is shadowed elsewhere. The conflicts name exactly the bindings declared at several places,
  with their new states.\<close>

theorem resolution_keeps_bindings:
  assumes "resolve_binding_claims env bindings = Inr (resolved, conflicts)"
  shows "distinct (map bd_id resolved) \<and> set (map bd_id resolved) = set (map bd_id bindings)
    \<and> (\<forall>b \<in> set resolved. \<exists>a. find (\<lambda>c. bd_id c = bd_id b) (rev bindings) = Some a
         \<and> b = (if contested bindings a then a\<lparr>bd_state := field_state (rivals bindings a) a\<rparr> else a))
    \<and> (\<lambda>k. (pc_binding k, pc_state k)) ` set conflicts = {(bd_id b, bd_state b) | b. b \<in> set resolved \<and> contested bindings b}"
proof -
  obtain rows where rows: "map_err (domain_decisions env) (sort_key fst (group_rows binding_domain (declared_bindings bindings))) = Inr rows"
    and res: "resolved = sort_key binding_order (map snd (decided_bindings bindings rows))"
    and con: "conflicts = sort_key (\<lambda>k. (pc_id k, pc_binding k)) (map snd (concat rows))"
    using assms by (auto simp: resolve_binding_claims_def decided_bindings_def Let_def)
  let ?d = "decided_bindings bindings rows"
  note keys = decided_bindings_keys [OF rows] and entry = decided_bindings_entry [OF rows] and decision = decided_bindings_decision [OF rows]
  have entries: "bd_id (snd e) = fst e" if "e \<in> set ?d" for e
    using entry [of "fst e" "snd e"] map_of_dict_ok [OF keys(1)] that by simp
  have firsts: "map bd_id (map snd ?d) = map fst ?d" using entries by simp
  have same: "mset (map bd_id resolved) = mset (map fst ?d)" unfolding res firsts [symmetric] by (simp only: mset_map mset_sort)
  have one: "distinct (map bd_id resolved)"
    using mset_eq_imp_distinct_iff [OF same] keys(1) by (simp add: dict_ok_def)
  have two: "set (map bd_id resolved) = set (map bd_id bindings)" using mset_eq_setD [OF same] keys(2) by simp
  have mem: "b \<in> set resolved \<longleftrightarrow> map_of ?d (bd_id b) = Some b" for b
  proof
    assume "b \<in> set resolved"
    then obtain i where "(i, b) \<in> set ?d" unfolding res by auto
    then show "map_of ?d (bd_id b) = Some b" using entries map_of_dict_ok [OF keys(1)] by force
  qed (auto simp: res dest!: map_of_SomeD intro: rev_image_eqI)
  have three: "\<forall>b \<in> set resolved. \<exists>a. find (\<lambda>c. bd_id c = bd_id b) (rev bindings) = Some a
         \<and> b = (if contested bindings a then a\<lparr>bd_state := field_state (rivals bindings a) a\<rparr> else a)"
  proof
    fix b assume "b \<in> set resolved"
    from entry [OF this [unfolded mem]] show "\<exists>a. find (\<lambda>c. bd_id c = bd_id b) (rev bindings) = Some a
         \<and> b = (if contested bindings a then a\<lparr>bd_state := field_state (rivals bindings a) a\<rparr> else a)" unfolding unique_find resolved_from_def by (rule conjunct2)
  qed
  have con_mem: "k \<in> set conflicts \<longleftrightarrow> (\<exists>b. (b, k) \<in> set (concat rows))" for k
  proof
    assume "k \<in> set conflicts"
    then obtain e where "e \<in> set (concat rows)" "k = snd e" unfolding con set_sort set_map by blast
    then show "\<exists>b. (b, k) \<in> set (concat rows)" by (metis prod.collapse)
  qed (auto simp: con intro: rev_image_eqI)
  have "(\<lambda>k. (pc_binding k, pc_state k)) ` set conflicts = {(bd_id b, bd_state b) | b. b \<in> set resolved \<and> contested bindings b}"
  proof (intro equalityI subsetI)
    fix x assume "x \<in> (\<lambda>k. (pc_binding k, pc_state k)) ` set conflicts"
    then obtain b k where "(b, k) \<in> set (concat rows)" "x = (pc_binding k, pc_state k)" using con_mem by blast
    then show "x \<in> {(bd_id b, bd_state b) | b. b \<in> set resolved \<and> contested bindings b}" using decision mem by fastforce
  next
    fix x assume "x \<in> {(bd_id b, bd_state b) | b. b \<in> set resolved \<and> contested bindings b}"
    then obtain b where b: "b \<in> set resolved" "contested bindings b" "x = (bd_id b, bd_state b)" by blast
    from entry [OF b(1) [unfolded mem]] obtain a where a: "map_of (unique_bindings bindings) (bd_id b) = Some a" "b = resolved_from bindings a" by blast
    have contested: "contested bindings a" using b(2) unfolding a(2) resolved_from_contested(1) .
    have id: "bd_id a = bd_id b" unfolding a(2) resolved_from_contested(2) ..
    have "a \<in> set (declared_bindings bindings)" using a(1) contested unfolding declared_iff id by (simp add: contested_def)
    from decisions_spec(2) [OF rows this contested] obtain b' k where k: "(b', k) \<in> set (concat rows)" "bd_id b' = bd_id b" using id by (elim exE conjE) simp
    have b': "b' \<in> set resolved" "pc_binding k = bd_id b'" "pc_state k = bd_state b'" using decision [OF k(1)] unfolding mem by simp_all
    have "Some b' = Some b" using b'(1) b(1) unfolding mem k(2) by (rule trans [OF sym])
    then have "b' = b" by simp
    then show "x \<in> (\<lambda>k. (pc_binding k, pc_state k)) ` set conflicts" 
      using b'(2,3) b(3) con_mem [THEN iffD2, OF exI [of _ b'], OF k(1)] by (intro image_eqI [of _ _ k]) simp_all
  qed
  then show ?thesis using one two three by (intro conjI)
qed

definition demo_policy :: "nat \<Rightarrow> policy_claim" where
  "demo_policy line = \<lparr>pl_id = u ''P'', pl_source_id = u ''s'', pl_title = u ''P'', pl_aliases = [], pl_scope = [], pl_required_roles = [u ''file''],
     pl_source_heading = None, pl_identity_field = u ''id'', pl_identity_value = u ''P'', pl_vocabulary = [u ''id''], pl_attributes = [],
     pl_basis = [u ''b''], pl_score = 1, pl_source_kind = ExplicitGovernance, pl_source_path = u ''r'', pl_source_line = line,
     pl_claim_basis = DeclaredBasis\<rparr>"

definition demo_binding :: "nat \<Rightarrow> policy_binding" where
  "demo_binding line = \<lparr>bd_id = u (show_nat line), bd_policy = u ''P'', bd_kind = DeclaredBinding, bd_role = Some (u ''file''),
     bd_role_label = Some (u ''File''), bd_target = u ''a'', bd_target_kind = PathTarget, bd_relationship = u ''declared'', bd_attributes = [],
     bd_basis = DeclaredBasis, bd_state = EffectiveState, bd_source_kind = ExplicitGovernance, bd_source_path = u ''r'', bd_source_line = line\<rparr>"

theorem consolidate_one_per_id_witness:
  "length (consolidate_policies [demo_policy 2, demo_policy 1]) = 1
   \<and> set (map pl_id (consolidate_policies [demo_policy 2, demo_policy 1])) = {u ''P''}"
proof -
  let ?c = "consolidate_policies [demo_policy 2, demo_policy 1]"
  have one: "length ?c = 1" by code_simp
  then have "hd ?c \<in> set ?c" by (cases ?c) auto
  from consolidate_one_per_id [OF this] show ?thesis using one by (simp add: demo_policy_def)
qed

theorem resolution_keeps_bindings_witness:
  "\<exists>resolved conflicts. resolve_binding_claims demo_governance_env [demo_binding 2, demo_binding 1] = Inr (resolved, conflicts)
     \<and> set (map bd_id resolved) = {u ''1'', u ''2''} \<and> conflicts \<noteq> []"
proof -
  have run: "(case resolve_binding_claims demo_governance_env [demo_binding 2, demo_binding 1] of
      Inr (resolved, conflicts) \<Rightarrow> conflicts \<noteq> [] | _ \<Rightarrow> False)" by code_simp
  then obtain resolved conflicts where r: "resolve_binding_claims demo_governance_env [demo_binding 2, demo_binding 1] = Inr (resolved, conflicts)"
    and "conflicts \<noteq> []" by (auto split: sum.split_asm)
  moreover from resolution_keeps_bindings [OF r] have "set (map bd_id resolved) = {u ''1'', u ''2''}"
    by (auto simp: demo_binding_def show_nat.simps u_def)
  ultimately show ?thesis by blast
qed

end
