(* ===== verification/GovernanceGraph.thy ===== *)
theory GovernanceGraph
  imports GovernanceClaims
begin

text \<open>
  The evidence graph of \<open>authority/governance.py\<close>: relationships between repository paths, the bounded search that
  traces them from the targets of a policy, and the collection of all governance claims. The rows of the
  tables the search reads and the shell parser are arguments. The lemmas show that the search ends and that its
  bindings are neutral, come from relationships near a declared target and are within the limit.
\<close>

subsection \<open>Relationships\<close>

type_synonym fact_tables = "(ustr, table_row list) dict"

type_synonym path_map = "(ustr, ustr list) dict"

record evidence_relationship =
  er_target :: ustr
  er_relationship :: ustr
  er_source_path :: ustr
  er_attributes :: "(ustr, json) dict"

record governance_graph_env = governance_claim_env +
  gg_leaf_texts :: "ustr list \<Rightarrow> ustr list list"

definition table_rows :: "fact_tables \<Rightarrow> string \<Rightarrow> table_row list" where
  "table_rows tables name = (case map_of tables (u name) of None \<Rightarrow> [] | Some rows \<Rightarrow> rows)"

definition row_str :: "string \<Rightarrow> table_row \<Rightarrow> ustr option" where
  "row_str field row = (case map_of (tr_data row) (u field) of Some (JStr s) \<Rightarrow> Some s | _ \<Rightarrow> None)"

definition targets_of :: "path_map \<Rightarrow> ustr \<Rightarrow> ustr list" where
  "targets_of m path = (case map_of m path of None \<Rightarrow> [] | Some targets \<Rightarrow> targets)"

text \<open>\<open>{source: tuple(sorted(targets))}\<close> of a \<open>defaultdict(set)\<close>.\<close>

definition sorted_edges :: "(ustr \<times> ustr) list \<Rightarrow> path_map" where
  "sorted_edges edges = map (\<lambda>(source, pairs). (source, sort (remdups (map snd pairs)))) (group_rows fst edges)"

definition reverse_paths :: "path_map \<Rightarrow> path_map" where
  "reverse_paths forward = sorted_edges (concat (map (\<lambda>(source, targets). map (\<lambda>t. (t, source)) targets) forward))"

definition expanded_target_paths :: "ustr list \<Rightarrow> ustr \<Rightarrow> ustr list" where
  "expanded_target_paths all_paths target = resolve_paths (takeWhile (\<lambda>c. c \<noteq> 35) target) all_paths"

subsubsection \<open>Structured references\<close>

definition structured_suffixes :: "ustr set" where
  "structured_suffixes = {u ''.json'', u ''.toml'', u ''.yaml'', u ''.yml''}"

definition is_repository_path_pattern :: "ustr \<Rightarrow> bool" where
  "is_repository_path_pattern token \<longleftrightarrow>
     (if 58 \<in> set token \<or> token = u ''*'' \<or> token = u ''**'' then False
      else if \<not> contains_wildcard token then False
      else if 47 \<in> set token \<or> 92 \<in> set token then True
      else let extension = removeprefix (path_suffix (pure_path token)) [46] in
        extension \<noteq> [] \<and> list_ex (\<lambda>c. c \<notin> {42, 63, 91, 93} \<and> c \<noteq> 46) extension)"

text \<open>The dictionary \<open>resolved_values\<close> only remembers results, which depend on the token alone.\<close>

definition structured_path_targets :: "ustr \<Rightarrow> ustr list \<Rightarrow> ustr list" where
  "structured_path_targets value all_paths =
     (let token = path_token (strip value) in
      if token \<in> set all_paths then [token]
      else if is_repository_path_pattern token then exact_path_targets False False token all_paths else [])"

definition file_references :: "'a governance_env_scheme \<Rightarrow> ustr list \<Rightarrow> ustr set \<Rightarrow> ustr \<times> bytes \<Rightarrow> (ustr \<times> ustr list) option" where
  "file_references env all_paths excluded entry =
     (case entry of (path, content) \<Rightarrow>
      let extension = ge_casefold env (path_suffix (pure_path path)) in
      if path \<in> excluded \<or> extension \<notin> structured_suffixes then None
      else case parse_structured_content env extension content of
        None \<Rightarrow> None
      | Some parsed \<Rightarrow>
          let discovered = filter (\<lambda>r. r \<noteq> path) (concat (map (\<lambda>v. structured_path_targets v all_paths) (string_values [parsed])))
          in if discovered = [] then None else Some (path, sort (remdups discovered)))"

definition structured_references :: "'a governance_env_scheme \<Rightarrow> (ustr, bytes) dict \<Rightarrow> ustr set \<Rightarrow> path_map" where
  "structured_references env contents excluded = List.map_filter (file_references env (dict_keys contents) excluded) (sort_key fst contents)"

subsubsection \<open>Imports, configurations and scripts\<close>

definition import_endings :: "ustr list" where
  "import_endings = map u [''.py'', ''.ts'', ''.tsx'', ''.js'', ''.jsx'', ''.mjs'', ''/__init__.py'', ''/index.ts'', ''/index.tsx'', ''/index.js'']"

definition import_bases :: "ustr \<Rightarrow> ustr \<Rightarrow> ustr list" where
  "import_bases source specifier =
     (if startswith specifier [46] then [as_posix (join_pure (path_parent (pure_path source)) specifier)]
      else if 47 \<in> set specifier \<or> 46 \<in> set specifier then [replace_char 46 47 specifier] else [])"

definition resolve_syntax_import :: "ustr list \<Rightarrow> ustr \<Rightarrow> ustr \<Rightarrow> ustr option" where
  "resolve_syntax_import all_paths source specifier =
     (let bases = import_bases source specifier; candidates = bases @ concat (map (\<lambda>base. map (\<lambda>e. base @ e) import_endings) bases)
      in find (\<lambda>path. path \<in> set all_paths) (map (\<lambda>c. as_posix (pure_path c)) candidates))"

definition repository_import :: "ustr list \<Rightarrow> table_row \<Rightarrow> (ustr \<times> ustr) option" where
  "repository_import all_paths row =
     (case (row_str ''path'' row, row_str ''resolved_path'' row) of
        (Some source, Some target) \<Rightarrow> if target \<in> set all_paths then Some (source, target) else None | _ \<Rightarrow> None)"

definition syntax_import :: "ustr list \<Rightarrow> table_row \<Rightarrow> (ustr \<times> ustr) option" where
  "syntax_import all_paths row =
     (case (row_str ''path'' row, row_str ''name'' row) of
        (Some source, Some specifier) \<Rightarrow> map_option (Pair source) (resolve_syntax_import all_paths source specifier) | _ \<Rightarrow> None)"

definition import_relationships :: "ustr list \<Rightarrow> fact_tables \<Rightarrow> path_map \<times> path_map" where
  "import_relationships all_paths tables =
     (let forward = sorted_edges (List.map_filter (repository_import all_paths) (table_rows tables ''repository.imports'')
            @ List.map_filter (syntax_import all_paths) (table_rows tables ''syntax.imports''))
      in (forward, reverse_paths forward))"

definition configuration_row :: "table_row \<Rightarrow> (ustr \<times> ustr list) option" where
  "configuration_row row =
     (case (row_str ''config_path'' row, map_of (tr_data row) (u ''closure_paths'')) of
        (Some source, Some (JArr closure)) \<Rightarrow>
          let targets = filter (\<lambda>t. t \<noteq> source) (List.map_filter want_str closure)
          in if targets = [] then None else Some (source, sort (remdups targets))
      | _ \<Rightarrow> None)"

definition configuration_relationships :: "fact_tables \<Rightarrow> path_map" where
  "configuration_relationships tables = dict_from (List.map_filter configuration_row (table_rows tables ''repository.configurations''))"

definition script_row :: "table_row \<Rightarrow> (ustr \<times> ustr \<times> ustr) option" where
  "script_row row =
     (case (row_str ''name'' row, row_str ''command'' row) of
        (Some name, Some command) \<Rightarrow> Some (name, command, ev_path (tr_evidence row)) | _ \<Rightarrow> None)"

text \<open>The references of one script; \<open>remdups\<close> stands for the set they are collected in.\<close>

definition script_references ::
  "ustr list \<Rightarrow> (ustr \<times> ustr \<times> ustr) \<times> ustr list \<Rightarrow> (ustr \<times> ustr \<times> ustr \<times> ustr) list" where
  "script_references all_paths entry =
     (case entry of ((name, command, source_path), leaf_texts) \<Rightarrow>
      map (\<lambda>r. (r, source_path @ u ''#scripts.'' @ name, source_path, command))
        (remdups (concat (map (\<lambda>text. exact_path_targets False True text all_paths) leaf_texts))))"

definition script_relationships ::
  "'a governance_graph_env_scheme \<Rightarrow> ustr list \<Rightarrow> fact_tables \<Rightarrow> (ustr, (ustr \<times> ustr \<times> ustr) list) dict" where
  "script_relationships env all_paths tables =
     (let scripts = List.map_filter script_row (table_rows tables ''repository.scripts'');
          parsed = gg_leaf_texts env (map (\<lambda>(_, command, _). command) scripts)
      in map (\<lambda>(reference, rows). (reference, sort (map snd rows)))
           (group_rows fst (concat (map (script_references all_paths) (zip scripts parsed)))))"

subsection \<open>The relationships of a path\<close>

record relation_maps =
  rm_structured :: path_map
  rm_structured_reverse :: path_map
  rm_imports :: path_map
  rm_imports_reverse :: path_map
  rm_config :: path_map
  rm_config_reverse :: path_map
  rm_scripts :: "(ustr, (ustr \<times> ustr \<times> ustr) list) dict"
  rm_tests :: "ustr set"
  rm_registrations :: "ustr set"

definition relation_to :: "ustr \<Rightarrow> string \<Rightarrow> bool \<Rightarrow> ustr \<Rightarrow> evidence_relationship" where
  "relation_to seed_path relationship reverse target =
     \<lparr>er_target = target, er_relationship = u relationship, er_source_path = (if reverse then target else seed_path),
      er_attributes = [(u ''from'', JStr seed_path), (u ''to'', JStr target)]\<rparr>"

definition script_relation :: "ustr \<Rightarrow> ustr \<times> ustr \<times> ustr \<Rightarrow> evidence_relationship" where
  "script_relation seed_path entry =
     (case entry of (script_target, source_path, command) \<Rightarrow>
      \<lparr>er_target = script_target, er_relationship = u ''invoked-by'', er_source_path = source_path,
       er_attributes = [(u ''from'', JStr seed_path), (u ''to'', JStr script_target), (u ''command'', JStr command)]\<rparr>)"

definition relationships_for_path :: "relation_maps \<Rightarrow> ustr \<Rightarrow> evidence_relationship list" where
  "relationships_for_path m seed_path =
     map (relation_to seed_path ''references'' False) (targets_of (rm_structured m) seed_path)
     @ map (relation_to seed_path ''referenced-by'' True) (targets_of (rm_structured_reverse m) seed_path)
     @ map (relation_to seed_path ''imports'' False) (targets_of (rm_imports m) seed_path)
     @ map (\<lambda>s. relation_to seed_path (if s \<in> rm_tests m then ''tested-by'' else ''imported-by'') True s) (targets_of (rm_imports_reverse m) seed_path)
     @ map (relation_to seed_path ''configures'' False) (targets_of (rm_config m) seed_path)
     @ map (relation_to seed_path ''configured-by'' True) (targets_of (rm_config_reverse m) seed_path)
     @ map (script_relation seed_path) (case map_of (rm_scripts m) seed_path of None \<Rightarrow> [] | Some rows \<Rightarrow> rows)
     @ (if seed_path \<in> rm_registrations m
        then [\<lparr>er_target = seed_path, er_relationship = u ''registered'', er_source_path = seed_path,
               er_attributes = [(u ''target'', JStr seed_path)]\<rparr>] else [])"

definition relation_maps_of ::
  "'a governance_graph_env_scheme \<Rightarrow> (ustr, bytes) dict \<Rightarrow> fact_tables \<Rightarrow> policy_claim list \<Rightarrow> relation_maps" where
  "relation_maps_of env contents tables policies =
     (let structured = structured_references env contents (set (map pl_source_path policies));
          imports_pair = import_relationships (dict_keys contents) tables; config = configuration_relationships tables
      in \<lparr>rm_structured = structured, rm_structured_reverse = reverse_paths structured, rm_imports = fst imports_pair,
          rm_imports_reverse = snd imports_pair, rm_config = config, rm_config_reverse = reverse_paths config,
          rm_scripts = script_relationships env (dict_keys contents) tables,
          rm_tests = set (List.map_filter (row_str ''path'') (table_rows tables ''tests'')),
          rm_registrations = set (List.map_filter (row_str ''path'') (table_rows tables ''framework.registrations''))\<rparr>)"

subsection \<open>The bounded search\<close>

definition max_per_policy :: nat where "max_per_policy = 256"

record evidence_search =
  es_queue :: "(ustr \<times> nat) list"
  es_seen :: "ustr set"
  es_edges :: "(ustr \<times> ustr \<times> ustr) set"
  es_inferred :: "policy_binding list"
  es_bounded :: bool

definition edge_key :: "evidence_relationship \<Rightarrow> ustr \<times> ustr \<times> ustr" where
  "edge_key r = (er_relationship r, er_target r, er_source_path r)"

definition evidence_binding :: "ustr \<Rightarrow> evidence_relationship \<Rightarrow> policy_binding" where
  "evidence_binding policy_id r =
     \<lparr>bd_id = [], bd_policy = policy_id, bd_kind = EvidenceBinding, bd_role = None, bd_role_label = None, bd_target = er_target r,
      bd_target_kind = PathTarget, bd_relationship = er_relationship r, bd_attributes = er_attributes r, bd_basis = InferredBasis,
      bd_state = EffectiveState, bd_source_kind = CanonicalRelationship, bd_source_path = er_source_path r, bd_source_line = 1\<rparr>"

definition discover_path :: "nat \<Rightarrow> ustr \<Rightarrow> evidence_search \<Rightarrow> evidence_search" where
  "discover_path depth path st =
     (if path \<in> es_seen st then st
      else st\<lparr>es_seen := insert path (es_seen st), es_queue := es_queue st @ [(path, depth)]\<rparr>)"

text \<open>One pass of the \<open>for\<close> loop; after its \<open>break\<close> the rest of the relationships is skipped.\<close>

definition follow_relationship ::
  "'a evidence_env_scheme \<Rightarrow> ustr list \<Rightarrow> ustr \<Rightarrow> nat \<Rightarrow> evidence_relationship \<Rightarrow> evidence_search \<Rightarrow> (authority_error, evidence_search) result" where
  "follow_relationship env all_paths policy_id depth r st =
     (if es_bounded st \<or> edge_key r \<in> es_edges st then Inr st
      else bind_err (make_binding env all_paths (evidence_binding policy_id r)) (\<lambda>b.
        let st' = st\<lparr>es_edges := insert (edge_key r) (es_edges st), es_inferred := es_inferred st @ [b]\<rparr> in
        if length (es_inferred st') \<ge> max_per_policy then Inr (st'\<lparr>es_bounded := True, es_queue := []\<rparr>)
        else Inr (fold (discover_path (depth + 1)) (expanded_target_paths all_paths (bd_target b)) st')))"

definition search_weight :: "ustr list \<Rightarrow> evidence_search \<Rightarrow> nat" where
  "search_weight all_paths st = 2 * card (set all_paths - es_seen st) + length (es_queue st)"

lemma discover_weight:
  "set paths \<subseteq> set all_paths \<Longrightarrow> search_weight all_paths (fold (discover_path depth) paths st) \<le> search_weight all_paths st"
proof (induction paths arbitrary: st)
  case (Cons path paths)
  have "search_weight all_paths (discover_path depth path st) \<le> search_weight all_paths st"
  proof (cases "path \<in> es_seen st")
    case False
    then have "card (set all_paths - insert path (es_seen st)) < card (set all_paths - es_seen st)"
      using Cons.prems by (intro psubset_card_mono) auto
    then show ?thesis using False by (simp add: discover_path_def search_weight_def)
  qed (simp add: discover_path_def)
  then show ?case using Cons.IH [of "discover_path depth path st"] Cons.prems by (simp add: order_trans)
qed simp

lemma resolve_paths_subset: "set (resolve_paths pattern candidates) \<subseteq> set candidates"
  by (auto simp: resolve_paths_def Let_def)

lemma expanded_subset: "set (expanded_target_paths all_paths target) \<subseteq> set all_paths"
  unfolding expanded_target_paths_def by (rule resolve_paths_subset)

lemma follow_weight:
  assumes "follow_relationship env all_paths policy_id depth r st = Inr st'"
  shows "search_weight all_paths st' \<le> search_weight all_paths st"
proof (cases "es_bounded st \<or> edge_key r \<in> es_edges st")
  case False
  then obtain b where b: "make_binding env all_paths (evidence_binding policy_id r) = Inr b"
    using assms by (auto simp: follow_relationship_def)
  let ?st = "st\<lparr>es_edges := insert (edge_key r) (es_edges st), es_inferred := es_inferred st @ [b]\<rparr>"
  have same: "search_weight all_paths ?st = search_weight all_paths st" by (simp add: search_weight_def)
  show ?thesis
  proof (cases "length (es_inferred st) + 1 \<ge> max_per_policy")
    case True
    then have "st' = ?st\<lparr>es_bounded := True, es_queue := []\<rparr>" using assms False b by (simp add: follow_relationship_def Let_def)
    then show ?thesis by (simp add: search_weight_def)
  next
    case full: False
    then have "st' = fold (discover_path (depth + 1)) (expanded_target_paths all_paths (bd_target b)) ?st"
      using assms False b by (simp add: follow_relationship_def Let_def)
    then show ?thesis using discover_weight [OF expanded_subset, of all_paths "depth + 1" "bd_target b" ?st] same by simp
  qed
qed (use assms in \<open>simp add: follow_relationship_def\<close>)

lemma follow_all_weight:
  "fold_err (follow_relationship env all_paths policy_id depth) rs st = Inr st' \<Longrightarrow> search_weight all_paths st' \<le> search_weight all_paths st"
  by (erule fold_err_invariant [where I = "\<lambda>s. search_weight all_paths s \<le> search_weight all_paths st"]) (auto dest: follow_weight)

text \<open>The \<open>while\<close> loop of one policy.\<close>

function evidence_loop ::
  "'a evidence_env_scheme \<Rightarrow> ustr list \<Rightarrow> relation_maps \<Rightarrow> ustr \<Rightarrow> evidence_search \<Rightarrow> (authority_error, evidence_search) result" where
  "evidence_loop env all_paths maps policy_id st =
     (case es_queue st of
        [] \<Rightarrow> Inr st
      | (seed_path, depth) # rest \<Rightarrow>
          if depth \<ge> 2 then evidence_loop env all_paths maps policy_id (st\<lparr>es_queue := rest\<rparr>)
          else (case fold_err (follow_relationship env all_paths policy_id depth) (relationships_for_path maps seed_path) (st\<lparr>es_queue := rest\<rparr>) of
              Inl e \<Rightarrow> Inl e
            | Inr st' \<Rightarrow> if es_bounded st' then Inr st' else evidence_loop env all_paths maps policy_id st'))"
  by pat_completeness auto

termination
proof (relation "measure (\<lambda>(env, all_paths, maps, policy_id, st). search_weight all_paths st)", goal_cases)
  case (2 env all_paths maps policy_id st e rest seed_path depth)
  then show ?case by (simp add: search_weight_def)
next
  case (3 env all_paths maps policy_id st e rest seed_path depth st')
  have "search_weight all_paths (st\<lparr>es_queue := rest\<rparr>) < search_weight all_paths st" using 3 by (simp add: search_weight_def)
  then show ?case using follow_all_weight [OF 3(4)] by simp
qed simp

declare evidence_loop.simps [simp del]

definition search_start :: "ustr list \<Rightarrow> policy_binding list \<Rightarrow> policy_claim \<Rightarrow> evidence_search" where
  "search_start all_paths declared policy =
     (let targets = concat (map (\<lambda>b. expanded_target_paths all_paths (bd_target b))
            (filter (\<lambda>b. bd_policy b = pl_id policy \<and> bd_state b \<noteq> MissingTargetState) declared))
      in \<lparr>es_queue = map (\<lambda>p. (p, 0)) targets, es_seen = set targets, es_edges = {}, es_inferred = [], es_bounded = False\<rparr>)"

definition infer_policy ::
  "'a evidence_env_scheme \<Rightarrow> ustr list \<Rightarrow> relation_maps \<Rightarrow> policy_binding list \<Rightarrow> policy_claim \<Rightarrow>
   (authority_error, policy_binding list \<times> ustr list) result" where
  "infer_policy env all_paths maps declared policy =
     bind_err (evidence_loop env all_paths maps (pl_id policy) (search_start all_paths declared policy)) (\<lambda>st.
     Inr (es_inferred st, if es_bounded st
        then [pl_source_path policy @ u '': inferred evidence for '' @ pl_id policy @ u '' reached limit '' @ u (show_nat max_per_policy)] else []))"

definition infer_evidence_bindings ::
  "'a governance_graph_env_scheme \<Rightarrow> (ustr, bytes) dict \<Rightarrow> fact_tables \<Rightarrow> policy_claim list \<Rightarrow> policy_binding list \<Rightarrow>
   (authority_error, policy_binding list \<times> ustr list) result" where
  "infer_evidence_bindings env contents tables policies declared =
     bind_err (map_err (infer_policy env (dict_keys contents) (relation_maps_of env contents tables policies) declared) policies) (\<lambda>rows.
     Inr (concat (map fst rows), concat (map snd rows)))"

subsection \<open>Collection\<close>

record governance_claims =
  gv_policies :: "policy_claim list"
  gv_bindings :: "policy_binding list"
  gv_conflicts :: "policy_conflict list"
  gv_warnings :: "ustr list"
  gv_policy_warnings :: "(ustr \<times> ustr) list"

definition unresolved_note :: "policy_binding \<Rightarrow> (ustr \<times> ustr) option" where
  "unresolved_note b =
     (if bd_kind b = DeclaredBinding \<and> bd_state b = MissingTargetState
      then Some (bd_policy b, bd_source_path b @ u '':'' @ u (show_nat (bd_source_line b)) @ u '': unresolved governance target '' @ bd_target b)
      else None)"

definition selected_policy_ids :: "(ustr \<Rightarrow> ustr) \<Rightarrow> policy_claim list \<Rightarrow> policy_binding list \<Rightarrow> ustr list \<Rightarrow> ustr set" where
  "selected_policy_ids casefolding policies bindings selectors =
     set (concat (map (policy_ids_for_selector casefolding policies bindings) selectors))"

definition collect_governance_claims ::
  "'a governance_graph_env_scheme \<Rightarrow> (ustr, bytes) dict \<Rightarrow> fact_tables \<Rightarrow> governance_source list \<Rightarrow> ustr list \<Rightarrow>
   (authority_error, governance_claims) result" where
  "collect_governance_claims env contents tables sources selectors =
     (let (record_sets, discovery_warnings) = discover_record_sets env contents sources in
      bind_err (map_err (claims_for_record_set env (dict_keys contents)) record_sets) (\<lambda>rows.
      let policies = consolidate_policies (concat (map fst rows)); declared = concat (map (fst \<circ> snd) rows);
          selected = selected_policy_ids (ge_casefold env) policies declared selectors;
          policies' = (if selected = {} then policies else filter (\<lambda>p. pl_id p \<in> selected) policies);
          declared' = (if selected = {} then declared else filter (\<lambda>b. bd_policy b \<in> selected) declared)
      in bind_err (infer_evidence_bindings env contents tables policies' declared') (\<lambda>(inferred, inference_warnings).
         bind_err (resolve_binding_claims env (declared' @ inferred)) (\<lambda>(bindings, conflicts).
         Inr \<lparr>gv_policies = policies', gv_bindings = bindings, gv_conflicts = conflicts,
              gv_warnings = first_unique (discovery_warnings @ concat (map (snd \<circ> snd) rows) @ inference_warnings),
              gv_policy_warnings = sort (remdups (List.map_filter unresolved_note bindings))\<rparr>))))"

text \<open>Policy facts of the catalog; their validation and fixed fields are not part of the model.\<close>

record policy_row =
  pr_source_path :: ustr
  pr_source_digest :: ustr
  pr_policy_id :: ustr
  pr_title :: ustr
  pr_source_id :: ustr
  pr_identity_field :: ustr
  pr_source_line :: nat
  pr_attributes :: "(ustr, ustr) dict"

definition policy_fact_rows :: "'a governance_env_scheme \<Rightarrow> (ustr, bytes) dict \<Rightarrow> record_set \<Rightarrow> policy_row list" where
  "policy_fact_rows env contents rs =
     (let source = rs_source rs;
          digest = (case map_of contents (gs_path source) of None \<Rightarrow> [] | Some content \<Rightarrow> ee_digest env content)
      in List.map_filter (\<lambda>(row_index, r). let identity_value = display_value (record_get r (gs_identity_field source)) in
           if identity_value = [] then None
           else Some \<lparr>pr_source_path = gs_path source, pr_source_digest = digest,
             pr_policy_id = policy_id_of (ge_casefold env) (gs_id source) identity_value, pr_title = identity_value, pr_source_id = gs_id source,
             pr_identity_field = gs_identity_field source, pr_source_line = record_line rs row_index,
             pr_attributes = dict_from (map (\<lambda>field. (field, display_value (record_get r field))) (rs_vocabulary rs))\<rparr>)
           (enumerated (rs_records rs)))"

definition collect_policy_facts :: "'a governance_env_scheme \<Rightarrow> (ustr, bytes) dict \<Rightarrow> governance_source list \<Rightarrow> policy_row list" where
  "collect_policy_facts env contents sources =
     (if sources = [] then []
      else sort_key (\<lambda>f. (pr_source_id f, pr_policy_id f))
        (concat (map (policy_fact_rows env contents) (fst (discover_record_sets env contents sources)))))"

end
