(* ===== verification/GovernanceSearch.thy ===== *)
theory GovernanceSearch
  imports GovernanceGraph
begin

text \<open>
  What the evidence search finds: the relationships of exactly the paths within one step of the targets of a policy,
  unless the limit cuts it off. The invariant of the loop carries, beside the state of the code, the depth at which
  each path was queued.
\<close>

subsection \<open>Paths near a target\<close>

inductive near :: "ustr list \<Rightarrow> relation_maps \<Rightarrow> ustr set \<Rightarrow> nat \<Rightarrow> ustr \<Rightarrow> bool"
  for all_paths :: "ustr list" and maps :: relation_maps and seeds :: "ustr set" where
  seed: "p \<in> seeds \<Longrightarrow> near all_paths maps seeds 0 p"
| step: "near all_paths maps seeds n p \<Longrightarrow> r \<in> set (relationships_for_path maps p) \<Longrightarrow>
    q \<in> set (expanded_target_paths all_paths (strip (er_target r))) \<Longrightarrow> near all_paths maps seeds (Suc n) q"

definition states_edge :: "ustr \<times> ustr \<times> ustr \<Rightarrow> policy_binding \<Rightarrow> bool" where
  "states_edge key b \<longleftrightarrow> bd_relationship b = fst key \<and> bd_target b = strip (fst (snd key)) \<and> bd_source_path b = snd (snd key)"

definition neutral :: "ustr \<Rightarrow> policy_binding \<Rightarrow> bool" where
  "neutral policy_id b \<longleftrightarrow> bd_policy b = policy_id \<and> bd_kind b = EvidenceBinding \<and> bd_role b = None \<and> bd_role_label b = None
     \<and> bd_basis b = InferredBasis \<and> binding_valid b"

subsection \<open>Edges\<close>

definition relationship_names :: "ustr set" where
  "relationship_names = u ` {''references'', ''referenced-by'', ''imports'', ''tested-by'', ''imported-by'', ''configures'', ''configured-by'',
     ''invoked-by'', ''registered''}"

lemma relationship_name: "r \<in> set (relationships_for_path maps p) \<Longrightarrow> er_relationship r \<in> relationship_names"
  by (auto simp: relationships_for_path_def relation_to_def script_relation_def relationship_names_def split: if_split_asm prod.split_asm)

lemma name_identifier: "i \<in> relationship_names \<Longrightarrow> governance_identifier i = Inr i"
  unfolding relationship_names_def
  by (auto simp: governance_identifier_def strip_def unicode_space_def u_def lower_char_def ascii_lower_def is_governance_identifier_def
      is_lower_letter_def is_ascii_digit_def is_separator_def)

lemma make_binding_edge:
  assumes "make_binding env all_paths (evidence_binding policy_id r) = Inr b" and "er_relationship r \<in> relationship_names"
  shows "neutral policy_id b" "states_edge (edge_key r) b"
  using assms(1) name_identifier [OF assms(2)]
  by (auto simp: Let_def make_binding_def make_policy_binding_def evidence_binding_def optional_identifier_def neutral_def states_edge_def
      edge_key_def binding_valid_def split: if_split_asm)

subsection \<open>The invariant\<close>

type_synonym depths = "ustr \<Rightarrow> nat"

definition frontier_ok :: "nat \<Rightarrow> depths \<Rightarrow> evidence_search \<Rightarrow> bool" where
  "frontier_ok d \<delta> st \<longleftrightarrow> (\<forall>e \<in> set (es_queue st). fst e \<in> es_seen st \<and> \<delta> (fst e) = snd e \<and> d \<le> snd e \<and> snd e \<le> d + 1)
     \<and> sorted (map snd (es_queue st)) \<and> (\<forall>q \<in> es_seen st. \<delta> q \<le> d + 1)"

definition reached_ok :: "ustr list \<Rightarrow> relation_maps \<Rightarrow> ustr set \<Rightarrow> depths \<Rightarrow> evidence_search \<Rightarrow> bool" where
  "reached_ok all_paths maps seeds \<delta> st \<longleftrightarrow> (\<forall>q \<in> es_seen st. near all_paths maps seeds (\<delta> q) q) \<and> seeds \<subseteq> es_seen st \<and> (\<forall>q \<in> seeds. \<delta> q = 0)"

text \<open>All relationships of the path are recorded and lead to queued paths.\<close>

definition explored :: "ustr list \<Rightarrow> relation_maps \<Rightarrow> depths \<Rightarrow> evidence_search \<Rightarrow> ustr \<Rightarrow> bool" where
  "explored all_paths maps \<delta> st p \<longleftrightarrow> (\<forall>r \<in> set (relationships_for_path maps p). edge_key r \<in> es_edges st
     \<and> (\<forall>q \<in> set (expanded_target_paths all_paths (strip (er_target r))). q \<in> es_seen st \<and> \<delta> q \<le> \<delta> p + 1))"

definition finished_ok :: "ustr list \<Rightarrow> relation_maps \<Rightarrow> ustr set \<Rightarrow> depths \<Rightarrow> evidence_search \<Rightarrow> bool" where
  "finished_ok all_paths maps busy \<delta> st \<longleftrightarrow>
     (\<forall>p \<in> es_seen st. \<delta> p < 2 \<longrightarrow> p \<notin> fst ` set (es_queue st) \<longrightarrow> p \<notin> busy \<longrightarrow> explored all_paths maps \<delta> st p)"

definition walk_ok :: "ustr list \<Rightarrow> relation_maps \<Rightarrow> ustr set \<Rightarrow> nat \<Rightarrow> ustr set \<Rightarrow> depths \<Rightarrow> evidence_search \<Rightarrow> bool" where
  "walk_ok all_paths maps seeds d busy \<delta> st \<longleftrightarrow>
     frontier_ok d \<delta> st \<and> reached_ok all_paths maps seeds \<delta> st \<and> finished_ok all_paths maps busy \<delta> st"

definition sound_binding :: "ustr list \<Rightarrow> relation_maps \<Rightarrow> ustr set \<Rightarrow> ustr \<Rightarrow> policy_binding \<Rightarrow> bool" where
  "sound_binding all_paths maps seeds policy_id b \<longleftrightarrow> neutral policy_id b
     \<and> (\<exists>n p r. n < 2 \<and> near all_paths maps seeds n p \<and> r \<in> set (relationships_for_path maps p) \<and> states_edge (edge_key r) b)"

definition edges_ok :: "ustr list \<Rightarrow> relation_maps \<Rightarrow> ustr set \<Rightarrow> ustr \<Rightarrow> evidence_search \<Rightarrow> bool" where
  "edges_ok all_paths maps seeds policy_id st \<longleftrightarrow>
     length (es_inferred st) < max_per_policy \<and> \<not> es_bounded st \<and> (\<forall>b \<in> set (es_inferred st). sound_binding all_paths maps seeds policy_id b)
     \<and> (\<forall>k \<in> es_edges st. (\<exists>b \<in> set (es_inferred st). states_edge k b)
          \<and> set (expanded_target_paths all_paths (strip (fst (snd k)))) \<subseteq> es_seen st)"

definition cut_ok :: "ustr list \<Rightarrow> relation_maps \<Rightarrow> ustr set \<Rightarrow> ustr \<Rightarrow> evidence_search \<Rightarrow> bool" where
  "cut_ok all_paths maps seeds policy_id st \<longleftrightarrow>
     es_bounded st \<and> length (es_inferred st) = max_per_policy \<and> (\<forall>b \<in> set (es_inferred st). sound_binding all_paths maps seeds policy_id b)"

text \<open>Queueing a path that was not seen.\<close>

lemma discover_walk:
  assumes "walk_ok all_paths maps seeds d busy \<delta> st" and "near all_paths maps seeds (d + 1) q" and "busy \<subseteq> es_seen st"
  shows "\<exists>\<delta>'. walk_ok all_paths maps seeds d busy \<delta>' (discover_path (d + 1) q st) \<and> (\<forall>p \<in> es_seen st. \<delta>' p = \<delta> p)"
proof (cases "q \<in> es_seen st")
  case True
  then show ?thesis using assms(1) by (auto simp: discover_path_def)
next
  case False
  let ?\<delta> = "\<delta>(q := d + 1)" and ?st = "discover_path (d + 1) q st"
  have st: "?st = st\<lparr>es_seen := insert q (es_seen st), es_queue := es_queue st @ [(q, d + 1)]\<rparr>" using False by (simp add: discover_path_def)
  have keep: "p \<in> es_seen st \<Longrightarrow> ?\<delta> p = \<delta> p" for p using False by auto
  have f: "frontier_ok d \<delta> st" and r: "reached_ok all_paths maps seeds \<delta> st" and e: "finished_ok all_paths maps busy \<delta> st"
    using assms(1) by (auto simp: walk_ok_def)
  have "frontier_ok d ?\<delta> ?st"
    using f keep unfolding st by (auto simp: frontier_ok_def sorted_append)
  moreover have "reached_ok all_paths maps seeds ?\<delta> ?st"
    using r keep False assms(2) unfolding st by (auto simp: reached_ok_def)
  moreover have "finished_ok all_paths maps busy ?\<delta> ?st"
    unfolding finished_ok_def
  proof (intro ballI impI)
    fix p assume p: "p \<in> es_seen ?st" "?\<delta> p < 2" "p \<notin> fst ` set (es_queue ?st)" "p \<notin> busy"
    then have old: "p \<in> es_seen st" "p \<notin> fst ` set (es_queue st)" unfolding st by auto
    then have "explored all_paths maps \<delta> st p" using e p(2,4) keep [OF old(1)] by (simp add: finished_ok_def)
    then show "explored all_paths maps ?\<delta> ?st p" using keep old(1) unfolding st by (auto simp: explored_def)
  qed
  ultimately show ?thesis using keep unfolding walk_ok_def by blast
qed

lemma discover_fields [simp]:
  "es_edges (discover_path d q st) = es_edges st" "es_inferred (discover_path d q st) = es_inferred st"
  "es_bounded (discover_path d q st) = es_bounded st" "es_seen (discover_path d q st) = insert q (es_seen st)"
  by (auto simp: discover_path_def)

lemma discover_all_fields [simp]:
  "es_edges (fold (discover_path d) qs st) = es_edges st" "es_inferred (fold (discover_path d) qs st) = es_inferred st"
  "es_bounded (fold (discover_path d) qs st) = es_bounded st" "es_seen (fold (discover_path d) qs st) = set qs \<union> es_seen st"
  by (induction qs arbitrary: st) auto

lemma discover_all_walk:
  assumes "walk_ok all_paths maps seeds d busy \<delta> st" and "\<forall>q \<in> set qs. near all_paths maps seeds (d + 1) q" and "busy \<subseteq> es_seen st"
  shows "\<exists>\<delta>'. walk_ok all_paths maps seeds d busy \<delta>' (fold (discover_path (d + 1)) qs st) \<and> (\<forall>p \<in> es_seen st. \<delta>' p = \<delta> p)"
  using assms
proof (induction qs arbitrary: \<delta> st)
  case (Cons q qs)
  obtain \<delta>1 where d1: "walk_ok all_paths maps seeds d busy \<delta>1 (discover_path (d + 1) q st)" "\<forall>p \<in> es_seen st. \<delta>1 p = \<delta> p"
    using discover_walk [OF Cons.prems(1) _ Cons.prems(3), of q] Cons.prems(2) by auto
  obtain \<delta>2 where d2: "walk_ok all_paths maps seeds d busy \<delta>2 (fold (discover_path (d + 1)) qs (discover_path (d + 1) q st))"
    "\<forall>p \<in> es_seen (discover_path (d + 1) q st). \<delta>2 p = \<delta>1 p"
    using Cons.IH [OF d1(1)] Cons.prems(2,3) by auto
  then show ?case using d1(2) by (intro exI [of _ \<delta>2]) auto
qed auto

subsection \<open>Following relationships\<close>

text \<open>What following some relationships of the path \<open>p\<close> gives.\<close>

definition followed ::
  "ustr list \<Rightarrow> relation_maps \<Rightarrow> ustr set \<Rightarrow> ustr \<Rightarrow> nat \<Rightarrow> ustr \<Rightarrow> depths \<Rightarrow> evidence_search \<Rightarrow> evidence_relationship set \<Rightarrow> depths \<Rightarrow>
   evidence_search \<Rightarrow> bool" where
  "followed all_paths maps seeds policy_id d p \<delta> st rs \<delta>' st' \<longleftrightarrow>
     walk_ok all_paths maps seeds d {p} \<delta>' st' \<and> edges_ok all_paths maps seeds policy_id st' \<and> (\<forall>q \<in> es_seen st. \<delta>' q = \<delta> q)
     \<and> es_seen st \<subseteq> es_seen st' \<and> edge_key ` rs \<union> es_edges st \<subseteq> es_edges st'"

lemma follow_cut:
  "cut_ok all_paths maps seeds policy_id st \<Longrightarrow> fold_err (follow_relationship env all_paths policy_id d) rs st = Inr st' \<Longrightarrow> st' = st"
  by (induction rs) (auto simp: cut_ok_def follow_relationship_def)

lemma follow_walk:
  assumes run: "follow_relationship env all_paths policy_id d r st = Inr st'"
    and walk: "walk_ok all_paths maps seeds d {p} \<delta> st" and edges: "edges_ok all_paths maps seeds policy_id st"
    and p: "p \<in> es_seen st" "near all_paths maps seeds d p" "d < 2" and r: "r \<in> set (relationships_for_path maps p)"
  shows "cut_ok all_paths maps seeds policy_id st' \<or> (\<exists>\<delta>'. followed all_paths maps seeds policy_id d p \<delta> st {r} \<delta>' st')"
proof (cases "edge_key r \<in> es_edges st")
  case True
  then have "st' = st" using run by (simp add: follow_relationship_def)
  then show ?thesis using walk edges True by (auto simp: followed_def)
next
  case False
  have "\<not> es_bounded st" using edges by (simp add: edges_ok_def)
  then obtain b where b: "make_binding env all_paths (evidence_binding policy_id r) = Inr b"
    using run False by (auto simp: follow_relationship_def)
  note edge = make_binding_edge [OF b relationship_name [OF r]]
  have sound: "sound_binding all_paths maps seeds policy_id b" using edge p r unfolding sound_binding_def by blast
  let ?st = "st\<lparr>es_edges := insert (edge_key r) (es_edges st), es_inferred := es_inferred st @ [b]\<rparr>"
  let ?qs = "expanded_target_paths all_paths (bd_target b)"
  have target: "bd_target b = strip (er_target r)" using edge(2) by (simp add: states_edge_def edge_key_def)
  show ?thesis
  proof (cases "length (es_inferred st) + 1 \<ge> max_per_policy")
    case True
    then have "st' = ?st\<lparr>es_bounded := True, es_queue := []\<rparr>" using run False b \<open>\<not> es_bounded st\<close> by (simp add: follow_relationship_def Let_def)
    then show ?thesis using True edges sound by (auto simp: cut_ok_def edges_ok_def)
  next
    case more: False
    then have st': "st' = fold (discover_path (d + 1)) ?qs ?st"
      using run False b \<open>\<not> es_bounded st\<close> by (simp add: follow_relationship_def Let_def)
    have walk': "walk_ok all_paths maps seeds d {p} \<delta> ?st"
      using walk by (auto simp: walk_ok_def frontier_ok_def reached_ok_def finished_ok_def explored_def)
    have "\<forall>q \<in> set ?qs. near all_paths maps seeds (d + 1) q" unfolding target using near.step [OF p(2) r] by simp
    then obtain \<delta>' where \<delta>': "walk_ok all_paths maps seeds d {p} \<delta>' st'" "\<forall>q \<in> es_seen st. \<delta>' q = \<delta> q"
      using discover_all_walk [OF walk', of ?qs] p(1) unfolding st' by auto
    have "edges_ok all_paths maps seeds policy_id st'"
      using edges sound edge(2) more unfolding st' target by (auto simp: edges_ok_def edge_key_def)
    then have "followed all_paths maps seeds policy_id d p \<delta> st {r} \<delta>' st'" using \<delta>' by (auto simp: followed_def st')
    then show ?thesis by blast
  qed
qed

lemma follow_all_walk:
  assumes "fold_err (follow_relationship env all_paths policy_id d) rs st = Inr st'"
    and "walk_ok all_paths maps seeds d {p} \<delta> st" and "edges_ok all_paths maps seeds policy_id st"
    and "p \<in> es_seen st" and "near all_paths maps seeds d p" and "d < 2" and "set rs \<subseteq> set (relationships_for_path maps p)"
  shows "cut_ok all_paths maps seeds policy_id st' \<or> (\<exists>\<delta>'. followed all_paths maps seeds policy_id d p \<delta> st (set rs) \<delta>' st')"
  using assms
proof (induction rs arbitrary: st \<delta>)
  case Nil
  then show ?case by (auto simp: followed_def)
next
  case (Cons r rs)
  obtain st1 where st1: "follow_relationship env all_paths policy_id d r st = Inr st1"
    "fold_err (follow_relationship env all_paths policy_id d) rs st1 = Inr st'" using Cons.prems(1) by auto
  have "r \<in> set (relationships_for_path maps p)" using Cons.prems(7) by simp
  from follow_walk [OF st1(1) Cons.prems(2-6) this] show ?case
  proof
    assume "cut_ok all_paths maps seeds policy_id st1"
    then show ?thesis using follow_cut [OF _ st1(2)] by blast
  next
    assume "\<exists>\<delta>'. followed all_paths maps seeds policy_id d p \<delta> st {r} \<delta>' st1"
    then obtain \<delta>1 where one: "followed all_paths maps seeds policy_id d p \<delta> st {r} \<delta>1 st1" by blast
    have "p \<in> es_seen st1" using one Cons.prems(4) by (auto simp: followed_def)
    then have "cut_ok all_paths maps seeds policy_id st' \<or> (\<exists>\<delta>'. followed all_paths maps seeds policy_id d p \<delta>1 st1 (set rs) \<delta>' st')"
      using one Cons.prems(5-7) by (intro Cons.IH [OF st1(2)]) (auto simp: followed_def)
    then show ?thesis
    proof
      assume "\<exists>\<delta>'. followed all_paths maps seeds policy_id d p \<delta>1 st1 (set rs) \<delta>' st'"
      then obtain \<delta>2 where two: "followed all_paths maps seeds policy_id d p \<delta>1 st1 (set rs) \<delta>2 st'" by blast
      have "followed all_paths maps seeds policy_id d p \<delta> st (set (r # rs)) \<delta>2 st'"
      proof -
        have "\<delta>2 q = \<delta> q" if "q \<in> es_seen st" for q
        proof -
          have "\<delta>1 q = \<delta> q" "q \<in> es_seen st1" using one that by (auto simp: followed_def)
          then show ?thesis using two by (simp add: followed_def)
        qed
        then show ?thesis using one two unfolding followed_def by auto
      qed
      then show ?thesis by blast
    qed blast
  qed
qed

subsection \<open>The whole search\<close>

lemma reframe:
  assumes "walk_ok all_paths maps seeds d busy \<delta> st" and "es_queue st = (p, e) # rest"
  shows "walk_ok all_paths maps seeds e busy \<delta> st"
proof -
  have f: "frontier_ok d \<delta> st" using assms(1) by (simp add: walk_ok_def)
  then have de: "d \<le> e" and low: "\<forall>x \<in> set (es_queue st). e \<le> snd x" using assms(2) by (auto simp: frontier_ok_def)
  have "frontier_ok e \<delta> st" unfolding frontier_ok_def
  proof (intro conjI ballI)
    fix x assume x: "x \<in> set (es_queue st)"
    show "fst x \<in> es_seen st" "\<delta> (fst x) = snd x" using f x by (auto simp: frontier_ok_def)
    show "e \<le> snd x" using low x by blast
    have "snd x \<le> d + 1" using f x by (auto simp: frontier_ok_def)
    then show "snd x \<le> e + 1" using de by simp
  next
    show "sorted (map snd (es_queue st))" using f by (simp add: frontier_ok_def)
  next
    fix q assume "q \<in> es_seen st"
    then have "\<delta> q \<le> d + 1" using f by (simp add: frontier_ok_def)
    then show "\<delta> q \<le> e + 1" using de by simp
  qed
  then show ?thesis using assms(1) by (simp add: walk_ok_def)
qed

lemma pop_walk:
  assumes "walk_ok all_paths maps seeds d {} \<delta> st" and "es_queue st = (p, d) # rest"
  shows "walk_ok all_paths maps seeds d {p} \<delta> (st\<lparr>es_queue := rest\<rparr>)"
    and "p \<in> es_seen st" "\<delta> p = d" "near all_paths maps seeds d p"
proof -
  have f: "frontier_ok d \<delta> st" and r: "reached_ok all_paths maps seeds \<delta> st" and e: "finished_ok all_paths maps {} \<delta> st"
    using assms(1) by (auto simp: walk_ok_def)
  show p: "p \<in> es_seen st" "\<delta> p = d" using f assms(2) by (auto simp: frontier_ok_def)
  then show "near all_paths maps seeds d p" using r by (auto simp: reached_ok_def)
  have "frontier_ok d \<delta> (st\<lparr>es_queue := rest\<rparr>)" using f assms(2) by (auto simp: frontier_ok_def)
  moreover have "reached_ok all_paths maps seeds \<delta> (st\<lparr>es_queue := rest\<rparr>)" using r by (simp add: reached_ok_def)
  moreover have "finished_ok all_paths maps {p} \<delta> (st\<lparr>es_queue := rest\<rparr>)" using e assms(2) by (auto simp: finished_ok_def explored_def)
  ultimately show "walk_ok all_paths maps seeds d {p} \<delta> (st\<lparr>es_queue := rest\<rparr>)" by (simp add: walk_ok_def)
qed

lemma release:
  assumes "walk_ok all_paths maps seeds d {p} \<delta> st" and "\<delta> p < 2 \<Longrightarrow> explored all_paths maps \<delta> st p"
  shows "walk_ok all_paths maps seeds d {} \<delta> st"
  using assms by (auto simp: walk_ok_def finished_ok_def)

definition search_done :: "ustr list \<Rightarrow> relation_maps \<Rightarrow> ustr set \<Rightarrow> ustr \<Rightarrow> evidence_search \<Rightarrow> bool" where
  "search_done all_paths maps seeds policy_id st \<longleftrightarrow> edges_ok all_paths maps seeds policy_id st \<and> es_queue st = []
     \<and> (\<exists>d \<delta>. walk_ok all_paths maps seeds d {} \<delta> st)"

lemma edges_expanded:
  assumes "edges_ok all_paths maps seeds policy_id st" and "edge_key r \<in> es_edges st"
  shows "set (expanded_target_paths all_paths (strip (er_target r))) \<subseteq> es_seen st"
proof -
  have "\<forall>k \<in> es_edges st. set (expanded_target_paths all_paths (strip (fst (snd k)))) \<subseteq> es_seen st"
    using assms(1) by (simp add: edges_ok_def)
  from bspec [OF this assms(2)] show ?thesis by (simp add: edge_key_def)
qed

lemma loop_walk:
  assumes "evidence_loop env all_paths maps policy_id st = Inr st'"
    and "walk_ok all_paths maps seeds d {} \<delta> st" and "edges_ok all_paths maps seeds policy_id st"
  shows "cut_ok all_paths maps seeds policy_id st' \<or> search_done all_paths maps seeds policy_id st'"
  using assms
proof (induction env all_paths maps policy_id st arbitrary: d \<delta> rule: evidence_loop.induct)
  case (1 env all_paths maps policy_id st)
  show ?case
  proof (cases "es_queue st")
    case Nil
    then have "st' = st" using 1(3) by (simp add: evidence_loop.simps)
    then show ?thesis using 1(4,5) Nil by (auto simp: search_done_def)
  next
    case (Cons x rest)
    obtain p e where x: "x = (p, e)" by (cases x)
    have queue: "es_queue st = (p, e) # rest" using Cons x by simp
    note walk = reframe [OF 1(4) queue]
    note pop = pop_walk [OF walk queue]
    let ?st = "st\<lparr>es_queue := rest\<rparr>"
    have edges: "edges_ok all_paths maps seeds policy_id ?st" using 1(5) by (simp add: edges_ok_def)
    show ?thesis
    proof (cases "e \<ge> 2")
      case True
      then have run: "evidence_loop env all_paths maps policy_id ?st = Inr st'"
        using 1(3) queue by (subst (asm) evidence_loop.simps) simp
      have "walk_ok all_paths maps seeds e {} \<delta> ?st" using True pop(3) by (intro release [OF pop(1)]) simp
      then show ?thesis using 1(1) [OF queue refl True run _ edges] by blast
    next
      case False
      then obtain st1 where st1: "fold_err (follow_relationship env all_paths policy_id e) (relationships_for_path maps p) ?st = Inr st1"
        and after: "if es_bounded st1 then st' = st1 else evidence_loop env all_paths maps policy_id st1 = Inr st'"
        using 1(3) queue by (subst (asm) evidence_loop.simps) (auto split: sum.split_asm if_split_asm)
      have seen: "p \<in> es_seen ?st" using pop(2) by simp
      from follow_all_walk [OF st1 pop(1) edges seen pop(4)] False
      consider (cut) "cut_ok all_paths maps seeds policy_id st1"
        | (more) \<delta>' where "followed all_paths maps seeds policy_id e p \<delta> ?st (set (relationships_for_path maps p)) \<delta>' st1"
        by auto
      then show ?thesis
      proof cases
        case cut
        then show ?thesis using after by (simp add: cut_ok_def)
      next
        case more
        have w: "walk_ok all_paths maps seeds e {p} \<delta>' st1" and ok: "edges_ok all_paths maps seeds policy_id st1"
          and dp: "\<delta>' p = e" and keys: "edge_key ` set (relationships_for_path maps p) \<subseteq> es_edges st1"
          using more seen pop(3) by (auto simp: followed_def)
        have "explored all_paths maps \<delta>' st1 p" unfolding explored_def
        proof (intro ballI conjI)
          fix r assume r: "r \<in> set (relationships_for_path maps p)"
          then show key: "edge_key r \<in> es_edges st1" using keys by blast
          fix q assume "q \<in> set (expanded_target_paths all_paths (strip (er_target r)))"
          then show q: "q \<in> es_seen st1" using edges_expanded [OF ok key] by blast
          show "\<delta>' q \<le> \<delta>' p + 1" using w q unfolding dp by (simp add: walk_ok_def frontier_ok_def)
        qed
        then have walk1: "walk_ok all_paths maps seeds e {} \<delta>' st1" using release [OF w] by blast
        have bounded: "\<not> es_bounded st1" using ok by (simp add: edges_ok_def)
        then have run: "evidence_loop env all_paths maps policy_id st1 = Inr st'" using after by simp
        show ?thesis by (rule 1(2) [OF queue refl False st1 bounded run walk1 ok])
      qed
    qed
  qed
qed

lemma start_walk:
  "walk_ok all_paths maps (es_seen (search_start all_paths declared policy)) 0 {} (\<lambda>_. 0) (search_start all_paths declared policy)"
  "edges_ok all_paths maps (es_seen (search_start all_paths declared policy)) (pl_id policy) (search_start all_paths declared policy)"
proof -
  let ?seeds = "es_seen (search_start all_paths declared policy)"
  have queue: "es_queue (search_start all_paths declared policy) = map (\<lambda>p. (p, 0)) (map fst (es_queue (search_start all_paths declared policy)))"
    and seeds: "?seeds = fst ` set (es_queue (search_start all_paths declared policy))"
    by (simp_all add: search_start_def Let_def image_image)
  have "sorted (map (\<lambda>_. 0 :: nat) xs)" for xs :: "(ustr \<times> nat) list" by (induction xs) auto
  then have sorted: "sorted (map snd (es_queue (search_start all_paths declared policy)))" by (subst queue) (simp add: o_def)
  have zero: "snd e = 0" if "e \<in> set (es_queue (search_start all_paths declared policy))" for e
    using that by (subst (asm) queue) auto
  show "walk_ok all_paths maps ?seeds 0 {} (\<lambda>_. 0) (search_start all_paths declared policy)"
    using sorted zero seeds by (auto simp: walk_ok_def frontier_ok_def reached_ok_def finished_ok_def intro: near.seed)
  show "edges_ok all_paths maps ?seeds (pl_id policy) (search_start all_paths declared policy)"
    by (simp add: edges_ok_def search_start_def Let_def max_per_policy_def)
qed

lemma near_seen:
  assumes "search_done all_paths maps seeds policy_id st" and "near all_paths maps seeds n p" and "n < 2"
  shows "\<forall>r \<in> set (relationships_for_path maps p). \<exists>b \<in> set (es_inferred st). states_edge (edge_key r) b"
proof -
  obtain d \<delta> where w: "walk_ok all_paths maps seeds d {} \<delta> st" and q: "es_queue st = []" and e: "edges_ok all_paths maps seeds policy_id st"
    using assms(1) by (auto simp: search_done_def)
  have explored: "explored all_paths maps \<delta> st p" if "p \<in> es_seen st" "\<delta> p < 2" for p
    using w q that by (simp add: walk_ok_def finished_ok_def)
  have "p \<in> es_seen st \<and> \<delta> p \<le> n" using assms(2,3)
  proof (induction rule: near.induct)
    case (seed p)
    then show ?case using w by (auto simp: walk_ok_def reached_ok_def)
  next
    case (step n p r q)
    then have "p \<in> es_seen st" "\<delta> p \<le> n" by simp_all
    then have "explored all_paths maps \<delta> st p" using step.prems by (intro explored) simp_all
    then have "q \<in> es_seen st" "\<delta> q \<le> \<delta> p + 1" using step.hyps(2,3) by (auto simp: explored_def)
    then show ?case using \<open>\<delta> p \<le> n\<close> by simp
  qed
  then have "explored all_paths maps \<delta> st p" using assms(3) by (intro explored) simp_all
  then show ?thesis using e by (simp add: explored_def edges_ok_def)
qed

definition policy_seeds :: "ustr list \<Rightarrow> policy_binding list \<Rightarrow> policy_claim \<Rightarrow> ustr set" where
  "policy_seeds all_paths declared policy =
     (\<Union>b \<in> {b \<in> set declared. bd_policy b = pl_id policy \<and> bd_state b \<noteq> MissingTargetState}. set (expanded_target_paths all_paths (bd_target b)))"

lemma seeds_start: "es_seen (search_start all_paths declared policy) = policy_seeds all_paths declared policy"
  by (auto simp: search_start_def policy_seeds_def Let_def)

text \<open>C9: The evidence search of a policy always ends, with at most 256 bindings. Each of them is neutral (it claims no role) and
  states a relationship of a path that is a target of the policy or one step from one; and when the search
  does not warn that it was cut off, it states every relationship of every such path.\<close>

theorem evidence_search_exact:
  assumes "infer_policy env all_paths maps declared policy = Inr (bindings, warnings)"
  shows "length bindings \<le> 256
    \<and> (\<forall>b \<in> set bindings. neutral (pl_id policy) b \<and> (\<exists>n p r. n < 2 \<and> near all_paths maps (policy_seeds all_paths declared policy) n p
          \<and> r \<in> set (relationships_for_path maps p) \<and> states_edge (edge_key r) b))
    \<and> (warnings = [] \<longrightarrow> (\<forall>n < 2. \<forall>p. near all_paths maps (policy_seeds all_paths declared policy) n p \<longrightarrow>
          (\<forall>r \<in> set (relationships_for_path maps p). \<exists>b \<in> set bindings. states_edge (edge_key r) b)))"
proof -
  let ?seeds = "policy_seeds all_paths declared policy"
  obtain st where st: "evidence_loop env all_paths maps (pl_id policy) (search_start all_paths declared policy) = Inr st"
    "bindings = es_inferred st" "warnings = [] \<longleftrightarrow> \<not> es_bounded st"
    using assms by (auto simp: infer_policy_def split: if_split_asm)
  from loop_walk [OF st(1) start_walk, unfolded seeds_start] show ?thesis
  proof
    assume "cut_ok all_paths maps ?seeds (pl_id policy) st"
    then show ?thesis using st(2,3) unfolding cut_ok_def sound_binding_def max_per_policy_def by simp
  next
    assume finished: "search_done all_paths maps ?seeds (pl_id policy) st"
    then show ?thesis using near_seen [OF finished] st(2)
      unfolding search_done_def edges_ok_def sound_binding_def max_per_policy_def by simp
  qed
qed

definition demo_maps :: relation_maps where
  "demo_maps = \<lparr>rm_structured = [], rm_structured_reverse = [], rm_imports = [], rm_imports_reverse = [], rm_config = [],
     rm_config_reverse = [], rm_scripts = [], rm_tests = {}, rm_registrations = {u ''a''}\<rparr>"

lemma demo_make: "\<exists>b. make_binding demo_governance_env [u ''a''] (evidence_binding (u ''P'')
    \<lparr>er_target = u ''a'', er_relationship = u ''registered'', er_source_path = u ''a'', er_attributes = [(u ''target'', JStr (u ''a''))]\<rparr>) = Inr b
    \<and> bd_target b = u ''a''"
proof -
  have name: "governance_identifier (u ''registered'') = Inr (u ''registered'')" by (rule name_identifier) (simp add: relationship_names_def)
  have strip: "strip (u ''a'') = u ''a''" by (simp add: u_def strip_def unicode_space_def)
  have "relative_target (u ''a'')" by code_simp
  then show ?thesis
    by (simp add: make_binding_def evidence_binding_def name strip make_policy_binding_def binding_valid_def text_within_def opt_within_def
        optional_identifier_def Let_def)
       (simp add: binding_id_def short_digest_def demo_governance_env_def u_def)
qed

theorem evidence_search_exact_witness:
  "\<exists>b. infer_policy demo_governance_env [u ''a''] demo_maps [demo_binding 2] (demo_policy 2) = Inr ([b], []) \<and> neutral (u ''P'') b"
proof -
  let ?r = "\<lparr>er_target = u ''a'', er_relationship = u ''registered'', er_source_path = u ''a'', er_attributes = [(u ''target'', JStr (u ''a''))]\<rparr>"
  obtain b where b: "make_binding demo_governance_env [u ''a''] (evidence_binding (u ''P'') ?r) = Inr b" "bd_target b = u ''a''"
    using demo_make by blast
  have expanded: "expanded_target_paths [u ''a''] (u ''a'') = [u ''a'']" by (simp add: expanded_target_paths_def resolve_paths_def u_def)
  have start: "search_start [u ''a''] [demo_binding 2] (demo_policy 2)
      = \<lparr>es_queue = [(u ''a'', 0)], es_seen = {u ''a''}, es_edges = {}, es_inferred = [], es_bounded = False\<rparr>"
    by (simp add: search_start_def demo_binding_def demo_policy_def expanded)
  have rels: "relationships_for_path demo_maps (u ''a'') = [?r]" by (simp add: relationships_for_path_def demo_maps_def targets_of_def)
  have pid: "pl_id (demo_policy 2) = u ''P''" by (simp add: demo_policy_def)
  have run: "infer_policy demo_governance_env [u ''a''] demo_maps [demo_binding 2] (demo_policy 2) = Inr ([b], [])"
    by (simp add: infer_policy_def start pid evidence_loop.simps rels follow_relationship_def b expanded max_per_policy_def discover_path_def Let_def)
  from evidence_search_exact [OF run] have "neutral (u ''P'') b" by (simp add: pid)
  then show ?thesis using run by blast
qed

end
