(* ===== verification/AuthorityTables.thy ===== *)
theory AuthorityTables
  imports GovernanceSearch
begin

text \<open>
  The authority tables (\<open>AuthorityResolver.resolve\<close> and the row builders of \<open>authority/resolver.py\<close>): claims become rows
  with evidence. Historical claims come from an optional provider and are an argument. The lemmas show that every
  row cites a captured file at the line of its claim, and that a path has at most one owner row.
\<close>

subsection \<open>Rows\<close>

fun basis_value :: "claim_basis \<Rightarrow> ustr" where
  "basis_value DeclaredBasis = u ''declared''"
| "basis_value ObservedBasis = u ''observed''"
| "basis_value ResolvedBasis = u ''resolved''"
| "basis_value InferredBasis = u ''inferred''"

fun evidence_authority :: "owner_source_kind \<Rightarrow> authority" where
  "evidence_authority ExplicitGovernance = GovernanceAuthority"
| "evidence_authority ManifestPolicyGenerator = ManifestAuthority"
| "evidence_authority CanonicalRelationship = SourceAuthority"
| "evidence_authority GitHistory = InferredAuthority"

definition owner_authority :: "authority_claim \<Rightarrow> authority" where
  "owner_authority c =
     (case ac_source_kind c of
        ExplicitGovernance \<Rightarrow> GovernanceAuthority
      | ManifestPolicyGenerator \<Rightarrow> if ac_owner_kind c = GeneratorOwner then GeneratedAuthority else ManifestAuthority
      | CanonicalRelationship \<Rightarrow> SourceAuthority
      | GitHistory \<Rightarrow> InferredAuthority)"

definition binding_status :: "governance_state \<Rightarrow> resolution_status" where
  "binding_status s = (case s of MissingTargetState \<Rightarrow> UnresolvedStatus | UnverifiedState \<Rightarrow> CandidateStatus | _ \<Rightarrow> ResolvedStatus)"

definition named :: "(string \<times> json) list \<Rightarrow> (ustr, json) dict" where
  "named items = map (\<lambda>(k, v). (u k, v)) items"

text \<open>The part all row builders share; a confidence is in thousandths.\<close>

definition authority_row ::
  "'a evidence_env_scheme \<Rightarrow> evidence_bundle \<Rightarrow> string \<Rightarrow> (ustr, json) dict \<Rightarrow> resolution_status \<Rightarrow> authority \<Rightarrow> string \<Rightarrow> nat \<Rightarrow>
   ustr \<Rightarrow> nat \<Rightarrow> (authority_error, table_row) result" where
  "authority_row env bundle table data status auth provider confidence path line =
     (case evidence_for_path (evidence_env.truncate env) bundle path (u table) data
        \<lparr>eq_kind = MetadataEvidence, eq_status = status, eq_authority = auth, eq_provider = u provider, eq_provider_version = u ''1'',
         eq_confidence = confidence, eq_note = []\<rparr> (int line) 1 (Some (int line)) None None None of
        Inl e \<Rightarrow> Inl (ClaimEvidence e)
      | Inr e \<Rightarrow> Inr \<lparr>tr_table = u table, tr_data = data, tr_evidence = e\<rparr>)"

definition entrypoint_row :: "'a evidence_env_scheme \<Rightarrow> evidence_bundle \<Rightarrow> entrypoint_claim \<Rightarrow> (authority_error, table_row) result" where
  "entrypoint_row env bundle c =
     authority_row env bundle ''authority.entrypoints''
       (named [(''entrypoint_kind'', JStr (entrypoint_kind_value (ec_kind c))), (''name'', JStr (ec_name c)), (''target'', JStr (ec_target c)),
         (''source_path'', JStr (ec_source_path c))])
       ResolvedStatus ManifestAuthority ''manifest-authority'' 1000 (ec_source_path c) (ec_source_line c)"

definition owner_row :: "'a evidence_env_scheme \<Rightarrow> evidence_bundle \<Rightarrow> authority_claim \<Rightarrow> (authority_error, table_row) result" where
  "owner_row env bundle c =
     authority_row env bundle ''authority.owners''
       (named [(''target'', JStr (ac_target c)), (''owners'', jstrs (ac_owners c)), (''owner_kind'', JStr (owner_kind_value (ac_owner_kind c))),
         (''source_kind'', JStr (source_kind_value (ac_source_kind c))), (''precedence'', jnat (source_precedence (ac_source_kind c))),
         (''source_path'', JStr (ac_source_path c))])
       ResolvedStatus (owner_authority c) ''authority-resolver'' 1000 (ac_source_path c) (ac_source_line c)"

definition policy_table_row :: "'a evidence_env_scheme \<Rightarrow> evidence_bundle \<Rightarrow> policy_claim \<Rightarrow> (authority_error, table_row) result" where
  "policy_table_row env bundle p =
     authority_row env bundle ''authority.policies''
       (named [(''policy_id'', JStr (pl_id p)), (''governance_source_id'', JStr (pl_source_id p)), (''title'', JStr (pl_title p)),
         (''aliases'', jstrs (pl_aliases p)), (''scope'', jstrs (pl_scope p)), (''required_roles'', jstrs (pl_required_roles p)),
         (''source_heading'', jstr_opt (pl_source_heading p)), (''identity_field'', JStr (pl_identity_field p)),
         (''identity_value'', JStr (pl_identity_value p)), (''vocabulary'', jstrs (pl_vocabulary p)), (''attributes'', JObj (pl_attributes p)),
         (''canonicality_basis'', jstrs (pl_basis p)), (''canonicality_score'', jnat (pl_score p)),
         (''basis'', JStr (basis_value (pl_claim_basis p))), (''source_kind'', JStr (source_kind_value (pl_source_kind p))),
         (''precedence'', jnat (source_precedence (pl_source_kind p))), (''source_path'', JStr (pl_source_path p))])
       ResolvedStatus (evidence_authority (pl_source_kind p)) ''governance-authority'' 1000 (pl_source_path p) (pl_source_line p)"

definition binding_row :: "'a evidence_env_scheme \<Rightarrow> evidence_bundle \<Rightarrow> policy_binding \<Rightarrow> (authority_error, table_row) result" where
  "binding_row env bundle b =
     authority_row env bundle ''authority.bindings''
       (named [(''binding_id'', JStr (bd_id b)), (''policy_id'', JStr (bd_policy b)), (''binding_kind'', JStr (binding_kind_value (bd_kind b))),
         (''role'', jstr_opt (bd_role b)), (''role_label'', jstr_opt (bd_role_label b)), (''target'', JStr (bd_target b)),
         (''target_kind'', JStr (target_kind_value (bd_target_kind b))), (''relationship'', JStr (bd_relationship b)),
         (''attributes'', JObj (bd_attributes b)), (''basis'', JStr (basis_value (bd_basis b))),
         (''state'', JStr (governance_state_value (bd_state b))), (''source_kind'', JStr (source_kind_value (bd_source_kind b))),
         (''precedence'', jnat (source_precedence (bd_source_kind b))), (''source_path'', JStr (bd_source_path b))])
       (binding_status (bd_state b)) (evidence_authority (bd_source_kind b)) ''governance-authority''
       (if bd_basis b = InferredBasis then 700 else 1000) (bd_source_path b) (bd_source_line b)"

definition conflict_data :: "policy_conflict \<Rightarrow> (string \<times> json) list" where
  "conflict_data k =
     [(''conflict_id'', JStr (pc_id k)), (''policy_id'', JStr (pc_policy k)), (''role'', jstr_opt (pc_role k)),
      (''role_label'', jstr_opt (pc_role_label k)), (''binding_id'', JStr (pc_binding k)),
      (''competing_binding_ids'', jstrs (pc_competing k)), (''state'', JStr (governance_state_value (pc_state k))),
      (''reason'', JStr (pc_reason k))]"

definition binding_conflict_row ::
  "'a evidence_env_scheme \<Rightarrow> evidence_bundle \<Rightarrow> policy_conflict \<times> policy_binding \<Rightarrow> (authority_error, table_row) result" where
  "binding_conflict_row env bundle entry =
     (case entry of (k, b) \<Rightarrow>
      authority_row env bundle ''authority.conflicts''
       (named (conflict_data k @ [(''target'', JStr (bd_target b)), (''target_kind'', JStr (target_kind_value (bd_target_kind b))),
         (''relationship'', JStr (bd_relationship b)), (''binding_kind'', JStr (binding_kind_value (bd_kind b))),
         (''attributes'', JObj (bd_attributes b)), (''basis'', JStr (basis_value (bd_basis b))),
         (''source_kind'', JStr (source_kind_value (bd_source_kind b))), (''precedence'', jnat (source_precedence (bd_source_kind b))),
         (''source_path'', JStr (pc_source_path k))]))
       ResolvedStatus (evidence_authority (bd_source_kind b)) ''governance-authority'' 1000 (pc_source_path k) (pc_source_line k))"

definition owner_conflict_row ::
  "'a evidence_env_scheme \<Rightarrow> evidence_bundle \<Rightarrow> policy_conflict \<times> authority_claim \<Rightarrow> (authority_error, table_row) result" where
  "owner_conflict_row env bundle entry =
     (case entry of (k, c) \<Rightarrow>
      authority_row env bundle ''authority.conflicts''
       (named (conflict_data k @ [(''target'', JStr (ac_target c)), (''owners'', jstrs (ac_owners c)), (''target_kind'', JStr (u ''path'')),
         (''relationship'', JStr (u ''declared'')), (''basis'', JStr (basis_value DeclaredBasis)),
         (''source_kind'', JStr (source_kind_value (ac_source_kind c))), (''precedence'', jnat (source_precedence (ac_source_kind c))),
         (''source_path'', JStr (ac_source_path c))]))
       ResolvedStatus (evidence_authority (ac_source_kind c)) ''authority-resolver'' 1000 (ac_source_path c) (ac_source_line c))"

subsection \<open>Resolution\<close>

record authority_result =
  au_entrypoints :: "table_row list"
  au_owners :: "table_row list"
  au_policies :: "table_row list"
  au_bindings :: "table_row list"
  au_conflicts :: "table_row list"
  au_warnings :: "ustr list"

definition check_historical :: "authority_claim \<Rightarrow> (authority_error, authority_claim) result" where
  "check_historical c = (if ac_owner_kind c \<noteq> HistoricalOwner \<or> ac_source_kind c \<noteq> GitHistory then Inl NonHistorical else Inr c)"

definition entrypoint_order :: "entrypoint_claim \<Rightarrow> ustr \<times> ustr \<times> ustr \<times> ustr" where
  "entrypoint_order c = (entrypoint_kind_value (ec_kind c), ec_name c, ec_target c, ec_source_path c)"

text \<open>The claims of the selected policies; without selectors all of them.\<close>

definition select_governance ::
  "(ustr \<Rightarrow> ustr) \<Rightarrow> ustr list \<Rightarrow> governance_claims \<Rightarrow> governance_claims" where
  "select_governance casefolding selectors g =
     (if selectors = [] then g
      else let selected = selected_policy_ids casefolding (gv_policies g) (gv_bindings g) selectors in
        g\<lparr>gv_policies := filter (\<lambda>p. pl_id p \<in> selected) (gv_policies g), gv_bindings := filter (\<lambda>b. bd_policy b \<in> selected) (gv_bindings g),
          gv_conflicts := filter (\<lambda>k. pc_policy k \<in> selected) (gv_conflicts g),
          gv_policy_warnings := filter (\<lambda>w. fst w \<in> selected) (gv_policy_warnings g)\<rparr>)"

definition conflict_rows ::
  "'a evidence_env_scheme \<Rightarrow> evidence_bundle \<Rightarrow> governance_claims \<Rightarrow> (policy_conflict \<times> authority_claim) list \<Rightarrow>
   (authority_error, table_row list) result" where
  "conflict_rows env bundle g owners_disagree =
     (let by_id = index_rows bd_id (gv_bindings g) in
      bind_err (map_err (binding_conflict_row env bundle)
          (List.map_filter (\<lambda>k. map_option (Pair k) (map_of by_id (pc_binding k))) (gv_conflicts g))) (\<lambda>governed.
      bind_err (map_err (owner_conflict_row env bundle) owners_disagree) (\<lambda>owned. Inr (governed @ owned))))"

definition resolve_authority ::
  "'a governance_graph_env_scheme \<Rightarrow> evidence_bundle \<Rightarrow> fact_tables \<Rightarrow> governance_source list \<Rightarrow> ustr list \<Rightarrow> authority_claim list \<Rightarrow> nat \<Rightarrow>
   (authority_error, authority_result) result" where
  "resolve_authority env bundle tables sources selectors historical max_history_paths =
     bind_err (collect_authority env bundle) (\<lambda>st.
     bind_err (map_err check_historical (take max_history_paths historical)) (\<lambda>history.
     bind_err (resolve_precedence env (as_owners st @ history)) (\<lambda>(winners, owner_disputes).
     bind_err (collect_governance_claims env (sb_contents bundle) tables sources selectors) (\<lambda>collected.
     let g = select_governance (ge_casefold env) selectors collected in
     bind_err (map_err (entrypoint_row env bundle) (sort_key entrypoint_order (as_entrypoints st))) (\<lambda>entrypoints.
     bind_err (map_err (owner_row env bundle) winners) (\<lambda>owners.
     bind_err (map_err (policy_table_row env bundle) (gv_policies g)) (\<lambda>policies.
     bind_err (map_err (binding_row env bundle) (gv_bindings g)) (\<lambda>bindings.
     bind_err (conflict_rows env bundle g (if selectors = [] then owner_disputes else [])) (\<lambda>conflicts.
     Inr \<lparr>au_entrypoints = entrypoints, au_owners = owners, au_policies = policies, au_bindings = bindings, au_conflicts = conflicts,
          au_warnings = first_unique (as_warnings st @ gv_warnings g @ map snd (gv_policy_warnings g))\<rparr>)))))))))"

text \<open>\<open>produce\<close>: the asked tables among those it has.\<close>

definition authority_tables :: "authority_result \<Rightarrow> (ustr, table_row list) dict" where
  "authority_tables r =
     map (\<lambda>(k, v). (u k, v)) [(''authority.entrypoints'', au_entrypoints r), (''authority.owners'', au_owners r),
       (''authority.policies'', au_policies r), (''authority.bindings'', au_bindings r), (''authority.conflicts'', au_conflicts r)]"

definition produce_authority :: "ustr list \<Rightarrow> authority_result \<Rightarrow> (ustr, table_row list) dict" where
  "produce_authority table_names r =
     dict_from (List.map_filter (\<lambda>name. map_option (Pair name) (map_of (authority_tables r) name)) table_names)"

subsection \<open>Rows cite the files they come from\<close>

definition cites_captured :: "evidence_bundle \<Rightarrow> table_row \<Rightarrow> bool" where
  "cites_captured bundle row \<longleftrightarrow>
     (\<exists>captured \<in> set (sb_files bundle). cf_path captured = ev_path (tr_evidence row))
     \<and> map_of (tr_data row) (u ''source_path'') = Some (JStr (ev_path (tr_evidence row)))
     \<and> ps_start_line (ev_range (tr_evidence row)) = ps_end_line (ev_range (tr_evidence row)) \<and> 1 \<le> ps_start_line (ev_range (tr_evidence row))
     \<and> evidence_valid (tr_evidence row)"

lemma authority_row_cites:
  assumes "authority_row env bundle table data status auth provider confidence path line = Inr row"
    and "map_of data (u ''source_path'') = Some (JStr path)"
  shows "cites_captured bundle row \<and> tr_table row = u table"
proof -
  obtain e where e: "evidence_for_path (evidence_env.truncate env) bundle path (u table) data
        \<lparr>eq_kind = MetadataEvidence, eq_status = status, eq_authority = auth, eq_provider = u provider, eq_provider_version = u ''1'',
         eq_confidence = confidence, eq_note = []\<rparr> (int line) 1 (Some (int line)) None None None = Inr e"
    "row = \<lparr>tr_table = u table, tr_data = data, tr_evidence = e\<rparr>"
    using assms(1) by (auto simp: authority_row_def split: sum.split_asm)
  then obtain captured where "files_by_path (sb_files bundle) path = Some captured"
    by (auto simp: evidence_for_path_def split: option.split_asm)
  moreover from this e have "ev_path e = path" "ps_start_line (ev_range e) = int line" "ps_end_line (ev_range e) = int line"
    "range_valid (ev_range e)" "evidence_valid e"
    by (auto simp: evidence_for_path_def provided_or_def Let_def split: if_split_asm)
  ultimately show ?thesis using files_by_path_mem [of "sb_files bundle" path captured] e(2) assms(2)
    by (auto simp: cites_captured_def range_valid_def)
qed

lemma u_inject: "u j = u k \<longleftrightarrow> j = k"
proof -
  have "inj (of_char :: char \<Rightarrow> nat)" by (rule injI) simp
  then show ?thesis unfolding u_def by (rule inj_map_eq_map)
qed

lemma source_path_named: "map_of (named items) (u k) = map_of items k"
proof (induction items)
  case (Cons e items)
  obtain j v where e: "e = (j, v)" by (cases e)
  show ?case using Cons unfolding e named_def by (simp add: u_inject)
qed (simp add: named_def)

lemma map_err_all: "map_err f xs = Inr ys \<Longrightarrow> (\<And>x y. f x = Inr y \<Longrightarrow> P y) \<Longrightarrow> \<forall>y \<in> set ys. P y"
  using map_err_mem by metis

lemma row_builders_cite:
  "entrypoint_row env bundle e = Inr row \<Longrightarrow> cites_captured bundle row \<and> tr_table row = u ''authority.entrypoints''"
  "owner_row env bundle c = Inr row \<Longrightarrow> cites_captured bundle row \<and> tr_table row = u ''authority.owners''"
  "policy_table_row env bundle p = Inr row \<Longrightarrow> cites_captured bundle row \<and> tr_table row = u ''authority.policies''"
  "binding_row env bundle b = Inr row \<Longrightarrow> cites_captured bundle row \<and> tr_table row = u ''authority.bindings''"
  "binding_conflict_row env bundle x = Inr row \<Longrightarrow> cites_captured bundle row \<and> tr_table row = u ''authority.conflicts''"
  "owner_conflict_row env bundle y = Inr row \<Longrightarrow> cites_captured bundle row \<and> tr_table row = u ''authority.conflicts''"
  unfolding entrypoint_row_def owner_row_def policy_table_row_def binding_row_def binding_conflict_row_def owner_conflict_row_def
  by (erule authority_row_cites, simp add: source_path_named)+
     (cases x, cases y, simp only: prod.case, erule authority_row_cites, simp add: source_path_named conflict_data_def)+

text \<open>C12: Every row of the authority tables is about a file that was captured: its evidence is valid, names that file, is the file the row
  itself names as its source, and cites one line of it; and the row belongs to the table it is returned in.\<close>

theorem authority_rows_cite_sources:
  assumes "resolve_authority env bundle tables sources selectors historical max_history_paths = Inr r"
  shows "\<forall>e \<in> set (authority_tables r). \<forall>row \<in> set (snd e). cites_captured bundle row \<and> tr_table row = fst e"
proof -
  obtain es os winners ps g bs dis where rows:
    "map_err (entrypoint_row env bundle) es = Inr (au_entrypoints r)" "map_err (owner_row env bundle) winners = Inr (au_owners r)"
    "map_err (policy_table_row env bundle) ps = Inr (au_policies r)" "map_err (binding_row env bundle) bs = Inr (au_bindings r)"
    "conflict_rows env bundle g dis = Inr (au_conflicts r)"
    using assms unfolding resolve_authority_def Let_def by (auto simp: case_prod_beta)
  have "\<forall>row \<in> set (au_conflicts r). cites_captured bundle row \<and> tr_table row = u ''authority.conflicts''"
  proof -
    obtain xs governed owned where parts: "map_err (binding_conflict_row env bundle) xs = Inr governed"
      "map_err (owner_conflict_row env bundle) dis = Inr owned" "au_conflicts r = governed @ owned"
      using rows(5) by (auto simp: conflict_rows_def Let_def)
    have "\<forall>row \<in> set governed. cites_captured bundle row \<and> tr_table row = u ''authority.conflicts''"
      by (rule map_err_all [OF parts(1)]) (rule row_builders_cite)
    moreover have "\<forall>row \<in> set owned. cites_captured bundle row \<and> tr_table row = u ''authority.conflicts''"
      by (rule map_err_all [OF parts(2)]) (rule row_builders_cite)
    ultimately show ?thesis unfolding parts(3) by auto
  qed
  moreover have "\<forall>row \<in> set (au_entrypoints r). cites_captured bundle row \<and> tr_table row = u ''authority.entrypoints''"
    by (rule map_err_all [OF rows(1)]) (rule row_builders_cite)
  moreover have "\<forall>row \<in> set (au_owners r). cites_captured bundle row \<and> tr_table row = u ''authority.owners''"
    by (rule map_err_all [OF rows(2)]) (rule row_builders_cite)
  moreover have "\<forall>row \<in> set (au_policies r). cites_captured bundle row \<and> tr_table row = u ''authority.policies''"
    by (rule map_err_all [OF rows(3)]) (rule row_builders_cite)
  moreover have "\<forall>row \<in> set (au_bindings r). cites_captured bundle row \<and> tr_table row = u ''authority.bindings''"
    by (rule map_err_all [OF rows(4)]) (rule row_builders_cite)
  ultimately show ?thesis by (simp add: authority_tables_def)
qed

definition demo_graph_env :: governance_graph_env where
  "demo_graph_env =
     \<lparr>ee_digest = (\<lambda>_. u ''0a1b''), ee_dumps = (\<lambda>_. []), ae_json = (\<lambda>_. Inl JsonDecodeError), ae_toml = (\<lambda>_. None), ae_yaml = (\<lambda>_. None),
      ge_repr = (\<lambda>s. s), ge_casefold = (\<lambda>s. s), ge_json = (\<lambda>_. None), ge_tokens = (\<lambda>_. []), gc_error = (\<lambda>_. []),
      gg_leaf_texts = map (\<lambda>_. [])\<rparr>"

definition demo_evidence_bundle :: evidence_bundle where
  "demo_evidence_bundle =
     \<lparr>sb_workspace = u ''w'', sb_files = [\<lparr>cf_path = u ''a'', cf_language = None, cf_language_id = None, cf_hash = replicate 64 97\<rparr>],
      sb_changed = False, sb_contents = [], eb_snapshot = u ''s'', eb_fingerprint = u ''f'', eb_extent = (\<lambda>_. (0, 0))\<rparr>"

definition demo_historical :: authority_claim where
  "demo_historical = \<lparr>ac_target = u ''a'', ac_owners = [u ''x''], ac_owner_kind = HistoricalOwner, ac_source_kind = GitHistory,
     ac_source_path = u ''a'', ac_source_line = 3\<rparr>"

lemma demo_owner_row: "\<exists>row. owner_row demo_graph_env demo_evidence_bundle demo_historical = Inr row"
proof -
  have sha: "is_lowercase_sha256 (replicate 64 97)"
    by (simp add: is_lowercase_sha256_def list_all_iff u_def)
  have ok: "\<not> starts_with_absolute_path (u ''a'')" "u ''..'' \<notin> set (split_on 47 (u ''a''))" "\<not> starts_with_absolute_path []"
    by (simp_all add: starts_with_absolute_path_def startswith_def u_def)
  show ?thesis
    using sha ok by (simp add: owner_row_def authority_row_def evidence_for_path_def files_by_path_def demo_evidence_bundle_def
        demo_historical_def source_hash_of_def provided_or_def range_valid_def evidence_valid_def evidence_path_ok_def evidence_note_ok_def
        MAX_NOTE_LENGTH_def evidence_env.truncate_def demo_graph_env_def Let_def) (simp add: u_def)
qed

theorem authority_rows_cite_sources_witness:
  "\<exists>r. resolve_authority demo_graph_env demo_evidence_bundle [] [] [] [demo_historical] 256 = Inr r
     \<and> length (au_owners r) = 1 \<and> cites_captured demo_evidence_bundle (hd (au_owners r))"
proof -
  obtain row where row: "owner_row demo_graph_env demo_evidence_bundle demo_historical = Inr row" using demo_owner_row by blast
  have collect: "collect_authority demo_graph_env demo_evidence_bundle = Inr \<lparr>as_owners = [], as_entrypoints = [], as_warnings = []\<rparr>"
    by (simp add: collect_authority_def demo_evidence_bundle_def)
  have history: "check_historical demo_historical = Inr demo_historical"
    by (simp add: check_historical_def demo_historical_def)
  have precedence: "resolve_precedence demo_graph_env [demo_historical] = Inr ([demo_historical], [])"
    by code_simp
  have governance: "collect_governance_claims demo_graph_env [] [] [] [] = Inr \<lparr>gv_policies = [], gv_bindings = [], gv_conflicts = [],
      gv_warnings = [], gv_policy_warnings = []\<rparr>"
    by (simp add: collect_governance_claims_def discover_record_sets_def List.map_filter_simps consolidate_policies_def group_rows_def
        selected_policy_ids_def infer_evidence_bindings_def resolve_binding_claims_def declared_bindings_def unique_bindings_def index_rows_def
        first_unique_def)
  have contents: "sb_contents demo_evidence_bundle = []" by (simp add: demo_evidence_bundle_def)
  have run: "resolve_authority demo_graph_env demo_evidence_bundle [] [] [] [demo_historical] 256
      = Inr \<lparr>au_entrypoints = [], au_owners = [row], au_policies = [], au_bindings = [], au_conflicts = [], au_warnings = []\<rparr>"
    by (simp add: resolve_authority_def collect history precedence governance contents row select_governance_def conflict_rows_def
        List.map_filter_simps first_unique_def)
  from authority_rows_cite_sources [OF run] have "cites_captured demo_evidence_bundle row" by (simp add: authority_tables_def)
  then show ?thesis using run by simp
qed

end
