(* ===== verification/NextRoutes.thy ===== *)
theory NextRoutes
  imports Texts
begin

text \<open>
  The Next.js route conventions on strings (the first part of \<open>frameworks/nextjs.py\<close> and
  \<open>frameworks/contracts.py\<close>): versions, route patterns, file matchers, dynamic segments and
  interception markers. The digit tables of \<open>str.isdigit\<close>, \<open>str.isdecimal\<close> and \<open>int\<close> are an
  argument. The lemmas say which parts of a key a route pattern keeps and where an intercepting
  marker points.
\<close>

subsection \<open>Registrations\<close>

datatype registration_kind = PageKind | RouteHandlerKind | LayoutKind | DefaultKind | NotFoundKind | ProxyKind

fun registration_kind_value :: "registration_kind \<Rightarrow> ustr" where
  "registration_kind_value PageKind = u ''page''"
| "registration_kind_value RouteHandlerKind = u ''route_handler''"
| "registration_kind_value LayoutKind = u ''layout''"
| "registration_kind_value DefaultKind = u ''default''"
| "registration_kind_value NotFoundKind = u ''not_found''"
| "registration_kind_value ProxyKind = u ''proxy''"

datatype router_kind = AppRouter | PagesRouter

fun router_value :: "router_kind \<Rightarrow> ustr" where
  "router_value AppRouter = u ''app''"
| "router_value PagesRouter = u ''pages''"

datatype segment_kind = RequiredSegment | CatchAllSegment | OptionalCatchAllSegment

fun segment_kind_value :: "segment_kind \<Rightarrow> ustr" where
  "segment_kind_value RequiredSegment = u ''required''"
| "segment_kind_value CatchAllSegment = u ''catch_all''"
| "segment_kind_value OptionalCatchAllSegment = u ''optional_catch_all''"

record dynamic_segment =
  ds_segment :: ustr
  ds_param :: ustr
  ds_kind :: segment_kind
  ds_index :: nat

text \<open>A registration; its confidence is in thousandths.\<close>

record registration =
  rg_framework :: ustr
  rg_project_dir :: ustr
  rg_path :: ustr
  rg_kind :: registration_kind
  rg_route :: "ustr option"
  rg_router :: "router_kind option"
  rg_dynamic :: "dynamic_segment list"
  rg_groups :: "ustr list"
  rg_slots :: "ustr list"
  rg_marker :: "ustr option"
  rg_target :: "ustr option"
  rg_note :: ustr
  rg_confidence :: nat

definition registration_key :: "registration \<Rightarrow> ustr \<times> ustr \<times> ustr \<times> ustr" where
  "registration_key r =
     (rg_project_dir r, (case rg_router r of None \<Rightarrow> [] | Some k \<Rightarrow> router_value k),
      (case rg_route r of None \<Rightarrow> [] | Some t \<Rightarrow> t), rg_path r)"

subsection \<open>Versions\<close>

record digit_env =
  he_digit :: "nat \<Rightarrow> bool"
  he_decimal :: "nat \<Rightarrow> nat option"

definition is_digit_text :: "'a digit_env_scheme \<Rightarrow> ustr \<Rightarrow> bool" where
  "is_digit_text env s \<longleftrightarrow> s \<noteq> [] \<and> (\<forall>c \<in> set s. he_digit env c)"

definition is_decimal_text :: "'a digit_env_scheme \<Rightarrow> ustr \<Rightarrow> bool" where
  "is_decimal_text env s \<longleftrightarrow> s \<noteq> [] \<and> (\<forall>c \<in> set s. he_decimal env c \<noteq> None)"

text \<open>\<open>int(s)\<close> of a text of digits: it raises on a digit that is no decimal, and past 4300 digits.\<close>

definition int_of_digits :: "'a digit_env_scheme \<Rightarrow> ustr \<Rightarrow> nat option" where
  "int_of_digits env s =
     (if is_decimal_text env s \<and> length s \<le> 4300
      then Some (foldl (\<lambda>n c. 10 * n + the (he_decimal env c)) 0 s) else None)"

definition version_suffix_char :: "nat \<Rightarrow> bool" where
  "version_suffix_char c \<longleftrightarrow> c = 46 \<or> c = 45 \<or> 48 \<le> c \<and> c \<le> 57 \<or> 65 \<le> c \<and> c \<le> 90 \<or> 97 \<le> c \<and> c \<le> 122"

definition version_core :: "ustr \<Rightarrow> ustr option" where
  "version_core v =
     (let core_and_prerelease = takeWhile (\<lambda>c. c \<noteq> 43) v; build = drop (Suc (length core_and_prerelease)) v in
      if 43 \<in> set v \<and> (build = [] \<or> 43 \<in> set build \<or> (\<exists>c \<in> set build. \<not> version_suffix_char c)) then None
      else
        let core = takeWhile (\<lambda>c. c \<noteq> 45) core_and_prerelease; prerelease = drop (Suc (length core)) core_and_prerelease in
        if 45 \<in> set core_and_prerelease \<and> (prerelease = [] \<or> (\<exists>c \<in> set prerelease. \<not> version_suffix_char c)) then None
        else Some core)"

datatype next_error = NotAnInteger | NeverReturns

definition next_major :: "'a digit_env_scheme \<Rightarrow> bool \<Rightarrow> bool \<Rightarrow> ustr \<Rightarrow> (next_error, nat option) result" where
  "next_major env allow_range_prefix allow_wildcards v =
     (let ranged = (if allow_range_prefix \<and> (startswith v (u ''^'') \<or> startswith v (u ''~'')) then drop 1 v else v);
          bare = (if startswith ranged (u ''v'') then drop 1 ranged else ranged)
      in case version_core bare of
           None \<Rightarrow> Inr None
         | Some core \<Rightarrow>
             let parts = split_on 46 core in
             if \<not> (1 \<le> length parts \<and> length parts \<le> 3) \<or> \<not> is_digit_text env (hd parts) then Inr None
             else if \<exists>part \<in> set (tl parts). part = [] \<or> (\<not> is_digit_text env part
                    \<and> (\<not> allow_wildcards \<or> part \<notin> {u ''*'', u ''x'', u ''X''})) then Inr None
             else (case int_of_digits env (hd parts) of None \<Rightarrow> Inl NotAnInteger | Some n \<Rightarrow> Inr (Some n)))"

definition supported_major :: "nat \<Rightarrow> bool" where
  "supported_major n \<longleftrightarrow> 16 \<le> n \<and> n < 17"

definition is_supported_next_version :: "'a digit_env_scheme \<Rightarrow> ustr \<Rightarrow> (next_error, bool) result" where
  "is_supported_next_version env version =
     bind_err (next_major env False False (strip version)) (\<lambda>major.
       Inr (case major of None \<Rightarrow> False | Some n \<Rightarrow> supported_major n))"

definition declared_next_major :: "'a digit_env_scheme \<Rightarrow> ustr \<Rightarrow> (next_error, nat option) result" where
  "declared_next_major env specifier = next_major env True True (removeprefix (strip specifier) (u ''workspace:''))"

subsection \<open>Route patterns\<close>

definition ensure_leading_slash :: "ustr \<Rightarrow> ustr" where
  "ensure_leading_slash path = (if startswith path (u ''/'') then path else u ''/'' @ path)"

definition is_group_segment :: "ustr \<Rightarrow> bool" where
  "is_group_segment segment \<longleftrightarrow> startswith segment (u ''('') \<and> endswith segment (u '')'')"

definition is_parallel_route_segment :: "ustr \<Rightarrow> bool" where
  "is_parallel_route_segment segment \<longleftrightarrow> startswith segment (u ''@'') \<and> segment \<noteq> u ''@children''"

definition app_path_step :: "nat \<Rightarrow> ustr \<Rightarrow> nat \<times> ustr \<Rightarrow> ustr" where
  "app_path_step final pathname entry =
     (case entry of (index, segment) \<Rightarrow>
        if segment = [] \<or> is_group_segment segment then pathname
        else if startswith segment (u ''@'') then pathname
        else if (segment = u ''page'' \<or> segment = u ''route'') \<and> index = final then pathname
        else pathname @ u ''/'' @ segment)"

definition normalize_app_path :: "ustr \<Rightarrow> ustr" where
  "normalize_app_path route =
     (let segments = split_on 47 route in
      ensure_leading_slash (foldl (app_path_step (length segments - 1)) [] (enumerate 0 segments)))"

definition normalize_layout_route :: "ustr \<Rightarrow> ustr" where
  "normalize_layout_route page_key = ensure_leading_slash (removesuffix (normalize_app_path page_key) (u ''/layout''))"

definition longest_first :: "ustr list \<Rightarrow> ustr list" where
  "longest_first page_extensions = sort_key (\<lambda>e. - int (length e)) page_extensions"

definition get_page_from_path :: "ustr \<Rightarrow> ustr list \<Rightarrow> ustr" where
  "get_page_from_path page_path page_extensions =
     (let stripped = first_some (\<lambda>e. let s = removesuffix page_path (u ''.'' @ e) in if s \<noteq> page_path then Some s else None)
            (longest_first page_extensions);
          page = removesuffix (case stripped of None \<Rightarrow> page_path | Some s \<Rightarrow> s) (u ''/index'')
      in if page = [] then u ''/'' else page)"

definition is_reserved_page :: "ustr \<Rightarrow> bool" where
  "is_reserved_page page \<longleftrightarrow>
     startswith page (u ''/_app'') \<or> startswith page (u ''/_error'') \<or> startswith page (u ''/_document'')
     \<or> page = u ''/api'' \<or> startswith page (u ''/api/'')"

definition project_label :: "ustr \<Rightarrow> ustr" where
  "project_label project_dir = (if project_dir = [] then u ''<workspace root>'' else project_dir)"

text \<open>\<open>posixpath.basename\<close>\<close>

definition base_of :: "ustr \<Rightarrow> ustr" where
  "base_of path = rev (takeWhile (\<lambda>c. c \<noteq> 47) (rev path))"

definition metadata_stems :: "ustr set" where
  "metadata_stems = {u ''apple-icon'', u ''favicon'', u ''icon'', u ''manifest'', u ''opengraph-image'', u ''robots'',
     u ''sitemap'', u ''twitter-image''}"

definition is_metadata_stem :: "'a digit_env_scheme \<Rightarrow> ustr \<Rightarrow> bool" where
  "is_metadata_stem env rel_path =
     (let stem = takeWhile (\<lambda>c. c \<noteq> 46) (base_of rel_path) in
      \<exists>candidate \<in> metadata_stems. startswith stem candidate \<and> is_decimal_text env (removeprefix stem candidate)
        \<or> stem = candidate)"

subsection \<open>File matchers\<close>

record file_matcher =
  fm_names :: "ustr set"
  fm_extensions :: "ustr list"
  fm_root_only :: bool
  fm_any_name :: bool

definition search_path :: "file_matcher \<Rightarrow> ustr \<Rightarrow> bool" where
  "search_path m path \<longleftrightarrow>
     (let normalized = lstrip_char 47 (map (\<lambda>c. if c = 92 then 47 else c) path); filename = base_of normalized in
      \<not> (fm_root_only m \<and> 47 \<in> set normalized)
      \<and> (\<exists>e \<in> set (fm_extensions m). endswith filename (u ''.'' @ e)
           \<and> (fm_any_name m \<or> removesuffix filename (u ''.'' @ e) \<in> fm_names m)))"

record valid_file_matcher =
  vm_page :: file_matcher
  vm_route :: file_matcher
  vm_layout :: file_matcher
  vm_default :: file_matcher
  vm_root_not_found :: file_matcher
  vm_any_extension :: file_matcher

definition kind_for :: "valid_file_matcher \<Rightarrow> ustr \<Rightarrow> registration_kind option" where
  "kind_for m rel_path =
     (if search_path (vm_layout m) rel_path then Some LayoutKind
      else if search_path (vm_default m) rel_path then Some DefaultKind
      else if search_path (vm_route m) rel_path then Some RouteHandlerKind
      else if search_path (vm_page m) rel_path then Some PageKind
      else if search_path (vm_root_not_found m) (lstrip_char 47 rel_path) then Some NotFoundKind
      else None)"

definition leaf_matcher :: "ustr list \<Rightarrow> string list \<Rightarrow> file_matcher" where
  "leaf_matcher extensions names =
     \<lparr>fm_names = set (map u names), fm_extensions = extensions, fm_root_only = False, fm_any_name = False\<rparr>"

definition create_valid_file_matcher :: "ustr list \<Rightarrow> valid_file_matcher" where
  "create_valid_file_matcher extensions =
     \<lparr>vm_page = leaf_matcher extensions [''page'', ''route''], vm_route = leaf_matcher extensions [''route''],
      vm_layout = leaf_matcher extensions [''layout''], vm_default = leaf_matcher extensions [''default''],
      vm_root_not_found = \<lparr>fm_names = {u ''not-found''}, fm_extensions = extensions, fm_root_only = True, fm_any_name = False\<rparr>,
      vm_any_extension = \<lparr>fm_names = {}, fm_extensions = extensions, fm_root_only = False, fm_any_name = True\<rparr>\<rparr>"

subsection \<open>Dynamic segments and interception\<close>

definition parse_dynamic :: "ustr \<Rightarrow> (ustr \<times> segment_kind) option" where
  "parse_dynamic segment =
     (let found =
        (if startswith segment (u ''[[...'') \<and> endswith segment (u '']]'')
         then Some (py_slice segment 5 (int (length segment) - 2), OptionalCatchAllSegment)
         else if startswith segment (u ''[...'') \<and> endswith segment (u '']'')
         then Some (py_slice segment 4 (int (length segment) - 1), CatchAllSegment)
         else if startswith segment (u ''['') \<and> endswith segment (u '']'')
         then (let parameter = py_slice segment 1 (int (length segment) - 1) in
               if 46 \<in> set parameter then None else Some (parameter, RequiredSegment))
         else None)
      in case found of
           None \<Rightarrow> None
         | Some (parameter, kind) \<Rightarrow> if parameter = [] \<or> 93 \<in> set parameter then None else Some (parameter, kind))"

definition dynamic_segments :: "ustr \<Rightarrow> dynamic_segment list" where
  "dynamic_segments route =
     List.map_filter (\<lambda>(index, segment).
        map_option (\<lambda>(param, kind). \<lparr>ds_segment = segment, ds_param = param, ds_kind = kind, ds_index = index\<rparr>)
          (parse_dynamic segment)) (enumerate 0 (split_on 47 route))"

definition reduce_visible :: "ustr list \<Rightarrow> ustr list" where
  "reduce_visible segments =
     filter (\<lambda>segment. segment \<noteq> [] \<and> \<not> is_group_segment segment \<and> \<not> startswith segment (u ''@'')) segments"

definition interception_markers :: "ustr list" where
  "interception_markers = [u ''(..)(..)'', u ''(.)'', u ''(..)'', u ''(...)'']"

definition interception_marker :: "ustr \<Rightarrow> (ustr \<times> ustr) option" where
  "interception_marker segment =
     first_some (\<lambda>marker. if startswith segment marker \<and> length segment > length marker
                          then Some (marker, drop (length marker) segment) else None) interception_markers"

text \<open>\<open>s.count(p)\<close> for a non-empty \<open>p\<close>\<close>

fun count_of :: "ustr \<Rightarrow> ustr \<Rightarrow> nat" where
  "count_of p [] = 0"
| "count_of p (c # cs) =
     (if startswith (c # cs) p then Suc (count_of p (drop (length p - 1) cs)) else count_of p cs)"

definition intercepted_base :: "ustr \<Rightarrow> ustr list \<Rightarrow> ustr list option" where
  "intercepted_base marker base =
     (if marker = u ''(...)'' then Some []
      else if marker \<noteq> u ''(.)'' then
        (let levels = count_of (u ''(..)'') marker in
         if levels > length base then None else Some (take (length base - levels) base))
      else Some base)"

definition resolve_at :: "ustr list \<Rightarrow> nat \<Rightarrow> (ustr option \<times> ustr option \<times> ustr) option" where
  "resolve_at segments index =
     (case interception_marker (segments ! index) of
        None \<Rightarrow> None
      | Some (marker, rest) \<Rightarrow>
          (case intercepted_base marker (reduce_visible (take index segments)) of
             None \<Rightarrow> Some (Some marker, None, u ''intercepting marker '' @ marker @ u '' rises above the app root'')
           | Some base \<Rightarrow>
               let tail = reduce_visible (drop (Suc index) segments);
                   target = normalize_app_path (join_with [47] ([[]] @ base @ [rest] @ tail))
               in Some (Some marker, Some target, [])))"

definition resolve_interception :: "ustr \<Rightarrow> ustr option \<times> ustr option \<times> ustr" where
  "resolve_interception page_key =
     (let segments = split_on 47 page_key in
      case first_some (resolve_at segments) [0..<length segments] of
        None \<Rightarrow> (None, None, [])
      | Some r \<Rightarrow> r)"


subsection \<open>The parts of a pattern\<close>

text \<open>What a pattern shows of its segments: no groups, no slots, and not the leaf that names the file.\<close>

definition visible_parts :: "ustr list \<Rightarrow> ustr list" where
  "visible_parts segments =
     reduce_visible (if last segments \<in> {u ''page'', u ''route''} then butlast segments else segments)"

lemma reduce_visible_append: "reduce_visible (xs @ ys) = reduce_visible xs @ reduce_visible ys"
  by (simp add: reduce_visible_def)

lemma reduce_visible_Cons:
  "reduce_visible (x # xs) =
     (if x \<noteq> [] \<and> \<not> is_group_segment x \<and> \<not> startswith x (u ''@'') then x # reduce_visible xs else reduce_visible xs)"
  by (simp add: reduce_visible_def)

lemma app_path_fold:
  assumes "n + length xs \<le> final"
  shows "foldl (app_path_step final) acc (enumerate n xs) = acc @ concat (map ((#) 47) (reduce_visible xs))"
  using assms
proof (induction xs arbitrary: n acc)
  case (Cons x xs)
  then have "app_path_step final acc (n, x) = acc @ concat (map ((#) 47) (if x \<noteq> [] \<and> \<not> is_group_segment x \<and> \<not> startswith x (u ''@'') then [x] else []))"
    by (simp add: app_path_step_def u_def)
  then show ?case using Cons by (simp add: reduce_visible_Cons)
qed (simp add: reduce_visible_def)

lemma app_path_last:
  "app_path_step n acc (n, x) = acc @ concat (map ((#) 47) (visible_parts [x]))"
  by (auto simp: app_path_step_def visible_parts_def reduce_visible_def u_def)

lemma visible_parts_snoc: "visible_parts (xs @ [x]) = reduce_visible xs @ visible_parts [x]"
  by (simp add: visible_parts_def reduce_visible_append reduce_visible_def)

lemma app_path_visible:
  assumes "segments \<noteq> []"
  shows "foldl (app_path_step (length segments - 1)) [] (enumerate 0 segments)
    = concat (map ((#) 47) (visible_parts segments))"
proof -
  obtain xs x where segments: "segments = xs @ [x]" using assms by (meson rev_exhaust)
  show ?thesis
    by (simp add: segments enumerate_append_eq app_path_fold app_path_last visible_parts_snoc)
qed

lemma joined_parts: "concat (map ((#) 47) ps) = join_with [47] ([] # ps)" if "ps \<noteq> []"
  using that
proof (induction ps rule: list_nonempty_induct)
  case (cons p ps)
  then show ?case by (cases ps) (simp_all add: join_with_def)
qed (simp add: join_with_def)

lemma visible_parts_sub: "set (visible_parts segments) \<subseteq> set segments"
  by (auto simp: visible_parts_def reduce_visible_def dest: in_set_butlastD)

lemma visible_parts_seen:
  "p \<in> set (visible_parts segments) \<Longrightarrow> p \<noteq> [] \<and> \<not> is_group_segment p \<and> \<not> startswith p (u ''@'')"
  by (auto simp: visible_parts_def reduce_visible_def)

lemma normalize_app_path_eq:
  "normalize_app_path route = ensure_leading_slash (concat (map ((#) 47) (visible_parts (split_on 47 route))))"
  unfolding normalize_app_path_def Let_def app_path_visible [OF split_on_not_Nil] by (rule refl)

lemma normalize_app_path_joined:
  "normalize_app_path route =
     (let ps = visible_parts (split_on 47 route) in join_with [47] ([] # (if ps = [] then [[]] else ps)))"
proof (cases "visible_parts (split_on 47 route)")
  case Nil
  then show ?thesis by (simp add: normalize_app_path_eq ensure_leading_slash_def startswith_def u_def join_with_def)
next
  case (Cons p ps)
  have slash: "startswith (concat (map ((#) 47) (p # ps))) (u ''/'')" by (simp add: startswith_def u_def)
  have "normalize_app_path route = concat (map ((#) 47) (p # ps))"
    unfolding normalize_app_path_eq Cons ensure_leading_slash_def using slash by (rule if_P)
  then show ?thesis unfolding Cons Let_def joined_parts [OF list.distinct(2)] by simp
qed

text \<open>
  The parts of a normalised app path are the visible segments of the key, in order.
\<close>

theorem normalize_app_path_parts:
  "split_on 47 (normalize_app_path route) =
     [] # (let ps = visible_parts (split_on 47 route) in if ps = [] then [[]] else ps)"
proof -
  let ?ps = "visible_parts (split_on 47 route)"
  have "47 \<notin> set p" if "p \<in> set ?ps" for p using that visible_parts_sub split_on_no_sep by (meson subsetD)
  then have "\<forall>p \<in> set ([] # (if ?ps = [] then [[]] else ?ps)). 47 \<notin> set p" by simp
  from split_join_on [OF list.distinct(2) this] show ?thesis by (simp only: normalize_app_path_joined Let_def)
qed

subsection \<open>Interception\<close>

text \<open>How many visible levels a marker rises from its segment.\<close>

definition marker_rise :: "ustr \<Rightarrow> nat \<Rightarrow> nat" where
  "marker_rise marker depth =
     (if marker = u ''(...)'' then depth else if marker = u ''(.)'' then 0 else if marker = u ''(..)'' then 1 else 2)"

lemma marker_counts: "count_of (u ''(..)'') (u ''(..)'') = 1" "count_of (u ''(..)'') (u ''(..)(..)'') = 2"
  by code_simp+

lemma marker_names [simp]:
  "u ''(..)(..)'' \<noteq> u ''(...)''" "u ''(..)(..)'' \<noteq> u ''(.)''" "u ''(..)(..)'' \<noteq> u ''(..)''"
  "u ''(.)'' \<noteq> u ''(...)''" "u ''(..)'' \<noteq> u ''(...)''" "u ''(..)'' \<noteq> u ''(.)''"
  by (simp_all add: u_def)

lemma intercepted_base_rise:
  assumes "marker \<in> set interception_markers"
  shows "intercepted_base marker base =
    (let levels = marker_rise marker (length base) in
     if levels > length base then None else Some (take (length base - levels) base))"
  using assms by (auto simp: interception_markers_def intercepted_base_def marker_rise_def marker_counts Let_def)

lemma interception_marker_Some:
  assumes "interception_marker segment = Some (marker, rest)"
  shows "marker \<in> set interception_markers \<and> segment = marker @ rest \<and> rest \<noteq> []"
  using first_some_Some [OF assms [unfolded interception_marker_def]]
  by (auto simp: startswith_def split: if_split_asm) (metis append_take_drop_id)

lemma first_some_index:
  assumes "first_some f [0..<n] = Some y"
  shows "\<exists>i < n. f i = Some y \<and> (\<forall>j < i. f j = None)"
  using assms
proof (induction n)
  case (Suc n)
  have snoc: "first_some f (xs @ [x]) = (case first_some f xs of None \<Rightarrow> f x | Some z \<Rightarrow> Some z)" for xs x
    by (induction xs) (auto split: option.split)
  show ?case
  proof (cases "first_some f [0..<n]")
    case None
    then have "\<forall>j < n. f j = None"
      by (simp add: first_some_None)
    then show ?thesis using Suc.prems None by (auto simp: snoc)
  next
    case (Some z)
    then show ?thesis using Suc by (auto simp: snoc less_Suc_eq)
  qed
qed simp

lemma resolve_at_None: "resolve_at segments i = None \<longleftrightarrow> interception_marker (segments ! i) = None"
  by (auto simp: resolve_at_def split: option.split)

text \<open>C20: An intercepting key is resolved at its first marked segment: the target keeps the visible parts
  above the marker, less the levels it rises, then the marked name and the visible parts below; a
  marker that rises past the root has no target but a note, and a key without a marker has neither.
\<close>

theorem interception_resolved:
  assumes "resolve_interception key = (marker, target, note)"
  shows "case marker of
      None \<Rightarrow> target = None \<and> note = [] \<and> (\<forall>s \<in> set (split_on 47 key). interception_marker s = None)
    | Some m \<Rightarrow> \<exists>above rest below.
        split_on 47 key = above @ (m @ rest) # below \<and> rest \<noteq> [] \<and> m \<in> set interception_markers
        \<and> (\<forall>s \<in> set above. interception_marker s = None)
        \<and> (let depth = length (reduce_visible above); levels = marker_rise m depth;
               ps = visible_parts ([] # take (depth - levels) (reduce_visible above) @ rest # reduce_visible below)
           in if levels > depth then target = None \<and> note \<noteq> []
              else note = [] \<and> target = Some (join_with [47] ([] # (if ps = [] then [[]] else ps))))"
proof (cases "first_some (resolve_at (split_on 47 key)) [0..<length (split_on 47 key)]")
  case None
  then have "\<forall>i < length (split_on 47 key). interception_marker (split_on 47 key ! i) = None"
    by (simp add: first_some_None resolve_at_None)
  then show ?thesis using assms None by (auto simp: resolve_interception_def in_set_conv_nth)
next
  case (Some r)
  let ?segments = "split_on 47 key"
  have r: "r = (marker, target, note)" using assms Some by (simp add: resolve_interception_def)
  obtain i where i: "i < length ?segments" "resolve_at ?segments i = Some r" "\<forall>j < i. interception_marker (?segments ! j) = None"
    using first_some_index [OF Some] by (auto simp: resolve_at_None)
  obtain m rest where m: "interception_marker (?segments ! i) = Some (m, rest)" using i(2) by (auto simp: resolve_at_def split: option.split_asm)
  note parts = interception_marker_Some [OF m]
  let ?above = "take i ?segments" and ?below = "drop (Suc i) ?segments"
  have split: "?segments = ?above @ (m @ rest) # ?below" using id_take_nth_drop [OF i(1)] parts by simp
  have above: "\<forall>s \<in> set ?above. interception_marker s = None" using i(1,3) by (auto simp: in_set_conv_nth)
  have clean: "47 \<notin> set s" if "s \<in> set ?segments" for s using that by (rule split_on_no_sep)
  have rest: "47 \<notin> set rest" using clean [of "m @ rest"] split by (metis Un_iff in_set_conv_decomp set_append)
  let ?depth = "length (reduce_visible ?above)"
  let ?list = "[] # take (?depth - marker_rise m ?depth) (reduce_visible ?above) @ rest # reduce_visible ?below"
  have pieces: "\<forall>p \<in> set ?list. 47 \<notin> set p"
    using clean rest by (auto simp: reduce_visible_def dest!: in_set_takeD in_set_dropD)
  have target: "normalize_app_path (join_with [47] ?list) = join_with [47] ([] # (if visible_parts ?list = [] then [[]] else visible_parts ?list))"
    unfolding normalize_app_path_joined split_join_on [OF list.distinct(2) pieces] by (simp add: Let_def)
  show ?thesis
  proof (cases "marker_rise m ?depth > ?depth")
    case True
    then have "marker = Some m" "target = None" "note \<noteq> []"
      using i(2) m parts by (auto simp: resolve_at_def r intercepted_base_rise Let_def u_def)
    then show ?thesis using split parts above True unfolding \<open>marker = Some m\<close> option.case Let_def
      by (intro exI [of _ ?above] exI [of _ rest] exI [of _ ?below]) simp
  next
    case False
    then have "marker = Some m" "target = Some (normalize_app_path (join_with [47] ?list))" "note = []"
      using i(2) m parts by (simp_all add: resolve_at_def r intercepted_base_rise Let_def)
    then show ?thesis using split parts above False unfolding \<open>marker = Some m\<close> option.case Let_def target
      by (intro exI [of _ ?above] exI [of _ rest] exI [of _ ?below]) simp
  qed
qed

theorem interception_resolved_witness:
  "resolve_interception (u ''/feed/(grp)/@modal/(..)photo/page'') = (Some (u ''(..)''), Some (u ''/photo''), [])
   \<and> (\<exists>above rest below. split_on 47 (u ''/feed/(grp)/@modal/(..)photo/page'') = above @ (u ''(..)'' @ rest) # below
        \<and> rest \<noteq> [])"
proof -
  have run: "resolve_interception (u ''/feed/(grp)/@modal/(..)photo/page'') = (Some (u ''(..)''), Some (u ''/photo''), [])"
    by code_simp
  show ?thesis using run interception_resolved [OF run] by auto
qed

end
