(* ===== verification/NextConfig.thy ===== *)
theory NextConfig
  imports NextRoutes CatalogFacts Modules
begin

text \<open>
  The static analysis of a Next.js configuration module (the middle of \<open>frameworks/nextjs.py\<close>). A
  syntax node has its kind, its text and its children, and names some children as fields; the parser
  is not modelled. The lemmas show that the worklist walk is the preorder of the tree, which names are
  bound once, when page extensions are certain, and that the host reads back what the worker found.
\<close>

subsection \<open>Syntax trees\<close>

record ast_range =
  ar_start :: nat
  ar_end :: nat
  ar_start_line :: nat
  ar_start_column :: nat
  ar_end_line :: nat
  ar_end_column :: nat

datatype ast_node =
  AstNode (nd_kind: ustr) (nd_text: ustr) (nd_named: bool) (nd_fields: "(ustr \<times> nat) list") (nd_range: ast_range)
    (nd_children: "ast_node list")

definition node_field :: "ast_node \<Rightarrow> string \<Rightarrow> ast_node option" where
  "node_field node name =
     Option.bind (map_of (nd_fields node) (u name))
       (\<lambda>i. if i < length (nd_children node) then Some (nd_children node ! i) else None)"

lemma child_size: "c \<in> set (nd_children n) \<Longrightarrow> size c < size n"
  by (cases n) (auto dest: size_list_estimation' [of c _ "size c" size])

text \<open>\<open>_walk_ast\<close>: the next node is the head of the list.\<close>

definition node_weight :: "ast_node list \<Rightarrow> nat" where
  "node_weight stack = (\<Sum>n\<leftarrow>stack. Suc (size n))"

lemma children_weight: "node_weight (nd_children n) < Suc (size n)"
  by (cases n) (simp add: node_weight_def size_list_conv_sum_list sum_list_Suc)

function walk_ast :: "ast_node list \<Rightarrow> ast_node list" where
  "walk_ast [] = []"
| "walk_ast (n # stack) = n # walk_ast (nd_children n @ stack)"
  by pat_completeness auto
termination
proof (relation "measure node_weight", goal_cases)
  case (2 n stack)
  then show ?case using children_weight [of n] by (simp add: node_weight_def)
qed simp

subsection \<open>Names and literals\<close>

type_synonym alnum = "nat \<Rightarrow> bool"

definition simple_string :: "alnum \<Rightarrow> ast_node option \<Rightarrow> ustr option" where
  "simple_string alnum node =
     (case node of
        None \<Rightarrow> None
      | Some n \<Rightarrow>
          if nd_kind n \<noteq> u ''string'' then None
          else let raw = nd_text n in
            if length raw < 2 \<or> hd raw \<notin> {34, 39} \<or> last raw \<noteq> hd raw then None
            else let v = butlast (tl raw) in
              if v = [] \<or> (\<exists>c \<in> set v. \<not> (alnum c \<or> c = 95)) then None else Some v)"

definition property_name :: "alnum \<Rightarrow> ast_node \<Rightarrow> ustr option" where
  "property_name alnum n =
     (if nd_kind n = u ''pair'' then
        (case node_field n ''key'' of
           None \<Rightarrow> None
         | Some key \<Rightarrow>
             if nd_kind key \<in> {u ''identifier'', u ''property_identifier''} then Some (nd_text key)
             else simple_string alnum (Some key))
      else if nd_kind n \<in> {u ''shorthand_property_identifier'', u ''shorthand_property_identifier_pattern''}
      then Some (nd_text n) else None)"

definition members :: "ast_node \<Rightarrow> ast_node list" where
  "members n = filter (\<lambda>child. nd_named child \<and> nd_kind child \<noteq> u ''comment'') (nd_children n)"

definition literal_extension_array :: "alnum \<Rightarrow> ast_node option \<Rightarrow> ustr list option" where
  "literal_extension_array alnum node =
     (case node of
        None \<Rightarrow> None
      | Some n \<Rightarrow>
          if nd_kind n \<noteq> u ''array'' then None
          else case map_opt (\<lambda>child. simple_string alnum (Some child)) (members n) of
            None \<Rightarrow> None
          | Some values \<Rightarrow> if values = [] then None else Some values)"

subsection \<open>Bindings\<close>

text \<open>The name and value of a declarator that binds an identifier.\<close>

definition declared_binding :: "ast_node \<Rightarrow> (ustr \<times> ast_node) option" where
  "declared_binding n =
     (if nd_kind n \<noteq> u ''variable_declarator'' then None
      else case (node_field n ''name'', node_field n ''value'') of
        (Some name, Some v) \<Rightarrow> if nd_kind name \<noteq> u ''identifier'' then None else Some (nd_text name, v)
      | _ \<Rightarrow> None)"

definition bind_declarator ::
  "(ustr, ast_node) dict \<times> ustr set \<Rightarrow> ast_node \<Rightarrow> (ustr, ast_node) dict \<times> ustr set" where
  "bind_declarator st n =
     (case (st, declared_binding n) of
        ((bindings, ambiguous), None) \<Rightarrow> (bindings, ambiguous)
      | ((bindings, ambiguous), Some (identifier, v)) \<Rightarrow>
          if identifier \<in> fst ` set bindings then (AList.delete identifier bindings, insert identifier ambiguous)
          else if identifier \<notin> ambiguous then (AList.update identifier v bindings, ambiguous)
          else (bindings, ambiguous))"

definition variable_bindings :: "ast_node \<Rightarrow> (ustr, ast_node) dict" where
  "variable_bindings root = fst (foldl bind_declarator ([], {}) (walk_ast [root]))"

definition wrapper_kinds :: "ustr set" where
  "wrapper_kinds = {u ''as_expression'', u ''parenthesized_expression'', u ''satisfies_expression'', u ''type_assertion''}"

definition wrapped_value :: "ast_node \<Rightarrow> ast_node option" where
  "wrapped_value n =
     (let named = filter nd_named (nd_children n) in
      if nd_kind n \<notin> wrapper_kinds \<or> named = [] then None
      else Some (if nd_kind n = u ''type_assertion'' then last named else hd named))"

function unwrap_config_value :: "(ustr, ast_node) dict \<Rightarrow> ustr set \<Rightarrow> ast_node \<Rightarrow> ast_node" where
  "unwrap_config_value bindings seen n =
     (if nd_kind n = u ''identifier'' then
        (case map_of bindings (nd_text n) of
           None \<Rightarrow> n
         | Some v \<Rightarrow> if nd_text n \<in> seen then n else unwrap_config_value bindings (insert (nd_text n) seen) v)
      else case wrapped_value n of None \<Rightarrow> n | Some v \<Rightarrow> unwrap_config_value bindings seen v)"
  by pat_completeness auto
termination
proof (relation "measures [\<lambda>(bindings, seen, n). card (fst ` set bindings - seen), \<lambda>(bindings, seen, n). size n]", goal_cases)
  case (2 bindings seen n v)
  then have "nd_text n \<in> fst ` set bindings - seen" by (force dest: map_of_SomeD)
  then have "card (fst ` set bindings - insert (nd_text n) seen) < card (fst ` set bindings - seen)"
    by (intro psubset_card_mono) auto
  then show ?case by simp
next
  case (3 bindings seen n v)
  then have "v \<in> set (nd_children n)"
    by (auto simp: wrapped_value_def Let_def split: if_split_asm) (metis filter_is_subset last_in_set hd_in_set subsetD)+
  then show ?case by (simp add: child_size)
qed simp

declare unwrap_config_value.simps [simp del]

text \<open>The value of \<open>module.exports = \<dots>\<close>, for an assignment node.\<close>

definition assigned_exports :: "ast_node \<Rightarrow> ast_node option" where
  "assigned_exports n =
     (if nd_kind n \<noteq> u ''assignment_expression'' then None
      else case (node_field n ''left'', node_field n ''right'') of
        (Some left, Some right) \<Rightarrow> if nd_text left = u ''module.exports'' then Some right else None
      | _ \<Rightarrow> None)"

definition statement_export :: "ast_node \<Rightarrow> ast_node option" where
  "statement_export statement =
     (case (if nd_kind statement = u ''export_statement'' \<and> (\<exists>child \<in> set (nd_children statement). nd_kind child = u ''default'')
            then node_field statement ''value'' else None) of
        Some v \<Rightarrow> Some v
      | None \<Rightarrow>
          if nd_kind statement \<noteq> u ''expression_statement'' then None
          else first_some assigned_exports (walk_ast [statement]))"

definition exported_config_value :: "ast_node \<Rightarrow> ast_node option" where
  "exported_config_value root =
     map_option (unwrap_config_value (variable_bindings root) {}) (first_some statement_export (nd_children root))"

definition declared_config_options :: "alnum \<Rightarrow> ast_node \<Rightarrow> ustr set" where
  "declared_config_options alnum root = set (List.map_filter (property_name alnum) (walk_ast [root]))"

subsection \<open>The analysis\<close>

record next_config_analysis =
  na_extensions :: "ustr list option"
  na_declared :: bool
  na_unread :: "ustr list"

definition extensions_source :: "next_config_analysis \<Rightarrow> ustr" where
  "extensions_source a =
     (if na_extensions a \<noteq> None then u ''next.config''
      else if na_declared a then u ''unevaluated'' else u ''default'')"

definition empty_analysis :: next_config_analysis where
  "empty_analysis = \<lparr>na_extensions = None, na_declared = False, na_unread = []\<rparr>"

definition unread_config_options :: "ustr set" where
  "unread_config_options = {u ''basePath'', u ''rewrites'', u ''redirects'', u ''trailingSlash''}"

record member_state =
  ms_extensions :: "ustr list option"
  ms_declared :: bool
  ms_uncertain :: bool
  ms_unread :: "ustr set"

definition analyze_member :: "alnum \<Rightarrow> member_state \<Rightarrow> ast_node \<Rightarrow> member_state" where
  "analyze_member alnum st member =
     (let name = property_name alnum member;
          st' = (case name of
                   Some n \<Rightarrow> if n \<in> unread_config_options then st\<lparr>ms_unread := insert n (ms_unread st)\<rparr> else st
                 | None \<Rightarrow> st)
      in if name = Some (u ''pageExtensions'') then
           let exts = literal_extension_array alnum (node_field member ''value'')
           in st'\<lparr>ms_declared := True, ms_extensions := exts, ms_uncertain := (exts = None)\<rparr>
         else if ms_declared st' \<and> (nd_kind member = u ''spread_element'' \<or> name = None) then st'\<lparr>ms_uncertain := True\<rparr>
         else st')"

definition analyze_config_object :: "alnum \<Rightarrow> ast_node \<Rightarrow> next_config_analysis" where
  "analyze_config_object alnum root =
     (let st = foldl (analyze_member alnum)
                 \<lparr>ms_extensions = None, ms_declared = False, ms_uncertain = False, ms_unread = {}\<rparr> (members root)
      in \<lparr>na_extensions = (if ms_uncertain st then None else ms_extensions st), na_declared = ms_declared st,
          na_unread = sorted_list_of_set (ms_unread st)\<rparr>)"

definition next_config_analysis_of :: "alnum \<Rightarrow> ast_node \<Rightarrow> next_config_analysis \<times> ast_node" where
  "next_config_analysis_of alnum root =
     (case exported_config_value root of
        None \<Rightarrow> (empty_analysis, root)
      | Some v \<Rightarrow>
          if nd_kind v = u ''object'' then (analyze_config_object alnum v, v)
          else let declared = declared_config_options alnum v in
            (\<lparr>na_extensions = None, na_declared = (u ''pageExtensions'' \<in> declared),
              na_unread = sorted_list_of_set (declared \<inter> unread_config_options)\<rparr>, v))"

subsection \<open>Fragments\<close>

record syntax_fragment = fragment +
  sx_path :: ustr
  sx_language :: ustr
  sx_start_line :: nat
  sx_start_column :: nat
  sx_end_line :: nat
  sx_end_column :: nat
  sx_preview :: ustr

definition NEXT_CONFIG_PROJECTION :: ustr where "NEXT_CONFIG_PROJECTION = u ''framework.nextjs_config''"

definition analysis_attributes :: "next_config_analysis \<Rightarrow> (ustr, json) dict" where
  "analysis_attributes a =
     [(u ''page_extensions'', case na_extensions a of None \<Rightarrow> JNull | Some es \<Rightarrow> JArr (map JStr es)),
      (u ''page_extensions_declared'', JBool (na_declared a)),
      (u ''unread_options'', JArr (map JStr (na_unread a)))]"

text \<open>The result is \<open>None\<close> when the fragment's own validation rejects an empty path.\<close>

definition extract_next_config :: "alnum \<Rightarrow> ast_node \<Rightarrow> ustr \<Rightarrow> ustr \<Rightarrow> syntax_fragment list option" where
  "extract_next_config alnum root path language =
     (if map ascii_lower language \<notin> {u ''javascript'', u ''typescript''} then Some []
      else case next_config_analysis_of alnum root of (analysis, anchor) \<Rightarrow>
        let r = nd_range anchor in
        if path = [] then None
        else Some [\<lparr>fg_projection = NEXT_CONFIG_PROJECTION, fg_kind = u ''next_config'', fg_name = None,
                    fg_start = ar_start r, fg_end = ar_end r, fg_attributes = analysis_attributes analysis,
                    sx_path = path, sx_language = language, sx_start_line = ar_start_line r,
                    sx_start_column = ar_start_column r, sx_end_line = ar_end_line r, sx_end_column = ar_end_column r,
                    sx_preview = take 120 (nd_text anchor)\<rparr>])"

definition analysis_from_fragment :: "'a fragment_scheme \<Rightarrow> next_config_analysis" where
  "analysis_from_fragment f =
     \<lparr>na_extensions =
        (case get_field (fg_attributes f) ''page_extensions'' of
           JArr vs \<Rightarrow> if vs = [] then None else map_opt json_text vs
         | _ \<Rightarrow> None),
      na_declared = (get_field (fg_attributes f) ''page_extensions_declared'' = JBool True),
      na_unread =
        (case get_field (fg_attributes f) ''unread_options'' of
           JArr vs \<Rightarrow> List.map_filter json_text vs | _ \<Rightarrow> [])\<rparr>"

definition next_config_analyses :: "syntax_fragment list \<Rightarrow> (ustr, next_config_analysis) dict" where
  "next_config_analyses fragments =
     foldl (\<lambda>d f. AList.update (sx_path f) (analysis_from_fragment f) d) []
       (filter (\<lambda>f. fg_projection f = NEXT_CONFIG_PROJECTION) fragments)"

definition config_extensions :: "ustr set" where
  "config_extensions = {u ''ts'', u ''mts'', u ''js'', u ''mjs''}"

definition is_next_config_path :: "ustr \<Rightarrow> bool" where
  "is_next_config_path path \<longleftrightarrow>
     (let name = base_of path in
      startswith name (u ''next.config.'') \<and> rev (takeWhile (\<lambda>c. c \<noteq> 46) (rev name)) \<in> config_extensions)"

subsection \<open>The walk\<close>

fun preorder :: "ast_node \<Rightarrow> ast_node list" where
  "preorder (AstNode k t named fs r children) = AstNode k t named fs r children # concat (map preorder children)"

lemma walk_preorder: "walk_ast stack = concat (map preorder stack)"
proof (induction stack rule: walk_ast.induct)
  case (2 n stack)
  then show ?case by (cases n) simp
qed simp

text \<open>
  The walk of a tree is its preorder: the children of a node follow it in order, each before the next.
\<close>

theorem walk_ast_preorder: "walk_ast [root] = preorder root"
  by (simp add: walk_preorder)

subsection \<open>Names bound once\<close>

definition binding_of :: "ustr \<Rightarrow> ast_node \<Rightarrow> ast_node option" where
  "binding_of x n = Option.bind (declared_binding n) (\<lambda>(identifier, v). if identifier = x then Some v else None)"

lemma bind_declarator_other:
  assumes "binding_of x n = None"
  shows "map_of (fst (bind_declarator st n)) x = map_of (fst st) x"
    and "x \<in> snd (bind_declarator st n) \<longleftrightarrow> x \<in> snd st"
proof -
  obtain b a where st: "st = (b, a)" by (cases st)
  have other: "y \<noteq> x" if "declared_binding n = Some (y, v)" for y v
    using assms that by (auto simp: binding_of_def split: if_split_asm)
  show "map_of (fst (bind_declarator st n)) x = map_of (fst st) x"
    using other by (auto simp: st bind_declarator_def delete_conv' update_conv' split: option.split)
  show "x \<in> snd (bind_declarator st n) \<longleftrightarrow> x \<in> snd st"
    using other by (auto simp: st bind_declarator_def split: option.split)
qed

lemma bind_declarator_same:
  assumes "binding_of x n = Some v"
  shows "bind_declarator (b, a) n =
    (if x \<in> fst ` set b then (AList.delete x b, insert x a)
     else if x \<notin> a then (AList.update x v b, a) else (b, a))"
  using assms by (auto simp: binding_of_def bind_declarator_def bind_eq_Some_conv split: if_split_asm)

lemma bindings_once:
  "map_of (fst (foldl bind_declarator ([], {}) nodes)) x =
     (case List.map_filter (binding_of x) nodes of [v] \<Rightarrow> Some v | _ \<Rightarrow> None)
   \<and> (x \<in> snd (foldl bind_declarator ([], {}) nodes) \<longleftrightarrow> 2 \<le> length (List.map_filter (binding_of x) nodes))"
proof (induction nodes rule: rev_induct)
  case (snoc n nodes)
  obtain b a where st: "foldl bind_declarator ([], {}) nodes = (b, a)" by fastforce
  let ?vs = "List.map_filter (binding_of x) nodes"
  show ?case
  proof (cases "binding_of x n")
    case None
    then have "List.map_filter (binding_of x) (nodes @ [n]) = ?vs" by (simp add: List.map_filter_def)
    then show ?thesis using snoc bind_declarator_other [OF None] by simp
  next
    case (Some v)
    then have vs: "List.map_filter (binding_of x) (nodes @ [n]) = ?vs @ [v]" by (simp add: List.map_filter_def)
    have bound: "x \<in> fst ` set b \<longleftrightarrow> length ?vs = 1"
      using snoc map_of_eq_None_iff [of b x] by (auto simp: st split: list.split_asm)
    consider "?vs = []" | w where "?vs = [w]" | w w' ws where "?vs = w # w' # ws" by (metis list.exhaust)
    then show ?thesis
      using snoc bound bind_declarator_same [OF Some, of b a] by cases (auto simp: st vs delete_conv' update_conv' map_of_eq_None_iff)
  qed
qed (simp add: List.map_filter_simps)

text \<open>
  An identifier is bound exactly when one declarator of the module declares it, and to the value of that
  declarator; a name declared twice or more is ambiguous and unbound.
\<close>

theorem variable_bindings_once:
  "map_of (variable_bindings root) x =
     (case List.map_filter (binding_of x) (preorder root) of [v] \<Rightarrow> Some v | _ \<Rightarrow> None)"
  using bindings_once [of "preorder root" x] by (simp add: variable_bindings_def walk_preorder)

text \<open>Unwrapping stops at an identifier or at a node that wraps no value.\<close>

lemma unwrap_stops:
  "unwrap_config_value bindings seen n = m \<Longrightarrow> nd_kind m \<noteq> u ''identifier'' \<Longrightarrow> wrapped_value m = None"
proof (induction bindings seen n rule: unwrap_config_value.induct)
  case (1 bindings seen n)
  show ?case
  proof (cases "nd_kind n = u ''identifier''")
    case True
    then show ?thesis using "1.prems" "1.IH"(1) [OF True]
      by (simp add: unwrap_config_value.simps [of bindings seen n] split: option.split_asm if_split_asm)
  next
    case False
    then show ?thesis using "1.prems" "1.IH"(2) [OF False]
      by (auto simp: unwrap_config_value.simps [of bindings seen n] split: option.split_asm)
  qed
qed

subsection \<open>Page extensions\<close>

definition declares_extensions :: "alnum \<Rightarrow> ast_node \<Rightarrow> bool" where
  "declares_extensions alnum m \<longleftrightarrow> property_name alnum m = Some (u ''pageExtensions'')"

definition obscures :: "alnum \<Rightarrow> ast_node \<Rightarrow> bool" where
  "obscures alnum m \<longleftrightarrow> \<not> declares_extensions alnum m \<and> (nd_kind m = u ''spread_element'' \<or> property_name alnum m = None)"

lemma analyze_member_cases:
  "declares_extensions alnum m \<Longrightarrow> ms_declared (analyze_member alnum st m)
     \<and> ms_extensions (analyze_member alnum st m) = literal_extension_array alnum (node_field m ''value'')
     \<and> (ms_uncertain (analyze_member alnum st m) \<longleftrightarrow> literal_extension_array alnum (node_field m ''value'') = None)"
  "\<not> declares_extensions alnum m \<Longrightarrow> ms_declared (analyze_member alnum st m) = ms_declared st
     \<and> ms_extensions (analyze_member alnum st m) = ms_extensions st
     \<and> (ms_uncertain (analyze_member alnum st m) \<longleftrightarrow> ms_uncertain st \<or> ms_declared st \<and> obscures alnum m)"
  by (auto simp: analyze_member_def declares_extensions_def obscures_def Let_def split: option.split)

text \<open>The extensions that a list of members establishes: those of the last declaration, if nothing obscures it.\<close>

fun certain_extensions :: "alnum \<Rightarrow> ast_node list \<Rightarrow> ustr list option" where
  "certain_extensions alnum [] = None"
| "certain_extensions alnum (m # later) =
     (if \<exists>x \<in> set later. declares_extensions alnum x then certain_extensions alnum later
      else if declares_extensions alnum m \<and> \<not> (\<exists>x \<in> set later. obscures alnum x)
      then literal_extension_array alnum (node_field m ''value'') else
        None)"

lemma analyze_members:
  "(let st' = foldl (analyze_member alnum) st ms in
     (ms_declared st' \<longleftrightarrow> ms_declared st \<or> (\<exists>m \<in> set ms. declares_extensions alnum m))
     \<and> (if ms_uncertain st' then None else ms_extensions st') =
       (if \<exists>m \<in> set ms. declares_extensions alnum m then certain_extensions alnum ms
        else if ms_uncertain st \<or> ms_declared st \<and> (\<exists>m \<in> set ms. obscures alnum m) then None
        else ms_extensions st))"
proof (induction ms arbitrary: st)
  case (Cons m ms)
  then show ?case using analyze_member_cases [of alnum m st]
    by (cases "declares_extensions alnum m"; cases "\<exists>x \<in> set ms. declares_extensions alnum x") (auto simp: Let_def)
qed (simp add: Let_def)

text \<open>
  Page extensions are read from the last declaration in the configuration object when it is a literal
  array and no later spread or computed member can change it; otherwise none are read, while the
  declaration itself is still reported.
\<close>

theorem page_extensions_certain:
  "na_extensions (analyze_config_object alnum root) = certain_extensions alnum (members root)
   \<and> (na_declared (analyze_config_object alnum root) \<longleftrightarrow> (\<exists>m \<in> set (members root). declares_extensions alnum m))"
proof -
  have none: "certain_extensions alnum ms = None" if "\<not> (\<exists>m \<in> set ms. declares_extensions alnum m)" for ms
    using that by (cases ms) auto
  show ?thesis
    using analyze_members [of alnum "\<lparr>ms_extensions = None, ms_declared = False, ms_uncertain = False, ms_unread = {}\<rparr>" "members root"]
      none [of "members root"]
    by (auto simp: analyze_config_object_def Let_def)
qed

subsection \<open>From the worker to the host\<close>

lemma literal_extensions_nonempty: "literal_extension_array alnum n \<noteq> Some []"
  by (auto simp: literal_extension_array_def split: option.split)

lemma certain_extensions_nonempty: "certain_extensions alnum ms \<noteq> Some []"
  by (induction ms) (simp_all add: literal_extensions_nonempty)

lemma json_texts [simp]: "List.map_filter json_text (map JStr xs) = xs" "map_opt json_text (map JStr xs) = Some xs"
  by (induction xs) (simp_all add: List.map_filter_simps json_text_def)

lemma analysis_attributes_read:
  "na_extensions a \<noteq> Some [] \<Longrightarrow> fg_attributes f = analysis_attributes a \<Longrightarrow> analysis_from_fragment f = a"
  by (cases a) (auto simp: analysis_from_fragment_def analysis_attributes_def get_field_def u_def split: option.split)

text \<open>C21: The fragment that the worker extracts from a configuration module reads back as the analysis it was
  made from.
\<close>

theorem config_fragment_roundtrip:
  assumes "extract_next_config alnum root path language = Some fragments" and "f \<in> set fragments"
  shows "analysis_from_fragment f = fst (next_config_analysis_of alnum root) \<and> sx_path f = path
    \<and> map_of (next_config_analyses fragments) path = Some (fst (next_config_analysis_of alnum root))"
proof -
  obtain a anchor where found: "next_config_analysis_of alnum root = (a, anchor)" by fastforce
  have nonempty: "na_extensions a \<noteq> Some []"
    using found certain_extensions_nonempty page_extensions_certain
    by (auto simp: next_config_analysis_of_def empty_analysis_def Let_def split: option.split_asm if_split_asm)
  have f: "fragments = [f]" "fg_attributes f = analysis_attributes a" "fg_projection f = NEXT_CONFIG_PROJECTION" "sx_path f = path"
    using assms by (auto simp: extract_next_config_def found Let_def split: if_split_asm)
  have read: "analysis_from_fragment f = a" using analysis_attributes_read [OF nonempty f(2)] .
  show ?thesis by (simp add: found read f next_config_analyses_def)
qed

definition demo_ast :: "string \<Rightarrow> string \<Rightarrow> (string \<times> ast_node) list \<Rightarrow> ast_node" where
  "demo_ast kind text children =
     AstNode (u kind) (u text) True (map (\<lambda>(i, name, c). (u name, i)) (enumerate 0 children))
       \<lparr>ar_start = 0, ar_end = 0, ar_start_line = 0, ar_start_column = 0, ar_end_line = 0, ar_end_column = 0\<rparr> (map snd children)"

text \<open>\<open>const c = {pageExtensions: ["mdx"]}; module.exports = c;\<close>\<close>

definition demo_module :: ast_node where
  "demo_module = demo_ast ''program'' [] [
     (''a'', demo_ast ''lexical_declaration'' [] [
        (''d'', demo_ast ''variable_declarator'' [] [(''name'', demo_ast ''identifier'' ''c'' []),
          (''value'', demo_ast ''object'' [] [(''m'', demo_ast ''pair'' [] [
             (''key'', demo_ast ''property_identifier'' ''pageExtensions'' []),
             (''value'', demo_ast ''array'' [] [(''x'', demo_ast ''string'' [CHR 0x22, CHR ''m'', CHR ''d'', CHR ''x'', CHR 0x22] [])])])])])]),
     (''b'', demo_ast ''expression_statement'' [] [
        (''e'', demo_ast ''assignment_expression'' [] [(''left'', demo_ast ''member'' ''module.exports'' []),
          (''right'', demo_ast ''identifier'' ''c'' [])])])]"

theorem config_fragment_roundtrip_witness:
  "\<exists>f. extract_next_config (\<lambda>c. 97 \<le> c \<and> c \<le> 122) demo_module (u ''next.config.js'') (u ''javascript'') = Some [f]
     \<and> na_extensions (analysis_from_fragment f) = Some [u ''mdx'']"
proof -
  let ?alnum = "\<lambda>c::nat. 97 \<le> c \<and> c \<le> 122"
  have analysis: "na_extensions (fst (next_config_analysis_of ?alnum demo_module)) = Some [u ''mdx'']" by code_simp
  obtain f where run: "extract_next_config ?alnum demo_module (u ''next.config.js'') (u ''javascript'') = Some [f]"
    by (cases "next_config_analysis_of ?alnum demo_module") (simp add: extract_next_config_def u_def ascii_lower_def Let_def)
  have "f \<in> set [f]" by simp
  then show ?thesis using run config_fragment_roundtrip [OF run] analysis by auto
qed

end
