(* ===== verification/NextProjects.thy ===== *)
theory NextProjects
  imports NextConfig
begin

text \<open>
  Discovery of Next.js projects and the enumeration of their registrations (the end of
  \<open>frameworks/nextjs.py\<close>). \<open>json.loads\<close> is an argument; the walk from a file to its parent
  directories is a partial function. The lemmas show that the walk returns on relative paths, which error
  is left then, and that
  every registered file lies under a router directory of the innermost project that contains it.
\<close>

subsection \<open>Directories\<close>

text \<open>\<open>posixpath.dirname\<close>\<close>

definition dirname :: "ustr \<Rightarrow> ustr" where
  "dirname path =
     (let head = rev (dropWhile (\<lambda>c. c \<noteq> 47) (rev path)) in
      if \<forall>c \<in> set head. c = 47 then head else rev (lstrip_char 47 (rev head)))"

definition project_directory :: "ustr \<Rightarrow> ustr" where
  "project_directory path = (let parent = dirname path in if parent = u ''.'' then [] else parent)"

text \<open>The loop \<open>while parent\<close>: it never ends on a root.\<close>

partial_function (option) parents_from :: "ustr \<Rightarrow> ustr list option" where
  "parents_from parent =
     (if parent = [] then Some []
      else Option.bind (parents_from (dirname parent)) (\<lambda>above. Some (parent # above)))"

declare parents_from.simps [code]

definition parents_of :: "ustr \<Rightarrow> (next_error, ustr list) result" where
  "parents_of path = (case parents_from (dirname path) of None \<Rightarrow> Inl NeverReturns | Some ps \<Rightarrow> Inr ps)"

subsection \<open>Projects\<close>

record next_env = digit_env +
  nx_json :: json_loads

record next_project =
  np_dir :: ustr
  np_routers :: "(ustr \<times> router_kind \<times> bool) list"
  np_extensions :: "ustr list"
  np_proxy :: "ustr option"

definition DEFAULT_PAGE_EXTENSIONS :: "ustr list" where
  "DEFAULT_PAGE_EXTENSIONS = [u ''tsx'', u ''ts'', u ''jsx'', u ''js'']"

definition router_dirs :: "(ustr \<times> router_kind \<times> bool) list" where
  "router_dirs = [(u ''app'', AppRouter, False), (u ''src/app'', AppRouter, True), (u ''pages'', PagesRouter, False),
     (u ''src/pages'', PagesRouter, True)]"

text \<open>\<open>None\<close> when the manifest declares no \<open>next\<close>; otherwise its specifier, if that is a string.\<close>

definition next_dependency :: "'a next_env_scheme \<Rightarrow> bytes \<Rightarrow> ustr option option" where
  "next_dependency env manifest =
     (case nx_json env manifest of
        Some (JObj sections) \<Rightarrow>
          first_some (\<lambda>field_name. map_option json_text (map_of (object_dict (get_field sections field_name)) (u ''next'')))
            [''dependencies'', ''devDependencies'', ''peerDependencies'']
      | _ \<Rightarrow> None)"

record candidate_state =
  cd_candidates :: "(ustr, ustr option) dict"
  cd_specifiers :: "(ustr, ustr) dict"

definition candidate_step :: "'a next_env_scheme \<Rightarrow> (ustr, bytes) dict \<Rightarrow> candidate_state \<Rightarrow> ustr \<Rightarrow> candidate_state" where
  "candidate_step env contents st path =
     (let directory = project_directory path in
      if is_next_config_path path then st\<lparr>cd_candidates := AList.update directory (Some path) (cd_candidates st)\<rparr>
      else if base_of path = u ''package.json'' then
        (case next_dependency env (case map_of contents path of None \<Rightarrow> [] | Some bs \<Rightarrow> bs) of
           None \<Rightarrow> st
         | Some specifier \<Rightarrow>
             st\<lparr>cd_candidates := (if directory \<in> fst ` set (cd_candidates st) then cd_candidates st
                                  else AList.update directory None (cd_candidates st)),
                cd_specifiers := (case specifier of None \<Rightarrow> cd_specifiers st
                                  | Some s \<Rightarrow> AList.update directory s (cd_specifiers st))\<rparr>)
      else st)"

definition find_candidates :: "'a next_env_scheme \<Rightarrow> (ustr, bytes) dict \<Rightarrow> ustr list \<Rightarrow> candidate_state" where
  "find_candidates env contents paths =
     foldl (candidate_step env contents) \<lparr>cd_candidates = [], cd_specifiers = []\<rparr> paths"

text \<open>The routers a project has, with a note where both directories of a router exist.\<close>

definition select_router ::
  "ustr \<Rightarrow> (ustr \<times> router_kind \<times> bool) list \<Rightarrow> router_kind \<Rightarrow> (ustr \<times> router_kind \<times> bool) list \<times> ustr list" where
  "select_router label present router =
     (let matching = filter (\<lambda>(_, k, _). k = router) present in
      if length matching > 1 then
        let kept = hd (sort_key (\<lambda>(_, _, is_src). is_src) matching) in
        ([kept], [label @ u '' contains both '' @ router_value router @ u ''/ and src/'' @ router_value router
                  @ u ''/; enumerated '' @ fst kept @ u '' only''])
      else (take 1 matching, []))"

definition proxy_hits :: "ustr list \<Rightarrow> ustr \<Rightarrow> ustr list \<Rightarrow> string \<Rightarrow> ustr list" where
  "proxy_hits paths prefix_text extensions stem =
     filter (\<lambda>path. path \<in> set paths)
       (concat (map (\<lambda>base. map (\<lambda>e. base @ u stem @ u ''.'' @ e) extensions) [prefix_text, prefix_text @ u ''src/'']))"

definition first_of :: "'a list \<Rightarrow> 'a option" where
  "first_of xs = (case xs of [] \<Rightarrow> None | x # _ \<Rightarrow> Some x)"

definition select_proxy :: "ustr \<Rightarrow> ustr list \<Rightarrow> ustr list \<Rightarrow> ustr option \<times> ustr list" where
  "select_proxy label proxies middlewares =
     (if proxies \<noteq> [] \<and> middlewares \<noteq> [] then
        (first_of proxies, [label @ u '' declares both proxy and middleware; upstream rejects the combination, enumerated proxy only''])
      else (first_of (proxies @ middlewares), []))"

definition version_notes :: "'a next_env_scheme \<Rightarrow> ustr \<Rightarrow> ustr option \<Rightarrow> (next_error, ustr list) result" where
  "version_notes env label specifier =
     (case specifier of
        None \<Rightarrow> Inr []
      | Some s \<Rightarrow> bind_err (declared_next_major env s) (\<lambda>major.
          Inr (case major of
                 None \<Rightarrow> []
               | Some n \<Rightarrow> if supported_major n then []
                    else [label @ u '' declares next@'' @ s @ u '', outside the supported >=16,<17 conventions baseline verified ''
                      @ u ''against next@16.3.0-preview.6; enumeration may be incomplete''])))"

definition extension_names :: ustr where "extension_names = join_with (u '','') DEFAULT_PAGE_EXTENSIONS"

text \<open>Page extensions, their source and the unread options of a candidate.\<close>

definition config_facts ::
  "(ustr, next_config_analysis) dict \<Rightarrow> ustr option \<Rightarrow> ustr list \<times> ustr \<times> ustr list" where
  "config_facts analyses config_path =
     (case (case config_path of None \<Rightarrow> Some empty_analysis | Some p \<Rightarrow> map_of analyses p) of
        None \<Rightarrow> (DEFAULT_PAGE_EXTENSIONS, u ''unavailable'', [])
      | Some a \<Rightarrow> ((case na_extensions a of Some (e # es) \<Rightarrow> e # es | _ \<Rightarrow> DEFAULT_PAGE_EXTENSIONS),
                   extensions_source a, na_unread a))"

definition config_notes :: "ustr \<Rightarrow> ustr \<Rightarrow> ustr list \<Rightarrow> ustr list" where
  "config_notes label source unread =
     (if source = u ''unevaluated'' then
        [label @ u '' sets pageExtensions to a non-literal value; enumeration assumed '' @ extension_names]
      else if source = u ''unavailable'' then
        [label @ u '' has a Next.js configuration that was not structurally analyzed; enumeration assumed '' @ extension_names]
      else [])
     @ (if unread = [] then []
        else [label @ u '' declares '' @ join_with (u '', '') unread
              @ u ''; emitted patterns are filesystem routes and exclude configured rewriting''])"

definition present_routers :: "ustr list \<Rightarrow> ustr \<Rightarrow> (ustr \<times> router_kind \<times> bool) list" where
  "present_routers populated prefix_text =
     filter (\<lambda>(router_dir, _, _). router_dir \<in> set populated)
       (map (\<lambda>(name, router, is_src). (prefix_text @ name, router, is_src)) router_dirs)"

definition discover_directory ::
  "'a next_env_scheme \<Rightarrow> (ustr, next_config_analysis) dict \<Rightarrow> ustr list \<Rightarrow> ustr list \<Rightarrow> (ustr, ustr) dict \<Rightarrow>
   ustr \<times> ustr option \<Rightarrow> (next_error, next_project list \<times> ustr list) result" where
  "discover_directory env analyses paths populated specifiers candidate =
     (case candidate of (directory, config_path) \<Rightarrow>
        let prefix_text = (if directory = [] then [] else directory @ u ''/'');
            present = present_routers populated prefix_text; label = project_label directory
        in if present = [] then
             Inr ([], if config_path = None then []
               else [label @ u '' declares a Next.js configuration but owns no app/ or pages/ directory; no registrations enumerated''])
           else bind_err (version_notes env label (map_of specifiers directory)) (\<lambda>versions.
             case config_facts analyses config_path of (extensions, source, unread) \<Rightarrow>
             let app = select_router label present AppRouter; pages = select_router label present PagesRouter;
                 proxy = select_proxy label (proxy_hits paths prefix_text extensions ''proxy'')
                           (proxy_hits paths prefix_text extensions ''middleware'')
             in Inr ([\<lparr>np_dir = directory, np_routers = fst app @ fst pages, np_extensions = extensions, np_proxy = fst proxy\<rparr>],
                     versions @ config_notes label source unread @ snd app @ snd pages @ snd proxy)))"

definition discover_projects ::
  "'a next_env_scheme \<Rightarrow> (ustr, next_config_analysis) dict \<Rightarrow> ustr list \<Rightarrow> (ustr, bytes) dict \<Rightarrow>
   (next_error, next_project list \<times> ustr list) result" where
  "discover_projects env analyses paths contents =
     (let st = find_candidates env contents paths in
      bind_err (map_err parents_of paths) (\<lambda>parents.
      bind_err (map_err (discover_directory env analyses paths (concat parents) (cd_specifiers st))
                 (sort_key fst (cd_candidates st))) (\<lambda>found.
      Inr (concat (map fst found), concat (map snd found)))))"

subsection \<open>Registrations\<close>

definition router_prefixes :: "next_project list \<Rightarrow> (ustr \<times> next_project \<times> ustr \<times> router_kind) list" where
  "router_prefixes projects =
     sort_key (\<lambda>(_, project, _, _). - int (length (np_dir project)))
       (concat (map (\<lambda>project. map (\<lambda>(router_dir, router, _). (router_dir @ u ''/'', project, router_dir, router))
                                (np_routers project)) projects))"

definition owning_router ::
  "ustr \<Rightarrow> (ustr \<times> next_project \<times> ustr \<times> router_kind) list \<Rightarrow> (next_project \<times> ustr \<times> router_kind) option" where
  "owning_router path table =
     first_some (\<lambda>(prefix_text, project, router_dir, router).
       if startswith path prefix_text then Some (project, router_dir, router) else None) table"

definition has_private_part :: "ustr \<Rightarrow> bool" where
  "has_private_part rel_path \<longleftrightarrow>
     (\<exists>part \<in> set (split_on 47 (rev (lstrip_char 47 (rev (lstrip_char 47 rel_path))))). startswith part (u ''_''))"

text \<open>\<open>s.replace(p, q)\<close> for a non-empty \<open>p\<close>\<close>

fun replace_text :: "ustr \<Rightarrow> ustr \<Rightarrow> ustr \<Rightarrow> ustr" where
  "replace_text p q [] = []"
| "replace_text p q (c # cs) =
     (if startswith (c # cs) p then q @ replace_text p q (drop (length p - 1) cs) else c # replace_text p q cs)"

definition skip_page_keys :: "ustr set" where
  "skip_page_keys = {u ''/_not-found/page'', u ''/_global-error/page''}"

definition app_route :: "registration_kind \<Rightarrow> ustr \<Rightarrow> ustr option" where
  "app_route kind page_key =
     (if kind = DefaultKind then None
      else if kind = LayoutKind then Some (normalize_layout_route page_key)
      else Some (normalize_app_path page_key))"

definition app_registration :: "next_project \<Rightarrow> valid_file_matcher \<Rightarrow> ustr \<Rightarrow> ustr \<Rightarrow> registration option" where
  "app_registration project matcher path rel_path =
     (case kind_for matcher rel_path of
        None \<Rightarrow> None
      | Some kind \<Rightarrow>
          let page_key = get_page_from_path (replace_text (u ''%5F'') (u ''_'') rel_path) (np_extensions project) in
          if page_key \<in> skip_page_keys then None
          else
            let route = app_route kind page_key; segments = split_on 47 page_key in
            (case resolve_interception page_key of (marker, target, note_text) \<Rightarrow>
               Some \<lparr>rg_framework = u ''nextjs'', rg_project_dir = np_dir project, rg_path = path, rg_kind = kind,
                     rg_route = route, rg_router = Some AppRouter,
                     rg_dynamic = (case route of None \<Rightarrow> [] | Some r \<Rightarrow> dynamic_segments r),
                     rg_groups = filter is_group_segment segments, rg_slots = filter is_parallel_route_segment segments,
                     rg_marker = marker, rg_target = target,
                     rg_note = (if note_text \<noteq> [] then note_text
                        else if marker \<noteq> None \<and> route \<noteq> None
                        then u ''upstream normalizeAppPath retains the intercepting marker in this pattern'' else []),
                     rg_confidence = (if marker \<noteq> None then 600 else 1000)\<rparr>))"

definition pages_registration :: "next_project \<Rightarrow> valid_file_matcher \<Rightarrow> ustr \<Rightarrow> ustr \<Rightarrow> registration option" where
  "pages_registration project matcher path rel_path =
     (if \<not> search_path (vm_any_extension matcher) rel_path then None
      else if u ''ts'' \<in> set (np_extensions project) \<and> endswith rel_path (u ''.d.ts'') then None
      else
        let route = get_page_from_path rel_path (np_extensions project); is_api = startswith route (u ''/api/'') in
        if \<not> is_api \<and> is_reserved_page route then None
        else Some \<lparr>rg_framework = u ''nextjs'', rg_project_dir = np_dir project, rg_path = path,
                   rg_kind = (if is_api then RouteHandlerKind else PageKind), rg_route = Some route,
                   rg_router = Some PagesRouter, rg_dynamic = dynamic_segments route, rg_groups = [], rg_slots = [],
                   rg_marker = None, rg_target = None, rg_note = [], rg_confidence = 1000\<rparr>)"

text \<open>The registration of a path, or the label of the project whose metadata file it is.\<close>

definition path_registration ::
  "'a digit_env_scheme \<Rightarrow> (ustr \<times> next_project \<times> ustr \<times> router_kind) list \<Rightarrow> ustr \<Rightarrow> registration option \<times> ustr option" where
  "path_registration env table path =
     (case owning_router path table of
        None \<Rightarrow> (None, None)
      | Some (project, router_dir, router) \<Rightarrow>
          let rel_path = drop (length router_dir) path; matcher = create_valid_file_matcher (np_extensions project) in
          if router = AppRouter then
            (if has_private_part rel_path then (None, None)
             else if is_metadata_stem env rel_path \<and> kind_for matcher rel_path = None
             then (None, Some (project_label (np_dir project)))
             else (app_registration project matcher path rel_path, None))
          else (pages_registration project matcher path rel_path, None))"

definition proxy_registration :: "next_project \<Rightarrow> registration option" where
  "proxy_registration project =
     map_option (\<lambda>path. \<lparr>rg_framework = u ''nextjs'', rg_project_dir = np_dir project, rg_path = path, rg_kind = ProxyKind,
        rg_route = None, rg_router = None, rg_dynamic = [], rg_groups = [], rg_slots = [], rg_marker = None,
        rg_target = None, rg_note = u ''matcher config is declared in source and not evaluated here'',
        rg_confidence = 600\<rparr>) (np_proxy project)"

definition metadata_notes :: "ustr list \<Rightarrow> ustr list" where
  "metadata_notes labels =
     map (\<lambda>label. label @ u '' contains '' @ show_position (count_list labels label)
            @ u '' metadata route file(s); metadata conventions are outside this port''
            @ [39] @ u ''s supported baseline'') (sorted_set labels)"

definition addressable_key :: "registration \<Rightarrow> (ustr \<times> ustr \<times> ustr) option" where
  "addressable_key r =
     (case (rg_route r, rg_router r) of
        (Some route, Some router) \<Rightarrow>
          if rg_kind r \<in> {PageKind, RouteHandlerKind} then Some (rg_project_dir r, router_value router, route) else None
      | _ \<Rightarrow> None)"

definition duplicate_route_notes :: "registration list \<Rightarrow> ustr list" where
  "duplicate_route_notes registrations =
     (let keys = List.map_filter addressable_key registrations in
      List.map_filter (\<lambda>(project_dir, router, route).
        let owners = count_list keys (project_dir, router, route) in
        if owners > 1 then Some (project_label project_dir @ u '' defines '' @ route @ u '' in '' @ show_position owners
                                 @ u '' files; Next.js resolves exactly one'')
        else None) (sort (remdups keys)))"

definition enumerate_registrations ::
  "'a next_env_scheme \<Rightarrow> (ustr, next_config_analysis) dict \<Rightarrow> ustr list \<Rightarrow> (ustr, bytes) dict \<Rightarrow>
   (next_error, registration list \<times> ustr list) result" where
  "enumerate_registrations env analyses paths contents =
     bind_err (discover_projects env analyses paths contents) (\<lambda>(projects, notes_found).
       if projects = [] then Inr ([], notes_found)
       else
         let outcomes = map (path_registration env (router_prefixes projects)) paths;
             registrations = List.map_filter fst outcomes @ List.map_filter proxy_registration projects
         in Inr (sort_key registration_key registrations,
                 notes_found @ metadata_notes (List.map_filter snd outcomes) @ duplicate_route_notes registrations))"

subsection \<open>The walk to the root\<close>

lemma dirname_none: "47 \<notin> set path \<Longrightarrow> dirname path = []"
proof -
  assume "47 \<notin> set path"
  then have "dropWhile (\<lambda>c. c \<noteq> 47) (rev path) = []" by auto
  then show "dirname path = []" unfolding dirname_def by (simp only: rev.simps Let_def list.set ball_simps if_True)
qed

lemma dirname_last:
  assumes "47 \<notin> set b" and "a \<noteq> []" and "hd a \<noteq> 47"
  shows "dirname (a @ 47 # b) = rev (lstrip_char 47 (rev a))"
proof -
  have "dropWhile (\<lambda>c. c \<noteq> 47) (rev b @ 47 # rev a) = 47 # rev a"
    using assms(1) by (subst dropWhile_append2) auto
  moreover have "\<exists>c \<in> set a. c \<noteq> 47" using assms(2,3) hd_in_set by blast
  ultimately show ?thesis by (auto simp: dirname_def lstrip_char_def Let_def)
qed

lemma dirname_shorter:
  assumes "path \<noteq> []" and "\<not> startswith path slash"
  shows "length (dirname path) < length path \<and> \<not> startswith (dirname path) slash"
proof (cases "47 \<in> set path")
  case False
  then show ?thesis using assms by (simp add: dirname_none startswith_def slash_def u_def)
next
  case True
  then obtain a b where path: "path = a @ 47 # b" "47 \<notin> set b" by (meson split_list_last)
  then have a: "a \<noteq> []" "hd a \<noteq> 47" using assms(2) by (cases a; simp add: startswith_def slash_def u_def)+
  define d where "d = rev (lstrip_char 47 (rev a))"
  have d: "dirname path = d" unfolding path(1) d_def using path(2) a by (rule dirname_last)
  obtain rest where "a = d @ rest"
    unfolding d_def lstrip_char_def by (metis rev_append rev_rev_ident takeWhile_dropWhile_id)
  then show ?thesis unfolding d using a path(1) by (cases d) (auto simp: startswith_def slash_def u_def)
qed

lemma parents_from_returns: "\<not> startswith path slash \<Longrightarrow> \<exists>ps. parents_from path = Some ps"
proof (induction "length path" arbitrary: path rule: less_induct)
  case less
  show ?case
  proof (cases "path = []")
    case False
    then obtain ps where "parents_from (dirname path) = Some ps" using less dirname_shorter by blast
    then show ?thesis by (simp add: parents_from.simps [of path])
  qed (simp add: parents_from.simps)
qed

lemma parents_of_returns:
  assumes "\<not> startswith path slash"
  shows "\<exists>ps. parents_of path = Inr ps"
proof -
  have "\<not> startswith (dirname path) slash"
    using assms dirname_shorter by (cases "path = []") (auto simp: dirname_def startswith_def slash_def u_def)
  then show ?thesis using parents_from_returns by (force simp: parents_of_def)
qed

lemma map_err_all_Inr: "\<forall>x \<in> set xs. \<exists>y. f x = Inr y \<Longrightarrow> \<exists>ys. map_err f xs = Inr ys"
  by (induction xs) force+

lemma map_err_Inl: "map_err f xs = Inl e \<Longrightarrow> \<exists>x \<in> set xs. f x = Inl e"
proof (induction xs)
  case (Cons x xs)
  then show ?case by (cases "f x"; cases "map_err f xs") auto
qed simp

text \<open>The only failure of a directory is the major version of the \<open>next\<close> it declares.\<close>

lemma discover_directory_raises:
  assumes "discover_directory env analyses paths populated specifiers candidate = Inl e"
  shows "e = NotAnInteger \<and> (\<exists>s. map_of specifiers (fst candidate) = Some s \<and> declared_next_major env s = Inl NotAnInteger)"
proof -
  have core: "next_major env b1 b2 v = Inl e' \<Longrightarrow> e' = NotAnInteger" for b1 b2 v e'
    by (auto simp: next_major_def Let_def split: option.split_asm if_split_asm)
  have "version_notes env label (map_of specifiers (fst candidate)) = Inl e \<Longrightarrow> ?thesis" for label
    by (auto simp: version_notes_def declared_next_major_def bind_err_def dest: core split: option.split_asm sum.split_asm)
  then show ?thesis
    using assms by (auto simp: discover_directory_def Let_def bind_err_def split: prod.split_asm sum.split_asm if_split_asm)
qed

text \<open>Every specifier of the candidates is declared by a manifest among the paths.\<close>

definition declares_next :: "'a next_env_scheme \<Rightarrow> (ustr, bytes) dict \<Rightarrow> ustr list \<Rightarrow> ustr \<Rightarrow> bool" where
  "declares_next env contents paths s \<longleftrightarrow> (\<exists>path \<in> set paths. base_of path = u ''package.json''
     \<and> next_dependency env (case map_of contents path of None \<Rightarrow> [] | Some bs \<Rightarrow> bs) = Some (Some s))"

lemma update_mem: "(d, s) \<in> set (AList.update k v xs) \<Longrightarrow> d = k \<and> s = v \<or> (d, s) \<in> set xs"
  by (induction xs) (auto split: if_split_asm)

lemma candidate_step_specifiers:
  "(d, s) \<in> set (cd_specifiers (candidate_step env contents st path)) \<Longrightarrow>
     (d, s) \<in> set (cd_specifiers st) \<or> declares_next env contents [path] s"
  by (auto simp: candidate_step_def declares_next_def Let_def dest!: update_mem split: if_split_asm option.split_asm)

lemma find_candidates_specifiers:
  "(d, s) \<in> set (cd_specifiers (find_candidates env contents paths)) \<Longrightarrow> declares_next env contents paths s"
proof -
  have "(d, s) \<in> set (cd_specifiers (foldl (candidate_step env contents) st paths)) \<Longrightarrow>
      (d, s) \<in> set (cd_specifiers st) \<or> declares_next env contents paths s" for st
  proof (induction paths arbitrary: st)
    case (Cons path paths)
    then have "(d, s) \<in> set (cd_specifiers (candidate_step env contents st path)) \<or> declares_next env contents paths s" by simp
    then show ?case using candidate_step_specifiers by (fastforce simp: declares_next_def)
  qed simp
  from this [of "\<lparr>cd_candidates = [], cd_specifiers = []\<rparr>"] show
    "(d, s) \<in> set (cd_specifiers (find_candidates env contents paths)) \<Longrightarrow> declares_next env contents paths s"
    by (simp add: find_candidates_def)
qed

text \<open>C19: On workspace-relative paths the enumeration of registrations ends with a result or with one error: the
  \<open>ValueError\<close> of \<open>int\<close>, and then a \<open>package.json\<close> among the paths declares a \<open>next\<close> whose major version is made
  of digits that \<open>int\<close> does not read. It never walks up for ever.
\<close>

theorem enumeration_returns:
  assumes "\<forall>path \<in> set paths. \<not> startswith path slash"
  shows "(\<exists>registrations found. enumerate_registrations env analyses paths contents = Inr (registrations, found))
    \<or> enumerate_registrations env analyses paths contents = Inl NotAnInteger
      \<and> (\<exists>path \<in> set paths. \<exists>s. base_of path = u ''package.json''
           \<and> next_dependency env (case map_of contents path of None \<Rightarrow> [] | Some bs \<Rightarrow> bs) = Some (Some s)
           \<and> declared_next_major env s = Inl NotAnInteger)"
proof (cases "discover_projects env analyses paths contents")
  case (Inl e)
  obtain parents where "map_err parents_of paths = Inr parents"
    using map_err_all_Inr [of paths parents_of] parents_of_returns assms by blast
  then obtain directory where failed: "discover_directory env analyses paths (concat parents)
      (cd_specifiers (find_candidates env contents paths)) directory = Inl e"
    using Inl by (auto simp: discover_projects_def Let_def bind_err_def split: sum.split_asm dest!: map_err_Inl)
  from discover_directory_raises [OF failed] obtain s where e: "e = NotAnInteger"
    and s: "map_of (cd_specifiers (find_candidates env contents paths)) (fst directory) = Some s" "declared_next_major env s = Inl NotAnInteger"
    by blast
  from find_candidates_specifiers [OF map_of_SomeD [OF s(1)]] obtain path where "path \<in> set paths" "base_of path = u ''package.json''"
      "next_dependency env (case map_of contents path of None \<Rightarrow> [] | Some bs \<Rightarrow> bs) = Some (Some s)"
    unfolding declares_next_def by blast
  then show ?thesis using Inl s(2) by (auto simp: enumerate_registrations_def e)
next
  case (Inr found)
  then show ?thesis by (auto simp: enumerate_registrations_def Let_def split: prod.split)
qed

subsection \<open>Owners\<close>

lemma first_some_sorted:
  assumes "first_some f (sort_key k xs) = Some y"
  shows "\<exists>x \<in> set xs. f x = Some y \<and> (\<forall>z \<in> set xs. f z \<noteq> None \<longrightarrow> k x \<le> (k z :: 'k :: linorder))"
proof -
  have "\<exists>x \<in> set xs. f x = Some y \<and> (\<forall>z \<in> set xs. f z \<noteq> None \<longrightarrow> k x \<le> k z)"
    if "sorted (map k xs)" "first_some f xs = Some y" for xs
    using that
  proof (induction xs)
    case (Cons x xs)
    show ?case
    proof (cases "f x")
      case None
      then show ?thesis using Cons by auto
    next
      case (Some z)
      then show ?thesis using Cons.prems by auto
    qed
  qed simp
  from this [OF _ assms] show ?thesis by simp
qed

lemma owning_router_innermost:
  assumes "owning_router path (router_prefixes projects) = Some (project, router_dir, router)"
  shows "project \<in> set projects \<and> (\<exists>is_src. (router_dir, router, is_src) \<in> set (np_routers project))
    \<and> startswith path (router_dir @ u ''/'')
    \<and> (\<forall>other \<in> set projects. \<forall>(d, _, _) \<in> set (np_routers other).
         startswith path (d @ u ''/'') \<longrightarrow> length (np_dir other) \<le> length (np_dir project))"
proof -
  let ?table = "concat (map (\<lambda>project. map (\<lambda>(router_dir, router, _). (router_dir @ u ''/'', project, router_dir, router)) (np_routers project)) projects)"
  obtain entry where entry: "entry \<in> set ?table"
      "(case entry of (t, p, d, k) \<Rightarrow> if startswith path t then Some (p, d, k) else None) = Some (project, router_dir, router)"
      "\<forall>z \<in> set ?table. (case z of (t, p, d, k) \<Rightarrow> if startswith path t then Some (p, d, k) else None) \<noteq> None \<longrightarrow>
         (case entry of (_, p, _, _) \<Rightarrow> - int (length (np_dir p))) \<le> (case z of (_, p, _, _) \<Rightarrow> - int (length (np_dir p)))"
    using first_some_sorted [OF assms [unfolded owning_router_def router_prefixes_def]] by blast
  obtain t where e: "entry = (t, project, router_dir, router)" "startswith path t"
    using entry(2) by (auto split: prod.split_asm if_split_asm)
  have mem: "project \<in> set projects" "\<exists>is_src. (router_dir, router, is_src) \<in> set (np_routers project)" "t = router_dir @ u ''/''"
    using entry(1) by (auto simp: e)
  have "length (np_dir other) \<le> length (np_dir project)"
    if "other \<in> set projects" "(d, k, s) \<in> set (np_routers other)" "startswith path (d @ u ''/'')" for other d k s
  proof -
    have "(d @ u ''/'', other, d, k) \<in> set ?table" using that by force
    then show ?thesis using entry(3) that(3) by (fastforce simp: e)
  qed
  then show ?thesis using mem e(2) by auto
qed

lemma app_registration_fields:
  assumes "app_registration project matcher path rel_path = Some r"
  shows "rg_path r = path \<and> rg_router r = Some AppRouter \<and> rg_project_dir r = np_dir project
    \<and> (\<exists>page_key. rg_route r = app_route (rg_kind r) page_key)"
proof -
  obtain kind where kind: "kind_for matcher rel_path = Some kind" using assms by (auto simp: app_registration_def split: option.split_asm)
  define key where "key = get_page_from_path (replace_text (u ''%5F'') (u ''_'') rel_path) (np_extensions project)"
  obtain marker target noted where found: "resolve_interception key = (marker, target, noted)" by (cases "resolve_interception key") auto
  show ?thesis using assms unfolding app_registration_def kind option.case key_def [symmetric] Let_def found prod.case
    by (cases "key \<in> skip_page_keys") auto
qed

lemma path_registration_Some:
  assumes "fst (path_registration env table path) = Some r"
  shows "\<exists>project router_dir router. owning_router path table = Some (project, router_dir, router)
    \<and> rg_path r = path \<and> rg_router r = Some router \<and> rg_project_dir r = np_dir project
    \<and> (router = AppRouter \<longrightarrow> \<not> has_private_part (drop (length router_dir) path)
         \<and> (\<exists>page_key. rg_route r = app_route (rg_kind r) page_key))
    \<and> (router = PagesRouter \<longrightarrow> rg_groups r = [] \<and> rg_slots r = []
         \<and> rg_route r = Some (get_page_from_path (drop (length router_dir) path) (np_extensions project)))"
proof -
  obtain project router_dir router where owner: "owning_router path table = Some (project, router_dir, router)"
    using assms by (auto simp: path_registration_def split: option.split_asm)
  let ?rel = "drop (length router_dir) path" and ?m = "create_valid_file_matcher (np_extensions project)"
  show ?thesis
  proof (cases router)
    case AppRouter
    then have "\<not> has_private_part ?rel" "app_registration project ?m path ?rel = Some r"
      using assms by (auto simp: path_registration_def owner Let_def split: if_split_asm)
    then show ?thesis using owner AppRouter app_registration_fields by blast
  next
    case PagesRouter
    then have "pages_registration project ?m path ?rel = Some r"
      using assms by (auto simp: path_registration_def owner Let_def split: if_split_asm)
    then show ?thesis using owner PagesRouter
      by (auto simp: pages_registration_def Let_def split: if_split_asm)
  qed
qed

text \<open>The parts an app route shows.\<close>

definition shown_part :: "ustr \<Rightarrow> bool" where
  "shown_part part \<longleftrightarrow> \<not> is_group_segment part \<and> \<not> startswith part (u ''@'')"

lemma shown_empty: "shown_part []"
  by (simp add: shown_part_def is_group_segment_def startswith_def u_def)

lemma normalize_app_path_shown: "\<forall>part \<in> set (split_on 47 (normalize_app_path key)). shown_part part"
  unfolding normalize_app_path_parts Let_def
  using visible_parts_seen [of _ "split_on 47 key"] shown_empty by (simp add: shown_part_def)

lemma split_on_middle: "split_on c (x @ c # y) = split_on c x @ split_on c y"
  by (induction x) (auto split: list.split)

lemma normalize_layout_route_shown: "\<forall>part \<in> set (split_on 47 (normalize_layout_route key)). shown_part part"
proof -
  let ?path = "normalize_app_path key" and ?bare = "removesuffix (normalize_app_path key) (u ''/layout'')"
  have bare: "\<forall>part \<in> set (split_on 47 ?bare). shown_part part"
  proof (cases "endswith ?path (u ''/layout'')")
    case True
    then have "?path = ?bare @ 47 # u ''layout''"
      unfolding removesuffix_def endswith_def by (simp add: u_def) (metis append_take_drop_id)
    then have "set (split_on 47 ?bare) \<subseteq> set (split_on 47 ?path)" by (metis split_on_middle set_append sup_ge1)
    then show ?thesis using normalize_app_path_shown by blast
  next
    case False
    then show ?thesis using normalize_app_path_shown by (simp add: removesuffix_def)
  qed
  have "split_on 47 (u ''/'' @ ?bare) = [] # split_on 47 ?bare" by (simp add: u_def)
  then show ?thesis using bare by (simp add: normalize_layout_route_def ensure_leading_slash_def shown_empty)
qed

lemma app_route_shown:
  "(app_route kind key = None \<longleftrightarrow> kind = DefaultKind)
   \<and> (\<forall>route. app_route kind key = Some route \<longrightarrow> (\<forall>part \<in> set (split_on 47 route). shown_part part))"
  using normalize_app_path_shown [of key] normalize_layout_route_shown [of key] by (simp add: app_route_def)

text \<open>C18: Every registration with a router is of a captured path under a directory of that router and belongs to
  the innermost project that has such a directory above the path. In the app router it comes from no private
  folder, it shows a route unless it is the default of a slot, and no part of that route, layouts included, is a
  route group or a slot. In the pages router, which has none of these conventions, its route is the page path as
  it stands below the directory, and it lists no group and no slot.
\<close>

theorem registrations_innermost:
  assumes "enumerate_registrations env analyses paths contents = Inr (registrations, found)"
    and "discover_projects env analyses paths contents = Inr (projects, noted)"
    and "r \<in> set registrations" and "rg_router r = Some router"
  shows "rg_path r \<in> set paths \<and> (\<exists>project \<in> set projects. \<exists>router_dir is_src.
      (router_dir, router, is_src) \<in> set (np_routers project) \<and> startswith (rg_path r) (router_dir @ u ''/'')
      \<and> rg_project_dir r = np_dir project
      \<and> (\<forall>other \<in> set projects. \<forall>(d, _, _) \<in> set (np_routers other).
           startswith (rg_path r) (d @ u ''/'') \<longrightarrow> length (np_dir other) \<le> length (np_dir project))
      \<and> (router = AppRouter \<longrightarrow> \<not> has_private_part (drop (length router_dir) (rg_path r))
           \<and> (rg_route r = None \<longleftrightarrow> rg_kind r = DefaultKind)
           \<and> (\<forall>route. rg_route r = Some route \<longrightarrow>
                (\<forall>part \<in> set (split_on 47 route). \<not> is_group_segment part \<and> \<not> startswith part (u ''@''))))
      \<and> (router = PagesRouter \<longrightarrow> rg_groups r = [] \<and> rg_slots r = []
           \<and> rg_route r = Some (get_page_from_path (drop (length router_dir) (rg_path r)) (np_extensions project))))"
proof -
  have "r \<in> set (List.map_filter fst (map (path_registration env (router_prefixes projects)) paths)
      @ List.map_filter proxy_registration projects)"
    using assms(1,3) by (auto simp: enumerate_registrations_def assms(2) Let_def split: if_split_asm)
  moreover have "r \<notin> set (List.map_filter proxy_registration projects)"
    using assms(4) by (auto simp: mem_map_filter proxy_registration_def)
  ultimately obtain path where path: "path \<in> set paths" "fst (path_registration env (router_prefixes projects) path) = Some r"
    by (auto simp: mem_map_filter)
  obtain project router_dir k where r: "owning_router path (router_prefixes projects) = Some (project, router_dir, k)"
      "rg_path r = path" "rg_router r = Some k" "rg_project_dir r = np_dir project"
      "k = AppRouter \<longrightarrow> \<not> has_private_part (drop (length router_dir) path) \<and> (\<exists>page_key. rg_route r = app_route (rg_kind r) page_key)"
      "k = PagesRouter \<longrightarrow> rg_groups r = [] \<and> rg_slots r = []
         \<and> rg_route r = Some (get_page_from_path (drop (length router_dir) path) (np_extensions project))"
    using path_registration_Some [OF path(2)] by blast
  have k: "k = router" using r(3) assms(4) by simp
  have app: "(rg_route r = None \<longleftrightarrow> rg_kind r = DefaultKind)
      \<and> (\<forall>route. rg_route r = Some route \<longrightarrow> (\<forall>part \<in> set (split_on 47 route). \<not> is_group_segment part \<and> \<not> startswith part (u ''@'')))"
    if router: "router = AppRouter"
  proof -
    from r(5) k router obtain key where "rg_route r = app_route (rg_kind r) key" by auto
    then show ?thesis using app_route_shown [of "rg_kind r" key] by (simp add: shown_part_def)
  qed
  note inner = owning_router_innermost [OF r(1), unfolded k]
  from inner obtain is_src where src: "(router_dir, router, is_src) \<in> set (np_routers project)" by blast
  show ?thesis unfolding r(2)
    using inner path(1) src r(4) r(5,6) [unfolded k] app
    by (intro conjI bexI [of _ project] exI [of _ router_dir] exI [of _ is_src]) simp_all
qed

definition demo_next_env :: next_env where
  "demo_next_env = \<lparr>he_digit = (\<lambda>c. 48 \<le> c \<and> c \<le> 57), he_decimal = (\<lambda>c. if 48 \<le> c \<and> c \<le> 57 then Some (c - 48) else None),
     nx_json = (\<lambda>_. None)\<rparr>"

definition demo_paths :: "ustr list" where
  "demo_paths = [u ''w/next.config.js'', u ''w/app/(g)/x/page.js'']"

definition demo_project :: next_project where
  "demo_project = \<lparr>np_dir = u ''w'', np_routers = [(u ''w/app'', AppRouter, False)], np_extensions = DEFAULT_PAGE_EXTENSIONS,
     np_proxy = None\<rparr>"

lemma demo_discover_next: "\<exists>noted. discover_projects demo_next_env [] demo_paths [] = Inr ([demo_project], noted)"
proof -
  have parents: "map_err parents_of demo_paths = Inr [[u ''w''], [u ''w/app/(g)/x'', u ''w/app/(g)'', u ''w/app'', u ''w'']]"
    by (simp add: demo_paths_def parents_of_def dirname_def u_def lstrip_char_def parents_from.simps)
  have candidates: "find_candidates demo_next_env [] demo_paths =
      \<lparr>cd_candidates = [(u ''w'', Some (u ''w/next.config.js''))], cd_specifiers = []\<rparr>" by code_simp
  let ?populated = "[u ''w'', u ''w/app/(g)/x'', u ''w/app/(g)'', u ''w/app'', u ''w'']"
  have "case discover_directory demo_next_env [] demo_paths ?populated [] (u ''w'', Some (u ''w/next.config.js'')) of
      Inr (ps, noted) \<Rightarrow> ps = [demo_project] | Inl e \<Rightarrow> False" by code_simp
  then obtain noted where "discover_directory demo_next_env [] demo_paths ?populated [] (u ''w'', Some (u ''w/next.config.js''))
      = Inr ([demo_project], noted)"
    by (auto split: sum.split_asm)
  then show ?thesis by (simp add: discover_projects_def parents candidates)
qed

theorem registrations_innermost_witness:
  "\<exists>r found. enumerate_registrations demo_next_env [] demo_paths [] = Inr ([r], found)
     \<and> rg_route r = Some (u ''/x'') \<and> rg_path r \<in> set demo_paths \<and> rg_project_dir r = u ''w''"
proof -
  let ?table = "router_prefixes [demo_project]"
  have config: "path_registration demo_next_env ?table (u ''w/next.config.js'') = (None, None)" by code_simp
  have "case path_registration demo_next_env ?table (u ''w/app/(g)/x/page.js'') of
      (Some r, None) \<Rightarrow> rg_route r = Some (u ''/x'') \<and> rg_router r = Some AppRouter | _ \<Rightarrow> False" by code_simp
  then obtain r where r: "path_registration demo_next_env ?table (u ''w/app/(g)/x/page.js'') = (Some r, None)"
      "rg_route r = Some (u ''/x'')" "rg_router r = Some AppRouter"
    by (auto split: prod.split_asm option.split_asm)
  obtain noted where discover: "discover_projects demo_next_env [] demo_paths [] = Inr ([demo_project], noted)" using demo_discover_next by blast
  have proxy: "proxy_registration demo_project = None" by (simp add: proxy_registration_def demo_project_def)
  have outcomes: "map (path_registration demo_next_env ?table) demo_paths = [(None, None), (Some r, None)]"
    by (simp add: demo_paths_def config r(1))
  obtain found where run: "enumerate_registrations demo_next_env [] demo_paths [] = Inr ([r], found)"
    by (simp add: enumerate_registrations_def discover outcomes proxy Let_def List.map_filter_simps)
  have "r \<in> set [r]" by simp
  from registrations_innermost [OF run discover this r(3)] show ?thesis using run r(2) by (auto simp: demo_project_def)
qed

theorem enumeration_returns_witness:
  "\<exists>registrations found. enumerate_registrations demo_next_env [] demo_paths [] = Inr (registrations, found)"
proof -
  have relative: "\<forall>path \<in> set demo_paths. \<not> startswith path slash" by code_simp
  have "\<forall>path \<in> set demo_paths. base_of path \<noteq> u ''package.json''" by code_simp
  then show ?thesis using enumeration_returns [OF relative, of demo_next_env "[]" "[]"] by blast
qed

end
