(* ===== verification/Projects.thy ===== *)
theory Projects
  imports NextProjects AuthorityFiles
begin

text \<open>
  Projects, dependencies, scripts, tasks and configurations read from the manifests of a snapshot (the
  first part of \<open>catalog/projects.py\<close>). The JSON, TOML and YAML parsers, \<open>repr\<close>, the texts of
  exceptions, SHA-256 and the JSON encoder are arguments. The values of a parser are JSON values; a YAML
  mapping with a key that is no string, and a YAML set, read as \<open>JOther\<close>.
\<close>

subsection \<open>Environment and errors\<close>

datatype yaml_failure = YamlError | YamlValueError

datatype manifest_failure = DecodeFailure | ValueFailure | TomlFailure | Utf8Failure | InvalidFact | YamlFailure

datatype project_error = ParserRaised ustr | NotCaptured ustr | FactRejected | RoutesFailed next_error

text \<open>What the loop over the manifests catches, and what leaves the extraction.\<close>

datatype manifest_error = Caught manifest_failure | Uncaught project_error

record project_env = digit_env +
  pe_json :: "bytes \<Rightarrow> (json_failure, json) result"
  pe_toml :: "ustr \<Rightarrow> json option"
  pe_yaml :: "bytes \<Rightarrow> (yaml_failure, json) result"
  pe_repr :: "ustr \<Rightarrow> ustr"
  pe_str :: "json \<Rightarrow> ustr"
  pe_dumps :: "json \<Rightarrow> bytes"
  pe_digest :: "bytes \<Rightarrow> ustr"
  pe_message :: "manifest_failure \<Rightarrow> ustr \<Rightarrow> bytes \<Rightarrow> ustr"

subsection \<open>Values\<close>

definition object_sequence :: "json \<Rightarrow> json list" where
  "object_sequence v = (case v of JArr vs \<Rightarrow> vs | _ \<Rightarrow> [])"

definition string_sequence :: "json \<Rightarrow> ustr list" where
  "string_sequence v = List.map_filter json_text (object_sequence v)"

text \<open>\<open>_object\<close>: the mapping, when every key is a string pydantic takes, that is one without lone
  surrogates; anything else is the empty mapping.\<close>

definition scalar_text :: "ustr \<Rightarrow> bool" where
  "scalar_text s \<longleftrightarrow> list_all is_scalar s"

lemma scalar_text_code [code]: "scalar_text s = (if list_all (\<lambda>c. c < 128) s then True else list_all is_scalar s)"
  by (auto simp: scalar_text_def list_all_iff is_scalar_def)

definition validated_dict :: "json \<Rightarrow> (ustr, json) dict" where
  "validated_dict v = (case v of JObj d \<Rightarrow> if list_all (\<lambda>(key, _). scalar_text key) d then d else [] | _ \<Rightarrow> [])"

definition string_mapping :: "json \<Rightarrow> (ustr, ustr) dict" where
  "string_mapping v =
     List.map_filter (\<lambda>(key, item). case item of JStr s \<Rightarrow> if s = [] then None else Some (key, s) | _ \<Rightarrow> None)
       (validated_dict v)"

definition optional_bool :: "json \<Rightarrow> bool option" where
  "optional_bool v = (case v of JBool b \<Rightarrow> Some b | _ \<Rightarrow> None)"

text \<open>\<open>str(value)\<close>; \<open>pe_str\<close> decides lists, mappings, floats and other values.\<close>

definition text_of :: "'a project_env_scheme \<Rightarrow> json \<Rightarrow> ustr" where
  "text_of env v =
     (case v of
        JStr s \<Rightarrow> s
      | JNull \<Rightarrow> u ''None''
      | JBool b \<Rightarrow> if b then u ''True'' else u ''False''
      | JInt i \<Rightarrow> show_int i
      | _ \<Rightarrow> pe_str env v)"

subsection \<open>Records\<close>

definition PROJECT_EXTRACTOR_ID :: ustr where "PROJECT_EXTRACTOR_ID = u ''soleaux-project-catalog''"

definition project_id_text :: "ustr \<Rightarrow> project_kind \<Rightarrow> ustr \<Rightarrow> ustr" where
  "project_id_text workspace kind root =
     workspace @ u '':'' @ project_kind_value kind @ u '':'' @ (if root = [] then u ''.'' else root)"

text \<open>The provenance of a captured path; \<open>next\<close> over the snapshot's files raises when there is none.\<close>

definition evidence_of :: "snapshot_bundle \<Rightarrow> ustr \<Rightarrow> (project_error, catalog_record) result" where
  "evidence_of bundle path =
     (case find (\<lambda>item. cf_path item = path) (sb_files bundle) of
        None \<Rightarrow> Inl (NotCaptured path)
      | Some captured \<Rightarrow>
          Inr \<lparr>cr_workspace = sb_workspace bundle, cr_source_path = path, cr_source_digest = cf_hash captured,
               cr_producer = PROJECT_EXTRACTOR_ID, cr_producer_version = u ''1''\<rparr>)"

text \<open>A field with a minimal length: a lone surrogate is no valid text either.\<close>

definition present :: "ustr \<Rightarrow> bool" where
  "present s \<longleftrightarrow> s \<noteq> [] \<and> utf8_encode s \<noteq> None"

text \<open>ASCII text is decided without its encoding.\<close>

lemma present_code [code]: "present s = (if s = [] then False else scalar_text s)"
  by (auto simp: present_def utf8_encode_def scalar_text_def)

definition sourced :: "'a catalog_record_scheme \<Rightarrow> bool" where
  "sourced r \<longleftrightarrow> present (cr_workspace r) \<and> present (cr_source_path r) \<and> present (cr_source_digest r)
     \<and> length (cr_source_digest r) = 64 \<and> present (cr_producer r) \<and> present (cr_producer_version r)"

definition project_valid :: "project_fact \<Rightarrow> bool" where
  "project_valid p \<longleftrightarrow> sourced p \<and> present (pf_id p) \<and> present (pf_manifest p)"

definition declared_valid :: "dependency_fact \<Rightarrow> bool" where
  "declared_valid d \<longleftrightarrow> sourced d \<and> present (dp_project d) \<and> present (dp_package d) \<and> present (dp_declared d)"

definition script_valid :: "script_fact \<Rightarrow> bool" where
  "script_valid s \<longleftrightarrow> sourced s \<and> present (sr_project s) \<and> present (sr_name s) \<and> present (sr_command s)"

definition task_valid :: "task_fact \<Rightarrow> bool" where
  "task_valid t \<longleftrightarrow> sourced t \<and> present (tk_project t) \<and> present (tk_runner t) \<and> present (tk_id t)"

definition config_valid :: "config_fact \<Rightarrow> bool" where
  "config_valid c \<longleftrightarrow> sourced c \<and> present (co_project c) \<and> present (co_path c) \<and> present (co_kind c) \<and> present (co_parser c)"

definition accept :: "'e \<Rightarrow> ('a \<Rightarrow> bool) \<Rightarrow> 'a \<Rightarrow> ('e, 'a) result" where
  "accept e valid x = (if valid x then Inr x else Inl e)"

definition uncaught :: "(project_error, 'a) result \<Rightarrow> (manifest_error, 'a) result" where
  "uncaught r = (case r of Inl e \<Rightarrow> Inl (Uncaught e) | Inr x \<Rightarrow> Inr x)"

subsection \<open>Catalog specifiers\<close>

record catalog_resolution =
  cx_default :: "(ustr, ustr) dict"
  cx_named :: "(ustr, (ustr, ustr) dict) dict"

definition catalog_from_bundle :: "'a project_env_scheme \<Rightarrow> snapshot_bundle \<Rightarrow> (project_error, catalog_resolution) result" where
  "catalog_from_bundle env bundle =
     (case map_of (sb_contents bundle) (u ''pnpm-workspace.yaml'') of
        None \<Rightarrow> Inr \<lparr>cx_default = [], cx_named = []\<rparr>
      | Some content \<Rightarrow>
          (case pe_yaml env content of
             Inl YamlError \<Rightarrow> Inr \<lparr>cx_default = [], cx_named = []\<rparr>
           | Inl YamlValueError \<Rightarrow> Inl (ParserRaised (u ''pnpm-workspace.yaml''))
           | Inr parsed \<Rightarrow>
               let root = validated_dict parsed in
               Inr \<lparr>cx_default = string_mapping (get_field root ''catalog''),
                    cx_named = map (\<lambda>(name, values). (name, string_mapping values)) (validated_dict (get_field root ''catalogs''))\<rparr>))"

definition resolve_specifier :: "catalog_resolution \<Rightarrow> ustr \<Rightarrow> ustr \<Rightarrow> ustr option" where
  "resolve_specifier catalog package_name specifier =
     (if specifier = u ''catalog:'' then map_of (cx_default catalog) package_name
      else if startswith specifier (u ''catalog:'') then
        (case map_of (cx_named catalog) (removeprefix specifier (u ''catalog:'')) of
           None \<Rightarrow> None
         | Some values \<Rightarrow> map_of values package_name)
      else Some specifier)"

subsection \<open>Node projects\<close>

definition node_dependency_sections :: "(string \<times> dependency_scope) list" where
  "node_dependency_sections = [(''dependencies'', RuntimeScope), (''devDependencies'', DevelopmentScope),
     (''optionalDependencies'', OptionalScope), (''peerDependencies'', PeerScope)]"

fun occurs_in :: "ustr \<Rightarrow> ustr \<Rightarrow> bool" where
  "occurs_in p [] = (p = [])"
| "occurs_in p (c # cs) = (startswith (c # cs) p \<or> occurs_in p cs)"

definition script_prerequisites :: "ustr \<Rightarrow> ustr list" where
  "script_prerequisites command = (if occurs_in (u ''next typegen'') command then [u ''next typegen''] else [])"

definition typecheck_names :: "ustr set" where
  "typecheck_names = {u ''typecheck'', u ''type-check'', u ''check:types''}"

text \<open>The facts of this part extend the provenance of their file, with their own fields in the order of the records.\<close>

definition node_dependency ::
  "catalog_record \<Rightarrow> ustr \<Rightarrow> catalog_resolution \<Rightarrow> dependency_scope \<times> ustr \<times> ustr \<Rightarrow> (manifest_error, dependency_fact) result" where
  "node_dependency e project catalog entry =
     (case entry of (scope, package_name, specifier) \<Rightarrow>
        accept (Caught InvalidFact) declared_valid
          (catalog_record.extend e (dependency_fact.fields project package_name specifier
             (resolve_specifier catalog package_name specifier) scope Declared True)))"

definition node_script :: "catalog_record \<Rightarrow> ustr \<Rightarrow> ustr \<times> ustr \<Rightarrow> (manifest_error, script_fact) result" where
  "node_script e project entry =
     (case entry of (name, command) \<Rightarrow>
        accept (Caught InvalidFact) script_valid
          (catalog_record.extend e (script_fact.fields project name command (name \<in> typecheck_names) []
             (script_prerequisites command))))"

definition node_dependency_maps :: "(ustr, json) dict \<Rightarrow> (dependency_scope \<times> (ustr, ustr) dict) list" where
  "node_dependency_maps manifest =
     map (\<lambda>(section, scope). (scope, string_mapping (get_field manifest section))) node_dependency_sections"

definition node_frameworks :: "(dependency_scope \<times> (ustr, ustr) dict) list \<Rightarrow> ustr list" where
  "node_frameworks maps =
     (let names = concat (map (dict_keys \<circ> snd) maps) in
      (if u ''next'' \<in> set names then [u ''nextjs''] else []) @ (if u ''react'' \<in> set names then [u ''react''] else []))"

definition node_project ::
  "'a project_env_scheme \<Rightarrow> snapshot_bundle \<Rightarrow> catalog_resolution \<Rightarrow> ustr \<Rightarrow> bytes \<Rightarrow>
   (manifest_error, project_fact \<times> dependency_fact list \<times> script_fact list) result" where
  "node_project env bundle catalog path content =
     (case pe_json env content of
        Inl JsonDecodeError \<Rightarrow> Inl (Caught DecodeFailure)
      | Inl JsonValueError \<Rightarrow> Inl (Caught ValueFailure)
      | Inr raw \<Rightarrow>
          let manifest = validated_dict raw; root = directory_of path;
              project = project_id_text (sb_workspace bundle) NodeProject root;
              maps = node_dependency_maps manifest
          in bind_err (uncaught (evidence_of bundle path)) (\<lambda>e.
             bind_err (accept (Caught InvalidFact) project_valid
               (catalog_record.extend e (project_fact.fields project root path NodeProject
                  (json_text (get_field manifest ''name'')) (json_text (get_field manifest ''version''))
                  (optional_bool (get_field manifest ''private'')) (node_frameworks maps)))) (\<lambda>fact.
             bind_err (map_err (node_dependency e project catalog)
                         (concat (map (\<lambda>(scope, entries). map (Pair scope) entries) maps))) (\<lambda>dependencies.
             bind_err (map_err (node_script e project) (string_mapping (get_field manifest ''scripts''))) (\<lambda>scripts.
             Inr (fact, dependencies, scripts))))))"

subsection \<open>Python projects\<close>

definition requirement_name :: "ustr \<Rightarrow> ustr" where
  "requirement_name dependency =
     foldl (\<lambda>name marker. takeWhile (\<lambda>c. c \<noteq> marker) name) (takeWhile (\<lambda>c. c \<noteq> 91) dependency) [60, 62, 61, 33, 126, 59, 32]"

definition python_dependency :: "catalog_record \<Rightarrow> ustr \<Rightarrow> ustr \<Rightarrow> (manifest_error, dependency_fact) result" where
  "python_dependency e project dependency =
     accept (Caught InvalidFact) declared_valid
       (catalog_record.extend e (dependency_fact.fields project (requirement_name dependency) dependency
          (Some dependency) RuntimeScope Declared True))"

definition python_project ::
  "'a project_env_scheme \<Rightarrow> snapshot_bundle \<Rightarrow> ustr \<Rightarrow> bytes \<Rightarrow>
   (manifest_error, project_fact \<times> dependency_fact list) result" where
  "python_project env bundle path content =
     (case utf8_decode content of
        None \<Rightarrow> Inl (Caught Utf8Failure)
      | Some text \<Rightarrow>
          (case pe_toml env text of
             None \<Rightarrow> Inl (Caught TomlFailure)
           | Some parsed \<Rightarrow>
               let table = validated_dict (get_field (validated_dict parsed) ''project''); root = directory_of path;
                   project = project_id_text (sb_workspace bundle) PythonProject root
               in bind_err (uncaught (evidence_of bundle path)) (\<lambda>e.
                  bind_err (accept (Caught InvalidFact) project_valid
                    (catalog_record.extend e (project_fact.fields project root path PythonProject
                       (json_text (get_field table ''name'')) (json_text (get_field table ''version'')) None []))) (\<lambda>fact.
                  bind_err (map_err (python_dependency e project)
                              (filter (\<lambda>d. d \<noteq> []) (string_sequence (get_field table ''dependencies'')))) (\<lambda>dependencies.
                  Inr (fact, dependencies))))))"

subsection \<open>The manifests\<close>

record manifest_state =
  mx_projects :: "project_fact list"
  mx_dependencies :: "dependency_fact list"
  mx_scripts :: "script_fact list"
  mx_warnings :: "ustr list"

definition add_manifest ::
  "'a project_env_scheme \<Rightarrow> ustr \<times> bytes \<Rightarrow>
   (manifest_error, project_fact \<times> dependency_fact list \<times> script_fact list) result \<Rightarrow> manifest_state \<Rightarrow>
   (project_error, manifest_state) result" where
  "add_manifest env entry found st =
     (case found of
        Inl (Caught failure) \<Rightarrow>
          Inr (st\<lparr>mx_warnings := mx_warnings st @ [fst entry @ u '': '' @ pe_message env failure (fst entry) (snd entry)]\<rparr>)
      | Inl (Uncaught e) \<Rightarrow> Inl e
      | Inr (project, dependencies, scripts) \<Rightarrow>
          Inr (st\<lparr>mx_projects := mx_projects st @ [project], mx_dependencies := mx_dependencies st @ dependencies,
                  mx_scripts := mx_scripts st @ scripts\<rparr>))"

definition manifest_found ::
  "'a project_env_scheme \<Rightarrow> snapshot_bundle \<Rightarrow> catalog_resolution \<Rightarrow> ustr \<times> bytes \<Rightarrow>
   (manifest_error, project_fact \<times> dependency_fact list \<times> script_fact list) result option" where
  "manifest_found env bundle catalog entry =
     (let name = base_name (fst entry) in
      if name = u ''package.json'' then Some (node_project env bundle catalog (fst entry) (snd entry))
      else if name = u ''pyproject.toml'' then
        Some (bind_err (python_project env bundle (fst entry) (snd entry)) (\<lambda>(project, dependencies). Inr (project, dependencies, [])))
      else None)"

definition manifest_step ::
  "'a project_env_scheme \<Rightarrow> snapshot_bundle \<Rightarrow> catalog_resolution \<Rightarrow> ustr \<times> bytes \<Rightarrow> manifest_state \<Rightarrow>
   (project_error, manifest_state) result" where
  "manifest_step env bundle catalog entry st =
     (case manifest_found env bundle catalog entry of
        None \<Rightarrow> Inr st
      | Some found \<Rightarrow> add_manifest env entry found st)"

definition read_manifests :: "'a project_env_scheme \<Rightarrow> snapshot_bundle \<Rightarrow> (project_error, manifest_state) result" where
  "read_manifests env bundle =
     bind_err (catalog_from_bundle env bundle) (\<lambda>catalog.
       fold_err (manifest_step env bundle catalog) (sorted_contents bundle)
         \<lparr>mx_projects = [], mx_dependencies = [], mx_scripts = [], mx_warnings = []\<rparr>)"

subsection \<open>Tasks\<close>

text \<open>\<open>{project.root_path: project}\<close> of the node projects: the last of a root.\<close>

definition node_by_root :: "project_fact list \<Rightarrow> ustr \<Rightarrow> project_fact option" where
  "node_by_root projects =
     map_of (rev (map (\<lambda>p. (pf_root p, p)) (filter (\<lambda>p. pf_kind p = NodeProject) projects)))"

definition turbo_task ::
  "catalog_record \<Rightarrow> ustr \<Rightarrow> bool \<Rightarrow> ustr \<times> json \<Rightarrow> (project_error, task_fact) result" where
  "turbo_task e project extends_root entry =
     (case entry of (task_id, raw) \<Rightarrow>
        let specification = validated_dict raw in
        accept FactRejected task_valid
          (catalog_record.extend e (task_fact.fields project (u ''turbo'') task_id
             (string_sequence (get_field specification ''dependsOn'')) (string_sequence (get_field specification ''outputs''))
             (string_sequence (get_field specification ''inputs'')) (optional_bool (get_field specification ''cache''))
             (get_field specification ''persistent'' = JBool True) extends_root)))"

definition turbo_file ::
  "'a project_env_scheme \<Rightarrow> snapshot_bundle \<Rightarrow> project_fact list \<Rightarrow> ustr \<times> bytes \<Rightarrow>
   (project_error, task_fact list \<times> ustr list) result" where
  "turbo_file env bundle projects entry =
     (case entry of (path, content) \<Rightarrow>
        if base_name path \<noteq> u ''turbo.json'' then Inr ([], [])
        else case node_by_root projects (directory_of path) of
          None \<Rightarrow> Inr ([], [path @ u '': no owning package manifest''])
        | Some owner \<Rightarrow>
            (case pe_json env content of
               Inl JsonDecodeError \<Rightarrow> Inr ([], [path @ u '': '' @ pe_message env DecodeFailure path content])
             | Inl JsonValueError \<Rightarrow> Inl (ParserRaised path)
             | Inr parsed \<Rightarrow>
                 let configuration = validated_dict parsed; tasks = validated_dict (get_field configuration ''tasks'');
                     declared = (if tasks = [] then validated_dict (get_field configuration ''pipeline'') else tasks)
                 in bind_err (evidence_of bundle path) (\<lambda>e.
                    bind_err (map_err (turbo_task e (pf_id owner) (directory_of path \<noteq> [])) declared) (\<lambda>rows.
                    Inr (rows, [])))))"

definition turbo_tasks ::
  "'a project_env_scheme \<Rightarrow> snapshot_bundle \<Rightarrow> project_fact list \<Rightarrow> (project_error, task_fact list \<times> ustr list) result" where
  "turbo_tasks env bundle projects =
     bind_err (map_err (turbo_file env bundle projects) (sorted_contents bundle)) (\<lambda>found.
       Inr (concat (map fst found), concat (map snd found)))"

definition task_ids_by_project :: "task_fact list \<Rightarrow> (ustr, ustr set) dict" where
  "task_ids_by_project tasks =
     (let turbo = filter (\<lambda>t. tk_runner t = u ''turbo'') tasks;
          root_ids = tk_id ` set (filter (\<lambda>t. \<not> tk_extends_root t) turbo)
      in AList.update [] root_ids
           (map (\<lambda>project. (project, tk_id ` set (filter (\<lambda>t. tk_project t = project) turbo) \<union> root_ids))
              (first_unique (map tk_project turbo))))"

definition known_task_ids :: "(ustr, ustr set) dict \<Rightarrow> ustr \<Rightarrow> ustr set" where
  "known_task_ids by_project project =
     (case map_of by_project project of
        Some ids \<Rightarrow> ids
      | None \<Rightarrow> (case map_of by_project [] of Some ids \<Rightarrow> ids | None \<Rightarrow> {}))"

definition separator_tokens :: "ustr set" where
  "separator_tokens = {u ''&&'', [124, 124], u '';'', [124]}"

definition ends_arguments :: "ustr \<Rightarrow> bool" where
  "ends_arguments token \<longleftrightarrow> startswith token (u ''-'') \<or> token \<in> separator_tokens"

definition is_turbo :: "ustr \<Rightarrow> bool" where
  "is_turbo token \<longleftrightarrow> token = u ''turbo'' \<or> endswith token (u ''/turbo'')"

definition bare_task :: "ustr \<Rightarrow> ustr" where
  "bare_task candidate = rev (takeWhile (\<lambda>c. c \<noteq> 35) (rev candidate))"

text \<open>The token loop: after a runner and an optional \<open>run\<close>, the arguments up to an option or a separator.\<close>

function matched_tasks :: "ustr set \<Rightarrow> ustr list \<Rightarrow> ustr list" where
  "matched_tasks known [] = []"
| "matched_tasks known (token # tokens) =
     (if \<not> is_turbo token then matched_tasks known tokens
      else
        let arguments = (if tokens \<noteq> [] \<and> hd tokens = u ''run'' then tl tokens else tokens)
        in filter (\<lambda>candidate. candidate \<in> known \<or> bare_task candidate \<in> known)
             (takeWhile (\<lambda>candidate. \<not> ends_arguments candidate) arguments)
           @ matched_tasks known (dropWhile (\<lambda>candidate. \<not> ends_arguments candidate) arguments))"
  by pat_completeness auto
termination
proof (relation "measure (\<lambda>(known, tokens). length tokens)", goal_cases)
  case (3 known token tokens arguments)
  have "length (dropWhile (\<lambda>candidate. \<not> ends_arguments candidate) arguments) \<le> length arguments"
    by (rule length_dropWhile_le)
  moreover have "length arguments \<le> length tokens" using 3 by simp
  ultimately show ?case by simp
qed auto

definition turbo_task_ids :: "(ustr, ustr set) dict \<Rightarrow> script_fact \<Rightarrow> ustr list" where
  "turbo_task_ids by_project script =
     (let known = known_task_ids by_project (sr_project script) in
      if known = {} then [] else sorted_set (matched_tasks known (words_of [] (sr_command script))))"

subsection \<open>Configurations\<close>

definition config_names :: "ustr set" where
  "config_names = {u ''jsconfig.json'', u ''next.config.js'', u ''next.config.mjs'', u ''next.config.ts'', u ''tsconfig.json''}"

definition resolve_config_reference :: "ustr \<Rightarrow> ustr \<Rightarrow> ustr list \<Rightarrow> ustr option" where
  "resolve_config_reference config_path reference all_paths =
     (if \<not> startswith reference (u ''.'') then None
      else
        let candidate = normpath (posix_join (directory_of config_path) [reference])
        in find (\<lambda>path. path \<in> set all_paths) [candidate, candidate @ u ''.json'', candidate @ u ''/tsconfig.json''])"

text \<open>A reference gives a path of the closure or a reason.\<close>

definition follow_reference ::
  "'a project_env_scheme \<Rightarrow> ustr \<Rightarrow> ustr list \<Rightarrow> string \<Rightarrow> ustr \<Rightarrow> ustr list \<times> ustr list" where
  "follow_reference env path all_paths label reference =
     (case resolve_config_reference path reference all_paths of
        None \<Rightarrow> ([], [u ''unresolved '' @ u label @ u '' '' @ pe_repr env reference])
      | Some resolved \<Rightarrow> ([resolved], []))"

definition typescript_config_closure ::
  "'a project_env_scheme \<Rightarrow> ustr \<Rightarrow> bytes \<Rightarrow> ustr list \<Rightarrow> (project_error, ustr list \<times> bool \<times> ustr list) result" where
  "typescript_config_closure env path content all_paths =
     (case pe_json env content of
        Inl JsonDecodeError \<Rightarrow> Inr ([path], False, [u ''requires TypeScript JSONC config parser''])
      | Inl JsonValueError \<Rightarrow> Inl (ParserRaised path)
      | Inr raw \<Rightarrow>
          let parsed = validated_dict raw;
              extended = (case get_field parsed ''extends'' of
                            JStr s \<Rightarrow> [follow_reference env path all_paths ''extends'' s] | _ \<Rightarrow> []);
              referenced = List.map_filter (\<lambda>reference. map_option (follow_reference env path all_paths ''project reference'')
                             (json_text (get_field (validated_dict reference) ''path'')))
                             (object_sequence (get_field parsed ''references''));
              followed = extended @ referenced;
              reasons = concat (map snd followed)
          in Inr (first_unique (path # concat (map fst followed)), reasons = [], reasons))"

definition project_config ::
  "'a project_env_scheme \<Rightarrow> snapshot_bundle \<Rightarrow> project_fact \<Rightarrow> ustr list \<Rightarrow> ustr \<times> bytes \<Rightarrow> (project_error, config_fact) result" where
  "project_config env bundle project all_paths entry =
     (case entry of (path, content) \<Rightarrow>
        let typescript = base_name path \<in> {u ''tsconfig.json'', u ''jsconfig.json''} in
        bind_err (if typescript then typescript_config_closure env path content all_paths
                  else Inr ([path], True, [])) (\<lambda>(closure, complete, reasons).
        bind_err (evidence_of bundle path) (\<lambda>e.
        accept FactRejected config_valid
          (catalog_record.extend e (config_fact.fields (pf_id project) path
             (if typescript then u ''typescript'' else u ''nextjs'')
             (if typescript then u ''typescript:config'' else u ''ts-morph:typescript'') closure complete reasons)))))"

definition owns_config :: "project_fact \<Rightarrow> ustr \<Rightarrow> bool" where
  "owns_config project path \<longleftrightarrow>
     (let root = (if pf_root project = [] then [] else pf_root project @ u ''/'') in
      startswith path root \<and> 47 \<notin> set (drop (length root) path) \<and> base_name path \<in> config_names)"

definition project_configs ::
  "'a project_env_scheme \<Rightarrow> snapshot_bundle \<Rightarrow> project_fact \<Rightarrow> (project_error, config_fact list) result" where
  "project_configs env bundle project =
     map_err (project_config env bundle project (dict_keys (sb_contents bundle)))
       (filter (\<lambda>(path, content). owns_config project path) (sorted_contents bundle))"

end
