(* ===== verification/ProjectCatalog.thy ===== *)
theory ProjectCatalog
  imports Projects
begin

text \<open>
  Engines, routes and rules of a snapshot, and the whole extraction (the rest of
  \<open>catalog/projects.py\<close>). The lemmas show that every extracted fact cites a captured file and which
  extracted project it names, that each manifest gives a project or a warning, and what the tasks of a script
  and the closure of a configuration are.
\<close>

subsection \<open>TypeScript routes\<close>

text \<open>The fields that the extraction leaves empty are left out.\<close>

record typescript_route = catalog_record +
  tt_project :: ustr
  tt_config :: "ustr option"
  tt_closure :: "ustr list"
  tt_ambient :: "ustr list"
  tt_ts_morph :: "ustr option"
  tt_native :: "ustr option"
  tt_lsp :: "ustr option"
  tt_typecheck :: "ustr option"
  tt_script :: "ustr option"
  tt_command :: "ustr option"
  tt_prerequisites :: "ustr list"
  tt_parity :: ustr
  tt_complete :: bool
  tt_omitted :: "ustr list"

definition engine_valid :: "engine_fact \<Rightarrow> bool" where
  "engine_valid e \<longleftrightarrow> sourced e \<and> present (en_project e) \<and> present (en_id e) \<and> present (en_coverage e)"

definition typescript_route_valid :: "typescript_route \<Rightarrow> bool" where
  "typescript_route_valid r \<longleftrightarrow> sourced r \<and> present (tt_project r) \<and> present (tt_parity r)"

text \<open>\<open>max(xs, key=k, default=None)\<close>: the first of the largest.\<close>

definition max_step :: "('a \<Rightarrow> nat) \<Rightarrow> 'a \<Rightarrow> 'a option \<Rightarrow> 'a option" where
  "max_step k x best = (case best of None \<Rightarrow> Some x | Some b \<Rightarrow> if k b < k x then Some x else best)"

definition max_by :: "('a \<Rightarrow> nat) \<Rightarrow> 'a list \<Rightarrow> 'a option" where
  "max_by k xs = fold (max_step k) xs None"

definition owns_path :: "project_kind \<Rightarrow> ustr \<Rightarrow> project_fact \<Rightarrow> bool" where
  "owns_path kind path project \<longleftrightarrow>
     pf_kind project = kind
     \<and> (pf_root project = [] \<or> startswith path (rev (lstrip_char 47 (rev (pf_root project))) @ u ''/''))"

definition project_for_path :: "project_fact list \<Rightarrow> ustr \<Rightarrow> project_kind \<Rightarrow> project_fact option" where
  "project_for_path projects path kind =
     max_by (\<lambda>p. length (pf_root p)) (filter (owns_path kind path) projects)"

definition typescript_suffix :: "ustr \<Rightarrow> bool" where
  "typescript_suffix path \<longleftrightarrow>
     (\<exists>s \<in> {u ''.ts'', u ''.tsx'', u ''.mts'', u ''.cts'', u ''.js'', u ''.jsx''}. endswith path s)"

definition engine_packages :: "ustr set" where
  "engine_packages = {u ''ts-morph'', u ''typescript'', u ''@typescript/native'', u ''typescript-language-server''}"

definition package_engine_id :: "dependency_fact \<Rightarrow> ustr" where
  "package_engine_id d =
     (if dp_package d = u ''typescript-language-server'' then u ''lsp'' else u ''package'')
     @ u '':'' @ dp_project d @ u '':'' @ dp_package d"

definition package_engine :: "catalog_record \<Rightarrow> dependency_fact \<Rightarrow> (project_error, engine_fact) result" where
  "package_engine e d =
     accept FactRejected engine_valid
       (catalog_record.extend e (engine_fact.fields (dp_project d) (package_engine_id d)
          (if dp_package d = u ''typescript-language-server'' then u ''lsp'' else u ''package'')
          (Some (dp_package d))
          (Some (case dp_resolved d of Some s \<Rightarrow> if s = [] then dp_declared d else s | None \<Rightarrow> dp_declared d))
          None None None None None None None None [] False (u ''declared'') [u ''runtime identity not loaded'']))"

definition typecheck_engine_id :: "script_fact \<Rightarrow> ustr" where
  "typecheck_engine_id s = u ''typecheck:'' @ sr_project s @ u '':'' @ sr_name s"

definition typecheck_engine :: "catalog_record \<Rightarrow> script_fact \<Rightarrow> (project_error, engine_fact) result" where
  "typecheck_engine e s =
     accept FactRejected engine_valid
       (catalog_record.extend e (engine_fact.fields (sr_project s) (typecheck_engine_id s) (u ''typecheck'') None None
          None None None None (Some (sr_command s)) None None None [] True (u ''declared_command'') []))"

record manifest_facts =
  mf_projects :: "project_fact list"
  mf_dependencies :: "dependency_fact list"
  mf_scripts :: "script_fact list"
  mf_configs :: "config_fact list"

text \<open>The last engine of a package, as the loop's dict keeps it.\<close>

definition engine_id_of :: "dependency_fact list \<Rightarrow> string \<Rightarrow> ustr option" where
  "engine_id_of engines name = map_of (rev (map (\<lambda>d. (dp_package d, package_engine_id d)) engines)) (u name)"

definition typescript_route_of ::
  "catalog_record \<Rightarrow> ustr \<Rightarrow> dependency_fact list \<Rightarrow> script_fact option \<Rightarrow> config_fact option \<Rightarrow> typescript_route" where
  "typescript_route_of source project dependencies typecheck config =
     (let engines = filter (\<lambda>d. dp_package d \<in> engine_packages) dependencies in
      catalog_record.extend source (typescript_route.fields project (map_option co_path config)
        (case config of None \<Rightarrow> [] | Some c \<Rightarrow> co_closure c)
        (if u ''@types/node'' \<in> dp_package ` set dependencies then [u ''node''] else [])
        (engine_id_of engines ''ts-morph'') (engine_id_of engines ''@typescript/native'')
        (engine_id_of engines ''typescript-language-server'') (map_option typecheck_engine_id typecheck)
        (map_option sr_name typecheck) (map_option sr_command typecheck)
        (case typecheck of None \<Rightarrow> [] | Some s \<Rightarrow> sr_prerequisites s) (u ''not_run'') False
        [u ''managed TypeScript engines not loaded'']))"

definition build_project_route ::
  "snapshot_bundle \<Rightarrow> project_fact \<Rightarrow> dependency_fact list \<Rightarrow> script_fact option \<Rightarrow> config_fact option \<Rightarrow>
   (project_error, engine_fact list \<times> typescript_route list) result" where
  "build_project_route bundle project dependencies typecheck config =
     bind_err (evidence_of bundle (pf_manifest project)) (\<lambda>e.
     bind_err (map_err (package_engine e) (filter (\<lambda>d. dp_package d \<in> engine_packages) dependencies)) (\<lambda>packages.
     bind_err (map_err (typecheck_engine e) (case typecheck of None \<Rightarrow> [] | Some s \<Rightarrow> [s])) (\<lambda>checks.
     bind_err (evidence_of bundle (case config of None \<Rightarrow> pf_manifest project | Some c \<Rightarrow> co_path c)) (\<lambda>source.
     bind_err (accept FactRejected typescript_route_valid
       (typescript_route_of source (pf_id project) dependencies typecheck config)) (\<lambda>route.
     Inr (packages @ checks, [route]))))))"

definition project_route ::
  "snapshot_bundle \<Rightarrow> manifest_facts \<Rightarrow> project_fact \<Rightarrow> (project_error, engine_fact list \<times> typescript_route list) result" where
  "project_route bundle facts project =
     (let dependencies = filter (\<lambda>d. dp_project d = pf_id project \<and> dp_usage d = Declared) (mf_dependencies facts);
          configs = filter (\<lambda>c. co_project c = pf_id project \<and> co_kind c = u ''typescript'') (mf_configs facts);
          sources = (\<exists>path \<in> set (dict_keys (sb_contents bundle)).
             project_for_path (mf_projects facts) path NodeProject = Some project \<and> typescript_suffix path)
      in if pf_kind project \<noteq> NodeProject \<or> configs = [] \<and> \<not> sources then Inr ([], [])
         else build_project_route bundle project dependencies
                (find (\<lambda>s. sr_project s = pf_id project \<and> sr_typecheck s) (mf_scripts facts)) (first_of configs))"

definition typescript_routes ::
  "snapshot_bundle \<Rightarrow> manifest_facts \<Rightarrow> (project_error, engine_fact list \<times> typescript_route list) result" where
  "typescript_routes bundle facts =
     bind_err (map_err (project_route bundle facts) (mf_projects facts)) (\<lambda>found.
       Inr (sort_key (\<lambda>e. (en_project e, en_id e)) (concat (map fst found)), sort_key tt_project (concat (map snd found))))"

subsection \<open>Framework routes\<close>

definition route_fact_valid :: "route_fact \<Rightarrow> bool" where
  "route_fact_valid r \<longleftrightarrow> sourced r \<and> present (ro_id r) \<and> length (ro_id r) = 64
     \<and> present (ro_framework r) \<and> present (ro_registration r)"

definition route_identity :: "ustr \<Rightarrow> ustr option \<Rightarrow> registration \<Rightarrow> json" where
  "route_identity workspace project r =
     JObj [(u ''workspace_id'', JStr workspace), (u ''project_id'', jstr_opt project), (u ''path'', JStr (rg_path r)),
           (u ''kind'', JStr (registration_kind_value (rg_kind r))), (u ''route'', jstr_opt (rg_route r)),
           (u ''router'', jstr_opt (map_option router_value (rg_router r)))]"

definition framework_route ::
  "'a project_env_scheme \<Rightarrow> snapshot_bundle \<Rightarrow> project_fact list \<Rightarrow> registration \<Rightarrow> (project_error, route_fact list) result" where
  "framework_route env bundle projects r =
     (case find (\<lambda>item. cf_path item = rg_path r) (sb_files bundle) of
        None \<Rightarrow> Inr []
      | Some captured \<Rightarrow>
          let project = map_option pf_id (node_by_root projects (rg_project_dir r)) in
          bind_err (accept FactRejected route_fact_valid
            \<lparr>cr_workspace = sb_workspace bundle, cr_source_path = rg_path r, cr_source_digest = cf_hash captured,
             cr_producer = u ''soleaux-frameworks-nextjs'', cr_producer_version = u ''1'',
             ro_id = pe_digest env (pe_dumps env (route_identity (sb_workspace bundle) project r)),
             ro_project = project, ro_framework = rg_framework r, ro_route = rg_route r,
             ro_registration = registration_kind_value (rg_kind r), ro_router = map_option router_value (rg_router r),
             ro_methods = [], ro_runtime = None, ro_complete = (rg_note r = []),
             ro_omitted = (if rg_note r = [] then [] else [rg_note r])\<rparr>) (\<lambda>route. Inr [route]))"

definition next_env_of :: "'a project_env_scheme \<Rightarrow> next_env" where
  "next_env_of env =
     \<lparr>he_digit = he_digit env, he_decimal = he_decimal env,
      nx_json = (\<lambda>bs. case pe_json env bs of Inl _ \<Rightarrow> None | Inr v \<Rightarrow> Some v)\<rparr>"

definition text_or_empty :: "ustr option \<Rightarrow> ustr" where
  "text_or_empty v = (case v of None \<Rightarrow> [] | Some s \<Rightarrow> s)"

definition route_order :: "route_fact \<Rightarrow> ustr \<times> ustr \<times> ustr" where
  "route_order r = (text_or_empty (ro_project r), text_or_empty (ro_route r), cr_source_path r)"

definition framework_routes ::
  "'a project_env_scheme \<Rightarrow> snapshot_bundle \<Rightarrow> project_fact list \<Rightarrow> (project_error, route_fact list \<times> ustr list) result" where
  "framework_routes env bundle projects =
     (case enumerate_registrations (next_env_of env) [] (map cf_path (sb_files bundle)) (sb_contents bundle) of
        Inl e \<Rightarrow> Inl (RoutesFailed e)
      | Inr (registrations, found) \<Rightarrow>
          bind_err (map_err (framework_route env bundle projects) registrations) (\<lambda>routes.
          Inr (sort_key route_order (concat routes), map (\<lambda>w. u ''framework.registrations: '' @ w) found)))"

subsection \<open>Structural rules\<close>

definition rule_valid :: "rule_fact \<Rightarrow> bool" where
  "rule_valid r \<longleftrightarrow> sourced r \<and> present (ru_id r) \<and> present (ru_language r) \<and> present (ru_severity r) \<and> present (ru_message r)
     \<and> length (ru_digest r) = 64 \<and> length (ru_config_digest r) = 64"

definition rule_directories :: "json \<Rightarrow> ustr list" where
  "rule_directories raw =
     List.map_filter (\<lambda>v. case v of
        JStr s \<Rightarrow> if s \<noteq> [] \<and> \<not> startswith s (u ''/'') \<and> \<not> startswith s (u ''.'') \<and> u ''..'' \<notin> set (pp_parts (pure_path s))
                  then Some (rev (lstrip_char 47 (rev s))) else None
      | _ \<Rightarrow> None) (object_sequence raw)"

definition is_rule_path :: "ustr list \<Rightarrow> ustr \<Rightarrow> bool" where
  "is_rule_path directories path \<longleftrightarrow>
     (endswith path (u ''.yml'') \<or> endswith path (u ''.yaml''))
     \<and> (\<exists>directory \<in> set directories. startswith path (directory @ u ''/''))"

definition field_or :: "(ustr, json) dict \<Rightarrow> string \<Rightarrow> json \<Rightarrow> json" where
  "field_or d name v = (case map_of d (u name) of None \<Rightarrow> v | Some x \<Rightarrow> x)"

definition structural_rule ::
  "'a project_env_scheme \<Rightarrow> snapshot_bundle \<Rightarrow> ustr \<Rightarrow> ustr \<times> bytes \<Rightarrow> (project_error, rule_fact list \<times> ustr list) result" where
  "structural_rule env bundle config_hash entry =
     (case entry of (path, content) \<Rightarrow>
        (case pe_yaml env content of
           Inl YamlError \<Rightarrow> Inr ([], [path @ u '': '' @ pe_message env YamlFailure path content])
         | Inl YamlValueError \<Rightarrow> Inl (ParserRaised path)
         | Inr raw \<Rightarrow>
             let rule = validated_dict raw in
             (case (get_field rule ''id'', get_field rule ''language'') of
                (JStr i, JStr language) \<Rightarrow>
                  bind_err (evidence_of bundle path) (\<lambda>e.
                  bind_err (accept FactRejected rule_valid
                    (catalog_record.extend e (rule_fact.fields i language
                       (text_of env (field_or rule ''severity'' (JStr (u ''hint'')))) (text_of env (field_or rule ''message'' (JStr i)))
                       (text_of env (field_or rule ''note'' (JStr []))) (pe_digest env content) config_hash
                       (string_sequence (get_field rule ''files'')) (string_sequence (get_field rule ''ignores'')))))
                    (\<lambda>fact. Inr ([fact], [])))
              | _ \<Rightarrow> Inr ([], [path @ u '': structural rule is missing id or language'']))))"

definition structural_rules ::
  "'a project_env_scheme \<Rightarrow> snapshot_bundle \<Rightarrow> (project_error, rule_fact list \<times> ustr list) result" where
  "structural_rules env bundle =
     (let config_path = u ''sgconfig.yml'' in
      case map_of (sb_contents bundle) config_path of
        None \<Rightarrow> Inr ([], [])
      | Some content \<Rightarrow>
          (case pe_yaml env content of
             Inl YamlError \<Rightarrow> Inr ([], [config_path @ u '': '' @ pe_message env YamlFailure config_path content])
           | Inl YamlValueError \<Rightarrow> Inl (ParserRaised config_path)
           | Inr raw \<Rightarrow>
               (case get_field (validated_dict raw) ''ruleDirs'' of
                  JArr vs \<Rightarrow>
                    bind_err (map_err (structural_rule env bundle (pe_digest env content))
                      (filter (\<lambda>(path, _). is_rule_path (rule_directories (JArr vs)) path) (sorted_contents bundle))) (\<lambda>found.
                    Inr (sort_key ru_id (concat (map fst found)), concat (map snd found)))
                | _ \<Rightarrow> Inr ([], [config_path @ u '': ruleDirs is not a list'']))))"

subsection \<open>The extraction\<close>

definition extract_catalog ::
  "'a project_env_scheme \<Rightarrow> snapshot_bundle \<Rightarrow> (project_error, catalog_facts \<times> typescript_route list) result" where
  "extract_catalog env bundle =
     bind_err (read_manifests env bundle) (\<lambda>st.
     bind_err (turbo_tasks env bundle (mx_projects st)) (\<lambda>(tasks, task_warnings).
     let by_project = task_ids_by_project tasks;
         scripts = map (\<lambda>s. s\<lparr>sr_tasks := turbo_task_ids by_project s\<rparr>) (mx_scripts st)
     in bind_err (map_err (project_configs env bundle) (mx_projects st)) (\<lambda>configs.
     bind_err (typescript_routes bundle \<lparr>mf_projects = mx_projects st, mf_dependencies = mx_dependencies st,
                 mf_scripts = scripts, mf_configs = concat configs\<rparr>) (\<lambda>(engines, typescript).
     bind_err (framework_routes env bundle (mx_projects st)) (\<lambda>(routes, route_warnings).
     bind_err (structural_rules env bundle) (\<lambda>(rules, rule_warnings).
     Inr (\<lparr>fa_projects = sort_key pf_id (mx_projects st),
           fa_dependencies = sort_key (\<lambda>d. (dp_project d, scope_value (dp_scope d), dp_package d)) (mx_dependencies st),
           fa_scripts = sort_key (\<lambda>s. (sr_project s, sr_name s)) scripts,
           fa_tasks = sort_key (\<lambda>t. (tk_project t, tk_runner t, tk_id t)) tasks,
           fa_configs = sort_key (\<lambda>c. (co_project c, co_path c)) (concat configs),
           fa_engines = engines, fa_routes = routes, fa_rules = rules, fa_policies = [], fa_symbols = [], fa_imports = [],
           fa_diagnostics = [], fa_changes = [], fa_chunks = [],
           fa_warnings = mx_warnings st @ task_warnings @ route_warnings @ rule_warnings\<rparr>, typescript)))))))"

subsection \<open>Sources and projects of facts\<close>

definition cites :: "snapshot_bundle \<Rightarrow> 'a catalog_record_scheme \<Rightarrow> bool" where
  "cites bundle r \<longleftrightarrow> cr_workspace r = sb_workspace bundle
     \<and> (\<exists>item \<in> set (sb_files bundle). cf_path item = cr_source_path r \<and> cf_hash item = cr_source_digest r)"

lemma evidence_cites: "evidence_of bundle path = Inr e \<Longrightarrow> cites bundle e \<and> cr_source_path e = path"
  by (auto simp: evidence_of_def cites_def find_Some_iff split: option.split_asm)

lemma cites_extend [simp]: "cites bundle (catalog_record.extend e x) = cites bundle e"
  by (simp add: cites_def catalog_record.defs)

lemma accept_Inr [simp]: "accept e valid x = Inr y \<longleftrightarrow> valid x \<and> y = x"
  by (auto simp: accept_def)

lemma uncaught_Inr [simp]: "uncaught r = Inr x \<longleftrightarrow> r = Inr x"
  by (auto simp: uncaught_def split: sum.split)

lemmas extended = catalog_record.defs project_fact.defs dependency_fact.defs script_fact.defs task_fact.defs config_fact.defs
  engine_fact.defs rule_fact.defs typescript_route.defs

lemma node_project_facts:
  assumes "node_project env bundle catalog path content = Inr (p, ds, ss)"
  shows "cites bundle p \<and> pf_manifest p = path \<and> pf_kind p = NodeProject
    \<and> (\<forall>d \<in> set ds. cites bundle d \<and> dp_project d = pf_id p) \<and> (\<forall>s \<in> set ss. cites bundle s \<and> sr_project s = pf_id p)"
proof -
  obtain raw e where e: "evidence_of bundle path = Inr e"
    and p: "p = catalog_record.extend e (project_fact.fields (project_id_text (sb_workspace bundle) NodeProject (directory_of path))
      (directory_of path) path NodeProject (json_text (get_field (validated_dict raw) ''name'')) (json_text (get_field (validated_dict raw) ''version''))
      (optional_bool (get_field (validated_dict raw) ''private'')) (node_frameworks (node_dependency_maps (validated_dict raw))))"
    and ds: "\<exists>cat xs. map_err (node_dependency e (project_id_text (sb_workspace bundle) NodeProject (directory_of path)) cat) xs = Inr ds"
    and ss: "\<exists>xs. map_err (node_script e (project_id_text (sb_workspace bundle) NodeProject (directory_of path))) xs = Inr ss"
    using assms by (auto simp: node_project_def Let_def split: sum.split_asm json_failure.split_asm)
  have c: "cites bundle e" using evidence_cites [OF e] by simp
  have d: "cites bundle d \<and> dp_project d = pf_id p" if "d \<in> set ds" for d
    using ds map_err_mem [OF _ that] c by (fastforce simp: node_dependency_def p extended cites_def split: prod.split_asm)
  have s: "cites bundle s \<and> sr_project s = pf_id p" if "s \<in> set ss" for s
    using ss map_err_mem [OF _ that] c by (fastforce simp: node_script_def p extended cites_def split: prod.split_asm)
  show ?thesis using c d s by (simp add: p) (simp add: extended)
qed

lemma python_project_facts:
  assumes "python_project env bundle path content = Inr (p, ds)"
  shows "cites bundle p \<and> pf_manifest p = path \<and> pf_kind p = PythonProject \<and> (\<forall>d \<in> set ds. cites bundle d \<and> dp_project d = pf_id p)"
proof -
  obtain table e where e: "evidence_of bundle path = Inr e"
    and p: "p = catalog_record.extend e (project_fact.fields (project_id_text (sb_workspace bundle) PythonProject (directory_of path))
      (directory_of path) path PythonProject (json_text (get_field table ''name'')) (json_text (get_field table ''version'')) None [])"
    and ds: "\<exists>xs. map_err (python_dependency e (project_id_text (sb_workspace bundle) PythonProject (directory_of path))) xs = Inr ds"
    using assms by (auto simp: python_project_def Let_def split: option.split_asm)
  have c: "cites bundle e" using evidence_cites [OF e] by simp
  have d: "cites bundle d \<and> dp_project d = pf_id p" if "d \<in> set ds" for d
    using ds map_err_mem [OF _ that] c by (fastforce simp: python_dependency_def p extended cites_def)
  show ?thesis using c d by (simp add: p) (simp add: extended)
qed

text \<open>What the loop over the manifests keeps.\<close>

definition manifests_ok :: "snapshot_bundle \<Rightarrow> manifest_state \<Rightarrow> bool" where
  "manifests_ok bundle st \<longleftrightarrow>
     (\<forall>p \<in> set (mx_projects st). cites bundle p \<and> pf_manifest p \<in> fst ` set (sb_contents bundle)
        \<and> base_name (pf_manifest p) = (case pf_kind p of NodeProject \<Rightarrow> u ''package.json'' | PythonProject \<Rightarrow> u ''pyproject.toml''))
     \<and> (\<forall>d \<in> set (mx_dependencies st). cites bundle d \<and> dp_project d \<in> pf_id ` set (mx_projects st))
     \<and> (\<forall>s \<in> set (mx_scripts st). cites bundle s \<and> sr_project s \<in> pf_id ` set (mx_projects st))"

lemma add_manifest_cases:
  assumes "add_manifest env entry found st = Inr st'"
  obtains (warned) m where "st' = st\<lparr>mx_warnings := mx_warnings st @ [fst entry @ u '': '' @ m]\<rparr>"
  | (found) p ds ss where "found = Inr (p, ds, ss)"
      "st' = st\<lparr>mx_projects := mx_projects st @ [p], mx_dependencies := mx_dependencies st @ ds, mx_scripts := mx_scripts st @ ss\<rparr>"
  using assms by (auto simp: add_manifest_def split: sum.split_asm manifest_error.split_asm prod.split_asm)

lemma manifest_found_facts:
  assumes "manifest_found env bundle catalog entry = Some (Inr (p, ds, ss))"
  shows "cites bundle p \<and> pf_manifest p = fst entry
    \<and> base_name (fst entry) = (case pf_kind p of NodeProject \<Rightarrow> u ''package.json'' | PythonProject \<Rightarrow> u ''pyproject.toml'')
    \<and> (\<forall>d \<in> set ds. cites bundle d \<and> dp_project d = pf_id p) \<and> (\<forall>s \<in> set ss. cites bundle s \<and> sr_project s = pf_id p)"
proof (cases "base_name (fst entry) = u ''package.json''")
  case True
  then show ?thesis using assms node_project_facts [of env "bundle" catalog "fst entry" "snd entry" p ds ss]
    by (simp add: manifest_found_def)
next
  case False
  then have "python_project env bundle (fst entry) (snd entry) = Inr (p, ds)" "ss = []" "base_name (fst entry) = u ''pyproject.toml''"
    using assms by (auto simp: manifest_found_def Let_def split: if_split_asm)
  then show ?thesis using python_project_facts [of env "bundle" "fst entry" "snd entry" p ds] by simp
qed

lemma manifest_step_cases:
  assumes "manifest_step env bundle catalog entry st = Inr st'"
  obtains (skipped) "base_name (fst entry) \<notin> {u ''package.json'', u ''pyproject.toml''}" "st' = st"
  | (warned) m where "st' = st\<lparr>mx_warnings := mx_warnings st @ [fst entry @ u '': '' @ m]\<rparr>"
  | (found) p ds ss where "manifest_found env bundle catalog entry = Some (Inr (p, ds, ss))"
      "st' = st\<lparr>mx_projects := mx_projects st @ [p], mx_dependencies := mx_dependencies st @ ds, mx_scripts := mx_scripts st @ ss\<rparr>"
proof (cases "manifest_found env bundle catalog entry")
  case None
  then show ?thesis using assms skipped by (auto simp: manifest_step_def manifest_found_def Let_def split: if_split_asm)
next
  case (Some f)
  then have "add_manifest env entry f st = Inr st'" using assms by (simp add: manifest_step_def)
  then show ?thesis using Some warned found by (cases rule: add_manifest_cases) auto
qed

lemma manifest_step_ok:
  assumes "manifest_step env bundle catalog entry st = Inr st'" and "manifests_ok bundle st" and "fst entry \<in> fst ` set (sb_contents bundle)"
  shows "manifests_ok bundle st'"
  using assms(1)
proof (cases rule: manifest_step_cases)
  case (warned m)
  then show ?thesis using assms(2) by (simp add: manifests_ok_def)
next
  case (found p ds ss)
  show ?thesis using assms(2,3) manifest_found_facts [OF found(1)] by (auto simp: manifests_ok_def found(2))
qed (use assms(2) in simp)

definition no_manifests :: manifest_state where
  "no_manifests = \<lparr>mx_projects = [], mx_dependencies = [], mx_scripts = [], mx_warnings = []\<rparr>"

lemma read_manifests_run:
  assumes "read_manifests env bundle = Inr st"
  obtains catalog where "fold_err (manifest_step env bundle catalog) (sorted_contents bundle) no_manifests = Inr st"
  using assms by (auto simp: read_manifests_def no_manifests_def)

lemma read_manifests_ok:
  assumes "read_manifests env bundle = Inr st"
  shows "manifests_ok bundle st"
proof -
  obtain catalog where "fold_err (manifest_step env bundle catalog) (sorted_contents bundle) no_manifests = Inr st"
    using assms by (rule read_manifests_run)
  then show ?thesis
  proof (rule fold_err_invariant)
    show "manifests_ok bundle no_manifests" by (simp add: manifests_ok_def no_manifests_def)
  qed (simp add: manifest_step_ok sorted_contents_def)
qed

text \<open>A path is accounted for when it has a project or a warning.\<close>

definition accounted :: "ustr \<Rightarrow> manifest_state \<Rightarrow> bool" where
  "accounted path st \<longleftrightarrow>
     (\<exists>p \<in> set (mx_projects st). pf_manifest p = path) \<or> (\<exists>m. path @ u '': '' @ m \<in> set (mx_warnings st))"

lemma manifest_step_accounts:
  assumes "manifest_step env bundle catalog entry st = Inr st'" and "base_name path \<in> {u ''package.json'', u ''pyproject.toml''}"
  shows "accounted path st \<or> fst entry = path \<Longrightarrow> accounted path st'"
  using assms(1)
proof (cases rule: manifest_step_cases)
  case (warned m)
  show "accounted path st \<or> fst entry = path \<Longrightarrow> accounted path st'" unfolding warned accounted_def by auto
next
  case (found p ds ss)
  show "accounted path st \<or> fst entry = path \<Longrightarrow> accounted path st'"
    using manifest_found_facts [OF found(1)] unfolding found(2) accounted_def by auto
qed (use assms(2) in auto)

lemma manifests_account:
  "fold_err (manifest_step env bundle catalog) entries st = Inr st' \<Longrightarrow> base_name path \<in> {u ''package.json'', u ''pyproject.toml''} \<Longrightarrow>
   accounted path st \<or> path \<in> fst ` set entries \<Longrightarrow> accounted path st'"
proof (induction entries arbitrary: st)
  case (Cons entry entries)
  then obtain s1 where s1: "manifest_step env bundle catalog entry st = Inr s1" "fold_err (manifest_step env bundle catalog) entries s1 = Inr st'"
    by auto
  show ?case using Cons.IH [OF s1(2)] Cons.prems manifest_step_accounts [OF s1(1)] by auto
qed simp

lemma read_manifests_accounts:
  assumes "read_manifests env bundle = Inr st" and "path \<in> fst ` set (sb_contents bundle)"
    and "base_name path \<in> {u ''package.json'', u ''pyproject.toml''}"
  shows "accounted path st"
proof -
  obtain catalog where "fold_err (manifest_step env bundle catalog) (sorted_contents bundle) no_manifests = Inr st"
    using assms(1) by (rule read_manifests_run)
  from manifests_account [OF this assms(3)] show ?thesis using assms(2) by (simp add: sorted_contents_def)
qed

subsection \<open>Tasks and configurations\<close>

lemma node_by_root_mem: "node_by_root projects root = Some p \<Longrightarrow> p \<in> set projects \<and> pf_kind p = NodeProject"
  by (auto simp: node_by_root_def dest!: map_of_SomeD)

lemma turbo_tasks_facts:
  assumes "turbo_tasks env bundle projects = Inr (tasks, warnings)" and "t \<in> set tasks"
  shows "cites bundle t \<and> tk_project t \<in> pf_id ` set projects"
proof -
  obtain found where found: "map_err (turbo_file env bundle projects) (sorted_contents bundle) = Inr found" "t \<in> set (concat (map fst found))"
    using assms by (auto simp: turbo_tasks_def)
  then obtain f where "f \<in> set found" "t \<in> set (fst f)" by auto
  then obtain path content where read: "turbo_file env bundle projects (path, content) = Inr f" "t \<in> set (fst f)"
    using map_err_mem [OF found(1)] by fastforce
  then obtain owner e where owner: "node_by_root projects (directory_of path) = Some owner" "evidence_of bundle path = Inr e"
      and rows: "\<exists>xs. map_err (turbo_task e (pf_id owner) (directory_of path \<noteq> [])) xs = Inr (fst f)"
    by (auto simp: turbo_file_def Let_def split: if_split_asm option.split_asm sum.split_asm json_failure.split_asm) blast+
  obtain task_id raw where "turbo_task e (pf_id owner) (directory_of path \<noteq> []) (task_id, raw) = Inr t"
    using rows map_err_mem [OF _ read(2)] by fastforce
  then have "cites bundle t" "tk_project t = pf_id owner"
    using evidence_cites [OF owner(2)] by (auto simp: turbo_task_def Let_def) (simp_all add: extended)
  then show ?thesis using node_by_root_mem [OF owner(1)] by auto
qed

lemma resolve_config_mem: "resolve_config_reference path reference all_paths = Some p \<Longrightarrow> p \<in> set all_paths"
  by (auto simp: resolve_config_reference_def Let_def find_Some_iff split: if_split_asm)

text \<open>
  The references a parsed configuration declares as strings: its \<open>extends\<close>, then the \<open>path\<close> of each of its
  project references.
\<close>

definition declared_references :: "json \<Rightarrow> ustr list" where
  "declared_references raw =
     (case get_field (validated_dict raw) ''extends'' of JStr s \<Rightarrow> [s] | _ \<Rightarrow> [])
     @ List.map_filter (\<lambda>reference. json_text (get_field (validated_dict reference) ''path''))
         (object_sequence (get_field (validated_dict raw) ''references''))"

text \<open>What the closure of a parsed configuration says of the references it declares.\<close>

definition closes :: "ustr \<Rightarrow> ustr list \<Rightarrow> ustr list \<Rightarrow> config_fact \<Rightarrow> bool" where
  "closes path references captured c \<longleftrightarrow>
     (let resolve = (\<lambda>s. resolve_config_reference path s captured) in
      co_closure c = first_unique (path # List.map_filter resolve references)
      \<and> (co_complete c \<longleftrightarrow> (\<forall>s \<in> set references. resolve s \<noteq> None))
      \<and> length (co_omitted c) = length (filter (\<lambda>s. resolve s = None) references))"

lemma map_filter_map_option: "List.map_filter (\<lambda>x. map_option f (g x)) xs = map f (List.map_filter g xs)"
  by (induction xs) (simp_all add: List.map_filter_simps split: option.split)

lemma map_filter_append: "List.map_filter f (xs @ ys) = List.map_filter f xs @ List.map_filter f ys"
  by (induction xs) (simp_all add: List.map_filter_simps split: option.split)

lemma followed_references:
  "concat (map (fst \<circ> follow_reference env path captured label) xs)
     = List.map_filter (\<lambda>s. resolve_config_reference path s captured) xs"
  "length (concat (map (snd \<circ> follow_reference env path captured label) xs))
     = length (filter (\<lambda>s. resolve_config_reference path s captured = None) xs)"
  by (induction xs) (simp_all add: follow_reference_def List.map_filter_simps split: option.split)

lemma closure_facts:
  assumes "typescript_config_closure env path content captured = Inr (closure, complete, reasons)" and "pe_json env content = Inr raw"
  shows "closure = first_unique (path # List.map_filter (\<lambda>s. resolve_config_reference path s captured) (declared_references raw))"
    "complete \<longleftrightarrow> reasons = []"
    "length reasons = length (filter (\<lambda>s. resolve_config_reference path s captured = None) (declared_references raw))"
proof -
  let ?ext = "case get_field (validated_dict raw) ''extends'' of JStr s \<Rightarrow> [s] | _ \<Rightarrow> []"
  let ?refs = "List.map_filter (\<lambda>reference. json_text (get_field (validated_dict reference) ''path''))
      (object_sequence (get_field (validated_dict raw) ''references''))"
  let ?followed = "map (follow_reference env path captured ''extends'') ?ext
      @ map (follow_reference env path captured ''project reference'') ?refs"
  have ext: "(case get_field (validated_dict raw) ''extends'' of JStr s \<Rightarrow> [follow_reference env path captured ''extends'' s] | _ \<Rightarrow> [])
      = map (follow_reference env path captured ''extends'') ?ext" by (simp split: json.split)
  have inject: "c = x \<and> (k \<longleftrightarrow> r = []) \<and> r = b"
    if "(Inr (x, b = [], b) :: (project_error, ustr list \<times> bool \<times> ustr list) result) = Inr (c, k, r)" for c x k r b
    using that by auto
  have parts: "closure = first_unique (path # concat (map fst ?followed))" "complete \<longleftrightarrow> reasons = []" "reasons = concat (map snd ?followed)"
    using inject [OF assms(1) [unfolded typescript_config_closure_def assms(2) sum.case Let_def map_filter_map_option ext]] by simp_all
  show "closure = first_unique (path # List.map_filter (\<lambda>s. resolve_config_reference path s captured) (declared_references raw))"
    unfolding parts(1) declared_references_def map_append map_map concat_append followed_references map_filter_append ..
  show "length reasons = length (filter (\<lambda>s. resolve_config_reference path s captured = None) (declared_references raw))"
    unfolding parts(3) declared_references_def map_append map_map concat_append length_append followed_references filter_append ..
  show "complete \<longleftrightarrow> reasons = []" by (rule parts(2))
qed

text \<open>The configuration of a captured entry: what it cites, where it stands and what it closes over.\<close>

definition configuration_of :: "'a project_env_scheme \<Rightarrow> snapshot_bundle \<Rightarrow> bytes \<Rightarrow> config_fact \<Rightarrow> bool" where
  "configuration_of env bundle content c \<longleftrightarrow>
     (co_path c, content) \<in> set (sb_contents bundle)
     \<and> (if base_name (co_path c) \<in> {u ''tsconfig.json'', u ''jsconfig.json''} then
          (case pe_json env content of
             Inl _ \<Rightarrow> co_closure c = [co_path c] \<and> \<not> co_complete c \<and> co_omitted c \<noteq> []
           | Inr raw \<Rightarrow> closes (co_path c) (declared_references raw) (dict_keys (sb_contents bundle)) c)
        else co_closure c = [co_path c] \<and> co_complete c \<and> co_omitted c = [])"

lemma project_config_facts:
  assumes "project_config env bundle project (dict_keys (sb_contents bundle)) entry = Inr c" and "entry \<in> set (sb_contents bundle)"
  shows "cites bundle c \<and> co_project c = pf_id project \<and> configuration_of env bundle (snd entry) c"
proof -
  obtain path content where entry: "entry = (path, content)" by fastforce
  define typescript where "typescript \<longleftrightarrow> base_name path \<in> {u ''tsconfig.json'', u ''jsconfig.json''}"
  let ?captured = "dict_keys (sb_contents bundle)"
  obtain closure complete reasons e where parts: "(if typescript then typescript_config_closure env path content ?captured
        else Inr ([path], True, [])) = Inr (closure, complete, reasons)" "evidence_of bundle path = Inr e"
      and c: "c = catalog_record.extend e (config_fact.fields (pf_id project) path (if typescript then u ''typescript'' else u ''nextjs'')
             (if typescript then u ''typescript:config'' else u ''ts-morph:typescript'') closure complete reasons)"
    using assms(1) unfolding project_config_def entry prod.case Let_def typescript_def [symmetric] by auto
  have fields: "co_project c = pf_id project" "co_path c = path" "co_closure c = closure" "co_complete c \<longleftrightarrow> complete" "co_omitted c = reasons"
    by (simp_all add: c) (simp_all add: extended)
  have "configuration_of env bundle content c"
  proof (cases typescript)
    case True
    then have run: "typescript_config_closure env path content ?captured = Inr (closure, complete, reasons)" using parts(1) by simp
    show ?thesis
    proof (cases "pe_json env content")
      case (Inl failure)
      then show ?thesis using run True assms(2)
        by (cases failure) (auto simp: typescript_config_closure_def configuration_of_def fields typescript_def entry)
    next
      case (Inr raw)
      have "closes path (declared_references raw) ?captured c"
        using closure_facts [OF run Inr] by (auto simp: closes_def fields Let_def filter_empty_conv)
      then show ?thesis using Inr True assms(2) by (simp add: configuration_of_def fields typescript_def entry)
    qed
  next
    case False
    then show ?thesis using parts(1) assms(2) by (auto simp: configuration_of_def fields typescript_def entry)
  qed
  then show ?thesis using evidence_cites [OF parts(2)] fields(1) by (simp add: c entry)
qed

lemma project_configs_facts:
  assumes "project_configs env bundle project = Inr cs" and "c \<in> set cs"
  shows "cites bundle c \<and> co_project c = pf_id project \<and> (\<exists>content. configuration_of env bundle content c)"
proof -
  obtain entry where entry: "entry \<in> set (sb_contents bundle)"
      "project_config env bundle project (dict_keys (sb_contents bundle)) entry = Inr c"
    using map_err_mem [OF assms(1) [unfolded project_configs_def] assms(2)] by (auto simp: sorted_contents_def)
  then show ?thesis using project_config_facts [OF entry(2,1)] by blast
qed

text \<open>Closures hold captured paths only.\<close>

lemma closes_captured:
  assumes "closes path references captured c" and "path \<in> set captured"
  shows "path \<in> set (co_closure c) \<and> distinct (co_closure c) \<and> set (co_closure c) \<subseteq> set captured"
proof -
  have "set (List.map_filter (\<lambda>s. resolve_config_reference path s captured) references) \<subseteq> set captured"
    by (auto simp: mem_map_filter dest: resolve_config_mem)
  then show ?thesis using assms by (simp add: closes_def Let_def)
qed

lemma configuration_captured:
  assumes "configuration_of env bundle content c"
  shows "co_path c \<in> set (co_closure c) \<and> distinct (co_closure c) \<and> set (co_closure c) \<subseteq> fst ` set (sb_contents bundle)"
proof -
  have path: "co_path c \<in> set (dict_keys (sb_contents bundle))" using assms by (force simp: configuration_of_def)
  then show ?thesis
    using assms closes_captured [OF _ path] by (auto simp: configuration_of_def split: if_split_asm sum.split_asm)
qed

subsection \<open>Routes, engines and rules\<close>

lemma build_project_route_facts:
  assumes "build_project_route bundle project deps typecheck config = Inr (engines, routes)"
    and "\<forall>d \<in> set deps. dp_project d = pf_id project" and "\<forall>s. typecheck = Some s \<longrightarrow> sr_project s = pf_id project"
  shows "(\<forall>e \<in> set engines. cites bundle e \<and> en_project e = pf_id project)
    \<and> (\<forall>r \<in> set routes. cites bundle r \<and> tt_project r = pf_id project)"
proof -
  obtain e source packages checks where e: "evidence_of bundle (pf_manifest project) = Inr e"
      and packages: "map_err (package_engine e) (filter (\<lambda>d. dp_package d \<in> engine_packages) deps) = Inr packages"
      and checks: "map_err (typecheck_engine e) (case typecheck of None \<Rightarrow> [] | Some s \<Rightarrow> [s]) = Inr checks"
      and source: "evidence_of bundle (case config of None \<Rightarrow> pf_manifest project | Some c \<Rightarrow> co_path c) = Inr source"
      and routes: "routes = [typescript_route_of source (pf_id project) deps typecheck config]"
      and engines: "engines = packages @ checks"
    using assms(1) unfolding build_project_route_def by auto
  have c: "cites bundle e" "cites bundle source" using evidence_cites e source by blast+
  have "cites bundle x \<and> en_project x = pf_id project" if "x \<in> set packages" for x
    using map_err_mem [OF packages that] c(1) assms(2) by (auto simp: package_engine_def) (simp_all add: extended)
  moreover have "cites bundle x \<and> en_project x = pf_id project" if "x \<in> set checks" for x
    using map_err_mem [OF checks that] c(1) assms(3)
    by (auto simp: typecheck_engine_def split: option.split_asm) (simp_all add: extended)
  moreover have "cites bundle r \<and> tt_project r = pf_id project" if "r \<in> set routes" for r
    using that routes c(2) by (simp add: typescript_route_of_def Let_def) (simp add: extended)
  ultimately show ?thesis by (auto simp: engines)
qed

lemma project_route_facts:
  assumes "project_route bundle facts project = Inr (engines, routes)"
  shows "(\<forall>e \<in> set engines. cites bundle e \<and> en_project e = pf_id project)
    \<and> (\<forall>r \<in> set routes. cites bundle r \<and> tt_project r = pf_id project)"
proof (cases "engines = [] \<and> routes = []")
  case False
  then have "build_project_route bundle project (filter (\<lambda>d. dp_project d = pf_id project \<and> dp_usage d = Declared) (mf_dependencies facts))
      (find (\<lambda>s. sr_project s = pf_id project \<and> sr_typecheck s) (mf_scripts facts))
      (first_of (filter (\<lambda>c. co_project c = pf_id project \<and> co_kind c = u ''typescript'') (mf_configs facts))) = Inr (engines, routes)"
    using assms False unfolding project_route_def Let_def by (auto split: if_split_asm)
  then show ?thesis by (rule build_project_route_facts) (auto simp: find_Some_iff)
qed auto

lemma typescript_routes_facts:
  assumes "typescript_routes bundle facts = Inr (engines, routes)"
  shows "(\<forall>e \<in> set engines. cites bundle e \<and> en_project e \<in> pf_id ` set (mf_projects facts))
    \<and> (\<forall>r \<in> set routes. cites bundle r \<and> tt_project r \<in> pf_id ` set (mf_projects facts))"
proof -
  obtain found where found: "map_err (project_route bundle facts) (mf_projects facts) = Inr found"
      "set engines = set (concat (map fst found))" "set routes = set (concat (map snd found))"
    using assms by (auto simp: typescript_routes_def)
  have "(\<forall>e \<in> set (fst f). cites bundle e \<and> en_project e \<in> pf_id ` set (mf_projects facts))
      \<and> (\<forall>r \<in> set (snd f). cites bundle r \<and> tt_project r \<in> pf_id ` set (mf_projects facts))" if f: "f \<in> set found" for f
  proof -
    obtain project where "project \<in> set (mf_projects facts)" "project_route bundle facts project = Inr (fst f, snd f)"
      using map_err_mem [OF found(1) f] by auto
    then show ?thesis using project_route_facts [of "bundle" facts project "fst f" "snd f"] by blast
  qed
  then show ?thesis unfolding found(2,3) by auto
qed

text \<open>
  A framework route is one of the enumerated registrations: it names the Node project at the root of its
  registration, and none only when no Node project has that root.
\<close>

definition route_registered :: "project_fact list \<Rightarrow> registration \<Rightarrow> route_fact \<Rightarrow> bool" where
  "route_registered projects g r \<longleftrightarrow>
     cr_source_path r = rg_path g \<and> ro_route r = rg_route g
     \<and> (case ro_project r of
          Some i \<Rightarrow> \<exists>p \<in> set projects. pf_id p = i \<and> pf_kind p = NodeProject \<and> pf_root p = rg_project_dir g
        | None \<Rightarrow> \<not> (\<exists>p \<in> set projects. pf_kind p = NodeProject \<and> pf_root p = rg_project_dir g))"

lemma node_by_root_some:
  "node_by_root projects root = Some p \<Longrightarrow> p \<in> set projects \<and> pf_kind p = NodeProject \<and> pf_root p = root"
  by (auto simp: node_by_root_def dest!: map_of_SomeD)

lemma node_by_root_none:
  "node_by_root projects root = None \<Longrightarrow> \<not> (\<exists>p \<in> set projects. pf_kind p = NodeProject \<and> pf_root p = root)"
  by (auto simp: node_by_root_def map_of_eq_None_iff image_iff)

lemma route_registered_set: "set projects = set projects' \<Longrightarrow> route_registered projects = route_registered projects'"
  by (intro ext) (simp add: route_registered_def split: option.split)

lemma framework_routes_facts:
  assumes "framework_routes env bundle projects = Inr (routes, warnings)" and "r \<in> set routes"
  shows "cites bundle r \<and> (\<exists>registrations found. enumerate_registrations (next_env_of env) [] (map cf_path (sb_files bundle)) (sb_contents bundle)
       = Inr (registrations, found) \<and> (\<exists>g \<in> set registrations. route_registered projects g r))"
proof -
  obtain registrations warned found where run: "enumerate_registrations (next_env_of env) [] (map cf_path (sb_files bundle)) (sb_contents bundle)
      = Inr (registrations, warned)"
    and found: "map_err (framework_route env bundle projects) registrations = Inr found" "r \<in> set (concat found)"
    using assms by (auto simp: framework_routes_def split: sum.split_asm)
  then obtain rs where rs: "rs \<in> set found" "r \<in> set rs" by auto
  obtain registration where registration: "registration \<in> set registrations" "framework_route env bundle projects registration = Inr rs"
    using map_err_mem [OF found(1) rs(1)] by blast
  then obtain captured where captured: "find (\<lambda>item. cf_path item = rg_path registration) (sb_files bundle) = Some captured"
      and r: "cr_workspace r = sb_workspace bundle" "cr_source_path r = rg_path registration" "cr_source_digest r = cf_hash captured"
        "ro_project r = map_option pf_id (node_by_root projects (rg_project_dir registration))" "ro_route r = rg_route registration"
    using rs(2) by (auto simp: framework_route_def Let_def split: option.split_asm)
  have "captured \<in> set (sb_files bundle) \<and> cf_path captured = rg_path registration"
    using captured by (auto simp: find_Some_iff)
  then have "cites bundle r" using r by (auto simp: cites_def)
  moreover have "route_registered projects registration r"
    using node_by_root_some [of projects "rg_project_dir registration"] node_by_root_none [of projects "rg_project_dir registration"]
    by (auto simp: route_registered_def r split: option.split)
  ultimately show ?thesis using run registration(1) by blast
qed

lemma structural_rules_facts:
  assumes "structural_rules env bundle = Inr (rules, warnings)" and "r \<in> set rules"
  shows "cites bundle r"
proof -
  obtain hash entries found where found: "map_err (structural_rule env bundle hash) entries = Inr found" "r \<in> set (concat (map fst found))"
    using assms by (auto simp: structural_rules_def Let_def split: option.split_asm sum.split_asm yaml_failure.split_asm json.split_asm)
  then obtain f path content where f: "r \<in> set (fst f)" "structural_rule env bundle hash (path, content) = Inr f"
    using map_err_mem [OF found(1)] by fastforce
  then obtain e x where e: "evidence_of bundle path = Inr e" "r = catalog_record.extend e x"
    by (auto simp: structural_rule_def Let_def split: sum.split_asm yaml_failure.split_asm json.split_asm)
  then show ?thesis using evidence_cites by auto
qed

subsection \<open>The extraction\<close>

lemma extract_catalog_parts:
  assumes "extract_catalog env bundle = Inr (facts, typescript)"
  obtains st tasks task_warnings configs engines routes route_warnings rules rule_warnings where
    "read_manifests env bundle = Inr st" "turbo_tasks env bundle (mx_projects st) = Inr (tasks, task_warnings)"
    "map_err (project_configs env bundle) (mx_projects st) = Inr configs"
    "typescript_routes bundle \<lparr>mf_projects = mx_projects st, mf_dependencies = mx_dependencies st,
       mf_scripts = map (\<lambda>s. s\<lparr>sr_tasks := turbo_task_ids (task_ids_by_project tasks) s\<rparr>) (mx_scripts st),
       mf_configs = concat configs\<rparr> = Inr (engines, typescript)"
    "framework_routes env bundle (mx_projects st) = Inr (routes, route_warnings)"
    "structural_rules env bundle = Inr (rules, rule_warnings)"
    "set (fa_projects facts) = set (mx_projects st)" "set (fa_dependencies facts) = set (mx_dependencies st)"
    "set (fa_scripts facts) = (\<lambda>s. s\<lparr>sr_tasks := turbo_task_ids (task_ids_by_project tasks) s\<rparr>) ` set (mx_scripts st)"
    "set (fa_tasks facts) = set tasks" "set (fa_configs facts) = set (concat configs)" "fa_engines facts = engines"
    "fa_routes facts = routes" "fa_rules facts = rules"
    "fa_warnings facts = mx_warnings st @ task_warnings @ route_warnings @ rule_warnings"
  using assms by (auto simp: extract_catalog_def Let_def)

text \<open>C13: Every extracted fact cites a captured file of the workspace with the digest of its content. Every
  dependency, script, task, configuration, engine and TypeScript route names a project of the same extraction;
  a framework route is an enumerated registration and names the Node project at the root of that registration,
  none only when no such project was extracted; a rule belongs to the workspace and names no project.
\<close>

theorem catalog_facts_bound:
  assumes "extract_catalog env bundle = Inr (facts, typescript)"
  shows "(\<forall>p \<in> set (fa_projects facts). cites bundle p)
    \<and> (\<forall>d \<in> set (fa_dependencies facts). cites bundle d \<and> dp_project d \<in> pf_id ` set (fa_projects facts))
    \<and> (\<forall>s \<in> set (fa_scripts facts). cites bundle s \<and> sr_project s \<in> pf_id ` set (fa_projects facts))
    \<and> (\<forall>t \<in> set (fa_tasks facts). cites bundle t \<and> tk_project t \<in> pf_id ` set (fa_projects facts))
    \<and> (\<forall>c \<in> set (fa_configs facts). cites bundle c \<and> co_project c \<in> pf_id ` set (fa_projects facts))
    \<and> (\<forall>e \<in> set (fa_engines facts). cites bundle e \<and> en_project e \<in> pf_id ` set (fa_projects facts))
    \<and> (\<forall>r \<in> set typescript. cites bundle r \<and> tt_project r \<in> pf_id ` set (fa_projects facts))
    \<and> (\<forall>r \<in> set (fa_routes facts). cites bundle r
        \<and> (\<exists>registrations found. enumerate_registrations (next_env_of env) [] (map cf_path (sb_files bundle)) (sb_contents bundle)
             = Inr (registrations, found) \<and> (\<exists>g \<in> set registrations. route_registered (fa_projects facts) g r)))
    \<and> (\<forall>r \<in> set (fa_rules facts). cites bundle r)"
  using assms
proof (rule extract_catalog_parts)
  fix st tasks task_warnings configs engines routes route_warnings rules rule_warnings
  assume parts: "read_manifests env bundle = Inr st" "turbo_tasks env bundle (mx_projects st) = Inr (tasks, task_warnings)"
    "map_err (project_configs env bundle) (mx_projects st) = Inr configs"
    "typescript_routes bundle \<lparr>mf_projects = mx_projects st, mf_dependencies = mx_dependencies st,
       mf_scripts = map (\<lambda>s. s\<lparr>sr_tasks := turbo_task_ids (task_ids_by_project tasks) s\<rparr>) (mx_scripts st),
       mf_configs = concat configs\<rparr> = Inr (engines, typescript)"
    "framework_routes env bundle (mx_projects st) = Inr (routes, route_warnings)"
    "structural_rules env bundle = Inr (rules, rule_warnings)"
    and facts: "set (fa_projects facts) = set (mx_projects st)" "set (fa_dependencies facts) = set (mx_dependencies st)"
    "set (fa_scripts facts) = (\<lambda>s. s\<lparr>sr_tasks := turbo_task_ids (task_ids_by_project tasks) s\<rparr>) ` set (mx_scripts st)"
    "set (fa_tasks facts) = set tasks" "set (fa_configs facts) = set (concat configs)" "fa_engines facts = engines"
    "fa_routes facts = routes" "fa_rules facts = rules"
  have ok: "manifests_ok bundle st" using parts(1) by (rule read_manifests_ok)
  have configs: "cites bundle c \<and> co_project c \<in> pf_id ` set (mx_projects st)" if c: "c \<in> set (concat configs)" for c
  proof -
    obtain cs where cs: "cs \<in> set configs" "c \<in> set cs" using c by auto
    obtain project where "project \<in> set (mx_projects st)" "project_configs env bundle project = Inr cs"
      using map_err_mem [OF parts(3) cs(1)] by blast
    then show ?thesis using project_configs_facts [OF _ cs(2)] by blast
  qed
  have scripts: "cites bundle (s\<lparr>sr_tasks := ids\<rparr>) = cites bundle s" for s :: script_fact and ids by (simp add: cites_def)
  have manifests: "\<forall>p \<in> set (mx_projects st). cites bundle p"
    "\<forall>d \<in> set (mx_dependencies st). cites bundle d \<and> dp_project d \<in> pf_id ` set (mx_projects st)"
    "\<forall>s \<in> set (mx_scripts st). cites bundle s \<and> sr_project s \<in> pf_id ` set (mx_projects st)"
    using ok by (simp_all add: manifests_ok_def)
  show ?thesis
    unfolding facts route_registered_set [OF facts(1)]
    using manifests turbo_tasks_facts [OF parts(2)] configs typescript_routes_facts [OF parts(4)]
      framework_routes_facts [OF parts(5)] structural_rules_facts [OF parts(6)]
    by (simp add: scripts)
qed

subsection \<open>Owners of paths\<close>

lemma max_step_keeps: "\<exists>b. max_step k x best = Some b \<and> k x \<le> k b \<and> (b = x \<or> best = Some b) \<and> (\<forall>c. best = Some c \<longrightarrow> k c \<le> k b)"
  by (auto simp: max_step_def split: option.split)

lemma max_fold:
  "(fold (max_step k) xs best = None \<longrightarrow> xs = [] \<and> best = None)
   \<and> (\<forall>m. fold (max_step k) xs best = Some m \<longrightarrow> (m \<in> set xs \<or> best = Some m) \<and> (\<forall>x \<in> set xs. k x \<le> k m)
        \<and> (\<forall>b. best = Some b \<longrightarrow> k b \<le> k m))"
proof (induction xs arbitrary: best)
  case (Cons x xs)
  obtain b where b: "max_step k x best = Some b" "k x \<le> k b" "b = x \<or> best = Some b" "\<forall>c. best = Some c \<longrightarrow> k c \<le> k b"
    using max_step_keeps [of k x best] by (elim exE conjE) (rule that)
  have step: "fold (max_step k) (x # xs) best = fold (max_step k) xs (Some b)" by (simp add: b(1))
  show ?case
  proof (cases "fold (max_step k) xs (Some b)")
    case None
    then show ?thesis using Cons [of "Some b"] by simp
  next
    case (Some m)
    then have "m \<in> set xs \<or> b = m" "\<forall>x \<in> set xs. k x \<le> k m" "k b \<le> k m" using Cons [of "Some b"] by auto
    then show ?thesis unfolding step Some using b(2-4) by (auto intro: order_trans)
  qed
qed simp

lemma max_by_largest:
  "max_by k xs = None \<longleftrightarrow> xs = []"
  "max_by k xs = Some m \<Longrightarrow> m \<in> set xs \<and> (\<forall>x \<in> set xs. k x \<le> k m)"
  using max_fold [of k xs None] by (auto simp: max_by_def)

lemma project_for_path_longest:
  "project_for_path projects path kind = Some m \<Longrightarrow> m \<in> set projects \<and> owns_path kind path m
     \<and> (\<forall>p \<in> set projects. owns_path kind path p \<longrightarrow> length (pf_root p) \<le> length (pf_root m))"
  unfolding project_for_path_def by (drule max_by_largest) simp

lemma owner_step_owns:
  assumes "pf_root p \<noteq> path" and "\<not> endswith (pf_root p) slash"
  shows "owner_step (Some kind) path p best =
    (if owns_path kind path p \<and> snd best < int (length (pf_root p)) then (pf_id p, int (length (pf_root p))) else best)"
proof -
  have "lstrip_char 47 (rev (pf_root p)) = rev (pf_root p)"
  proof (cases "rev (pf_root p)")
    case (Cons c cs)
    then have "pf_root p = rev cs @ [c]" by (metis rev.simps(2) rev_rev_ident)
    then have "c \<noteq> 47" using assms(2) by (auto simp: endswith_def slash_def u_def)
    then show ?thesis using Cons by (simp add: lstrip_char_def)
  qed (simp add: lstrip_char_def)
  then show ?thesis using assms(1) by (auto simp: owner_step_def owns_path_def Let_def)
qed

text \<open>C15: The two lookups of the project that owns a path agree: the one the structural merge uses and the one
  the routing of TypeScript projects uses give the innermost project of the kind.
\<close>

theorem project_lookups_agree:
  assumes "\<forall>p \<in> set projects. pf_root p \<noteq> path \<and> \<not> endswith (pf_root p) slash"
  shows "project_id_for_path (Some kind) projects path =
    (case project_for_path projects path kind of None \<Rightarrow> [] | Some p \<Rightarrow> pf_id p)"
proof -
  let ?step = "max_step (\<lambda>p :: project_fact. length (pf_root p))"
  define pair where "pair = (\<lambda>best :: project_fact option. case best of None \<Rightarrow> ([], -1) | Some p \<Rightarrow> (pf_id p, int (length (pf_root p))))"
  have "fold (owner_step (Some kind) path) projects (pair best) = pair (fold ?step (filter (owns_path kind path) projects) best)" for best
    using assms
  proof (induction projects arbitrary: best)
    case (Cons p projects)
    have "owner_step (Some kind) path p (pair best) = pair (if owns_path kind path p then ?step p best else best)"
      using Cons.prems owner_step_owns [of p path kind "pair best"] by (auto simp: pair_def max_step_def split: option.split)
    then show ?case using Cons by simp
  qed simp
  from this [of None] show ?thesis
    by (simp add: project_id_for_path_def project_for_path_def max_by_def pair_def split: option.split)
qed

definition demo_rooted :: "ustr \<Rightarrow> project_fact" where
  "demo_rooted root = \<lparr>cr_workspace = [119], cr_source_path = [119], cr_source_digest = [], cr_producer = [], cr_producer_version = [],
     pf_id = root @ [35], pf_root = root, pf_manifest = [], pf_kind = NodeProject, pf_name = None, pf_version = None,
     pf_private = None, pf_frameworks = []\<rparr>"

theorem project_lookups_agree_witness:
  "project_id_for_path (Some NodeProject) [demo_rooted [], demo_rooted [97]] [97, 47, 98] = [97, 35]
   \<and> project_for_path [demo_rooted [], demo_rooted [97]] [97, 47, 98] NodeProject = Some (demo_rooted [97])"
proof -
  have roots: "\<forall>p \<in> set [demo_rooted [], demo_rooted [97]]. pf_root p \<noteq> [97, 47, 98] \<and> \<not> endswith (pf_root p) slash" by code_simp
  have "project_for_path [demo_rooted [], demo_rooted [97]] [97, 47, 98] NodeProject = Some (demo_rooted [97])" by code_simp
  then show ?thesis using project_lookups_agree [OF roots, of NodeProject] by (simp add: demo_rooted_def)
qed

subsection \<open>Manifests, tasks and closures of an extraction\<close>

text \<open>C14: No manifest is dropped silently: each captured \<open>package.json\<close> and \<open>pyproject.toml\<close> has a project, or
  a warning that begins with its path; and every project is of a captured manifest of its kind.
\<close>

theorem manifests_accounted:
  assumes "extract_catalog env bundle = Inr (facts, typescript)"
  shows "(\<forall>path \<in> fst ` set (sb_contents bundle). base_name path \<in> {u ''package.json'', u ''pyproject.toml''} \<longrightarrow>
      (\<exists>p \<in> set (fa_projects facts). pf_manifest p = path) \<or> (\<exists>m. path @ u '': '' @ m \<in> set (fa_warnings facts)))
    \<and> (\<forall>p \<in> set (fa_projects facts). pf_manifest p \<in> fst ` set (sb_contents bundle)
        \<and> base_name (pf_manifest p) = (case pf_kind p of NodeProject \<Rightarrow> u ''package.json'' | PythonProject \<Rightarrow> u ''pyproject.toml''))"
  using assms
proof (rule extract_catalog_parts)
  fix st :: manifest_state and task_warnings route_warnings rule_warnings :: "ustr list"
  assume st: "read_manifests env bundle = Inr st" and projects: "set (fa_projects facts) = set (mx_projects st)"
    and warnings: "fa_warnings facts = mx_warnings st @ task_warnings @ route_warnings @ rule_warnings"
  show ?thesis
    unfolding projects warnings set_append
    using read_manifests_accounts [OF st, unfolded accounted_def] read_manifests_ok [OF st, unfolded manifests_ok_def] by blast
qed

lemma matched_tasks_known:
  "t \<in> set (matched_tasks known tokens) \<Longrightarrow> t \<in> set tokens \<and> (t \<in> known \<or> bare_task t \<in> known)"
proof (induction known tokens rule: matched_tasks.induct)
  case (2 known token tokens)
  show ?case
  proof (cases "is_turbo token")
    case False
    then show ?thesis using 2 by auto
  next
    case True
    define arguments where "arguments = (if tokens \<noteq> [] \<and> hd tokens = u ''run'' then tl tokens else tokens)"
    have sub: "set arguments \<subseteq> set tokens" unfolding arguments_def by (cases tokens) auto
    have "matched_tasks known (token # tokens) = filter (\<lambda>c. c \<in> known \<or> bare_task c \<in> known) (takeWhile (\<lambda>c. \<not> ends_arguments c) arguments)
        @ matched_tasks known (dropWhile (\<lambda>c. \<not> ends_arguments c) arguments)"
      using True by (simp add: arguments_def Let_def)
    then consider "t \<in> set (takeWhile (\<lambda>c. \<not> ends_arguments c) arguments)" "t \<in> known \<or> bare_task t \<in> known"
      | "t \<in> set (matched_tasks known (dropWhile (\<lambda>c. \<not> ends_arguments c) arguments))"
      using "2.prems" by auto
    then show ?thesis
    proof cases
      case 1
      then show ?thesis using sub set_takeWhileD by fastforce
    next
      case 2
      have "t \<in> set (dropWhile (\<lambda>c. \<not> ends_arguments c) arguments) \<and> (t \<in> known \<or> bare_task t \<in> known)"
        using "2.IH"(2) [OF _ arguments_def] True 2 by simp
      then show ?thesis using sub set_dropWhileD by fastforce
    qed
  qed
qed simp

lemma known_task_ids_declared:
  assumes "i \<in> known_task_ids (task_ids_by_project tasks) project"
  shows "\<exists>t \<in> set tasks. tk_id t = i \<and> (tk_project t = project \<or> \<not> tk_extends_root t)"
proof -
  have ids: "ids \<subseteq> {i. \<exists>t \<in> set tasks. tk_id t = i \<and> (tk_project t = p \<or> \<not> tk_extends_root t)}"
    if "map_of (task_ids_by_project tasks) p = Some ids" for p ids
    using that unfolding task_ids_by_project_def Let_def by (auto simp: update_conv' split: if_split_asm dest!: map_of_SomeD)
  show ?thesis
  proof (cases "map_of (task_ids_by_project tasks) project")
    case (Some found)
    then show ?thesis using assms ids [OF Some] by (auto simp: known_task_ids_def)
  next
    case None
    then obtain root where root: "map_of (task_ids_by_project tasks) [] = Some root" "i \<in> root"
      using assms by (auto simp: known_task_ids_def split: option.split_asm)
    have "root = tk_id ` set (filter (\<lambda>t. \<not> tk_extends_root t) (filter (\<lambda>t. tk_runner t = u ''turbo'') tasks))"
      using root(1) unfolding task_ids_by_project_def Let_def by (simp add: update_conv')
    then show ?thesis using root(2) by auto
  qed
qed

text \<open>C16: The tasks of a script are sorted and distinct, each is a word of its command, and each names a task
  that the project or the root of the workspace declares, itself or by the part after its last hash.
\<close>

theorem script_tasks_known:
  assumes "extract_catalog env bundle = Inr (facts, typescript)" and "s \<in> set (fa_scripts facts)"
  shows "sorted (sr_tasks s) \<and> distinct (sr_tasks s) \<and> (\<forall>name \<in> set (sr_tasks s). name \<in> set (words_of [] (sr_command s))
    \<and> (\<exists>t \<in> set (fa_tasks facts). tk_id t \<in> {name, bare_task name} \<and> (tk_project t = sr_project s \<or> \<not> tk_extends_root t)))"
  using assms(1)
proof (rule extract_catalog_parts)
  fix st :: manifest_state and tasks
  assume scripts: "set (fa_scripts facts) = (\<lambda>s. s\<lparr>sr_tasks := turbo_task_ids (task_ids_by_project tasks) s\<rparr>) ` set (mx_scripts st)"
    and tasks: "set (fa_tasks facts) = set tasks"
  obtain script where s: "s = script\<lparr>sr_tasks := turbo_task_ids (task_ids_by_project tasks) script\<rparr>" using assms(2) scripts by auto
  have "name \<in> set (words_of [] (sr_command script))
      \<and> (\<exists>t \<in> set tasks. tk_id t \<in> {name, bare_task name} \<and> (tk_project t = sr_project script \<or> \<not> tk_extends_root t))"
    if name: "name \<in> set (turbo_task_ids (task_ids_by_project tasks) script)" for name
  proof -
    let ?known = "known_task_ids (task_ids_by_project tasks) (sr_project script)"
    have "name \<in> set (matched_tasks ?known (words_of [] (sr_command script)))"
      using name by (auto simp: turbo_task_ids_def Let_def sorted_set_def split: if_split_asm)
    then show ?thesis using matched_tasks_known known_task_ids_declared by fast
  qed
  then show ?thesis unfolding s tasks by (auto simp: turbo_task_ids_def Let_def sorted_set_def)
qed

text \<open>C17: The configuration facts of an extraction are exact about their closure. A TypeScript or JavaScript
  configuration whose content does not parse closes over itself alone and is incomplete. One that parses closes
  over itself and the captured files its string references resolve to, in order and once each; it is complete
  exactly when every reference it declares (a string \<open>extends\<close>, a string \<open>path\<close> of a project reference)
  resolves, and gives one reason for each that does not. Any other configuration closes over itself. No
  closure names a path that was not captured.
\<close>

theorem config_closures_captured:
  assumes "extract_catalog env bundle = Inr (facts, typescript)" and "c \<in> set (fa_configs facts)"
  shows "co_path c \<in> set (co_closure c) \<and> distinct (co_closure c) \<and> set (co_closure c) \<subseteq> fst ` set (sb_contents bundle)
    \<and> (\<exists>content. (co_path c, content) \<in> set (sb_contents bundle)
         \<and> (if base_name (co_path c) \<in> {u ''tsconfig.json'', u ''jsconfig.json''} then
              (case pe_json env content of
                 Inl _ \<Rightarrow> co_closure c = [co_path c] \<and> \<not> co_complete c \<and> co_omitted c \<noteq> []
               | Inr raw \<Rightarrow> closes (co_path c) (declared_references raw) (dict_keys (sb_contents bundle)) c)
            else co_closure c = [co_path c] \<and> co_complete c \<and> co_omitted c = []))"
  using assms(1)
proof (rule extract_catalog_parts)
  fix st configs
  assume configs: "map_err (project_configs env bundle) (mx_projects st) = Inr configs" and facts: "set (fa_configs facts) = set (concat configs)"
  obtain cs where cs: "cs \<in> set configs" "c \<in> set cs" using assms(2) facts by auto
  obtain project where "project_configs env bundle project = Inr cs" using map_err_mem [OF configs cs(1)] by blast
  from project_configs_facts [OF this cs(2)] obtain content where content: "configuration_of env bundle content c" by blast
  show ?thesis using configuration_captured [OF content] content [unfolded configuration_of_def] by blast
qed

subsection \<open>A small workspace\<close>

text \<open>
  A package with a script that runs a turbo task, the turbo file that declares it, a configuration that
  extends a file that is not there, and a second manifest that does not parse.
\<close>

definition demo_json :: "bytes \<Rightarrow> (json_failure, json) result" where
  "demo_json content =
     (if content = [1] then Inr (JObj [(u ''dependencies'', JObj [(u ''react'', JStr (u ''1''))]), (u ''scripts'', JObj [(u ''b'', JStr (u ''turbo b''))])])
      else if content = [2] then Inr (JObj [(u ''tasks'', JObj [(u ''b'', JObj [])])])
      else if content = [3] then Inr (JObj [(u ''extends'', JStr (u ''./x''))])
      else Inl JsonDecodeError)"

definition demo_project_env :: project_env where
  "demo_project_env = \<lparr>he_digit = (\<lambda>_. False), he_decimal = (\<lambda>_. None), pe_json = demo_json, pe_toml = (\<lambda>_. None),
     pe_yaml = (\<lambda>_. Inl YamlError), pe_repr = (\<lambda>s. s), pe_str = (\<lambda>_. []), pe_dumps = (\<lambda>_. []), pe_digest = (\<lambda>_. []),
     pe_message = (\<lambda>_ _ _. [])\<rparr>"

definition demo_captured :: "(ustr \<times> bytes) list" where
  "demo_captured = [(u ''package.json'', [1]), (u ''turbo.json'', [2]), (u ''tsconfig.json'', [3]), (u ''d/package.json'', [4])]"

definition demo_snapshot :: snapshot_bundle where
  "demo_snapshot = \<lparr>sb_workspace = [119],
     sb_files = map (\<lambda>(path, _). \<lparr>cf_path = path, cf_language = None, cf_language_id = None, cf_hash = replicate 64 1\<rparr>) demo_captured,
     sb_changed = False, sb_contents = demo_captured\<rparr>"

definition demo_provenance :: catalog_record where
  "demo_provenance = \<lparr>cr_workspace = [119], cr_source_path = u ''package.json'', cr_source_digest = replicate 64 1,
     cr_producer = PROJECT_EXTRACTOR_ID, cr_producer_version = u ''1''\<rparr>"

definition demo_manifests :: manifest_state where
  "demo_manifests = \<lparr>
     mx_projects = [catalog_record.extend demo_provenance (project_fact.fields (u ''w:node:.'') [] (u ''package.json'') NodeProject
       None None None [u ''react''])],
     mx_dependencies = [catalog_record.extend demo_provenance (dependency_fact.fields (u ''w:node:.'') (u ''react'') (u ''1'')
       (Some (u ''1'')) RuntimeScope Declared True)],
     mx_scripts = [catalog_record.extend demo_provenance (script_fact.fields (u ''w:node:.'') (u ''b'') (u ''turbo b'') False [] [])],
     mx_warnings = [u ''d/package.json: '']\<rparr>"

definition demo_tasks :: "task_fact list" where
  "demo_tasks = [catalog_record.extend (demo_provenance\<lparr>cr_source_path := u ''turbo.json''\<rparr>)
     (task_fact.fields (u ''w:node:.'') (u ''turbo'') (u ''b'') [] [] [] None False False)]"

definition demo_configs :: "config_fact list list" where
  "demo_configs = [[catalog_record.extend (demo_provenance\<lparr>cr_source_path := u ''tsconfig.json''\<rparr>)
     (config_fact.fields (u ''w:node:.'') (u ''tsconfig.json'') (u ''typescript'') (u ''typescript:config'')
       [u ''tsconfig.json''] False [u ''unresolved extends ./x''])]]"

lemma demo_read_manifests: "read_manifests demo_project_env demo_snapshot = Inr demo_manifests"
  by code_simp

lemma demo_turbo: "turbo_tasks demo_project_env demo_snapshot (mx_projects demo_manifests) = Inr (demo_tasks, [])"
  by code_simp

lemma demo_script:
  "\<exists>s. mx_scripts demo_manifests = [s] \<and> turbo_task_ids (task_ids_by_project demo_tasks) s = [u ''b'']"
proof -
  obtain s where s: "mx_scripts demo_manifests = [s]" "sr_command s = u ''turbo b''" "sr_project s = u ''w:node:.''"
    by (simp add: demo_manifests_def extended)
  have known: "known_task_ids (task_ids_by_project demo_tasks) (u ''w:node:.'') = {u ''b''}" by code_simp
  have command: "words_of [] (u ''turbo b'') = [u ''turbo'', u ''b'']" by (simp add: u_def unicode_space_def)
  have "sorted_set (matched_tasks {u ''b''} [u ''turbo'', u ''b'']) = [u ''b'']" by code_simp
  then show ?thesis using s by (simp add: turbo_task_ids_def known command)
qed

lemma demo_extraction:
  "\<exists>facts typescript s c. extract_catalog demo_project_env demo_snapshot = Inr (facts, typescript)
     \<and> fa_scripts facts = [s] \<and> sr_tasks s = [u ''b''] \<and> fa_configs facts = [c] \<and> co_closure c = [u ''tsconfig.json'']
     \<and> length (fa_projects facts) = 1"
proof -
  obtain s where s: "mx_scripts demo_manifests = [s]" "turbo_task_ids (task_ids_by_project demo_tasks) s = [u ''b'']"
    using demo_script by blast
  have configs: "map_err (project_configs demo_project_env demo_snapshot) (mx_projects demo_manifests) = Inr demo_configs" by code_simp
  obtain c where c: "concat demo_configs = [c]" "co_closure c = [u ''tsconfig.json'']"
    by (simp add: demo_configs_def extended)
  have "case framework_routes demo_project_env demo_snapshot (mx_projects demo_manifests) of Inr (rs, w) \<Rightarrow> rs = [] | Inl _ \<Rightarrow> False"
    by code_simp
  then obtain w where routes: "framework_routes demo_project_env demo_snapshot (mx_projects demo_manifests) = Inr ([], w)"
    by (auto split: sum.split_asm)
  have rules: "structural_rules demo_project_env demo_snapshot = Inr ([], [])" by code_simp
  have projects: "length (mx_projects demo_manifests) = 1" by code_simp
  have "case typescript_routes demo_snapshot \<lparr>mf_projects = mx_projects demo_manifests, mf_dependencies = mx_dependencies demo_manifests,
      mf_scripts = map (\<lambda>s. s\<lparr>sr_tasks := [u ''b'']\<rparr>) (mx_scripts demo_manifests), mf_configs = concat demo_configs\<rparr> of
      Inr _ \<Rightarrow> True | Inl _ \<Rightarrow> False" by code_simp
  then obtain engines typescript where "typescript_routes demo_snapshot \<lparr>mf_projects = mx_projects demo_manifests,
      mf_dependencies = mx_dependencies demo_manifests, mf_scripts = [s\<lparr>sr_tasks := [u ''b'']\<rparr>], mf_configs = concat demo_configs\<rparr>
      = Inr (engines, typescript)"
    by (auto simp: s(1) split: sum.split_asm)
  then show ?thesis
    using projects s(2) c(2)
    by (auto simp: extract_catalog_def demo_read_manifests demo_turbo s(1) configs c(1) routes rules Let_def length_Suc_conv)
qed

theorem catalog_facts_bound_witness:
  "\<exists>facts typescript. extract_catalog demo_project_env demo_snapshot = Inr (facts, typescript)
     \<and> (\<exists>s \<in> set (fa_scripts facts). cites demo_snapshot s \<and> sr_project s \<in> pf_id ` set (fa_projects facts))"
proof -
  obtain facts typescript s where run: "extract_catalog demo_project_env demo_snapshot = Inr (facts, typescript)" "fa_scripts facts = [s]"
    using demo_extraction by blast
  show ?thesis using catalog_facts_bound [OF run(1)] run by auto
qed

theorem manifests_accounted_witness:
  "\<exists>facts typescript m. extract_catalog demo_project_env demo_snapshot = Inr (facts, typescript)
     \<and> length (fa_projects facts) = 1
     \<and> ((\<exists>p \<in> set (fa_projects facts). pf_manifest p = u ''d/package.json'') \<or> u ''d/package.json'' @ u '': '' @ m \<in> set (fa_warnings facts))"
proof -
  obtain facts typescript where run: "extract_catalog demo_project_env demo_snapshot = Inr (facts, typescript)" "length (fa_projects facts) = 1"
    using demo_extraction by blast
  have captured: "u ''d/package.json'' \<in> fst ` set (sb_contents demo_snapshot)" by (simp add: demo_snapshot_def demo_captured_def)
  have name: "base_name (u ''d/package.json'') \<in> {u ''package.json'', u ''pyproject.toml''}" by code_simp
  from manifests_accounted [OF run(1)] captured name
  have "(\<exists>p \<in> set (fa_projects facts). pf_manifest p = u ''d/package.json'') \<or> (\<exists>m. u ''d/package.json'' @ u '': '' @ m \<in> set (fa_warnings facts))"
    by blast
  then show ?thesis using run by blast
qed

theorem script_tasks_known_witness:
  "\<exists>facts typescript s. extract_catalog demo_project_env demo_snapshot = Inr (facts, typescript) \<and> s \<in> set (fa_scripts facts)
     \<and> sr_tasks s = [u ''b''] \<and> (\<exists>t \<in> set (fa_tasks facts). tk_id t \<in> {u ''b'', bare_task (u ''b'')})"
proof -
  obtain facts typescript s where run: "extract_catalog demo_project_env demo_snapshot = Inr (facts, typescript)"
      "s \<in> set (fa_scripts facts)" "sr_tasks s = [u ''b'']"
    using demo_extraction by fastforce
  show ?thesis using script_tasks_known [OF run(1,2)] run by auto
qed

theorem config_closures_captured_witness:
  "\<exists>facts typescript c. extract_catalog demo_project_env demo_snapshot = Inr (facts, typescript) \<and> c \<in> set (fa_configs facts)
     \<and> co_closure c = [u ''tsconfig.json''] \<and> co_path c = u ''tsconfig.json''"
proof -
  obtain facts typescript c where run: "extract_catalog demo_project_env demo_snapshot = Inr (facts, typescript)"
      "c \<in> set (fa_configs facts)" "co_closure c = [u ''tsconfig.json'']"
    using demo_extraction by fastforce
  show ?thesis using config_closures_captured [OF run(1,2)] run by auto
qed

end
