(* ===== verification/Spec2Isabelle.thy ===== *)
theory Spec2Isabelle
  imports PathPatterns Positions Planner Languages ApplyReports StructuralCache Diagnostics Modules Hydration AuthorityTables ProjectCatalog
begin

text \<open>
Soleaux is a code-intelligence server.  It keeps a repository index, answers
questions about code in bounded tables (frames), and lets an editor preview and
then apply edits.  This development models the pure core of the Python package
under src/soleaux: the part that decides which paths, positions, tables and
edits are admitted, and what is computed from them.

The parts and the theories that model them:

\<^item> \<open>Prelude\<close>: results as sums, insertion-ordered dicts as association lists,
  Python string operations on lists, code-point strings (\<open>ustr\<close>).
\<^item> \<open>PathPatterns\<close> (structural/path_patterns.py): the wildcard matcher for
  repository paths, as the two nested state-set automata of the code.  Both are
  interpretations of one locale of state-set matchers; the claims show that
  they decide the declarative meaning of a pattern.
\<^item> \<open>Utf8\<close>, \<open>Positions\<close> (contracts/positions.py): strict UTF-8, line starts,
  conversion between bytes and points in three encodings; round trips and the
  exact domains of the conversions.
\<^item> \<open>RepoPaths\<close> (contracts/repository.py, contracts/workspace.py): lexical path
  identities, containment under a root, file URIs, trusted workspaces.
\<^item> \<open>Languages\<close> (contracts/repository.py): the language registry and detection.
\<^item> \<open>Tables\<close>, \<open>Planner\<close> (contracts/tables.py, tables/planner.py): the catalogue
  of semantic tables, the plan of a request, and the execution of a plan into a
  frame whose omissions are counted.
\<^item> \<open>Edits\<close>, \<open>Previews\<close> (editor/preview.py, editor/contracts.py): the
  normalisation of workspace edits into verified patches and postimages, and the
  registry of signed previews that an apply request claims.
\<^item> \<open>Preflight\<close>, \<open>Effects\<close>, \<open>Apply\<close>, \<open>ApplyReports\<close> (editor/apply.py): the integrity check
  of a claimed preview; the whole apply procedure (binding directories, staging,
  committing, rolling back, reporting) in a small effect monad over a record of
  operating-system calls of which nothing is assumed, with triples that hold
  whatever those calls do; the report's states follow from the files' states.
\<^item> \<open>StructuralCache\<close> (structural/cache.py): the weighted LRU cache; its limits and byte
  count, the values it returns, and which entries an insertion evicts.
\<^item> \<open>Diagnostics\<close> (lsp/diagnostics.py): the store of published and pulled diagnostics as
  a step relation; what a reader gets is fresh for the binding it names.
\<^item> \<open>Generations\<close> (lsp/generation.py): the identity of the inputs of a semantic request,
  and the plan that moves a language-server session between two of them.
\<^item> \<open>Texts\<close>, \<open>Chunks\<close> (catalog/generation.py): Python text operations, and the cutting of
  captured files into retrieval chunks, whose loop over a large line is a partial
  function: on UTF-8 it returns, and the chunks tile the file.
\<^item> \<open>CatalogFacts\<close>, \<open>CatalogMerge\<close> (catalog/contracts.py, catalog/structural.py): the fact
  records and the merge of extracted syntax fragments into them; what a merge keeps,
  and that merging again changes nothing.
\<^item> \<open>CatalogUpdate\<close>, \<open>CatalogIndexes\<close> (catalog/generation.py): the incremental update of a
  generation, which has the chunks of a full build and the structural chunks that are retained
  for unchanged paths, and the reverse indexes, which return exactly the facts of a key.
\<^item> \<open>Searching\<close>, \<open>Hydration\<close> (catalog/search.py, analysis/hydration.py): the documents of
  the search index, the MATCH expression, which an FTS5 lexer of the documented grammar reads
  as the quoted tokens with the operator of the mode, the deterministic fallback engine and its
  pages, and the resolution of hits: a document whose key can be taken apart resolves back to a
  fact of the same key, kind and path.
\<^item> \<open>Evidence\<close> (contracts/evidence.py, tables/evidence.py): evidence records and their construction
  from captured bytes.
\<^item> \<open>AuthorityClaims\<close>, \<open>AuthorityFiles\<close>, \<open>Ownership\<close>, \<open>AuthorityTables\<close> (authority/contracts.py,
  authority/resolver.py): claims of manifests and CODEOWNERS files, their precedence, and
  the authority tables; each path has one owner of the strongest source or a conflict, and every
  row cites the captured file it comes from.
\<^item> \<open>GovernanceIds\<close>, \<open>GovernanceRecords\<close>, \<open>GovernanceClaims\<close>, \<open>GovernanceGraph\<close>, \<open>GovernanceSearch\<close>
  (contracts/governance.py, authority/governance.py): identifiers, configured sources and their
  records, policies and bindings, and the search for evidence near the targets of a policy, which
  ends and, unless it reaches its limit of 256, finds exactly the relationships of the paths within one step.
\<^item> \<open>NextRoutes\<close>, \<open>NextConfig\<close>, \<open>NextProjects\<close> (frameworks/contracts.py, frameworks/nextjs.py): the Next.js
  route grammar (page keys, groups, dynamic segments, interception), the reading of a next.config
  file from its syntax tree, the discovery of projects and the enumeration of their routes; the
  enumeration ends on every list of relative paths (a version number that \<open>int\<close> refuses is its only
  error), and a route belongs to the innermost router of its file.
\<^item> \<open>Projects\<close>, \<open>ProjectCatalog\<close> (catalog/projects.py): the projects, scripts, tasks, configurations,
  dependencies, routes and rules that the captured manifests declare.  Every fact is bound to a
  captured file and, rules and routes outside every project aside, to a declared project; each manifest either becomes one project or is warned
  about, and the project that owns a path is the one the catalogue facts themselves give.
\<^item> \<open>Modules\<close> (relations/modules.py): resolution of import specifiers against a frozen
  snapshot; candidates stay in the workspace and targets are captured paths.

State is passed explicitly; a Python exception is the left side of a sum; a
dict is an association list whose keys are distinct and whose order is the
insertion order; integers are \<open>int\<close>.  Text is a list of code points, so
surrogates and non-ASCII characters are representable.

Parameters, each an argument of the definitions that use it: the host file
system (which paths resolve to what, which are symbolic links or regular
files), the contents of captured files, SHA-256, HMAC, the clocks and random
tokens, the differ, the producers that fill tables, the JSON, TOML and YAML parsers, the
parser of package requirements, the digit tables of Python's text type, the syntax trees
that ast-grep hands to the configuration reader, and the lexer of the full-text index, of which
the documented FTS5 grammar is a named hypothesis.

Not modelled: I/O, subprocesses, the databases, the language servers and the
command line; the manifest lists every such part with its reason.
\<close>

end
